(* ===== verification/Prelude.thy ===== *)
theory Prelude
  imports Complex_Main "HOL-Library.Word" "HOL-Library.Sublist"
begin

text \<open>
  What every component of the model shares: the byte and string operations of the Rust
  standard library that the sources call, JSON values, decimal numbers as
  \<open>rust_decimal\<close> represents them, results (\<open>'e + 'a\<close>, with \<open>Inl\<close> for \<open>Err\<close>), the
  selection of one row by \<open>LIMIT 1\<close>, and the list lemmas that the proofs about tables and
  pages rest on.  Nothing here models a particular file of the repository.

  The collection \<open>table_simps\<close> holds the facts about tables as lists of rows that the
  components pass to the simplifier.
\<close>

named_theorems table_simps \<open>rewrite rules for tables kept as lists of rows\<close>

section \<open>Results\<close>

text \<open>\<open>Result<T, E>\<close> is \<open>'e + 'a\<close>; the operator \<open>?\<close> is \<open>rbind\<close>, and
  \<open>Option::ok_or\<close> and \<open>Result::map_err\<close> keep their names.\<close>

fun rbind :: "'e + 'a \<Rightarrow> ('a \<Rightarrow> 'e + 'b) \<Rightarrow> 'e + 'b" where
  "rbind (Inl e) f = Inl e"
| "rbind (Inr x) f = f x"

fun ok_or :: "'a option \<Rightarrow> 'e \<Rightarrow> 'e + 'a" where
  "ok_or None e = Inl e"
| "ok_or (Some x) e = Inr x"

fun map_err :: "('e \<Rightarrow> 'f) \<Rightarrow> 'e + 'a \<Rightarrow> 'f + 'a" where
  "map_err f (Inl e) = Inl (f e)"
| "map_err f (Inr x) = Inr x"

fun is_ok :: "'e + 'a \<Rightarrow> bool" where
  "is_ok (Inl e) = False"
| "is_ok (Inr x) = True"

text \<open>A loop that stops at the first error.\<close>

fun rtraverse :: "('a \<Rightarrow> 'e + 'b) \<Rightarrow> 'a list \<Rightarrow> 'e + 'b list" where
  "rtraverse f [] = Inr []"
| "rtraverse f (x # xs) = rbind (f x) (\<lambda>y. rbind (rtraverse f xs) (\<lambda>ys. Inr (y # ys)))"

lemma rtraverse_ok: "(\<And>x. x \<in> set xs \<Longrightarrow> f x = Inr (g x)) \<Longrightarrow> rtraverse f xs = Inr (map g xs)"
  by (induction xs) auto

lemma rbind_Inr_iff: "rbind r f = Inr y \<longleftrightarrow> (\<exists>x. r = Inr x \<and> f x = Inr y)"
  by (cases r) auto

lemma rbind_Inl_iff: "rbind r f = Inl e \<longleftrightarrow> r = Inl e \<or> (\<exists>x. r = Inr x \<and> f x = Inl e)"
  by (cases r) auto

lemma ok_or_Inr_iff [simp]: "ok_or q e = Inr x \<longleftrightarrow> q = Some x"
  by (cases q) auto

lemma map_err_Inr_iff [simp]: "map_err f r = Inr x \<longleftrightarrow> r = Inr x"
  by (cases r) auto

section \<open>Bytes and strings\<close>

type_synonym byte = "8 word"

text \<open>A Rust \<open>String\<close> is its UTF-8 bytes, one \<open>char\<close> for each byte.\<close>

definition bytes_of_string :: "string \<Rightarrow> byte list" where
  "bytes_of_string s = map of_char s"

lemma of_char_byte_inject: "(of_char c :: byte) = of_char d \<longleftrightarrow> c = d"
proof
  assume eq: "(of_char c :: byte) = of_char d"
  have unat: "unat (of_char x :: byte) = of_char x" for x :: char
  proof -
    have "(of_char x :: byte) = of_nat (of_char x)"
      by (simp only: of_nat_of_char)
    then show ?thesis
      by (simp add: unat_of_nat)
  qed
  have "(of_char c :: nat) = of_char d"
    using arg_cong [OF eq, of unat] by (simp add: unat)
  then show "c = d" by simp
qed simp

lemma bytes_of_string_inject [simp]: "bytes_of_string s = bytes_of_string t \<longleftrightarrow> s = t"
  unfolding bytes_of_string_def
  by (rule inj_map_eq_map) (simp add: inj_def of_char_byte_inject)

lemma length_bytes_of_string [simp]: "length (bytes_of_string s) = length s"
  by (simp add: bytes_of_string_def)

text \<open>\<open>to_be_bytes\<close> and \<open>from_be_bytes\<close>, on \<open>n\<close> bytes.\<close>

primrec be_bytes :: "nat \<Rightarrow> nat \<Rightarrow> byte list" where
  "be_bytes 0 x = []"
| "be_bytes (Suc n) x = be_bytes n (x div 256) @ [of_nat x]"

definition be_nat :: "byte list \<Rightarrow> nat" where
  "be_nat bs = foldl (\<lambda>a b. a * 256 + unat b) 0 bs"

lemma length_be_bytes [simp]: "length (be_bytes n x) = n"
  by (induction n arbitrary: x) auto

lemma be_nat_snoc: "be_nat (bs @ [b]) = be_nat bs * 256 + unat b"
  by (simp add: be_nat_def)

lemma be_nat_be_bytes: "be_nat (be_bytes n x) = x mod 256 ^ n"
proof (induction n arbitrary: x)
  case 0
  then show ?case by (simp add: be_nat_def)
next
  case (Suc n)
  have "x mod (256 * 256 ^ n) = 256 * (x div 256 mod 256 ^ n) + x mod 256"
    by (rule mod_mult2_eq)
  with Suc show ?case by (simp add: be_nat_snoc unat_of_nat)
qed

text \<open>A \<open>[u8; 16]\<close> (a UUID, a \<open>BINARY(16)\<close> column) is a 128-bit word; the engine compares
  such columns byte by byte, which is the order of the words.\<close>

type_synonym id16 = "128 word"

definition id_bytes :: "id16 \<Rightarrow> byte list" where
  "id_bytes i = be_bytes 16 (unat i)"

definition id_of_bytes :: "byte list \<Rightarrow> id16" where
  "id_of_bytes bs = of_nat (be_nat bs)"

lemma length_id_bytes [simp]: "length (id_bytes i) = 16"
  by (simp add: id_bytes_def)

lemma id_of_id_bytes [simp]: "id_of_bytes (id_bytes i) = i"
proof -
  have "unat i < 256 ^ 16"
    using unsigned_less [of i, where ?'a = nat] by simp
  then show ?thesis
    by (simp add: id_bytes_def id_of_bytes_def be_nat_be_bytes)
qed

lemma id_bytes_inject [simp]: "id_bytes i = id_bytes j \<longleftrightarrow> i = j"
  by (metis id_of_id_bytes)

text \<open>\<open>str::starts_with\<close>, \<open>str::strip_prefix\<close> and \<open>str::trim\<close> on the visible ASCII text of
  a header or a path (where the only white space is the blank and the tab).\<close>

definition starts_with :: "string \<Rightarrow> string \<Rightarrow> bool" where
  "starts_with s p \<longleftrightarrow> take (length p) s = p"

definition strip_prefix :: "string \<Rightarrow> string \<Rightarrow> string option" where
  "strip_prefix s p = (if starts_with s p then Some (drop (length p) s) else None)"

definition is_blank :: "char \<Rightarrow> bool" where
  "is_blank c \<longleftrightarrow> c = CHR '' '' \<or> c = CHR 0x09"

definition trim :: "string \<Rightarrow> string" where
  "trim s = rev (dropWhile is_blank (rev (dropWhile is_blank s)))"

lemma starts_with_append [simp]: "starts_with (p @ s) p"
  by (simp add: starts_with_def)

lemma starts_with_iff: "starts_with s p \<longleftrightarrow> (\<exists>t. s = p @ t)"
  by (metis append_eq_conv_conj append_take_drop_id starts_with_def)

lemma strip_prefix_Some_iff: "strip_prefix s p = Some t \<longleftrightarrow> s = p @ t"
  by (auto simp: strip_prefix_def starts_with_iff)

lemma strip_prefix_None_iff: "strip_prefix s p = None \<longleftrightarrow> (\<forall>t. s \<noteq> p @ t)"
  by (simp add: strip_prefix_def starts_with_iff)

lemma strip_prefix_append [simp]: "strip_prefix (p @ s) p = Some s"
  by (simp add: strip_prefix_Some_iff)

text \<open>Rust prints an unsigned integer in decimal; \<open>{:0w}\<close> pads it with zeros on the left to
  at least \<open>w\<close> characters.\<close>

definition digit_char :: "nat \<Rightarrow> char" where
  "digit_char d = char_of (48 + d)"

fun show_nat :: "nat \<Rightarrow> string" where
  "show_nat n = (if n < 10 then [digit_char n] else show_nat (n div 10) @ [digit_char (n mod 10)])"

declare show_nat.simps [simp del]

definition pad_left :: "nat \<Rightarrow> string \<Rightarrow> string" where
  "pad_left w s = replicate (w - length s) CHR ''0'' @ s"

definition is_ascii_digit :: "char \<Rightarrow> bool" where
  "is_ascii_digit c \<longleftrightarrow> 48 \<le> (of_char c :: nat) \<and> (of_char c :: nat) \<le> 57"

definition digit_val :: "char \<Rightarrow> nat" where
  "digit_val c = of_char c - 48"

definition read_nat :: "string \<Rightarrow> nat" where
  "read_nat s = foldl (\<lambda>a c. a * 10 + digit_val c) 0 s"

lemma of_char_digit_char: "d < 10 \<Longrightarrow> of_char (digit_char d) = 48 + d"
  by (simp add: digit_char_def)

lemma digit_val_digit_char [simp]: "d < 10 \<Longrightarrow> digit_val (digit_char d) = d"
  by (simp add: digit_val_def of_char_digit_char)

lemma is_ascii_digit_digit_char [simp]: "d < 10 \<Longrightarrow> is_ascii_digit (digit_char d)"
  by (simp add: is_ascii_digit_def of_char_digit_char)

lemma read_nat_snoc: "read_nat (s @ [c]) = read_nat s * 10 + digit_val c"
  by (simp add: read_nat_def)

lemma read_nat_show_nat [simp]: "read_nat (show_nat n) = n"
proof (induction n rule: show_nat.induct)
  case (1 n)
  show ?case
  proof (cases "n < 10")
    case True
    then show ?thesis
      by (simp add: show_nat.simps [of n] read_nat_def)
  next
    case False
    with 1 show ?thesis
      by (simp add: show_nat.simps [of n] read_nat_snoc)
  qed
qed

lemma show_nat_inject [simp]: "show_nat m = show_nat n \<longleftrightarrow> m = n"
  by (metis read_nat_show_nat)

lemma show_nat_digits: "\<forall>c \<in> set (show_nat n). is_ascii_digit c"
proof (induction n rule: show_nat.induct)
  case (1 n)
  then show ?case
    by (cases "n < 10") (simp_all add: show_nat.simps [of n])
qed

lemma show_nat_nonempty [simp]: "show_nat n \<noteq> []"
  by (simp add: show_nat.simps [of n])

lemma length_show_nat_le: "n < 10 ^ w \<Longrightarrow> 0 < w \<Longrightarrow> length (show_nat n) \<le> w"
proof (induction w arbitrary: n)
  case 0
  then show ?case by simp
next
  case (Suc w)
  show ?case
  proof (cases "n < 10")
    case True
    then show ?thesis by (simp add: show_nat.simps [of n])
  next
    case False
    have "n div 10 < 10 ^ w"
      using Suc.prems(1) by (simp add: less_mult_imp_div_less mult.commute)
    moreover have "0 < w"
      using Suc.prems(1) False by (cases w) auto
    ultimately have "length (show_nat (n div 10)) \<le> w"
      by (rule Suc.IH)
    with False show ?thesis
      by (simp add: show_nat.simps [of n])
  qed
qed

lemma read_nat_zeros: "read_nat (replicate k CHR ''0'' @ s) = read_nat s"
proof (induction k)
  case (Suc k)
  then show ?case by (simp add: read_nat_def digit_val_def)
qed simp

lemma read_nat_pad_left [simp]: "read_nat (pad_left w s) = read_nat s"
  by (simp add: pad_left_def read_nat_zeros)

lemma length_pad_left: "length s \<le> w \<Longrightarrow> length (pad_left w s) = w"
  by (simp add: pad_left_def)

lemma pad_left_digits:
  "\<forall>c \<in> set s. is_ascii_digit c \<Longrightarrow> \<forall>c \<in> set (pad_left w s). is_ascii_digit c"
  by (auto simp: pad_left_def is_ascii_digit_def)

section \<open>JSON values\<close>

text \<open>The values \<open>serde_json::json!\<close> builds; an object keeps its fields in a list.\<close>

datatype json =
    JNull
  | JBool bool
  | JNum int
  | JStr string
  | JArr "json list"
  | JObj "(string \<times> json) list"

fun jfield :: "json \<Rightarrow> string \<Rightarrow> json option" where
  "jfield (JObj fs) k = map_of fs k"
| "jfield _ k = None"

fun jopt :: "json option \<Rightarrow> json" where
  "jopt None = JNull"
| "jopt (Some j) = j"

text \<open>The envelope \<open>{ data, error, meta }\<close> of every HTTP response of the services.\<close>

definition envelope :: "json \<Rightarrow> json \<Rightarrow> json \<Rightarrow> json" where
  "envelope d e m = JObj [(''data'', d), (''error'', e), (''meta'', m)]"

lemma jfield_envelope [simp]:
  "jfield (envelope d e m) ''data'' = Some d"
  "jfield (envelope d e m) ''error'' = Some e"
  "jfield (envelope d e m) ''meta'' = Some m"
  by (simp_all add: envelope_def)

section \<open>Decimal numbers\<close>

text \<open>
  \<open>rust_decimal::Decimal\<close> is an integer mantissa and a number of decimal places; its
  comparisons are those of the number it stands for, so \<open>1.0 = 1.00\<close> although the two
  print differently.  Its arithmetic, rounding, printing and parsing are code of that crate
  and stay parameters where a component uses them.
\<close>

record decimal =
  mant :: int
  dscale :: nat

definition dec_val :: "decimal \<Rightarrow> rat" where
  "dec_val d = of_int (mant d) / 10 ^ dscale d"

definition dec_eq :: "decimal \<Rightarrow> decimal \<Rightarrow> bool" where
  "dec_eq a b \<longleftrightarrow> mant a * 10 ^ dscale b = mant b * 10 ^ dscale a"

definition dec_less :: "decimal \<Rightarrow> decimal \<Rightarrow> bool" where
  "dec_less a b \<longleftrightarrow> mant a * 10 ^ dscale b < mant b * 10 ^ dscale a"

definition dec_zero :: decimal where
  "dec_zero = \<lparr>mant = 0, dscale = 0\<rparr>"

definition dec_is_zero :: "decimal \<Rightarrow> bool" where
  "dec_is_zero d \<longleftrightarrow> mant d = 0"

lemma dec_val_cross:
  "dec_val a = of_int (mant a * 10 ^ dscale b) / 10 ^ (dscale a + dscale b)"
  by (simp add: dec_val_def power_add)

lemma dec_eq_iff: "dec_eq a b \<longleftrightarrow> dec_val a = dec_val b"
proof -
  have "dec_val a = dec_val b \<longleftrightarrow>
      (of_int (mant a * 10 ^ dscale b) :: rat) = of_int (mant b * 10 ^ dscale a)"
    using dec_val_cross [of a b] dec_val_cross [of b a]
    by (simp add: add.commute [of "dscale b"])
  then show ?thesis
    unfolding dec_eq_def using of_int_eq_iff by blast
qed

lemma dec_less_iff: "dec_less a b \<longleftrightarrow> dec_val a < dec_val b"
proof -
  have "dec_val a < dec_val b \<longleftrightarrow>
      (of_int (mant a * 10 ^ dscale b) :: rat) < of_int (mant b * 10 ^ dscale a)"
    using dec_val_cross [of a b] dec_val_cross [of b a]
    by (simp add: add.commute [of "dscale b"] divide_less_cancel)
  then show ?thesis
    unfolding dec_less_def using of_int_less_iff by blast
qed

lemma dec_val_zero [simp]: "dec_val dec_zero = 0"
  by (simp add: dec_val_def dec_zero_def)

lemma dec_is_zero_iff: "dec_is_zero d \<longleftrightarrow> dec_val d = 0"
  by (simp add: dec_is_zero_def dec_val_def)

section \<open>Pages of a sorted table\<close>

text \<open>Keyset pages: below the key of an element of a strictly descending list lies what follows
  it.\<close>

lemma sort_key_filter_rev:
  "rev (sort_key k (filter P xs)) = filter P (rev (sort_key k xs))"
  by (simp add: filter_sort [symmetric] rev_filter)

lemma rev_sort_key_descending:
  fixes k :: "'a \<Rightarrow> 'b::linorder"
  assumes "distinct (map k xs)"
  shows "sorted_wrt (\<lambda>x y. k y < k x) (rev (sort_key k xs))"
proof -
  have "distinct (map k (sort_key k xs))"
    using assms by (simp add: distinct_map)
  then have "sorted_wrt (<) (map k (sort_key k xs))"
    by (simp add: strict_sorted_iff)
  then show ?thesis
    by (simp add: sorted_wrt_map sorted_wrt_rev)
qed

lemma filter_below_descending:
  assumes "sorted_wrt (\<lambda>x y. k y < (k x :: 'b::linorder)) (xs @ x # ys)"
  shows "filter (\<lambda>y. k y < k x) (xs @ x # ys) = ys"
proof -
  have "\<forall>y \<in> set xs. \<not> k y < k x" "\<forall>y \<in> set ys. k y < k x"
    using assms by (auto simp: sorted_wrt_append)
  then show ?thesis by simp
qed

section \<open>Tables as lists of rows\<close>

text \<open>\<open>LIMIT 1\<close> over rows the statement leaves unordered: which row the engine returns is
  not determined, so it is the parameter \<open>pick\<close>, of which only \<open>pick_ok\<close> is known.\<close>

definition limit1 :: "('r list \<Rightarrow> 'r) \<Rightarrow> 'r list \<Rightarrow> 'r option" where
  "limit1 pick rs = (if rs = [] then None else Some (pick rs))"

definition pick_ok :: "('r list \<Rightarrow> 'r) \<Rightarrow> bool" where
  "pick_ok pick \<longleftrightarrow> (\<forall>rs. rs \<noteq> [] \<longrightarrow> pick rs \<in> set rs)"

lemma limit1_None [simp]: "limit1 pick rs = None \<longleftrightarrow> rs = []"
  by (simp add: limit1_def)

lemma limit1_Some_in: "pick_ok pick \<Longrightarrow> limit1 pick rs = Some r \<Longrightarrow> r \<in> set rs"
  by (auto simp: limit1_def pick_ok_def split: if_splits)

lemma limit1_single: "pick_ok pick \<Longrightarrow> set rs = {r} \<Longrightarrow> limit1 pick rs = Some r"
  by (metis empty_iff empty_set limit1_def pick_ok_def singletonD insert_not_empty)

lemma pick_ok_hd: "pick_ok hd"
  by (simp add: pick_ok_def)

text \<open>\<open>UPDATE t SET \<dots> WHERE p\<close>.\<close>

definition update_where :: "('r \<Rightarrow> bool) \<Rightarrow> ('r \<Rightarrow> 'r) \<Rightarrow> 'r list \<Rightarrow> 'r list" where
  "update_where p f rs = map (\<lambda>r. if p r then f r else r) rs"

lemma length_update_where [table_simps, simp]: "length (update_where p f rs) = length rs"
  by (simp add: update_where_def)

lemma update_where_Nil [table_simps, simp]: "update_where p f [] = []"
  by (simp add: update_where_def)

lemma set_update_where: "set (update_where p f rs) = (\<lambda>r. if p r then f r else r) ` set rs"
  by (simp add: update_where_def)

lemma map_update_where:
  "(\<And>r. g (f r) = g r) \<Longrightarrow> map g (update_where p f rs) = map g rs"
  by (simp add: update_where_def)

lemma update_where_none: "(\<And>r. r \<in> set rs \<Longrightarrow> \<not> p r) \<Longrightarrow> update_where p f rs = rs"
  by (simp add: update_where_def map_idI)

lemma find_map_key_None: "find (\<lambda>r. k r = x) rs = None \<longleftrightarrow> x \<notin> k ` set rs"
  by (auto simp: find_None_iff)

lemma find_append: "find p (xs @ ys) = (case find p xs of None \<Rightarrow> find p ys | Some x \<Rightarrow> Some x)"
  by (induction xs) auto

lemma find_Some_in: "find p xs = Some x \<Longrightarrow> x \<in> set xs \<and> p x"
  by (auto simp: find_Some_iff)

lemma find_distinct_key:
  assumes "distinct (map k xs)" and "x \<in> set xs"
  shows "find (\<lambda>r. k r = k x) xs = Some x"
  using assms by (induction xs) auto

end
