(* ===== verification/Machines.thy ===== *)
theory Machines
  imports Prelude
begin

text \<open>
  Status machines.  The payment, KYC and account life cycles of the repository are all a
  partial step on an enum; this theory holds what they share: running a list of events, the
  contract of a machine with dead states, and the stronger contract of a machine that only
  moves forward, whose runs therefore make boundedly many moves.
\<close>

section \<open>Runs\<close>

text \<open>A run stops at the first refused event, as the \<open>?\<close> of a caller would.\<close>

fun run_machine :: "('s \<Rightarrow> 'e \<Rightarrow> 'x + 's) \<Rightarrow> 's \<Rightarrow> 'e list \<Rightarrow> 'x + 's" where
  "run_machine tr s [] = Inr s"
| "run_machine tr s (e # es) = rbind (tr s e) (\<lambda>t. run_machine tr t es)"

text \<open>How many events of an accepted run changed the state.\<close>

fun moves :: "('s \<Rightarrow> 'e \<Rightarrow> 'x + 's) \<Rightarrow> 's \<Rightarrow> 'e list \<Rightarrow> nat" where
  "moves tr s [] = 0"
| "moves tr s (e # es) =
     (case tr s e of Inl x \<Rightarrow> 0 | Inr t \<Rightarrow> (if t = s then 0 else 1) + moves tr t es)"

lemma run_machine_append:
  "run_machine tr s (es @ fs) = rbind (run_machine tr s es) (\<lambda>t. run_machine tr t fs)"
proof (induction es arbitrary: s)
  case (Cons e es)
  then show ?case by (cases "tr s e") auto
qed simp

lemma run_machine_Cons_Inr:
  "run_machine tr s (e # es) = Inr u \<longleftrightarrow> (\<exists>t. tr s e = Inr t \<and> run_machine tr t es = Inr u)"
  by (simp add: rbind_Inr_iff)

text \<open>A property of states that every accepted step keeps holds at the end of a run.\<close>

lemma run_machine_invariant:
  assumes "run_machine tr s es = Inr t" and "P s"
    and "\<And>u e v. P u \<Longrightarrow> tr u e = Inr v \<Longrightarrow> P v"
  shows "P t"
  using assms(1,2)
proof (induction es arbitrary: s)
  case (Cons e es)
  then show ?case by (metis assms(3) run_machine_Cons_Inr)
qed simp

text \<open>Whatever leads from outside a set of states into it uses an event that can do so.\<close>

lemma run_machine_crosses:
  assumes "run_machine tr s es = Inr t" and "\<not> P s" and "P t"
  shows "\<exists>e \<in> set es. \<exists>u v. \<not> P u \<and> tr u e = Inr v \<and> P v"
  using assms(1,2)
proof (induction es arbitrary: s)
  case Nil
  with assms(3) show ?case by simp
next
  case (Cons e es)
  then obtain v where v: "tr s e = Inr v" "run_machine tr v es = Inr t"
    by (auto simp: rbind_Inr_iff)
  show ?case
  proof (cases "P v")
    case True
    with v Cons.prems show ?thesis by auto
  next
    case False
    with Cons.IH [OF v(2)] show ?thesis by auto
  qed
qed

section \<open>The contracts\<close>

locale event_machine =
  fixes tr :: "'s \<Rightarrow> 'e \<Rightarrow> 'x + 's"
    and dead :: "'s \<Rightarrow> bool"
  assumes dead_stuck: "dead s \<Longrightarrow> \<not> is_ok (tr s e)"
begin

lemma dead_no_step: "dead s \<Longrightarrow> tr s e \<noteq> Inr t"
  using dead_stuck [of s e] by auto

lemma dead_run: "dead s \<Longrightarrow> run_machine tr s es = Inr t \<longleftrightarrow> es = [] \<and> t = s"
  by (cases es) (auto simp: rbind_Inr_iff dead_no_step)

lemma dead_run_error: "dead s \<Longrightarrow> es \<noteq> [] \<Longrightarrow> \<exists>x. run_machine tr s es = Inl x"
  using dead_run [of s es] by (cases "run_machine tr s es") auto

end

locale ranked_machine = event_machine tr dead
  for tr :: "'s \<Rightarrow> 'e \<Rightarrow> 'x + 's" and dead :: "'s \<Rightarrow> bool" +
  fixes rank :: "'s \<Rightarrow> nat"
  assumes step_rank: "tr s e = Inr t \<Longrightarrow> t = s \<or> rank s < rank t"
begin

lemma run_rank:
  "run_machine tr s es = Inr t \<Longrightarrow> rank s + moves tr s es \<le> rank t"
proof (induction es arbitrary: s)
  case (Cons e es)
  then obtain u where u: "tr s e = Inr u" "run_machine tr u es = Inr t"
    by (auto simp: rbind_Inr_iff)
  then show ?case
    using Cons.IH [OF u(2)] step_rank [OF u(1)] by auto
qed simp

lemma run_moves_bounded:
  assumes "run_machine tr s es = Inr t" and "\<And>u. rank u \<le> n"
  shows "moves tr s es \<le> n - rank s"
  using run_rank [OF assms(1)] assms(2) [of t] by linarith

lemma no_return:
  assumes "run_machine tr s es = Inr s"
  shows "moves tr s es = 0"
  using run_rank [OF assms] by simp

end

end
