(* ===== verification/String_Enum.thy ===== *)
theory String_Enum
  imports Prelude
begin

text \<open>
  The macro \<open>impl_sqlx_string_enum!\<close> of \<open>crates/kova-types/src/macros.rs\<close>: the \<open>Display\<close>,
  \<open>FromStr\<close>, \<open>Encode\<close> and \<open>Decode\<close> implementations it generates from a table of variants
  and column strings.  The locale \<open>string_enum\<close> states what a table must satisfy for the
  generated code to round trip; every enum of \<open>kova-types\<close> interprets it.
\<close>

text \<open>\<open>match self { $variant => $str, \<dots> }\<close>: the compiler makes the match exhaustive, so the
  last equation is not reached for a table that \<open>string_enum\<close> accepts.\<close>

fun enum_display :: "('a \<times> string) list \<Rightarrow> 'a \<Rightarrow> string" where
  "enum_display [] v = []"
| "enum_display ((w, t) # tab) v = (if v = w then t else enum_display tab v)"

definition unknown_value :: "string \<Rightarrow> string \<Rightarrow> string" where
  "unknown_value nm s = ''unknown '' @ nm @ '' value: '' @ s"

fun enum_from_str :: "string \<Rightarrow> ('a \<times> string) list \<Rightarrow> string \<Rightarrow> string + 'a" where
  "enum_from_str nm [] s = Inl (unknown_value nm s)"
| "enum_from_str nm ((w, t) # tab) s = (if s = t then Inr w else enum_from_str nm tab s)"

text \<open>The column is read as a \<open>String\<close> first, which may fail in the driver.\<close>

definition enum_decode :: "string \<Rightarrow> ('a \<times> string) list \<Rightarrow> string + string \<Rightarrow> string + 'a" where
  "enum_decode nm tab col = rbind col (enum_from_str nm tab)"

definition enum_encode :: "('a \<times> string) list \<Rightarrow> 'a \<Rightarrow> string" where
  "enum_encode tab v = enum_display tab v"

lemma enum_from_str_Inr_in: "enum_from_str nm tab s = Inr v \<Longrightarrow> (v, s) \<in> set tab"
  by (induction nm tab s rule: enum_from_str.induct) (auto split: if_splits)

lemma enum_from_str_Inl: "enum_from_str nm tab s = Inl e \<Longrightarrow> e = unknown_value nm s"
  by (induction nm tab s rule: enum_from_str.induct) (auto split: if_splits)

lemma enum_from_str_in:
  "distinct (map snd tab) \<Longrightarrow> (v, s) \<in> set tab \<Longrightarrow> enum_from_str nm tab s = Inr v"
  by (induction nm tab s rule: enum_from_str.induct) (force split: if_splits)+

lemma enum_display_in: "v \<in> fst ` set tab \<Longrightarrow> (v, enum_display tab v) \<in> set tab"
  by (induction tab v rule: enum_display.induct) auto

lemma enum_display_eq:
  "distinct (map fst tab) \<Longrightarrow> (v, s) \<in> set tab \<Longrightarrow> enum_display tab v = s"
  by (induction tab v rule: enum_display.induct) force+

locale string_enum =
  fixes nm :: string
    and tab :: "('a \<times> string) list"
  assumes complete: "v \<in> fst ` set tab"
    and distinct_variants: "distinct (map fst tab)"
    and distinct_names: "distinct (map snd tab)"
begin

lemma from_str_display: "enum_from_str nm tab (enum_display tab v) = Inr v"
  by (rule enum_from_str_in [OF distinct_names enum_display_in [OF complete]])

lemma from_str_iff: "enum_from_str nm tab s = Inr v \<longleftrightarrow> s = enum_display tab v"
  using from_str_display enum_display_eq [OF distinct_variants enum_from_str_Inr_in]
  by metis

lemma display_inject: "enum_display tab v = enum_display tab w \<longleftrightarrow> v = w"
  by (metis from_str_display sum.inject(2))

lemma decode_encode: "enum_decode nm tab (Inr (enum_encode tab v)) = Inr v"
  by (simp add: enum_decode_def enum_encode_def from_str_display)

lemma from_str_unknown:
  "enum_from_str nm tab s = Inl e \<longleftrightarrow> s \<notin> range (enum_display tab) \<and> e = unknown_value nm s"
proof (cases "enum_from_str nm tab s")
  case (Inl x)
  with enum_from_str_Inl [OF Inl] from_str_display show ?thesis by auto
next
  case (Inr v)
  with from_str_iff [of s v] show ?thesis by auto
qed

end

end
