(* ===== verification/Types_Errors.thy ===== *)
theory Types_Errors
  imports Prelude
begin

text \<open>
  The error hierarchy of \<open>crates/kova-types/src/errors.rs\<close>, and the errors of the database
  driver that the services wrap.
\<close>

text \<open>What the model tells apart of \<open>sqlx::Error\<close>: no row for \<open>fetch_one\<close>, a column that does
  not decode, a unique violation reported by the server, and everything else.\<close>

datatype sqlx_error = RowNotFound | ColumnDecode string | UniqueViolation | SqlxOther string

section \<open>Leaf errors\<close>

record database_error =
  db_message :: string
  db_source :: "sqlx_error option"

definition database_error_new :: "sqlx_error \<Rightarrow> database_error" where
  "database_error_new err =
     \<lparr>db_message = ''a database error occurred'', db_source = Some err\<rparr>"

definition database_error_with_message :: "string \<Rightarrow> database_error" where
  "database_error_with_message m = \<lparr>db_message = m, db_source = None\<rparr>"

definition database_error_from_sqlx :: "sqlx_error \<Rightarrow> database_error" where
  "database_error_from_sqlx err = database_error_new err"

text \<open>\<open>Serialize\<close>: the source is skipped, so only the message reaches a client.\<close>

definition database_error_json :: "database_error \<Rightarrow> json" where
  "database_error_json e = JObj [(''message'', JStr (db_message e))]"

record invalid_transition_error =
  it_from :: string
  it_to :: string

definition invalid_transition_new :: "string \<Rightarrow> string \<Rightarrow> invalid_transition_error" where
  "invalid_transition_new a b = \<lparr>it_from = a, it_to = b\<rparr>"

definition quoted :: "string \<Rightarrow> string" where
  "quoted s = CHR 0x27 # s @ [CHR 0x27]"

definition invalid_transition_display :: "invalid_transition_error \<Rightarrow> string" where
  "invalid_transition_display e =
     ''invalid transition from '' @ quoted (it_from e) @ '' to '' @ quoted (it_to e)"

section \<open>The root error\<close>

datatype kova_error =
    KDatabase database_error
  | KValidation string
  | KNotFound string string
  | KInsufficientFunds
  | KInvalidTransition invalid_transition_error
  | KIdempotencyConflict string
  | KAuth
  | KFraudBlock

fun http_status :: "kova_error \<Rightarrow> nat" where
  "http_status (KDatabase _) = 500"
| "http_status (KValidation _) = 400"
| "http_status (KNotFound _ _) = 404"
| "http_status KInsufficientFunds = 422"
| "http_status (KInvalidTransition _) = 422"
| "http_status (KIdempotencyConflict _) = 409"
| "http_status KAuth = 401"
| "http_status KFraudBlock = 403"

text \<open>The \<open>#[error(\<dots>)]\<close> attributes of the variants.\<close>

fun kova_error_display :: "kova_error \<Rightarrow> string" where
  "kova_error_display (KDatabase e) = ''a database error occurred''"
| "kova_error_display (KValidation m) = ''validation error: '' @ m"
| "kova_error_display (KNotFound entity i) = entity @ '' not found: '' @ i"
| "kova_error_display KInsufficientFunds = ''insufficient funds''"
| "kova_error_display (KInvalidTransition e) = invalid_transition_display e"
| "kova_error_display (KIdempotencyConflict k) = ''idempotency conflict for key: '' @ k"
| "kova_error_display KAuth = ''authentication error''"
| "kova_error_display KFraudBlock = ''payment blocked by fraud system''"

definition kova_error_from_sqlx :: "sqlx_error \<Rightarrow> kova_error" where
  "kova_error_from_sqlx err = KDatabase (database_error_new err)"

text \<open>The convenience constructors; \<open>not_found\<close> takes anything that has a \<open>Display\<close>.\<close>

definition kova_not_found :: "('i \<Rightarrow> string) \<Rightarrow> string \<Rightarrow> 'i \<Rightarrow> kova_error" where
  "kova_not_found to_string entity i = KNotFound entity (to_string i)"

definition kova_validation :: "string \<Rightarrow> kova_error" where
  "kova_validation msg = KValidation msg"

definition kova_idempotency_conflict :: "string \<Rightarrow> kova_error" where
  "kova_idempotency_conflict key = KIdempotencyConflict key"

text \<open>Every error maps to a client or server error status, and 500 means the database.\<close>

lemma http_status_error: "400 \<le> http_status e \<and> http_status e < 600"
  by (cases e) auto

lemma http_status_500: "http_status e = 500 \<longleftrightarrow> (\<exists>d. e = KDatabase d)"
  by (cases e) auto

text \<open>No detail of the driver's error shows in what a client sees.\<close>

lemma database_error_hides_source:
  "database_error_json (database_error_new a) = database_error_json (database_error_new b)"
  "kova_error_display (kova_error_from_sqlx a) = kova_error_display (kova_error_from_sqlx b)"
  by (simp_all add: database_error_json_def database_error_new_def kova_error_from_sqlx_def)

end
