(* ===== verification/Payment_Status.thy ===== *)
theory Payment_Status
  imports Machines String_Enum Types_Errors
begin

text \<open>
  \<open>crates/kova-types/src/payment.rs\<close>: the payment life cycle, its column strings and its
  transition function.  The table of transitions is read off \<open>PaymentStatus::transition\<close>
  arm by arm; the facts below are about whole runs of the machine.
\<close>

section \<open>Statuses and events\<close>

datatype payment_status =
    PInitiated
  | PValidating
  | PFraudCheck
  | PFxConversion
  | PSettlementSubmitted
  | PSettled
  | PFailed
  | PRefunded
  | PExpired

datatype payment_event =
    ValidationPassed
  | ValidationFailed
  | FraudApproved
  | FraudBlocked
  | FraudReview
  | FxConverted
  | SubmittedToRail
  | RailSettled
  | RailFailed
  | RefundRequested
  | EvExpired

definition payment_status_table :: "(payment_status \<times> string) list" where
  "payment_status_table =
     [(PInitiated, ''initiated''),
      (PValidating, ''validating''),
      (PFraudCheck, ''fraud_check''),
      (PFxConversion, ''fx_conversion''),
      (PSettlementSubmitted, ''settlement_submitted''),
      (PSettled, ''settled''),
      (PFailed, ''failed''),
      (PRefunded, ''refunded''),
      (PExpired, ''expired'')]"

lemma payment_status_table_complete: "v \<in> fst ` set payment_status_table"
  by (cases v) (simp_all add: payment_status_table_def)

interpretation payment_status_enum: string_enum "''PaymentStatus''" payment_status_table
  by unfold_locales (rule payment_status_table_complete, simp_all add: payment_status_table_def)

fun payment_event_display :: "payment_event \<Rightarrow> string" where
  "payment_event_display ValidationPassed = ''ValidationPassed''"
| "payment_event_display ValidationFailed = ''ValidationFailed''"
| "payment_event_display FraudApproved = ''FraudApproved''"
| "payment_event_display FraudBlocked = ''FraudBlocked''"
| "payment_event_display FraudReview = ''FraudReview''"
| "payment_event_display FxConverted = ''FxConverted''"
| "payment_event_display SubmittedToRail = ''SubmittedToRail''"
| "payment_event_display RailSettled = ''RailSettled''"
| "payment_event_display RailFailed = ''RailFailed''"
| "payment_event_display RefundRequested = ''RefundRequested''"
| "payment_event_display EvExpired = ''Expired''"

fun is_terminal :: "payment_status \<Rightarrow> bool" where
  "is_terminal PSettled = True"
| "is_terminal PFailed = True"
| "is_terminal PRefunded = True"
| "is_terminal PExpired = True"
| "is_terminal _ = False"

section \<open>The transition function\<close>

definition payment_transition ::
  "payment_status \<Rightarrow> payment_event \<Rightarrow> invalid_transition_error + payment_status" where
  "payment_transition s e =
     (case (s, e) of
        (PInitiated, ValidationPassed) \<Rightarrow> Inr PValidating
      | (PInitiated, ValidationFailed) \<Rightarrow> Inr PFailed
      | (PInitiated, EvExpired) \<Rightarrow> Inr PExpired
      | (PValidating, FraudApproved) \<Rightarrow> Inr PFraudCheck
      | (PValidating, FraudBlocked) \<Rightarrow> Inr PFailed
      | (PValidating, EvExpired) \<Rightarrow> Inr PExpired
      | (PFraudCheck, FraudReview) \<Rightarrow> Inr PFraudCheck
      | (PFraudCheck, FraudApproved) \<Rightarrow> Inr PFxConversion
      | (PFraudCheck, FraudBlocked) \<Rightarrow> Inr PFailed
      | (PFraudCheck, SubmittedToRail) \<Rightarrow> Inr PSettlementSubmitted
      | (PFraudCheck, EvExpired) \<Rightarrow> Inr PExpired
      | (PFxConversion, FxConverted) \<Rightarrow> Inr PSettlementSubmitted
      | (PFxConversion, EvExpired) \<Rightarrow> Inr PExpired
      | (PSettlementSubmitted, RailSettled) \<Rightarrow> Inr PSettled
      | (PSettlementSubmitted, RailFailed) \<Rightarrow> Inr PFailed
      | (PSettled, RefundRequested) \<Rightarrow> Inr PRefunded
      | _ \<Rightarrow> Inl (invalid_transition_new (enum_display payment_status_table s)
                                          (payment_event_display e)))"

abbreviation payment_run :: "payment_status \<Rightarrow> payment_event list \<Rightarrow>
    invalid_transition_error + payment_status" where
  "payment_run \<equiv> run_machine payment_transition"

lemma payment_transition_cases:
  assumes "payment_transition s e = Inr t"
  shows "(s, e, t) \<in>
    {(PInitiated, ValidationPassed, PValidating), (PInitiated, ValidationFailed, PFailed),
     (PInitiated, EvExpired, PExpired), (PValidating, FraudApproved, PFraudCheck),
     (PValidating, FraudBlocked, PFailed), (PValidating, EvExpired, PExpired),
     (PFraudCheck, FraudReview, PFraudCheck), (PFraudCheck, FraudApproved, PFxConversion),
     (PFraudCheck, FraudBlocked, PFailed), (PFraudCheck, SubmittedToRail, PSettlementSubmitted),
     (PFraudCheck, EvExpired, PExpired), (PFxConversion, FxConverted, PSettlementSubmitted),
     (PFxConversion, EvExpired, PExpired), (PSettlementSubmitted, RailSettled, PSettled),
     (PSettlementSubmitted, RailFailed, PFailed), (PSettled, RefundRequested, PRefunded)}"
  using assms
  by (simp add: payment_transition_def split: payment_status.splits payment_event.splits)

text \<open>The states with no exit, and how far along its life a payment is.\<close>

fun payment_dead :: "payment_status \<Rightarrow> bool" where
  "payment_dead s \<longleftrightarrow> s = PFailed \<or> s = PRefunded \<or> s = PExpired"

fun payment_rank :: "payment_status \<Rightarrow> nat" where
  "payment_rank PInitiated = 0"
| "payment_rank PValidating = 1"
| "payment_rank PFraudCheck = 2"
| "payment_rank PFxConversion = 3"
| "payment_rank PSettlementSubmitted = 4"
| "payment_rank PSettled = 5"
| "payment_rank _ = 6"

interpretation payment: ranked_machine payment_transition payment_dead payment_rank
proof unfold_locales
  fix s e
  assume "payment_dead s"
  then show "\<not> is_ok (payment_transition s e)"
    by (auto simp: payment_transition_def split: payment_status.splits payment_event.splits)
next
  fix s e t
  assume "payment_transition s e = Inr t"
  then show "t = s \<or> payment_rank s < payment_rank t"
    using payment_transition_cases [of s e t] by auto
qed

lemma payment_rank_le: "payment_rank s \<le> 6"
  by (cases s) auto

section \<open>Runs of the machine\<close>

lemma payment_error_message:
  assumes "payment_transition s e = Inl x"
  shows "x = invalid_transition_new (enum_display payment_status_table s) (payment_event_display e)"
  using assms
  by (simp add: payment_transition_def split: payment_status.splits payment_event.splits)

lemma terminal_step:
  "is_terminal s \<Longrightarrow> payment_transition s e = Inr t \<Longrightarrow>
    s = PSettled \<and> e = RefundRequested \<and> t = PRefunded"
  using payment_transition_cases [of s e t] by auto

lemma terminal_run:
  assumes "is_terminal s" and "payment_run s es = Inr t"
  shows "es = [] \<and> t = s \<or> s = PSettled \<and> es = [RefundRequested] \<and> t = PRefunded"
proof (cases es)
  case Nil
  with assms show ?thesis by simp
next
  case (Cons e fs)
  with assms(2) obtain u where u: "payment_transition s e = Inr u" "payment_run u fs = Inr t"
    by (auto simp: rbind_Inr_iff)
  from terminal_step [OF assms(1) u(1)] u(2) Cons payment.dead_run [of u fs t]
  show ?thesis by auto
qed

text \<open>A blocked payment fails: no run passes \<open>FraudBlocked\<close> and ends anywhere else.\<close>

lemma blocked_run_fails:
  assumes "payment_run s es = Inr t" and "FraudBlocked \<in> set es"
  shows "t = PFailed"
  using assms
proof (induction es arbitrary: s)
  case (Cons e es)
  then obtain u where u: "payment_transition s e = Inr u" "payment_run u es = Inr t"
    by (auto simp: rbind_Inr_iff)
  show ?case
  proof (cases "e = FraudBlocked")
    case True
    with payment_transition_cases [OF u(1)] have "u = PFailed" by auto
    with u(2) payment.dead_run [of u es t] show ?thesis by auto
  next
    case False
    with Cons u show ?thesis by auto
  qed
qed simp

text \<open>What a payment has been through when it is in a given state.\<close>

lemma reach_beyond:
  assumes "payment_run PInitiated es = Inr t" and "\<not> P PInitiated" and "P t"
    and "\<And>u e v. \<not> P u \<Longrightarrow> payment_transition u e = Inr v \<Longrightarrow> P v \<Longrightarrow> e = x"
  shows "x \<in> set es"
  using run_machine_crosses [OF assms(1-3)] assms(4) by blast

abbreviation settled_side :: "payment_status set" where
  "settled_side \<equiv> {PSettled, PRefunded}"

abbreviation past_rail :: "payment_status set" where
  "past_rail \<equiv> {PSettlementSubmitted, PSettled, PRefunded}"

abbreviation past_fraud :: "payment_status set" where
  "past_fraud \<equiv> {PFraudCheck, PFxConversion, PSettlementSubmitted, PSettled, PRefunded}"

abbreviation past_validation :: "payment_status set" where
  "past_validation \<equiv> insert PValidating past_fraud"

lemma settled_needs_rail:
  "payment_run PInitiated es = Inr t \<Longrightarrow> t \<in> settled_side \<Longrightarrow> RailSettled \<in> set es"
  by (rule reach_beyond [where P = "\<lambda>s. s \<in> settled_side"])
    (auto dest: payment_transition_cases)

lemma settled_needs_approval:
  "payment_run PInitiated es = Inr t \<Longrightarrow> t \<in> past_fraud \<Longrightarrow> FraudApproved \<in> set es"
  by (rule reach_beyond [where P = "\<lambda>s. s \<in> past_fraud"])
    (auto dest: payment_transition_cases)

lemma settled_needs_validation:
  "payment_run PInitiated es = Inr t \<Longrightarrow> t \<in> past_validation \<Longrightarrow> ValidationPassed \<in> set es"
  by (rule reach_beyond [where P = "\<lambda>s. s \<in> past_validation"])
    (auto dest: payment_transition_cases)

lemma settled_needs_submission:
  assumes "payment_run PInitiated es = Inr t" and "t \<in> past_rail"
  shows "SubmittedToRail \<in> set es \<or> FxConverted \<in> set es"
proof -
  have "\<exists>e \<in> set es. \<exists>u v. u \<notin> past_rail \<and> payment_transition u e = Inr v \<and> v \<in> past_rail"
    by (rule run_machine_crosses [OF assms(1)]) (use assms(2) in auto)
  then show ?thesis
    by (auto dest!: payment_transition_cases)
qed

text \<open>From every state that is not terminal some event leads on, and at most six moves end a
  payment's life.\<close>

lemma payment_progress: "\<not> is_terminal s \<Longrightarrow> \<exists>e t. payment_transition s e = Inr t \<and> t \<noteq> s"
  by (cases s)
    (auto simp: payment_transition_def intro: exI [of _ EvExpired] exI [of _ RailSettled])

lemma payment_moves_bounded:
  "payment_run s es = Inr t \<Longrightarrow> moves payment_transition s es \<le> 6 - payment_rank s"
  by (rule payment.run_moves_bounded [OF _ payment_rank_le])

section \<open>Properties\<close>

text \<open>C37: A settled (or refunded) payment went through every gate: any accepted run of events
  from \<open>Initiated\<close> to \<open>Settled\<close> or \<open>Refunded\<close> passed input validation, a fraud approval, a
  submission to the rail (directly or by currency conversion) and the rail's confirmation, and
  was never blocked by the fraud engine.\<close>

theorem settled_passed_every_gate:
  assumes "run_machine payment_transition PInitiated es = Inr t"
    and "t = PSettled \<or> t = PRefunded"
  shows "ValidationPassed \<in> set es \<and> FraudApproved \<in> set es \<and>
    (SubmittedToRail \<in> set es \<or> FxConverted \<in> set es) \<and> RailSettled \<in> set es \<and>
    FraudBlocked \<notin> set es"
  using assms settled_needs_rail [OF assms(1)] settled_needs_approval [OF assms(1)]
    settled_needs_validation [OF assms(1)] settled_needs_submission [OF assms(1)]
    blocked_run_fails [OF assms(1)]
  by auto

theorem settled_passed_every_gate_witness:
  "RailSettled \<in> set [ValidationPassed, FraudApproved, FraudReview, SubmittedToRail, RailSettled]"
  using settled_passed_every_gate
    [of "[ValidationPassed, FraudApproved, FraudReview, SubmittedToRail, RailSettled]" PSettled]
  by (simp add: payment_transition_def)

text \<open>A payment makes at most six moves in its life and never returns to a state it left: the
  number of events of an accepted run that changed the status is at most six, whatever the run's
  length, and from every status that is not terminal some event leads on.\<close>

theorem payment_life_is_bounded:
  "(run_machine payment_transition s es = Inr t \<longrightarrow>
      moves payment_transition s es \<le> 6 - payment_rank s) \<and>
   (run_machine payment_transition s es = Inr s \<longrightarrow> moves payment_transition s es = 0) \<and>
   (\<not> is_terminal s \<longrightarrow> (\<exists>e u. payment_transition s e = Inr u \<and> u \<noteq> s))"
  using payment_moves_bounded payment.no_return payment_progress by blast

theorem payment_life_is_bounded_witness:
  "moves payment_transition PInitiated [ValidationPassed, FraudApproved, FraudReview] = 2 \<and>
   moves payment_transition PInitiated [ValidationPassed, FraudApproved, FraudReview] \<le> 6 \<and>
   (\<exists>e u. payment_transition PInitiated e = Inr u \<and> u \<noteq> PInitiated)"
  using payment_life_is_bounded
    [of PInitiated "[ValidationPassed, FraudApproved, FraudReview]" PFraudCheck]
  by (simp add: payment_transition_def)

text \<open>What \<open>is_terminal\<close> means for the transition function: from a terminal status every
  event is refused, except that \<open>Settled\<close> still accepts \<open>RefundRequested\<close> once, after which
  nothing is accepted.  The comment of \<open>is_terminal\<close> (no further transitions possible) does
  not hold of \<open>Settled\<close>.\<close>

theorem terminal_statuses_only_refund:
  assumes "is_terminal s" and "run_machine payment_transition s es = Inr t"
  shows "es = [] \<and> t = s \<or> s = PSettled \<and> es = [RefundRequested] \<and> t = PRefunded"
  using assms by (rule terminal_run)

theorem terminal_statuses_only_refund_witness:
  "is_terminal PSettled \<and> payment_transition PSettled RefundRequested = Inr PRefunded \<and>
   ([RefundRequested] = [] \<and> PRefunded = PSettled \<or>
    PSettled = PSettled \<and> [RefundRequested] = [RefundRequested] \<and> PRefunded = PRefunded)"
  using terminal_statuses_only_refund [of PSettled "[RefundRequested]" PRefunded]
  by (simp add: payment_transition_def)

end
