(* ===== verification/Kyc_Status.thy ===== *)
theory Kyc_Status
  imports Machines String_Enum
begin

text \<open>
  \<open>crates/kova-types/src/kyc.rs\<close>: KYC status and risk level, which statuses unlock payments
  and cards, and the allowed workflow steps.
\<close>

datatype kyc_status =
    KycUnverified | KycPending | KycUnderReview | KycApproved | KycRejected | KycExpired

datatype kyc_risk_level = RiskLow | RiskMedium | RiskHigh

definition kyc_status_table :: "(kyc_status \<times> string) list" where
  "kyc_status_table =
     [(KycUnverified, ''Unverified''),
      (KycPending, ''Pending''),
      (KycUnderReview, ''UnderReview''),
      (KycApproved, ''Approved''),
      (KycRejected, ''Rejected''),
      (KycExpired, ''Expired'')]"

definition kyc_risk_level_table :: "(kyc_risk_level \<times> string) list" where
  "kyc_risk_level_table = [(RiskLow, ''Low''), (RiskMedium, ''Medium''), (RiskHigh, ''High'')]"

lemma kyc_tables_complete:
  "v \<in> fst ` set kyc_status_table" "w \<in> fst ` set kyc_risk_level_table"
  by (cases v; simp add: kyc_status_table_def) (cases w; simp add: kyc_risk_level_table_def)

interpretation kyc_status_enum: string_enum "''KycStatus''" kyc_status_table
  by unfold_locales (rule kyc_tables_complete, simp_all add: kyc_status_table_def)

interpretation kyc_risk_level_enum: string_enum "''KycRiskLevel''" kyc_risk_level_table
  by unfold_locales (rule kyc_tables_complete, simp_all add: kyc_risk_level_table_def)

definition kyc_status_try_from :: "string \<Rightarrow> string + kyc_status" where
  "kyc_status_try_from s = enum_from_str ''KycStatus'' kyc_status_table s"

definition kyc_risk_level_try_from :: "string \<Rightarrow> string + kyc_risk_level" where
  "kyc_risk_level_try_from s = enum_from_str ''KycRiskLevel'' kyc_risk_level_table s"

fun allows_payment :: "kyc_status \<Rightarrow> bool" where
  "allows_payment KycApproved = True"
| "allows_payment _ = False"

fun allows_card_issuance :: "kyc_status \<Rightarrow> bool" where
  "allows_card_issuance KycApproved = True"
| "allows_card_issuance _ = False"

fun can_transition_to :: "kyc_status \<Rightarrow> kyc_status \<Rightarrow> bool" where
  "can_transition_to KycUnverified KycPending = True"
| "can_transition_to KycPending KycUnderReview = True"
| "can_transition_to KycPending KycRejected = True"
| "can_transition_to KycUnderReview KycApproved = True"
| "can_transition_to KycUnderReview KycRejected = True"
| "can_transition_to KycApproved KycExpired = True"
| "can_transition_to KycRejected KycPending = True"
| "can_transition_to KycExpired KycPending = True"
| "can_transition_to _ _ = False"

text \<open>The workflow as a machine whose events are the requested statuses.\<close>

definition kyc_step :: "kyc_status \<Rightarrow> kyc_status \<Rightarrow> unit + kyc_status" where
  "kyc_step s t = (if can_transition_to s t then Inr t else Inl ())"

lemma kyc_step_Inr: "kyc_step s t = Inr u \<longleftrightarrow> can_transition_to s t \<and> u = t"
  by (auto simp: kyc_step_def)

lemma into_approved: "can_transition_to s KycApproved \<longleftrightarrow> s = KycUnderReview"
  by (cases s) auto

lemma into_under_review: "can_transition_to s KycUnderReview \<longleftrightarrow> s = KycPending"
  by (cases s) auto

lemma no_self_step: "\<not> can_transition_to s s"
  by (cases s) auto

lemma kyc_run_snoc:
  "run_machine kyc_step s (es @ [t]) = Inr u \<longleftrightarrow>
    (\<exists>v. run_machine kyc_step s es = Inr v \<and> can_transition_to v t \<and> u = t)"
  by (auto simp: run_machine_append rbind_Inr_iff kyc_step_Inr)

lemma kyc_run_last:
  assumes "run_machine kyc_step s es = Inr t" and "es \<noteq> []"
  shows "last es = t"
  using assms by (cases es rule: rev_cases) (auto simp: kyc_run_snoc)

text \<open>However the workflow got to \<open>Approved\<close>, its last three steps were a submission, a review
  and the approval.\<close>

lemma approved_suffix:
  assumes run: "run_machine kyc_step s es = Inr KycApproved"
    and s: "s = KycUnverified \<or> s = KycRejected \<or> s = KycExpired"
  shows "\<exists>fs. es = fs @ [KycPending, KycUnderReview, KycApproved]"
proof -
  from run s obtain fs where fs: "es = fs @ [KycApproved]"
      "run_machine kyc_step s fs = Inr KycUnderReview"
    by (cases es rule: rev_cases) (auto simp: kyc_run_snoc into_approved)
  from fs(2) s obtain gs where gs: "fs = gs @ [KycUnderReview]"
      "run_machine kyc_step s gs = Inr KycPending"
    by (cases fs rule: rev_cases) (auto simp: kyc_run_snoc into_under_review)
  from gs(2) s have ne: "gs \<noteq> []"
    by auto
  with kyc_run_last [OF gs(2)] have "last gs = KycPending" by simp
  then show ?thesis
    using fs(1) gs(1) append_butlast_last_id [OF ne] by (intro exI [of _ "butlast gs"]) simp
qed

section \<open>Properties\<close>

text \<open>A user can pay or get a card only after a reviewed application: if a KYC workflow that
  started unverified, rejected or expired reaches a status that allows payments (or card
  issuance), its last three steps were the submission, the review and the approval.\<close>

theorem payments_need_a_review:
  assumes "run_machine kyc_step s es = Inr t"
    and "s = KycUnverified \<or> s = KycRejected \<or> s = KycExpired"
    and "allows_payment t \<or> allows_card_issuance t"
  shows "\<exists>fs. es = fs @ [KycPending, KycUnderReview, KycApproved]"
proof -
  from assms(3) have "t = KycApproved"
    by (cases t) auto
  with assms(1,2) approved_suffix show ?thesis by blast
qed

theorem payments_need_a_review_witness:
  "\<exists>fs. [KycPending, KycRejected, KycPending, KycUnderReview, KycApproved] =
     fs @ [KycPending, KycUnderReview, KycApproved]"
  using payments_need_a_review
    [of KycUnverified "[KycPending, KycRejected, KycPending, KycUnderReview, KycApproved]"
      KycApproved]
  by (simp add: kyc_step_def)

end
