(* ===== verification/Entities.thy ===== *)
theory Entities
  imports Machines String_Enum Kyc_Status
begin

text \<open>
  \<open>crates/kova-types/src/ids.rs\<close> and \<open>entities.rs\<close>: the identifier newtypes, the enums kept
  in MySQL string columns and the entity structs.  Every identifier wraps a UUID and is a type
  of its own, so one cannot be used for another, as in the source; \<open>DateTime<Utc>\<close> is the
  nanoseconds since the epoch.
\<close>

section \<open>Identifiers\<close>

type_synonym uuid = id16

datatype kova_user_id = KovaUserId (user_uuid: uuid)
datatype kova_account_id = KovaAccountId (account_uuid: uuid)
datatype kova_payment_id = KovaPaymentId (payment_uuid: uuid)
datatype kova_transaction_id = KovaTransactionId (transaction_uuid: uuid)
datatype kova_ledger_entry_id = KovaLedgerEntryId (ledger_entry_uuid: uuid)
datatype kova_card_id = KovaCardId (card_uuid: uuid)
datatype kova_kyc_document_id = KovaKycDocumentId (kyc_document_uuid: uuid)
datatype kova_audit_event_id = KovaAuditEventId (audit_event_uuid: uuid)
datatype kova_fx_quote_id = KovaFxQuoteId (fx_quote_uuid: uuid)
datatype kova_notification_id = KovaNotificationId (notification_uuid: uuid)

type_synonym datetime = int

section \<open>Enums of the entity tables\<close>

datatype currency_code = NGN | GBP | USD | KES

datatype account_status = AccActive | AccFrozen | AccClosed | AccPendingKYC

datatype card_status = CardActive | CardFrozen | CardCancelled

definition currency_code_table :: "(currency_code \<times> string) list" where
  "currency_code_table = [(NGN, ''NGN''), (GBP, ''GBP''), (USD, ''USD''), (KES, ''KES'')]"

definition account_status_table :: "(account_status \<times> string) list" where
  "account_status_table =
     [(AccActive, ''Active''), (AccFrozen, ''Frozen''), (AccClosed, ''Closed''),
      (AccPendingKYC, ''PendingKYC'')]"

definition card_status_table :: "(card_status \<times> string) list" where
  "card_status_table =
     [(CardActive, ''Active''), (CardFrozen, ''Frozen''), (CardCancelled, ''Cancelled'')]"

instantiation currency_code :: enum
begin

definition enum_currency_code :: "currency_code list" where
  "enum_currency_code = [NGN, GBP, USD, KES]"

definition enum_all_currency_code :: "(currency_code \<Rightarrow> bool) \<Rightarrow> bool" where
  "enum_all_currency_code P \<longleftrightarrow> P NGN \<and> P GBP \<and> P USD \<and> P KES"

definition enum_ex_currency_code :: "(currency_code \<Rightarrow> bool) \<Rightarrow> bool" where
  "enum_ex_currency_code P \<longleftrightarrow> P NGN \<or> P GBP \<or> P USD \<or> P KES"

instance
proof
  show "(UNIV :: currency_code set) = set Enum.enum"
    unfolding enum_currency_code_def using currency_code.exhaust by auto
  show "distinct (Enum.enum :: currency_code list)"
    by (simp add: enum_currency_code_def)
  show "Enum.enum_all P \<longleftrightarrow> Ball (UNIV :: currency_code set) P" for P
    unfolding enum_all_currency_code_def by (metis UNIV_I currency_code.exhaust)
  show "Enum.enum_ex P \<longleftrightarrow> Bex (UNIV :: currency_code set) P" for P
    unfolding enum_ex_currency_code_def by (metis UNIV_I currency_code.exhaust)
qed

end

lemma currency_code_table_complete: "c \<in> fst ` set currency_code_table"
  by (cases c) (simp_all add: currency_code_table_def)

lemma account_status_table_complete: "a \<in> fst ` set account_status_table"
  by (cases a) (simp_all add: account_status_table_def)

lemma card_status_table_complete: "d \<in> fst ` set card_status_table"
  by (cases d) (simp_all add: card_status_table_def)

interpretation currency_code_enum: string_enum "''CurrencyCode''" currency_code_table
  by unfold_locales (rule currency_code_table_complete, simp_all add: currency_code_table_def)

interpretation account_status_enum: string_enum "''AccountStatus''" account_status_table
  by unfold_locales (rule account_status_table_complete, simp_all add: account_status_table_def)

interpretation card_status_enum: string_enum "''CardStatus''" card_status_table
  by unfold_locales (rule card_status_table_complete, simp_all add: card_status_table_def)

section \<open>Entity structs\<close>

record user_entity =
  ue_id :: kova_user_id
  ue_phone_number :: string
  ue_pin_hash :: string
  ue_kyc_status :: kyc_status
  ue_created_at :: datetime
  ue_updated_at :: datetime

record account_entity =
  ae_id :: kova_account_id
  ae_user_id :: kova_user_id
  ae_account_number :: string
  ae_currency :: currency_code
  ae_status :: account_status
  ae_created_at :: datetime
  ae_updated_at :: datetime
  ae_closed_at :: "datetime option"

record card_entity =
  ce_id :: kova_card_id
  ce_account_id :: kova_account_id
  ce_user_id :: kova_user_id
  ce_vault_token :: string
  ce_last_four :: string
  ce_expiry_month :: "8 word"
  ce_expiry_year :: "16 word"
  ce_status :: card_status
  ce_spend_controls :: "json option"
  ce_created_at :: datetime
  ce_updated_at :: datetime

record ledger_entry_entity =
  lee_id :: kova_ledger_entry_id
  lee_debit_account_id :: kova_account_id
  lee_credit_account_id :: kova_account_id
  lee_amount :: decimal
  lee_currency :: currency_code
  lee_idempotency_key :: string
  lee_payment_id :: "kova_payment_id option"
  lee_created_at :: datetime
  lee_metadata :: "json option"

record fx_quote_entity =
  fq_id :: kova_fx_quote_id
  fq_quote_token :: string
  fq_expires_at :: datetime
  fq_from_currency :: currency_code
  fq_to_currency :: currency_code
  fq_rate :: decimal
  fq_locked_amount :: decimal
  fq_created_at :: datetime

record audit_event_entity =
  ave_id :: kova_audit_event_id
  ave_event_type :: string
  ave_entity_type :: string
  ave_entity_id :: uuid
  ave_actor_id :: "uuid option"
  ave_payload :: json
  ave_previous_hash :: "byte list option"
  ave_event_hash :: "byte list option"
  ave_created_at :: datetime

end
