(* ===== verification/Account_Status.thy ===== *)
theory Account_Status
  imports Entities Types_Errors
begin

text \<open>
  \<open>services/kova-account/src/state_machine.rs\<close>: which account status may follow which.  The
  machine's events are the requested statuses; \<open>Closed\<close> has no exit.
\<close>

text \<open>\<open>{:?}\<close>, the derived \<open>Debug\<close>: the name of the variant.\<close>

fun account_status_debug :: "account_status \<Rightarrow> string" where
  "account_status_debug AccActive = ''Active''"
| "account_status_debug AccFrozen = ''Frozen''"
| "account_status_debug AccClosed = ''Closed''"
| "account_status_debug AccPendingKYC = ''PendingKYC''"

definition account_transition ::
  "account_status \<Rightarrow> account_status \<Rightarrow> invalid_transition_error + account_status" where
  "account_transition current target =
     (let valid = (case (current, target) of
          (AccPendingKYC, AccActive) \<Rightarrow> True
        | (AccActive, AccFrozen) \<Rightarrow> True
        | (AccActive, AccClosed) \<Rightarrow> True
        | (AccFrozen, AccActive) \<Rightarrow> True
        | (AccFrozen, AccClosed) \<Rightarrow> True
        | _ \<Rightarrow> False)
      in if valid then Inr target
         else Inl (invalid_transition_new (account_status_debug current)
                                          (account_status_debug target)))"

lemma account_transition_Inr:
  "account_transition s t = Inr u \<longleftrightarrow> u = t \<and>
    ((s, t) \<in> {(AccPendingKYC, AccActive), (AccActive, AccFrozen), (AccActive, AccClosed),
               (AccFrozen, AccActive), (AccFrozen, AccClosed)})"
  by (cases s; cases t) (auto simp: account_transition_def)

lemma account_transition_Inl:
  "account_transition s t = Inl x \<Longrightarrow>
    x = invalid_transition_new (account_status_debug s) (account_status_debug t)"
  by (auto simp: account_transition_def Let_def split: if_splits)

interpretation account: event_machine account_transition "\<lambda>s. s = AccClosed"
  by unfold_locales (simp add: account_transition_def)

text \<open>An account that leaves \<open>PendingKYC\<close> is first activated, and never goes back.\<close>

lemma account_run_first:
  "run_machine account_transition AccPendingKYC (t # ts) = Inr u \<Longrightarrow> t = AccActive"
  by (auto simp: rbind_Inr_iff account_transition_Inr)

lemma account_run_no_pending:
  assumes "run_machine account_transition s ts = Inr t" and "s \<noteq> AccPendingKYC"
  shows "t \<noteq> AccPendingKYC"
  by (rule run_machine_invariant [OF assms(1), where P = "\<lambda>s. s \<noteq> AccPendingKYC"])
    (auto simp: assms(2) account_transition_Inr)

section \<open>Properties\<close>

text \<open>The account life cycle: \<open>Closed\<close> refuses every request (so closure is final), an
  account that waits for KYC can only be activated, in particular it cannot be closed, and no
  accepted sequence of requests brings an account back to \<open>PendingKYC\<close>.\<close>

theorem account_life_cycle:
  assumes "run_machine account_transition s ts = Inr t" and "ts \<noteq> []"
  shows "s \<noteq> AccClosed \<and> (s = AccPendingKYC \<longrightarrow> hd ts = AccActive) \<and> t \<noteq> AccPendingKYC"
proof -
  obtain u us where ts: "ts = u # us" using assms(2) by (cases ts) auto
  then obtain v where v: "account_transition s u = Inr v"
      "run_machine account_transition v us = Inr t"
    using assms(1) by (auto simp: rbind_Inr_iff)
  from v(1) have "v \<noteq> AccPendingKYC" by (auto simp: account_transition_Inr)
  with account_run_no_pending [OF v(2)] have "t \<noteq> AccPendingKYC" by blast
  with assms account.dead_run [of s ts t] account_run_first [of u us t] ts show ?thesis by auto
qed

theorem account_life_cycle_witness:
  "AccClosed \<noteq> AccPendingKYC \<and> hd [AccActive, AccFrozen, AccClosed] = AccActive"
  using account_life_cycle [of AccPendingKYC "[AccActive, AccFrozen, AccClosed]" AccClosed]
  by (simp add: account_transition_def)

end
