(* ===== verification/Money.thy ===== *)
theory Money
  imports Entities
begin

text \<open>
  \<open>crates/kova-types/src/money.rs\<close>: amounts with a compile-time currency.  The phantom type
  parameter of \<open>Money<C>\<close> is the phantom type parameter of \<open>money\<close>, so amounts of different
  currencies have different types here too; the sealed trait \<open>Currency\<close> is the record of its
  two constants for each marker.

  The arithmetic of \<open>rust_decimal\<close> is a parameter, \<open>dec_ops\<close>.  The hypothesis
  \<open>dec_ops_ok\<close> is what its documentation says of it for the sizes of
  money: rounding with \<open>MidpointNearestEven\<close> rounds to the nearest multiple of
  \<open>10 ^ -4\<close>, ties to even; a sum or difference of two amounts with at most four decimals is
  exact, and fails only when the result does not fit the 96 bits of a mantissa.
\<close>

section \<open>Currencies\<close>

record currency_consts =
  cc_code :: string
  cc_decimal_places :: nat

datatype ngn = Ngn_marker
datatype gbp = Gbp_marker
datatype usd = Usd_marker
datatype kes = Kes_marker

definition ngn_consts :: currency_consts where
  "ngn_consts = \<lparr>cc_code = ''NGN'', cc_decimal_places = 2\<rparr>"

definition gbp_consts :: currency_consts where
  "gbp_consts = \<lparr>cc_code = ''GBP'', cc_decimal_places = 2\<rparr>"

definition usd_consts :: currency_consts where
  "usd_consts = \<lparr>cc_code = ''USD'', cc_decimal_places = 2\<rparr>"

definition kes_consts :: currency_consts where
  "kes_consts = \<lparr>cc_code = ''KES'', cc_decimal_places = 2\<rparr>"

section \<open>The decimal operations\<close>

record dec_ops =
  dop_round :: "decimal \<Rightarrow> nat \<Rightarrow> decimal"
  dop_add :: "decimal \<Rightarrow> decimal \<Rightarrow> decimal option"
  dop_sub :: "decimal \<Rightarrow> decimal \<Rightarrow> decimal option"
  dop_mul :: "decimal \<Rightarrow> decimal \<Rightarrow> decimal option"
  dop_neg :: "decimal \<Rightarrow> decimal"
  dop_show :: "decimal \<Rightarrow> string"

text \<open>The nearest integer, a tie going to the even one.\<close>

definition round_half_even :: "rat \<Rightarrow> int" where
  "round_half_even x =
     (let f = \<lfloor>x\<rfloor>; r = x - of_int f
      in if r < 1/2 then f else if 1/2 < r then f + 1 else if even f then f else f + 1)"

text \<open>\<open>d\<close> is a multiple of \<open>10 ^ -4\<close>, and how many of them.\<close>

definition four_dp :: "decimal \<Rightarrow> bool" where
  "four_dp d \<longleftrightarrow> (\<exists>n::int. dec_val d = of_int n / 10 ^ 4)"

definition fits96 :: "rat \<Rightarrow> bool" where
  "fits96 v \<longleftrightarrow> \<bar>v * 10 ^ 4\<bar> < 2 ^ 96"

definition dec_ops_ok :: "dec_ops \<Rightarrow> bool" where
  "dec_ops_ok ops \<longleftrightarrow>
     (\<forall>d. dec_val (dop_round ops d 4) = of_int (round_half_even (dec_val d * 10 ^ 4)) / 10 ^ 4) \<and>
     (\<forall>a b c. four_dp a \<longrightarrow> four_dp b \<longrightarrow> dop_add ops a b = Some c \<longrightarrow>
        dec_val c = dec_val a + dec_val b) \<and>
     (\<forall>a b. four_dp a \<longrightarrow> four_dp b \<longrightarrow> fits96 (dec_val a + dec_val b) \<longrightarrow>
        dop_add ops a b \<noteq> None) \<and>
     (\<forall>a b c. four_dp a \<longrightarrow> four_dp b \<longrightarrow> dop_sub ops a b = Some c \<longrightarrow>
        dec_val c = dec_val a - dec_val b) \<and>
     (\<forall>a b. four_dp a \<longrightarrow> four_dp b \<longrightarrow> fits96 (dec_val a - dec_val b) \<longrightarrow>
        dop_sub ops a b \<noteq> None) \<and>
     (\<forall>a. dec_val (dop_neg ops a) = - dec_val a)"

section \<open>Money\<close>

datatype 'c money = Money (amount: decimal)

definition money_new :: "dec_ops \<Rightarrow> decimal \<Rightarrow> 'c money" where
  "money_new ops d = Money (dop_round ops d 4)"

text \<open>\<open>from_major\<close> takes an \<open>i64\<close>; \<open>Decimal::new(major, 0)\<close> has the mantissa \<open>major\<close>.\<close>

definition money_from_major :: "dec_ops \<Rightarrow> 64 word \<Rightarrow> 'c money" where
  "money_from_major ops major = money_new ops \<lparr>mant = sint major, dscale = 0\<rparr>"

definition money_from_minor :: "dec_ops \<Rightarrow> decimal \<Rightarrow> 'c money" where
  "money_from_minor ops d = money_new ops d"

definition money_zero :: "dec_ops \<Rightarrow> 'c money" where
  "money_zero ops = money_new ops dec_zero"

definition money_currency_code :: "currency_consts \<Rightarrow> 'c money \<Rightarrow> string" where
  "money_currency_code C m = cc_code C"

definition money_is_zero :: "'c money \<Rightarrow> bool" where
  "money_is_zero m = dec_is_zero (amount m)"

definition money_is_positive :: "'c money \<Rightarrow> bool" where
  "money_is_positive m = dec_less dec_zero (amount m)"

definition money_is_negative :: "'c money \<Rightarrow> bool" where
  "money_is_negative m = dec_less (amount m) dec_zero"

definition money_checked_add :: "dec_ops \<Rightarrow> 'c money \<Rightarrow> 'c money \<Rightarrow> 'c money option" where
  "money_checked_add ops a b = map_option (money_new ops) (dop_add ops (amount a) (amount b))"

definition money_checked_sub :: "dec_ops \<Rightarrow> 'c money \<Rightarrow> 'c money \<Rightarrow> 'c money option" where
  "money_checked_sub ops a b = map_option (money_new ops) (dop_sub ops (amount a) (amount b))"

definition money_checked_mul :: "dec_ops \<Rightarrow> 'c money \<Rightarrow> decimal \<Rightarrow> 'c money option" where
  "money_checked_mul ops a f = map_option (money_new ops) (dop_mul ops (amount a) f)"

definition money_negate :: "dec_ops \<Rightarrow> 'c money \<Rightarrow> 'c money" where
  "money_negate ops m = money_new ops (dop_neg ops (amount m))"

definition money_convert_to :: "dec_ops \<Rightarrow> 'c money \<Rightarrow> decimal \<Rightarrow> 'd money option" where
  "money_convert_to ops a rate = map_option (money_new ops) (dop_mul ops (amount a) rate)"

text \<open>The operators \<open>+\<close>, \<open>-\<close> and \<open>*\<close> are the checked operations: their \<open>Output\<close> is an \<open>Option\<close>.\<close>

definition money_add :: "dec_ops \<Rightarrow> 'c money \<Rightarrow> 'c money \<Rightarrow> 'c money option" where
  "money_add ops a b = money_checked_add ops a b"

definition money_sub :: "dec_ops \<Rightarrow> 'c money \<Rightarrow> 'c money \<Rightarrow> 'c money option" where
  "money_sub ops a b = money_checked_sub ops a b"

definition money_mul :: "dec_ops \<Rightarrow> 'c money \<Rightarrow> decimal \<Rightarrow> 'c money option" where
  "money_mul ops a f = money_checked_mul ops a f"

definition money_default :: "dec_ops \<Rightarrow> 'c money" where
  "money_default ops = money_zero ops"

text \<open>\<open>Ord::cmp\<close>, the comparison of the amounts.\<close>

datatype ordering = OrdLess | OrdEqual | OrdGreater

definition money_cmp :: "'c money \<Rightarrow> 'c money \<Rightarrow> ordering" where
  "money_cmp a b = (if dec_less (amount a) (amount b) then OrdLess
                    else if dec_eq (amount a) (amount b) then OrdEqual else OrdGreater)"

definition money_partial_cmp :: "'c money \<Rightarrow> 'c money \<Rightarrow> ordering option" where
  "money_partial_cmp a b = Some (money_cmp a b)"

definition money_display :: "dec_ops \<Rightarrow> currency_consts \<Rightarrow> 'c money \<Rightarrow> string" where
  "money_display ops C m = cc_code C @ '' '' @ dop_show ops (amount m)"

text \<open>The database codec: the column's \<open>Decimal\<close> goes through \<open>new\<close>; the amount is stored.\<close>

definition money_decode :: "dec_ops \<Rightarrow> string + decimal \<Rightarrow> string + 'c money" where
  "money_decode ops col = rbind col (\<lambda>d. Inr (money_new ops d))"

definition money_encode :: "'c money \<Rightarrow> decimal" where
  "money_encode m = amount m"

text \<open>The derived serde code: one field, \<open>amount\<close>, through \<open>rust_decimal::serde::str\<close> (\<open>read\<close>); the value
  goes into the field as it was read, not through \<open>new\<close>.\<close>

definition money_serialize :: "dec_ops \<Rightarrow> 'c money \<Rightarrow> json" where
  "money_serialize ops m = JObj [(''amount'', JStr (dop_show ops (amount m)))]"

definition money_deserialize :: "(json \<Rightarrow> string + decimal) \<Rightarrow> json \<Rightarrow> string + 'c money" where
  "money_deserialize read j =
     (case j of
        JObj fs \<Rightarrow>
          (case map_of fs ''amount'' of
             None \<Rightarrow> Inl ''missing field `amount`''
           | Some v \<Rightarrow> rbind (read v) (\<lambda>d. Inr (Money d)))
      | JArr [v] \<Rightarrow> rbind (read v) (\<lambda>d. Inr (Money d))
      | _ \<Rightarrow> Inl ''invalid type: expected struct Money'')"

section \<open>Lemmas\<close>

lemma round_half_even_int [simp]: "round_half_even (of_int n) = n"
  by (simp add: round_half_even_def)

lemma round_half_even_error: "\<bar>of_int (round_half_even x) - x\<bar> \<le> 1/2"
proof -
  have f: "of_int \<lfloor>x\<rfloor> \<le> x" "x < of_int \<lfloor>x\<rfloor> + 1"
    by linarith+
  then show ?thesis
    unfolding round_half_even_def Let_def by (auto simp: abs_le_iff)
qed

lemma round_half_even_tie:
  "x = of_int f + 1/2 \<Longrightarrow> even (round_half_even x)"
proof -
  assume x: "x = of_int f + 1/2"
  then have "\<lfloor>x\<rfloor> = f" by linarith
  with x show ?thesis by (simp add: round_half_even_def)
qed

lemma dec_ops_facts:
  assumes "dec_ops_ok ops"
  shows dop_round_val:
      "dec_val (dop_round ops d 4) = of_int (round_half_even (dec_val d * 10 ^ 4)) / 10 ^ 4"
    and dop_add_val: "four_dp a \<Longrightarrow> four_dp b \<Longrightarrow> dop_add ops a b = Some c \<Longrightarrow>
      dec_val c = dec_val a + dec_val b"
    and dop_add_some: "four_dp a \<Longrightarrow> four_dp b \<Longrightarrow> fits96 (dec_val a + dec_val b) \<Longrightarrow>
      \<exists>c. dop_add ops a b = Some c"
    and dop_sub_val: "four_dp a \<Longrightarrow> four_dp b \<Longrightarrow> dop_sub ops a b = Some c \<Longrightarrow>
      dec_val c = dec_val a - dec_val b"
    and dop_sub_some: "four_dp a \<Longrightarrow> four_dp b \<Longrightarrow> fits96 (dec_val a - dec_val b) \<Longrightarrow>
      \<exists>c. dop_sub ops a b = Some c"
    and dop_neg_val: "dec_val (dop_neg ops a) = - dec_val a"
  using assms unfolding dec_ops_ok_def by auto

lemma four_dp_round: "dec_ops_ok ops \<Longrightarrow> four_dp (dop_round ops d 4)"
  by (auto simp: four_dp_def dop_round_val)

lemma dop_round_exact: "dec_ops_ok ops \<Longrightarrow> four_dp d \<Longrightarrow> dec_val (dop_round ops d 4) = dec_val d"
  by (auto simp: four_dp_def dop_round_val)

lemma four_dp_add: "four_dp a \<Longrightarrow> four_dp b \<Longrightarrow> dec_val c = dec_val a + dec_val b \<Longrightarrow> four_dp c"
  unfolding four_dp_def by (metis add_divide_distrib of_int_add)

lemma four_dp_diff: "four_dp a \<Longrightarrow> four_dp b \<Longrightarrow> dec_val c = dec_val a - dec_val b \<Longrightarrow> four_dp c"
  unfolding four_dp_def by (metis diff_divide_distrib of_int_diff)

lemma four_dp_neg: "four_dp a \<Longrightarrow> dec_val c = - dec_val a \<Longrightarrow> four_dp c"
  unfolding four_dp_def by (metis minus_divide_left of_int_minus)

text \<open>Whatever \<open>new\<close> builds has four decimals, and it changes nothing that already has.\<close>

lemma money_new_four_dp: "dec_ops_ok ops \<Longrightarrow> four_dp (amount (money_new ops d))"
  by (simp add: money_new_def four_dp_round)

lemma money_new_exact:
  "dec_ops_ok ops \<Longrightarrow> four_dp d \<Longrightarrow> dec_val (amount (money_new ops d)) = dec_val d"
  by (simp add: money_new_def dop_round_exact)

lemma money_new_error:
  assumes "dec_ops_ok ops"
  shows "\<bar>dec_val (amount (money_new ops d)) - dec_val d\<bar> \<le> 1 / (2 * 10 ^ 4)"
proof -
  let ?x = "dec_val d * 10 ^ 4"
  let ?r = "of_int (round_half_even ?x) :: rat"
  have a: "dec_val (amount (money_new ops d)) - dec_val d = (?r - ?x) / 10 ^ 4"
    using assms by (simp add: money_new_def dop_round_val diff_divide_distrib)
  have "\<bar>dec_val (amount (money_new ops d)) - dec_val d\<bar> = \<bar>?r - ?x\<bar> / \<bar>10 ^ 4\<bar>"
    unfolding a by (rule abs_divide)
  also have "\<dots> \<le> (1/2) / \<bar>10 ^ 4\<bar>"
    by (rule divide_right_mono [OF round_half_even_error]) simp
  finally show ?thesis by simp
qed

lemma money_add_cases:
  assumes "dec_ops_ok ops" "four_dp (amount a)" "four_dp (amount b)"
    and "money_checked_add ops a b = Some c"
  shows "four_dp (amount c) \<and> dec_val (amount c) = dec_val (amount a) + dec_val (amount b)"
proof -
  from assms(4) obtain d where d: "dop_add ops (amount a) (amount b) = Some d" "c = money_new ops d"
    by (auto simp: money_checked_add_def)
  have v: "dec_val d = dec_val (amount a) + dec_val (amount b)"
    by (rule dop_add_val [OF assms(1-3) d(1)])
  then have "four_dp d"
    using four_dp_add assms(2,3) by blast
  with d(2) v money_new_exact [OF assms(1), of d] money_new_four_dp [OF assms(1), of d]
  show ?thesis by simp
qed

lemma money_sub_cases:
  assumes "dec_ops_ok ops" "four_dp (amount a)" "four_dp (amount b)"
    and "money_checked_sub ops a b = Some c"
  shows "four_dp (amount c) \<and> dec_val (amount c) = dec_val (amount a) - dec_val (amount b)"
proof -
  from assms(4) obtain d where d: "dop_sub ops (amount a) (amount b) = Some d" "c = money_new ops d"
    by (auto simp: money_checked_sub_def)
  have v: "dec_val d = dec_val (amount a) - dec_val (amount b)"
    by (rule dop_sub_val [OF assms(1-3) d(1)])
  then have "four_dp d"
    using four_dp_diff assms(2,3) by blast
  with d(2) v money_new_exact [OF assms(1), of d] money_new_four_dp [OF assms(1), of d]
  show ?thesis by simp
qed

lemma money_negate_val:
  assumes "dec_ops_ok ops" "four_dp (amount a)"
  shows "dec_val (amount (money_negate ops a)) = - dec_val (amount a)"
proof -
  have "four_dp (dop_neg ops (amount a))"
    using four_dp_neg [OF assms(2)] dop_neg_val [OF assms(1)] by blast
  then show ?thesis
    using assms(1) by (simp add: money_negate_def money_new_exact dop_neg_val)
qed

lemma money_cmp_val:
  "money_cmp a b = (if dec_val (amount a) < dec_val (amount b) then OrdLess
     else if dec_val (amount a) = dec_val (amount b) then OrdEqual else OrdGreater)"
  by (simp add: money_cmp_def dec_less_iff dec_eq_iff)

text \<open>An instance of the operations, on unbounded mantissas, for the witnesses.\<close>

definition dec_of_units :: "int \<Rightarrow> decimal" where
  "dec_of_units n = \<lparr>mant = n, dscale = 4\<rparr>"

definition exact_ops :: dec_ops where
  "exact_ops =
     \<lparr>dop_round = (\<lambda>d n. if n = 4
        then dec_of_units (round_half_even (of_int (mant d * 10 ^ 4) / of_int (10 ^ dscale d)))
        else d),
      dop_add = (\<lambda>a b. Some \<lparr>mant = mant a * 10 ^ dscale b + mant b * 10 ^ dscale a,
                            dscale = dscale a + dscale b\<rparr>),
      dop_sub = (\<lambda>a b. Some \<lparr>mant = mant a * 10 ^ dscale b - mant b * 10 ^ dscale a,
                            dscale = dscale a + dscale b\<rparr>),
      dop_mul = (\<lambda>a b. Some \<lparr>mant = mant a * mant b, dscale = dscale a + dscale b\<rparr>),
      dop_neg = (\<lambda>a. a\<lparr>mant := - mant a\<rparr>),
      dop_show = (\<lambda>a. show_nat (nat (mant a)))\<rparr>"

lemma dec_val_of_units [simp]: "dec_val (dec_of_units n) = of_int n / 10 ^ 4"
  by (simp add: dec_val_def dec_of_units_def)

lemma four_dp_of_units: "four_dp (dec_of_units n)"
  by (auto simp: four_dp_def)

lemma exact_ops_ok: "dec_ops_ok exact_ops"
  unfolding dec_ops_ok_def exact_ops_def
  by (auto simp: dec_val_def dec_of_units_def field_simps power_add)

section \<open>Properties\<close>

text \<open>Every amount is kept at four decimals and arithmetic on such amounts is exact: the
  constructor and the database decoder round to the nearest ten-thousandth (off by at most half
  of one, ties to even), leave an amount that has four decimals as it is, and a checked sum or
  difference of two such amounts is the exact one and has four decimals again.\<close>

theorem money_arithmetic_exact:
  assumes "dec_ops_ok ops"
  shows "four_dp (amount (money_new ops d :: 'c money)) \<and>
    \<bar>dec_val (amount (money_new ops d :: 'c money)) - dec_val d\<bar> \<le> 1 / (2 * 10 ^ 4) \<and>
    (four_dp d \<longrightarrow> dec_val (amount (money_new ops d :: 'c money)) = dec_val d) \<and>
    (four_dp (amount a) \<and> four_dp (amount (b :: 'c money)) \<longrightarrow>
       (\<forall>c. money_checked_add ops a b = Some c \<longrightarrow>
          four_dp (amount c) \<and> dec_val (amount c) = dec_val (amount a) + dec_val (amount b)) \<and>
       (\<forall>c. money_checked_sub ops a b = Some c \<longrightarrow>
          four_dp (amount c) \<and> dec_val (amount c) = dec_val (amount a) - dec_val (amount b)) \<and>
       (fits96 (dec_val (amount a) + dec_val (amount b)) \<longrightarrow> money_checked_add ops a b \<noteq> None))"
proof -
  have "money_checked_add ops a b \<noteq> None"
    if "four_dp (amount a)" "four_dp (amount b)" "fits96 (dec_val (amount a) + dec_val (amount b))"
    using dop_add_some [OF assms that] by (auto simp: money_checked_add_def)
  then show ?thesis
    using money_new_four_dp [OF assms, of d] money_new_error [OF assms, of d]
      money_new_exact [OF assms, of d]
      money_add_cases [OF assms, of a b] money_sub_cases [OF assms, of a b]
    by blast
qed

theorem money_arithmetic_exact_witness:
  "dec_ops_ok exact_ops \<and>
   money_checked_add exact_ops (Money (dec_of_units 5) :: ngn money) (Money (dec_of_units 7)) \<noteq> None"
  using exact_ops_ok
    money_arithmetic_exact [OF exact_ops_ok, of dec_zero
      "Money (dec_of_units 5) :: ngn money" "Money (dec_of_units 7)"]
  by (simp add: four_dp_of_units fits96_def)

text \<open>The order of amounts is the order of the numbers, negation is its mirror and undoes
  itself, and exactly one of zero, positive and negative holds of an amount.\<close>

theorem money_order_and_sign:
  assumes "dec_ops_ok ops" and "four_dp (amount (a :: 'c money))"
  shows "(money_cmp a b = OrdLess \<longleftrightarrow> dec_val (amount a) < dec_val (amount b)) \<and>
    (money_cmp a b = OrdEqual \<longleftrightarrow> dec_val (amount a) = dec_val (amount b)) \<and>
    dec_val (amount (money_negate ops a)) = - dec_val (amount a) \<and>
    money_cmp (money_negate ops (money_negate ops a)) a = OrdEqual \<and>
    (money_is_positive (money_negate ops a) \<longleftrightarrow> money_is_negative a) \<and>
    (money_is_zero a \<longleftrightarrow> \<not> money_is_positive a \<and> \<not> money_is_negative a) \<and>
    \<not> (money_is_positive a \<and> money_is_negative a)"
proof -
  have neg: "dec_val (amount (money_negate ops a)) = - dec_val (amount a)"
    by (rule money_negate_val [OF assms])
  have "four_dp (amount (money_negate ops a))"
    by (simp add: money_negate_def money_new_four_dp assms(1))
  from money_negate_val [OF assms(1) this] neg show ?thesis
    by (auto simp: money_cmp_val money_is_positive_def money_is_negative_def money_is_zero_def
        dec_less_iff dec_is_zero_iff)
qed

theorem money_order_and_sign_witness:
  "money_cmp (Money (dec_of_units 5) :: ngn money) (Money \<lparr>mant = 50, dscale = 5\<rparr>) = OrdEqual"
  using money_order_and_sign [OF exact_ops_ok, of "Money (dec_of_units 5) :: ngn money"
      "Money \<lparr>mant = 50, dscale = 5\<rparr>"] four_dp_of_units [of 5]
  by (simp add: dec_val_of_units) (simp add: dec_val_def)

text \<open>The four decimals are not an invariant of the type: reading an amount from JSON does not round it, so
  an amount with more decimals becomes a \<open>Money\<close> that the constructor would have changed.\<close>

theorem deserialized_money_is_not_rounded:
  assumes "dec_ops_ok ops" and "read v = Inr d" and "\<not> four_dp d"
  shows "money_deserialize read (JObj [(''amount'', v)]) = Inr (Money d :: 'c money) \<and>
    (Money d :: 'c money) \<noteq> money_new ops d \<and> (Money d :: 'c money) \<notin> range (money_new ops)"
proof -
  have "(Money d :: 'c money) \<notin> range (money_new ops)"
    using money_new_four_dp [OF assms(1)] assms(3) by (metis money.sel rangeE)
  then show ?thesis using assms(2) by (auto simp: money_deserialize_def)
qed

theorem deserialized_money_is_not_rounded_witness:
  "money_deserialize (\<lambda>v. Inr \<lparr>mant = 5, dscale = 5\<rparr>) (JObj [(''amount'', JStr ''0.00005'')])
     = Inr (Money \<lparr>mant = 5, dscale = 5\<rparr> :: ngn money)"
proof -
  have "\<not> four_dp \<lparr>mant = 5, dscale = 5\<rparr>"
  proof
    assume "four_dp \<lparr>mant = 5, dscale = 5\<rparr>"
    then obtain n :: int where "of_int (n * 2) = (1 :: rat)"
      by (auto simp: four_dp_def dec_val_def)
    then have "n * 2 = 1" by linarith
    then show False by presburger
  qed
  from deserialized_money_is_not_rounded [OF exact_ops_ok _ this, where 'c = ngn,
      of "\<lambda>v. Inr \<lparr>mant = 5, dscale = 5\<rparr>" "JStr ''0.00005''"] show ?thesis by (simp del: not_None_eq)
qed

end
