(* ===== verification/Identifiers.thy ===== *)
theory Identifiers
  imports Entities
begin

text \<open>
  The macro \<open>define_kova_id!\<close> of \<open>crates/kova-types/src/ids.rs\<close>: what it generates for each
  newtype, given its constructor \<open>mk\<close> and its field \<open>un\<close>.  The \<open>uuid\<close> crate and its \<open>sqlx\<close> and \<open>serde\<close>
  support are parameters, \<open>uuid_codec\<close>: the hyphenated text and its parser, and the \<open>BINARY(16)\<close>
  column with its decoder.  The locale \<open>kova_id\<close> is what a newtype gives; each of the ten interprets it.
\<close>

record uuid_codec =
  uc_show :: "uuid \<Rightarrow> string"
  uc_parse :: "string \<Rightarrow> string + uuid"
  uc_encode :: "uuid \<Rightarrow> byte list"
  uc_decode :: "byte list \<Rightarrow> string + uuid"

definition uuid_codec_ok :: "uuid_codec \<Rightarrow> bool" where
  "uuid_codec_ok codec \<longleftrightarrow>
     (\<forall>u. uc_parse codec (uc_show codec u) = Inr u) \<and> (\<forall>u. uc_decode codec (uc_encode codec u) = Inr u)"

section \<open>Generated operations\<close>

text \<open>\<open>new\<close> wraps what \<open>Uuid::now_v7\<close> draws, and \<open>default\<close> is \<open>new\<close>.\<close>

definition kova_id_new :: "(uuid \<Rightarrow> 'i) \<Rightarrow> uuid \<Rightarrow> 'i" where
  "kova_id_new mk now_v7 = mk now_v7"

definition kova_id_default :: "(uuid \<Rightarrow> 'i) \<Rightarrow> uuid \<Rightarrow> 'i" where
  "kova_id_default mk now_v7 = kova_id_new mk now_v7"

definition kova_id_into_uuid :: "('i \<Rightarrow> uuid) \<Rightarrow> 'i \<Rightarrow> uuid" where
  "kova_id_into_uuid un i = un i"

definition kova_id_as_uuid :: "('i \<Rightarrow> uuid) \<Rightarrow> 'i \<Rightarrow> uuid" where
  "kova_id_as_uuid un i = un i"

definition kova_id_as_bytes :: "('i \<Rightarrow> uuid) \<Rightarrow> 'i \<Rightarrow> byte list" where
  "kova_id_as_bytes un i = id_bytes (un i)"

definition kova_id_from_uuid :: "(uuid \<Rightarrow> 'i) \<Rightarrow> uuid \<Rightarrow> 'i" where
  "kova_id_from_uuid mk u = mk u"

definition uuid_from_kova_id :: "('i \<Rightarrow> uuid) \<Rightarrow> 'i \<Rightarrow> uuid" where
  "uuid_from_kova_id un i = un i"

definition kova_id_display :: "uuid_codec \<Rightarrow> ('i \<Rightarrow> uuid) \<Rightarrow> 'i \<Rightarrow> string" where
  "kova_id_display codec un i = uc_show codec (un i)"

definition kova_id_decode :: "uuid_codec \<Rightarrow> (uuid \<Rightarrow> 'i) \<Rightarrow> byte list \<Rightarrow> string + 'i" where
  "kova_id_decode codec mk value = rbind (uc_decode codec value) (\<lambda>u. Inr (mk u))"

definition kova_id_encode :: "uuid_codec \<Rightarrow> ('i \<Rightarrow> uuid) \<Rightarrow> 'i \<Rightarrow> byte list" where
  "kova_id_encode codec un i = uc_encode codec (un i)"

text \<open>\<open>#[serde(transparent)]\<close>: the text of the UUID; anything else is refused.\<close>

definition kova_id_serialize :: "uuid_codec \<Rightarrow> ('i \<Rightarrow> uuid) \<Rightarrow> 'i \<Rightarrow> json" where
  "kova_id_serialize codec un i = JStr (uc_show codec (un i))"

definition kova_id_deserialize :: "uuid_codec \<Rightarrow> (uuid \<Rightarrow> 'i) \<Rightarrow> json \<Rightarrow> string + 'i" where
  "kova_id_deserialize codec mk j =
     (case j of
        JStr s \<Rightarrow> rbind (uc_parse codec s) (\<lambda>u. Inr (mk u))
      | _ \<Rightarrow> Inl ''invalid type: expected a formatted UUID string'')"

lemmas kova_id_ops = kova_id_new_def kova_id_default_def kova_id_into_uuid_def kova_id_as_uuid_def
  kova_id_as_bytes_def kova_id_from_uuid_def uuid_from_kova_id_def kova_id_display_def kova_id_decode_def
  kova_id_encode_def kova_id_serialize_def kova_id_deserialize_def

section \<open>What a newtype promises\<close>

locale kova_id =
  fixes mk :: "uuid \<Rightarrow> 'i"
    and un :: "'i \<Rightarrow> uuid"
  assumes un_mk [simp]: "un (mk u) = u"
    and mk_un [simp]: "mk (un i) = i"
begin

lemma un_inject: "un i = un j \<longleftrightarrow> i = j"
  by (metis mk_un)

lemma conversions:
  "kova_id_from_uuid mk (kova_id_into_uuid un i) = i" "uuid_from_kova_id un (kova_id_from_uuid mk u) = u"
  "kova_id_as_uuid un (kova_id_new mk u) = u"
  by (simp_all add: kova_id_ops)

lemma as_bytes_inject: "kova_id_as_bytes un i = kova_id_as_bytes un j \<longleftrightarrow> i = j"
  by (simp add: kova_id_ops un_inject)

lemma column_roundtrip:
  "uuid_codec_ok codec \<Longrightarrow> kova_id_decode codec mk (kova_id_encode codec un i) = Inr i"
  by (simp add: kova_id_ops uuid_codec_ok_def)

lemma serde_roundtrip:
  "uuid_codec_ok codec \<Longrightarrow> kova_id_deserialize codec mk (kova_id_serialize codec un i) = Inr i"
  by (simp add: kova_id_ops uuid_codec_ok_def)

lemma display_inject:
  assumes "uuid_codec_ok codec"
  shows "kova_id_display codec un i = kova_id_display codec un j \<longleftrightarrow> i = j"
  using assms by (metis kova_id_display_def uuid_codec_ok_def sum.inject(2) un_inject)

end

interpretation user_id: kova_id KovaUserId user_uuid by unfold_locales simp_all
interpretation account_id: kova_id KovaAccountId account_uuid by unfold_locales simp_all
interpretation payment_id: kova_id KovaPaymentId payment_uuid by unfold_locales simp_all
interpretation transaction_id: kova_id KovaTransactionId transaction_uuid by unfold_locales simp_all
interpretation ledger_entry_id: kova_id KovaLedgerEntryId ledger_entry_uuid by unfold_locales simp_all
interpretation card_id: kova_id KovaCardId card_uuid by unfold_locales simp_all
interpretation kyc_document_id: kova_id KovaKycDocumentId kyc_document_uuid by unfold_locales simp_all
interpretation audit_event_id: kova_id KovaAuditEventId audit_event_uuid by unfold_locales simp_all
interpretation fx_quote_id: kova_id KovaFxQuoteId fx_quote_uuid by unfold_locales simp_all
interpretation notification_id: kova_id KovaNotificationId notification_uuid by unfold_locales simp_all

text \<open>A codec over the sixteen bytes.\<close>

definition bytes_codec :: uuid_codec where
  "bytes_codec = \<lparr>uc_show = (\<lambda>u. map (\<lambda>b. char_of (unat b)) (id_bytes u)),
     uc_parse = (\<lambda>s. Inr (id_of_bytes (bytes_of_string s))), uc_encode = id_bytes,
     uc_decode = (\<lambda>bs. if length bs = 16 then Inr (id_of_bytes bs) else Inl ''Expected 16 bytes'')\<rparr>"

lemma bytes_codec_ok: "uuid_codec_ok bytes_codec"
proof -
  have b: "(of_char (char_of (unat b)) :: byte) = b" for b :: byte
  proof -
    have "(of_char (char_of (unat b)) :: byte) = of_nat (of_char (char_of (unat b) :: char))"
      by (simp only: of_nat_of_char)
    then show ?thesis
      using unsigned_less [of b, where ?'a = nat] by (simp add: of_char_of)
  qed
  show ?thesis
    by (simp add: uuid_codec_ok_def bytes_codec_def bytes_of_string_def comp_def b)
qed

section \<open>The order of the index\<close>

text \<open>The engine compares two \<open>BINARY(16)\<close> keys byte by byte; that is the order of the numbers, so ids
  drawn in the order of time are inserted at the end of the index.\<close>

fun bytes_less :: "byte list \<Rightarrow> byte list \<Rightarrow> bool" where
  "bytes_less (x # xs) (y # ys) \<longleftrightarrow> x < y \<or> (x = y \<and> bytes_less xs ys)"
| "bytes_less xs ys \<longleftrightarrow> xs = [] \<and> ys \<noteq> []"

lemma be_nat_Cons: "be_nat (x # xs) = unat x * 256 ^ length xs + be_nat xs"
  by (induction xs rule: rev_induct) (simp_all add: be_nat_def algebra_simps)

lemma be_nat_bound: "be_nat xs < 256 ^ length xs"
proof (induction xs rule: rev_induct)
  case (snoc x xs)
  have "unat x < 256" using unsigned_less [of x, where ?'a = nat] by simp
  with snoc show ?case by (simp add: be_nat_snoc)
qed (simp add: be_nat_def)

lemma bytes_less_be_nat:
  "length xs = length ys \<Longrightarrow> bytes_less xs ys \<longleftrightarrow> be_nat xs < be_nat ys"
proof (induction xs ys rule: bytes_less.induct)
  case (1 x xs y ys)
  let ?n = "256 ^ length ys :: nat"
  have less: "unat a * ?n + c < unat b * ?n + d" if "unat a < unat b" "c < ?n" for a b :: byte and c d
  proof -
    have "unat a * ?n + c < (unat a + 1) * ?n" using that(2) by simp
    also have "\<dots> \<le> unat b * ?n" using that(1) by (intro mult_le_mono1) simp
    finally show ?thesis by simp
  qed
  show ?case
    using 1 be_nat_bound [of xs] be_nat_bound [of ys] less [of x y "be_nat xs" "be_nat ys"] less [of y x "be_nat ys" "be_nat xs"]
    by (cases x y rule: linorder_cases) (auto simp: be_nat_Cons word_less_nat_alt)
qed auto

lemma index_order: "bytes_less (id_bytes u) (id_bytes v) \<longleftrightarrow> u < v"
proof -
  have "be_nat (id_bytes w) = unat w" for w :: id16
    using unsigned_less [of w, where ?'a = nat] by (simp add: id_bytes_def be_nat_be_bytes)
  then show ?thesis by (simp add: bytes_less_be_nat word_less_nat_alt)
qed

end
