(* ===== verification/Ledger_Db.thy ===== *)
theory Ledger_Db
  imports Money Types_Errors
begin

text \<open>
  The database of \<open>services/kova-ledger\<close> (its migrations), the error type of \<open>error.rs\<close>
  and the interfaces of the code that is not in the repository.

  A table is the list of its committed rows in the order of their commits.  An amount column
  \<open>DECIMAL(19,4)\<close> is its number of ten-thousandths, a \<open>DATETIME(6)\<close> its microseconds since
  the epoch, a \<open>BINARY(16)\<close> a 128-bit word.  \<open>ledger_entries\<close> has no UPDATE and no DELETE (the
  triggers of the schema refuse both), so its only operation here is the insert.
\<close>

section \<open>Errors\<close>

datatype ledger_error =
    LInvalidArgument string
  | LIdempotencyMismatch
  | LDatabase sqlx_error
  | LDecimalParse string
  | LInternal string

datatype grpc_code = CodeInvalidArgument | CodeAlreadyExists | CodeInternal | CodeUnauthenticated

record grpc_status =
  gs_code :: grpc_code
  gs_message :: string

abbreviation mk_status :: "grpc_code \<Rightarrow> string \<Rightarrow> grpc_status" where
  "mk_status c m \<equiv> \<lparr>gs_code = c, gs_message = m\<rparr>"

fun status_of_ledger_error :: "ledger_error \<Rightarrow> grpc_status" where
  "status_of_ledger_error (LInvalidArgument m) = mk_status CodeInvalidArgument m"
| "status_of_ledger_error LIdempotencyMismatch =
     mk_status CodeAlreadyExists ''idempotency key exists with a different payload''"
| "status_of_ledger_error (LDecimalParse m) =
     mk_status CodeInvalidArgument (''invalid decimal: '' @ m)"
| "status_of_ledger_error (LDatabase e) = mk_status CodeInternal ''internal database error''"
| "status_of_ledger_error (LInternal m) = mk_status CodeInternal m"

section \<open>Tables\<close>

record ledger_entry =
  le_id :: id16
  le_debit :: id16
  le_credit :: id16
  le_amount :: int
  le_currency :: string
  le_key :: string
  le_hash :: "string option"
  le_payment :: "id16 option"
  le_metadata :: "string option"
  le_created :: int

record outbox_row =
  ob_id :: id16
  ob_entry :: id16
  ob_topic :: string
  ob_payload :: json
  ob_created :: int
  ob_published :: "int option"

record snapshot_row =
  sn_id :: id16
  sn_account :: id16
  sn_currency :: string
  sn_balance :: int
  sn_at :: int
  sn_last_entry :: "id16 option"

record ledger_db =
  entries :: "ledger_entry list"
  outbox :: "outbox_row list"
  snapshots :: "snapshot_row list"

section \<open>Code outside the repository\<close>

text \<open>
  Library code and the engine: SHA-256 (\<open>ring\<close>), \<open>hex\<close>, \<open>base64\<close>, the printing and parsing
  of \<open>rust_decimal\<close>, the printing of a UUID, \<open>DateTime::from_timestamp\<close> of \<open>chrono\<close>; the
  engine's conversion of a value to \<open>DECIMAL(19,4)\<close> (\<open>None\<close>: out of range), its cast of a sum
  to that type, the weight of a string in the collation \<open>utf8mb4_unicode_ci\<close> (two strings are
  equal to \<open>=\<close> and to a unique index when their weights are), whether a string fits
  \<open>VARCHAR(255)\<close>, whether a text is valid JSON, what the
  driver makes of a JSON column read as a \<open>String\<close>, and the microseconds it stores for a bound
  date and time.
\<close>

record ledger_env =
  lv_sha256 :: "byte list \<Rightarrow> byte list"
  lv_hex :: "byte list \<Rightarrow> string"
  lv_b64_encode :: "byte list \<Rightarrow> string"
  lv_b64_decode :: "string \<Rightarrow> byte list option"
  lv_dec_show :: "decimal \<Rightarrow> string"
  lv_dec_read :: "string \<Rightarrow> string + decimal"
  lv_uuid_show :: "id16 \<Rightarrow> string"
  lv_from_timestamp :: "int \<Rightarrow> nat \<Rightarrow> datetime option"
  lv_dec19 :: "decimal \<Rightarrow> int option"
  lv_cast19 :: "int \<Rightarrow> int"
  lv_coll :: "string \<Rightarrow> string"
  lv_varchar255 :: "string \<Rightarrow> bool"
  lv_json_ok :: "string \<Rightarrow> bool"
  lv_json_column :: "string \<Rightarrow> sqlx_error + string"
  lv_datetime6 :: "datetime \<Rightarrow> int"

text \<open>What the documentation of that code promises and the theorems below name one by one.\<close>

definition dec19_ok :: "ledger_env \<Rightarrow> bool" where
  "dec19_ok env \<longleftrightarrow>
     (\<forall>d n. lv_dec19 env d = Some n \<longrightarrow> \<bar>n\<bar> < 10 ^ 19) \<and>
     (\<forall>d (n::int). dec_val d = of_int n / 10 ^ 4 \<longrightarrow> \<bar>n\<bar> < 10 ^ 19 \<longrightarrow> lv_dec19 env d = Some n)"

definition cast19_ok :: "ledger_env \<Rightarrow> bool" where
  "cast19_ok env \<longleftrightarrow> (\<forall>n. \<bar>n\<bar> < 10 ^ 19 \<longrightarrow> lv_cast19 env n = n)"

definition dec_show_ok :: "ledger_env \<Rightarrow> bool" where
  "dec_show_ok env \<longleftrightarrow> (\<forall>d. \<forall>c \<in> set (lv_dec_show env d). is_ascii_digit c \<or> c \<in> set ''-.'')"

definition b64_ok :: "ledger_env \<Rightarrow> bool" where
  "b64_ok env \<longleftrightarrow> (\<forall>bs. lv_b64_decode env (lv_b64_encode env bs) = Some bs)"

definition datetime6_ok :: "ledger_env \<Rightarrow> bool" where
  "datetime6_ok env \<longleftrightarrow> (\<forall>t. lv_datetime6 env t = t div 1000)"

text \<open>\<open>chrono\<close> takes any second of the years it knows with fewer than \<open>10 ^ 9\<close> nanoseconds, and
  refuses \<open>2 * 10 ^ 9\<close> and more.\<close>

definition from_timestamp_ok :: "ledger_env \<Rightarrow> bool" where
  "from_timestamp_ok env \<longleftrightarrow>
     (\<forall>s n. \<bar>s\<bar> \<le> 8 * 10 ^ 12 \<longrightarrow> n < 10 ^ 9 \<longrightarrow>
        lv_from_timestamp env s n = Some (s * 10 ^ 9 + int n)) \<and>
     (\<forall>s n. 2 * 10 ^ 9 \<le> n \<longrightarrow> lv_from_timestamp env s n = None)"

text \<open>One instance of it all, for the witnesses.  The hash is the identity, which no two inputs
  collide under, and a string of bytes is printed as the characters of the bytes.\<close>

definition demo_env :: ledger_env where
  "demo_env =
     \<lparr>lv_sha256 = (\<lambda>bs. bs),
      lv_hex = map (\<lambda>b. char_of (unat b)),
      lv_b64_encode = map (\<lambda>b. char_of (unat b)),
      lv_b64_decode = (\<lambda>s. Some (bytes_of_string s)),
      lv_dec_show = (\<lambda>d. show_nat (nat (mant d)) @ ''.'' @ show_nat (dscale d)),
      lv_dec_read = (\<lambda>s. Inr \<lparr>mant = int (read_nat s), dscale = 2\<rparr>),
      lv_uuid_show = (\<lambda>i. show_nat (unat i)),
      lv_from_timestamp = (\<lambda>s n. if n < 10 ^ 9 then Some (s * 10 ^ 9 + int n) else None),
      lv_dec19 = (\<lambda>d. let n = round_half_even (of_int (mant d) * 10 ^ 4 / 10 ^ dscale d)
                      in if \<bar>n\<bar> < 10 ^ 19 then Some n else None),
      lv_cast19 = (\<lambda>n. n),
      lv_coll = (\<lambda>s. s),
      lv_varchar255 = (\<lambda>s. length s \<le> 255),
      lv_json_ok = (\<lambda>s. True),
      lv_json_column = Inr,
      lv_datetime6 = (\<lambda>t. t div 1000)\<rparr>"

lemma demo_b64: "b64_ok demo_env"
proof -
  have "(of_char (char_of (unat b) :: char) :: byte) = b" for b :: byte
  proof -
    have "unat b < 256" using unsigned_less [of b, where ?'a = nat] by simp
    then have "(of_char (char_of (unat b) :: char) :: nat) = unat b" by simp
    then have "(of_nat (of_char (char_of (unat b) :: char)) :: byte) = b" by simp
    then show ?thesis by (simp only: of_nat_of_char)
  qed
  then show ?thesis
    by (simp add: b64_ok_def demo_env_def bytes_of_string_def comp_def)
qed

lemma demo_env_ok:
  "dec19_ok demo_env" "cast19_ok demo_env" "datetime6_ok demo_env" "from_timestamp_ok demo_env"
  by (auto simp: dec19_ok_def cast19_ok_def datetime6_ok_def from_timestamp_ok_def demo_env_def
      dec_val_def Let_def)

lemma demo_dec_show: "dec_show_ok demo_env"
  using show_nat_digits by (auto simp: dec_show_ok_def demo_env_def)

definition supported_currencies :: "string list" where
  "supported_currencies = [''NGN'', ''GBP'', ''USD'', ''KES'']"

end
