(* ===== verification/Ledger_Posting.thy ===== *)
theory Ledger_Posting
  imports Ledger_Db
begin

text \<open>
  \<open>posting.rs\<close> and \<open>idempotency.rs\<close> of \<open>services/kova-ledger\<close>: one double-entry posting.
  \<open>post_entry\<close> is the whole handler: the three guards, the payload hash, the transaction that
  inserts the entry and its outbox row, and the branch of a duplicate idempotency key.

  The outcome of every call that leaves the process is an argument, \<open>post_io\<close>: the fresh
  UUIDs, the two clocks, and for each statement whether it fails.  A failing COMMIT may have
  been applied or not (the connection can be lost after the server has committed).  The insert
  waits for a concurrent transaction with the same key, so the row it is checked against is the
  committed one: the tables here are the committed tables.
\<close>

section \<open>The payload hash\<close>

definition payload_preimage :: "ledger_env \<Rightarrow> id16 \<Rightarrow> id16 \<Rightarrow> decimal \<Rightarrow> string \<Rightarrow> byte list" where
  "payload_preimage env debit credit amt currency =
     id_bytes debit @ id_bytes credit @ bytes_of_string (lv_dec_show env amt)
       @ bytes_of_string currency"

definition compute_payload_hash ::
  "ledger_env \<Rightarrow> id16 \<Rightarrow> id16 \<Rightarrow> decimal \<Rightarrow> string \<Rightarrow> string" where
  "compute_payload_hash env debit credit amt currency =
     lv_hex env (lv_sha256 env (payload_preimage env debit credit amt currency))"

section \<open>The handler\<close>

record post_params =
  pp_debit :: id16
  pp_credit :: id16
  pp_amount :: decimal
  pp_currency :: string
  pp_key :: string
  pp_payment :: "id16 option"
  pp_metadata :: "string option"

record post_result =
  pr_entry :: id16
  pr_was_idempotent :: bool
  pr_created :: datetime

datatype commit_outcome = CommitDone | CommitRefused sqlx_error | CommitLost sqlx_error

record post_io =
  io_entry_id :: id16
  io_now :: datetime
  io_outbox_id :: id16
  io_server_now :: int
  io_begin :: "sqlx_error option"
  io_insert :: "sqlx_error option"
  io_outbox :: "sqlx_error option"
  io_commit :: commit_outcome
  io_select :: "sqlx_error option"

abbreviation good_io :: "id16 \<Rightarrow> datetime \<Rightarrow> id16 \<Rightarrow> int \<Rightarrow> post_io" where
  "good_io i t j t' \<equiv> \<lparr>io_entry_id = i, io_now = t, io_outbox_id = j, io_server_now = t',
     io_begin = None, io_insert = None, io_outbox = None, io_commit = CommitDone,
     io_select = None\<rparr>"

text \<open>The guards, in the order of the code; \<open>None\<close> when all pass.\<close>

definition post_guard :: "post_params \<Rightarrow> ledger_error option" where
  "post_guard p =
     (if \<not> dec_less dec_zero (pp_amount p)
      then Some (LInvalidArgument ''amount must be strictly positive'')
      else if pp_debit p = pp_credit p
      then Some (LInvalidArgument ''debit_account_id and credit_account_id must differ'')
      else if \<not> List.member supported_currencies (pp_currency p)
      then Some (LInvalidArgument (''unsupported currency: '' @ pp_currency p))
      else None)"

text \<open>\<open>INSERT INTO ledger_entries\<close>: the conversions of the columns, the two CHECK constraints
  and the two unique indexes (the primary key and the idempotency key).\<close>

definition insert_ledger_entry ::
  "ledger_env \<Rightarrow> post_params \<Rightarrow> string \<Rightarrow> id16 \<Rightarrow> datetime \<Rightarrow> ledger_entry list
    \<Rightarrow> sqlx_error + ledger_entry" where
  "insert_ledger_entry env p hash i now es =
     (case lv_dec19 env (pp_amount p) of
        None \<Rightarrow> Inl (SqlxOther ''Out of range value for column amount'')
      | Some n \<Rightarrow>
        if \<not> lv_varchar255 env (pp_key p)
        then Inl (SqlxOther ''Data too long for column idempotency_key'')
        else if \<not> List.member supported_currencies (pp_currency p)
        then Inl (SqlxOther ''Data truncated for column currency'')
        else if (case pp_metadata p of None \<Rightarrow> False | Some m \<Rightarrow> \<not> lv_json_ok env m)
        then Inl (SqlxOther ''Invalid JSON text in column metadata'')
        else if \<not> 0 < n then Inl (SqlxOther ''Check constraint chk_ledger_amount_positive'')
        else if pp_debit p = pp_credit p
        then Inl (SqlxOther ''Check constraint chk_ledger_no_self_transfer'')
        else if list_ex (\<lambda>e. le_id e = i \<or> lv_coll env (le_key e) = lv_coll env (pp_key p)) es
        then Inl UniqueViolation
        else Inr \<lparr>le_id = i, le_debit = pp_debit p, le_credit = pp_credit p, le_amount = n,
                  le_currency = pp_currency p, le_key = pp_key p, le_hash = Some hash,
                  le_payment = pp_payment p, le_metadata = pp_metadata p,
                  le_created = lv_datetime6 env now\<rparr>)"

definition entry_topic :: string where
  "entry_topic = ''kova.ledger.entry.created''"

definition outbox_payload :: "ledger_env \<Rightarrow> id16 \<Rightarrow> post_params \<Rightarrow> json" where
  "outbox_payload env i p =
     JObj [(''entry_id'', JStr (lv_uuid_show env i)),
           (''idempotency_key'', JStr (pp_key p)),
           (''amount'', JStr (lv_dec_show env (pp_amount p))),
           (''currency'', JStr (pp_currency p))]"

text \<open>\<open>INSERT INTO ledger_outbox (id, entry_id, topic, payload_json)\<close>; the server fills in
  \<open>created_at\<close>.\<close>

definition insert_outbox :: "id16 \<Rightarrow> id16 \<Rightarrow> json \<Rightarrow> int \<Rightarrow> outbox_row list
    \<Rightarrow> sqlx_error + outbox_row" where
  "insert_outbox j i payload t obs =
     (if list_ex (\<lambda>r. ob_id r = j) obs then Inl UniqueViolation
      else Inr \<lparr>ob_id = j, ob_entry = i, ob_topic = entry_topic, ob_payload = payload,
                ob_created = t, ob_published = None\<rparr>)"

text \<open>The branch of a unique violation: the transaction is rolled back, the row of the key is
  read back and its hash compared.  A hash of NULL (a row older than the column) does not decode
  to a \<open>String\<close>.\<close>

definition post_duplicate ::
  "ledger_env \<Rightarrow> post_io \<Rightarrow> post_params \<Rightarrow> string \<Rightarrow> ledger_db \<Rightarrow> ledger_error + post_result" where
  "post_duplicate env io p hash db =
     (case io_select io of
        Some e \<Rightarrow> Inl (LDatabase e)
      | None \<Rightarrow>
        (case find (\<lambda>e. lv_coll env (le_key e) = lv_coll env (pp_key p)) (entries db) of
           None \<Rightarrow> Inl (LDatabase RowNotFound)
         | Some e \<Rightarrow>
           (case le_hash e of
              None \<Rightarrow> Inl (LDatabase (ColumnDecode ''payload_hash''))
            | Some h \<Rightarrow>
              if h \<noteq> hash then Inl LIdempotencyMismatch
              else Inr \<lparr>pr_entry = le_id e, pr_was_idempotent = True,
                        pr_created = le_created e * 1000\<rparr>)))"

text \<open>The branch of a successful insert: the outbox row, then the commit.\<close>

definition post_commit ::
  "ledger_env \<Rightarrow> post_io \<Rightarrow> post_params \<Rightarrow> ledger_entry \<Rightarrow> ledger_db
    \<Rightarrow> (ledger_error + post_result) \<times> ledger_db" where
  "post_commit env io p row db =
     (case io_outbox io of
        Some e \<Rightarrow> (Inl (LDatabase e), db)
      | None \<Rightarrow>
        (case insert_outbox (io_outbox_id io) (io_entry_id io)
                (outbox_payload env (io_entry_id io) p) (io_server_now io) (outbox db) of
           Inl e \<Rightarrow> (Inl (LDatabase e), db)
         | Inr o_row \<Rightarrow>
           (let db' = db\<lparr>entries := entries db @ [row], outbox := outbox db @ [o_row]\<rparr>
            in case io_commit io of
                 CommitDone \<Rightarrow>
                   (Inr \<lparr>pr_entry = io_entry_id io, pr_was_idempotent = False,
                         pr_created = io_now io\<rparr>, db')
               | CommitRefused e \<Rightarrow> (Inl (LDatabase e), db)
               | CommitLost e \<Rightarrow> (Inl (LDatabase e), db'))))"

definition post_entry ::
  "ledger_env \<Rightarrow> post_io \<Rightarrow> post_params \<Rightarrow> ledger_db
    \<Rightarrow> (ledger_error + post_result) \<times> ledger_db" where
  "post_entry env io p db =
     (case post_guard p of
        Some e \<Rightarrow> (Inl e, db)
      | None \<Rightarrow>
        (let hash = compute_payload_hash env (pp_debit p) (pp_credit p) (pp_amount p) (pp_currency p)
         in case io_begin io of
              Some e \<Rightarrow> (Inl (LDatabase e), db)
            | None \<Rightarrow>
              (case (case io_insert io of
                       Some e \<Rightarrow> Inl e
                     | None \<Rightarrow> insert_ledger_entry env p hash (io_entry_id io) (io_now io)
                                 (entries db)) of
                 Inr row \<Rightarrow> post_commit env io p row db
               | Inl UniqueViolation \<Rightarrow> (post_duplicate env io p hash db, db)
               | Inl e \<Rightarrow> (Inl (LDatabase e), db))))"

text \<open>Any number of callers, each with its own request and its own luck, one after another.\<close>

definition run_posts :: "ledger_env \<Rightarrow> (post_io \<times> post_params) list \<Rightarrow> ledger_db \<Rightarrow> ledger_db" where
  "run_posts env calls db = fold (\<lambda>(io, p) d. snd (post_entry env io p d)) calls db"

section \<open>The hash preimage\<close>

lemma take_drop_unique:
  assumes "xs @ ys = xs' @ ys'" and "length ys = length ys'"
  shows "xs = xs' \<and> ys = ys'"
  using assms by (metis append_eq_append_conv)

lemma supported_length: "List.member supported_currencies c \<Longrightarrow> length c = 3"
  by (auto simp: supported_currencies_def)

lemma payload_preimage_inject:
  assumes "List.member supported_currencies c" and "List.member supported_currencies c'"
  shows "payload_preimage env d k a c = payload_preimage env d' k' a' c' \<longleftrightarrow>
    d = d' \<and> k = k' \<and> lv_dec_show env a = lv_dec_show env a' \<and> c = c'"
proof
  assume eq: "payload_preimage env d k a c = payload_preimage env d' k' a' c'"
  have len: "length (bytes_of_string c) = length (bytes_of_string c')"
    using supported_length [OF assms(1)] supported_length [OF assms(2)] by simp
  from eq have "id_bytes d = id_bytes d' \<and> id_bytes k = id_bytes k' \<and>
      bytes_of_string (lv_dec_show env a) @ bytes_of_string c =
      bytes_of_string (lv_dec_show env a') @ bytes_of_string c'"
    unfolding payload_preimage_def by (simp add: append_eq_append_conv)
  with take_drop_unique [OF _ len] show "d = d' \<and> k = k' \<and>
      lv_dec_show env a = lv_dec_show env a' \<and> c = c'"
    by (metis bytes_of_string_inject id_bytes_inject)
qed (simp add: payload_preimage_def)

section \<open>What one posting does\<close>

lemma post_guard_None:
  "post_guard p = None \<longleftrightarrow> dec_less dec_zero (pp_amount p) \<and> pp_debit p \<noteq> pp_credit p \<and>
     List.member supported_currencies (pp_currency p)"
  by (auto simp: post_guard_def)

text \<open>The row of a posting, and the conversions that a request must survive to be one.\<close>

definition convertible :: "ledger_env \<Rightarrow> post_params \<Rightarrow> int \<Rightarrow> bool" where
  "convertible env p n \<longleftrightarrow>
     lv_dec19 env (pp_amount p) = Some n \<and> 0 < n \<and> lv_varchar255 env (pp_key p) \<and>
     (\<forall>m. pp_metadata p = Some m \<longrightarrow> lv_json_ok env m)"

definition params_hash :: "ledger_env \<Rightarrow> post_params \<Rightarrow> string" where
  "params_hash env p =
     compute_payload_hash env (pp_debit p) (pp_credit p) (pp_amount p) (pp_currency p)"

definition entry_of :: "ledger_env \<Rightarrow> post_params \<Rightarrow> int \<Rightarrow> id16 \<Rightarrow> datetime \<Rightarrow> ledger_entry" where
  "entry_of env p n i now =
     \<lparr>le_id = i, le_debit = pp_debit p, le_credit = pp_credit p, le_amount = n,
      le_currency = pp_currency p, le_key = pp_key p, le_hash = Some (params_hash env p),
      le_payment = pp_payment p, le_metadata = pp_metadata p, le_created = lv_datetime6 env now\<rparr>"

definition same_key :: "ledger_env \<Rightarrow> string \<Rightarrow> ledger_entry \<Rightarrow> bool" where
  "same_key env k e \<longleftrightarrow> lv_coll env (le_key e) = lv_coll env k"

lemma insert_ledger_entry_Inr:
  "insert_ledger_entry env p (params_hash env p) i now es = Inr row \<longleftrightarrow>
     (\<exists>n. convertible env p n \<and> List.member supported_currencies (pp_currency p) \<and>
        pp_debit p \<noteq> pp_credit p \<and> row = entry_of env p n i now \<and>
        (\<forall>e \<in> set es. le_id e \<noteq> i \<and> \<not> same_key env (pp_key p) e))"
  by (auto simp: insert_ledger_entry_def convertible_def entry_of_def same_key_def list_ex_iff
      split: option.splits)

lemma insert_ledger_entry_dup:
  "insert_ledger_entry env p h i now es = Inl UniqueViolation \<longleftrightarrow>
     (\<exists>n. convertible env p n \<and> List.member supported_currencies (pp_currency p) \<and>
        pp_debit p \<noteq> pp_credit p \<and>
        (\<exists>e \<in> set es. le_id e = i \<or> same_key env (pp_key p) e))"
  by (auto simp: insert_ledger_entry_def convertible_def same_key_def list_ex_iff
      split: option.splits)

lemma insert_outbox_Inr:
  "insert_outbox j i pl t obs = Inr r \<longleftrightarrow> j \<notin> ob_id ` set obs \<and>
     r = \<lparr>ob_id = j, ob_entry = i, ob_topic = entry_topic, ob_payload = pl,
          ob_created = t, ob_published = None\<rparr>"
  by (auto simp: insert_outbox_def list_ex_iff)

text \<open>The three ways a posting can end: a new entry with its outbox row, the answer of an
  earlier one, an error.\<close>

definition posted_row :: "ledger_env \<Rightarrow> post_io \<Rightarrow> post_params \<Rightarrow> int \<Rightarrow> ledger_entry" where
  "posted_row env io p n = entry_of env p n (io_entry_id io) (io_now io)"

definition posted_outbox :: "ledger_env \<Rightarrow> post_io \<Rightarrow> post_params \<Rightarrow> outbox_row" where
  "posted_outbox env io p =
     \<lparr>ob_id = io_outbox_id io, ob_entry = io_entry_id io, ob_topic = entry_topic,
      ob_payload = outbox_payload env (io_entry_id io) p, ob_created = io_server_now io,
      ob_published = None\<rparr>"

definition posted_db :: "ledger_env \<Rightarrow> post_io \<Rightarrow> post_params \<Rightarrow> int \<Rightarrow> ledger_db \<Rightarrow> ledger_db" where
  "posted_db env io p n db =
     db\<lparr>entries := entries db @ [posted_row env io p n],
        outbox := outbox db @ [posted_outbox env io p]\<rparr>"

text \<open>The facts about the tables under which a new entry is written.\<close>

definition fresh_post :: "ledger_env \<Rightarrow> post_io \<Rightarrow> post_params \<Rightarrow> int \<Rightarrow> ledger_db \<Rightarrow> bool" where
  "fresh_post env io p n db \<longleftrightarrow>
     post_guard p = None \<and> convertible env p n \<and>
     (\<forall>e \<in> set (entries db). le_id e \<noteq> io_entry_id io \<and> \<not> same_key env (pp_key p) e) \<and>
     io_outbox_id io \<notin> ob_id ` set (outbox db)"

lemma post_commit_cases:
  assumes "post_commit env io p (posted_row env io p n) db = (res, db')"
  obtains (new) "db' = posted_db env io p n db" "io_outbox_id io \<notin> ob_id ` set (outbox db)"
      "res = Inr \<lparr>pr_entry = io_entry_id io, pr_was_idempotent = False, pr_created = io_now io\<rparr> \<or>
       (\<exists>x. io_commit io = CommitLost x \<and> res = Inl (LDatabase x))"
    | (err) x where "db' = db" "res = Inl x"
  using assms
  by (auto simp: post_commit_def insert_outbox_Inr Let_def posted_db_def posted_outbox_def
      split: option.splits sum.splits commit_outcome.splits)

lemma post_duplicate_Inr:
  "post_duplicate env io p h db = Inr r \<longleftrightarrow> io_select io = None \<and>
     (\<exists>e. find (same_key env (pp_key p)) (entries db) = Some e \<and> le_hash e = Some h \<and>
        r = \<lparr>pr_entry = le_id e, pr_was_idempotent = True, pr_created = le_created e * 1000\<rparr>)"
  by (auto simp: post_duplicate_def same_key_def [abs_def] split: option.splits)

lemma post_entry_cases:
  assumes "post_entry env io p db = (res, db')"
  obtains (new) n where "fresh_post env io p n db" "db' = posted_db env io p n db"
      "res = Inr \<lparr>pr_entry = io_entry_id io, pr_was_idempotent = False, pr_created = io_now io\<rparr> \<or>
       (\<exists>x. io_commit io = CommitLost x \<and> res = Inl (LDatabase x))"
    | (dup) e where "db' = db" "post_guard p = None"
      "find (same_key env (pp_key p)) (entries db) = Some e" "le_hash e = Some (params_hash env p)"
      "res = Inr \<lparr>pr_entry = le_id e, pr_was_idempotent = True, pr_created = le_created e * 1000\<rparr>"
    | (err) x where "db' = db" "res = Inl x"
proof -
  let ?ins = "case io_insert io of Some e \<Rightarrow> Inl e
     | None \<Rightarrow> insert_ledger_entry env p (params_hash env p) (io_entry_id io) (io_now io) (entries db)"
  note pe = assms [unfolded post_entry_def Let_def, folded params_hash_def]
  show thesis
  proof (cases "post_guard p = None \<and> io_begin io = None")
    case False
    with pe err show thesis by (auto split: option.splits)
  next
    case True
    show thesis
    proof (cases ?ins)
      case (Inr row)
      then obtain n where row: "row = posted_row env io p n" and ok: "convertible env p n"
          "\<forall>e \<in> set (entries db). le_id e \<noteq> io_entry_id io \<and> \<not> same_key env (pp_key p) e"
        by (auto simp: insert_ledger_entry_Inr posted_row_def split: option.splits)
      with pe True Inr have "post_commit env io p (posted_row env io p n) db = (res, db')"
        by auto
      then show thesis
        by (cases rule: post_commit_cases) (use new ok True err in \<open>auto simp: fresh_post_def\<close>)
    next
      case (Inl e)
      show thesis
      proof (cases "e = UniqueViolation")
        case True
        with pe Inl \<open>post_guard p = None \<and> io_begin io = None\<close>
        have r: "res = post_duplicate env io p (params_hash env p) db" "db' = db" by auto
        show thesis
        proof (cases res)
          case (Inl x)
          with r err show thesis by blast
        next
          case (Inr q)
          with r post_duplicate_Inr [of env io p "params_hash env p" db q] dup True
            \<open>post_guard p = None \<and> io_begin io = None\<close>
          show thesis by auto
        qed
      next
        case False
        with pe Inl True err show thesis by (cases e) auto
      qed
    qed
  qed
qed

section \<open>The invariant of the tables\<close>

text \<open>Entries older than the hash column have neither a hash nor an outbox row; every other entry
  has exactly one outbox row, written in the same order.\<close>

definition entry_wf :: "ledger_entry \<Rightarrow> bool" where
  "entry_wf e \<longleftrightarrow> 0 < le_amount e \<and> le_debit e \<noteq> le_credit e \<and>
     List.member supported_currencies (le_currency e)"

definition hashed :: "ledger_entry \<Rightarrow> bool" where
  "hashed e \<longleftrightarrow> le_hash e \<noteq> None"

definition ledger_wf :: "ledger_env \<Rightarrow> ledger_db \<Rightarrow> bool" where
  "ledger_wf env db \<longleftrightarrow>
     distinct (map le_id (entries db)) \<and>
     distinct (map (\<lambda>e. lv_coll env (le_key e)) (entries db)) \<and>
     (\<forall>e \<in> set (entries db). entry_wf e) \<and>
     distinct (map ob_id (outbox db)) \<and>
     map ob_entry (outbox db) = map le_id (filter hashed (entries db))"

definition extends :: "ledger_db \<Rightarrow> ledger_db \<Rightarrow> bool" where
  "extends db db' \<longleftrightarrow> prefix (entries db) (entries db') \<and> prefix (outbox db) (outbox db') \<and>
     snapshots db' = snapshots db"

lemma extends_refl [simp]: "extends db db"
  by (simp add: extends_def)

lemma extends_trans: "extends a b \<Longrightarrow> extends b c \<Longrightarrow> extends a c"
  unfolding extends_def by (auto intro: prefix_order.trans)

lemma posted_db_extends: "extends db (posted_db env io p n db)"
  by (simp add: extends_def posted_db_def)

lemma posted_db_wf:
  assumes "ledger_wf env db" and "fresh_post env io p n db"
  shows "ledger_wf env (posted_db env io p n db)"
  using assms
  by (auto simp: ledger_wf_def fresh_post_def posted_db_def posted_row_def posted_outbox_def
      entry_of_def entry_wf_def hashed_def post_guard_None convertible_def same_key_def)

lemma post_entry_extends:
  assumes "post_entry env io p db = (res, db')"
  shows "extends db db' \<and> (ledger_wf env db \<longrightarrow> ledger_wf env db')"
  using assms
  by (cases rule: post_entry_cases) (simp_all add: posted_db_extends posted_db_wf)

lemma run_posts_Cons:
  "run_posts env ((io, p) # calls) db = run_posts env calls (snd (post_entry env io p db))"
  by (simp add: run_posts_def)

lemma run_posts_extends:
  "extends db (run_posts env calls db) \<and> (ledger_wf env db \<longrightarrow> ledger_wf env (run_posts env calls db))"
proof (induction calls arbitrary: db)
  case Nil
  then show ?case by (simp add: run_posts_def)
next
  case (Cons c calls)
  obtain io p where c: "c = (io, p)" by force
  obtain res d where d: "post_entry env io p db = (res, d)" by force
  from post_entry_extends [OF d] Cons [of d] show ?case
    by (auto simp: c run_posts_Cons d intro: extends_trans)
qed

lemma find_same_key_unique:
  assumes "ledger_wf env db" and "e \<in> set (entries db)" and "same_key env k e"
  shows "find (same_key env k) (entries db) = Some e"
proof -
  have "find (\<lambda>x. lv_coll env (le_key x) = lv_coll env (le_key e)) (entries db) = Some e"
    using assms(1,2) by (intro find_distinct_key) (simp_all add: ledger_wf_def)
  with assms(3) show ?thesis
    by (simp add: same_key_def [abs_def])
qed

lemma find_same_key_extends:
  assumes "find (same_key env k) (entries db) = Some e" and "extends db db'"
  shows "find (same_key env k) (entries db') = Some e"
  using assms by (auto simp: extends_def prefix_def find_append)

text \<open>After a successful posting the entry of its key is the one that was answered.\<close>

lemma post_entry_Inr:
  assumes "ledger_wf env db" and "post_entry env io p db = (Inr r, db')"
  shows "\<exists>e. find (same_key env (pp_key p)) (entries db') = Some e \<and> le_id e = pr_entry r \<and>
    le_hash e = Some (params_hash env p) \<and> post_guard p = None"
  using assms(2)
proof (cases rule: post_entry_cases)
  case (new n)
  have "find (same_key env (pp_key p)) (entries db) = None"
    using new(1) by (simp add: fresh_post_def find_None_iff)
  with new show ?thesis
    by (auto simp: posted_db_def posted_row_def entry_of_def find_append same_key_def
        fresh_post_def)
qed auto

lemma post_entry_Inr_convertible:
  assumes "post_entry env io p db = (Inr r, db')"
    and "io_insert io \<noteq> Some UniqueViolation"
  shows "\<exists>n. convertible env p n"
proof (rule ccontr)
  assume a: "\<nexists>n. convertible env p n"
  have "insert_ledger_entry env p h i t es \<noteq> Inl UniqueViolation" for h i t es
    using a by (auto simp: insert_ledger_entry_dup)
  moreover have "\<nexists>row. insert_ledger_entry env p (params_hash env p) i t es = Inr row" for i t es
    using a by (auto simp: insert_ledger_entry_Inr)
  ultimately show False
    using assms unfolding post_entry_def Let_def params_hash_def [symmetric]
    by (auto split: option.splits sum.splits sqlx_error.splits)
qed

text \<open>A retry of a request whose key is taken by an entry with the same hash.\<close>

lemma post_entry_retry:
  assumes "find (same_key env (pp_key p)) (entries db) = Some e"
    and "post_guard p = None" and "convertible env p n"
    and "io_begin io = None" and "io_insert io = None" and "io_select io = None"
  shows "post_entry env io p db =
    ((case le_hash e of
        None \<Rightarrow> Inl (LDatabase (ColumnDecode ''payload_hash''))
      | Some h \<Rightarrow> if h = params_hash env p
          then Inr \<lparr>pr_entry = le_id e, pr_was_idempotent = True, pr_created = le_created e * 1000\<rparr>
          else Inl LIdempotencyMismatch), db)"
proof -
  from find_Some_in [OF assms(1)] have e: "e \<in> set (entries db)" "same_key env (pp_key p) e"
    by auto
  have "insert_ledger_entry env p (params_hash env p) (io_entry_id io) (io_now io) (entries db) =
      Inl UniqueViolation"
    using assms(2,3) e by (auto simp: insert_ledger_entry_dup post_guard_None)
  then show ?thesis
    using assms unfolding post_entry_def Let_def params_hash_def [symmetric]
    by (auto simp: post_duplicate_def same_key_def [abs_def] split: option.splits)
qed

section \<open>Properties\<close>

abbreviation demo_params :: "string \<Rightarrow> int \<Rightarrow> post_params" where
  "demo_params k n \<equiv> \<lparr>pp_debit = 1, pp_credit = 2, pp_amount = \<lparr>mant = n, dscale = 2\<rparr>,
     pp_currency = ''NGN'', pp_key = k, pp_payment = None, pp_metadata = None\<rparr>"

definition empty_db :: ledger_db where
  "empty_db = \<lparr>entries = [], outbox = [], snapshots = []\<rparr>"

lemma empty_db_wf: "ledger_wf env empty_db"
  by (simp add: ledger_wf_def empty_db_def)

lemmas demo_post_simps =
  post_entry_def post_guard_def insert_ledger_entry_def post_commit_def insert_outbox_def
  post_duplicate_def compute_payload_hash_def payload_preimage_def demo_env_def
  supported_currencies_def dec_less_def dec_zero_def round_half_even_def

text \<open>C1: The ledger's tables stay well formed under every sequence of postings by any callers,
  whatever calls to the engine fail: entry ids and idempotency keys (up to the collation) are
  unique, amounts are positive, no entry debits and credits one account, currencies are
  supported, every entry with a payload hash has exactly one outbox row and every outbox row an
  entry, in the same order; and the tables only grow at their end.\<close>

theorem postings_keep_ledger_wf:
  assumes "ledger_wf env db"
  shows "ledger_wf env (run_posts env calls db) \<and>
    prefix (entries db) (entries (run_posts env calls db)) \<and>
    prefix (outbox db) (outbox (run_posts env calls db))"
  using assms run_posts_extends [of db env calls] by (simp add: extends_def)

theorem postings_keep_ledger_wf_witness:
  "ledger_wf demo_env (run_posts demo_env
     [(good_io 7 5000 8 5, demo_params ''k1'' 500), (good_io 9 6000 10 6, demo_params ''k1'' 500)]
     empty_db)"
  using postings_keep_ledger_wf [OF empty_db_wf] by blast

text \<open>C2: A posting is atomic: on success either one entry with the request's accounts, currency,
  key and converted amount and its outbox row are added (and the answer names it), or nothing is
  and the answer names the existing entry of the key; on an error nothing is added, except when
  the connection was lost after the server had committed.\<close>

theorem post_entry_atomic:
  assumes "post_entry env io p db = (res, db')"
  shows "case res of
      Inl e \<Rightarrow> db' = db \<or> (\<exists>x. io_commit io = CommitLost x \<and> e = LDatabase x)
    | Inr r \<Rightarrow>
        if pr_was_idempotent r
        then db' = db \<and> (\<exists>e \<in> set (entries db). le_id e = pr_entry r \<and>
          lv_coll env (le_key e) = lv_coll env (pp_key p))
        else \<exists>row o_row. entries db' = entries db @ [row] \<and> outbox db' = outbox db @ [o_row] \<and>
          le_id row = pr_entry r \<and> ob_entry o_row = pr_entry r \<and> ob_published o_row = None \<and>
          le_debit row = pp_debit p \<and> le_credit row = pp_credit p \<and>
          lv_dec19 env (pp_amount p) = Some (le_amount row) \<and> 0 < le_amount row \<and>
          le_currency row = pp_currency p \<and> le_key row = pp_key p"
  using assms
proof (cases rule: post_entry_cases)
  case (new n)
  then show ?thesis
    by (auto simp: posted_db_def posted_row_def posted_outbox_def entry_of_def fresh_post_def
        convertible_def)
next
  case (dup e)
  with find_Some_in [OF dup(3)] show ?thesis
    by (auto simp: same_key_def)
qed auto

theorem post_entry_atomic_witness:
  "\<exists>row. entries (snd (post_entry demo_env (good_io 7 5000 8 5) (demo_params ''k1'' 500) empty_db))
     = [row] \<and> le_id row = 7 \<and> le_debit row = 1 \<and> le_credit row = 2"
proof -
  have "post_entry demo_env (good_io 7 5000 8 5) (demo_params ''k1'' 500) empty_db =
     (Inr \<lparr>pr_entry = 7, pr_was_idempotent = False, pr_created = 5000\<rparr>,
      snd (post_entry demo_env (good_io 7 5000 8 5) (demo_params ''k1'' 500) empty_db))"
    by (simp add: demo_post_simps empty_db_def)
  from post_entry_atomic [OF this] show ?thesis
    by (auto simp: empty_db_def)
qed

text \<open>C3: A retry is idempotent: once a request has been answered with an entry, and whatever
  has been posted by anyone in between, sending the same request again (with the engine up)
  changes no table and answers the same entry with \<open>was_idempotent\<close> set.\<close>

theorem retry_is_idempotent:
  assumes "ledger_wf env db"
    and "post_entry env io p db = (Inr r, db')" and "io_insert io \<noteq> Some UniqueViolation"
    and "io_begin io2 = None" and "io_insert io2 = None" and "io_select io2 = None"
  shows "\<exists>r2. post_entry env io2 p (run_posts env calls db') = (Inr r2, run_posts env calls db') \<and>
    pr_entry r2 = pr_entry r \<and> pr_was_idempotent r2"
proof -
  obtain e where e: "find (same_key env (pp_key p)) (entries db') = Some e"
      "le_id e = pr_entry r" "le_hash e = Some (params_hash env p)" "post_guard p = None"
    using post_entry_Inr [OF assms(1,2)] by blast
  obtain n where n: "convertible env p n"
    using post_entry_Inr_convertible [OF assms(2,3)] by blast
  have "find (same_key env (pp_key p)) (entries (run_posts env calls db')) = Some e"
    using find_same_key_extends [OF e(1)] run_posts_extends by blast
  from post_entry_retry [OF this e(4) n assms(4-6)] e show ?thesis by simp
qed

theorem retry_is_idempotent_witness:
  "\<exists>r2. post_entry demo_env (good_io 9 6000 10 6) (demo_params ''k1'' 500)
     (run_posts demo_env [(good_io 3 5500 4 6, demo_params ''k2'' 900)]
       (snd (post_entry demo_env (good_io 7 5000 8 5) (demo_params ''k1'' 500) empty_db))) =
     (Inr r2, run_posts demo_env [(good_io 3 5500 4 6, demo_params ''k2'' 900)]
       (snd (post_entry demo_env (good_io 7 5000 8 5) (demo_params ''k1'' 500) empty_db))) \<and>
     pr_entry r2 = 7 \<and> pr_was_idempotent r2"
proof -
  have "post_entry demo_env (good_io 7 5000 8 5) (demo_params ''k1'' 500) empty_db =
     (Inr \<lparr>pr_entry = 7, pr_was_idempotent = False, pr_created = 5000\<rparr>,
      snd (post_entry demo_env (good_io 7 5000 8 5) (demo_params ''k1'' 500) empty_db))"
    by (simp add: demo_post_simps empty_db_def)
  from retry_is_idempotent [OF empty_db_wf this] show ?thesis by simp
qed

lemma run_posts_same_params:
  assumes "ledger_wf env db" and "find (same_key env (pp_key p)) (entries db) = None"
    and "d = run_posts env (map (\<lambda>io. (io, p)) ios) db"
  shows "entries d = entries db \<or>
    (\<exists>io n. entries d = entries db @ [posted_row env io p n] \<and> convertible env p n)"
proof -
  have gen: "entries (run_posts env (map (\<lambda>io. (io, p)) js) d0) = entries d0"
    if "find (same_key env (pp_key p)) (entries d0) \<noteq> None" for d0 js
    using that
  proof (induction js arbitrary: d0)
    case (Cons io ios)
    obtain res d1 where d1: "post_entry env io p d0 = (res, d1)" by force
    then have "d1 = d0"
      by (cases rule: post_entry_cases) (use Cons.prems in \<open>auto simp: fresh_post_def find_None_iff\<close>)
    with Cons d1 show ?case by (simp add: run_posts_Cons)
  qed (simp add: run_posts_def)
  show ?thesis
    unfolding assms(3)
  proof (induction ios)
    case (Cons io ios)
    obtain res d1 where d1: "post_entry env io p db = (res, d1)" by force
    then show ?case
    proof (cases rule: post_entry_cases)
      case (new n)
      have "posted_row env io p n \<in> set (entries d1)" "same_key env (pp_key p) (posted_row env io p n)"
        using new(2) by (simp_all add: posted_db_def posted_row_def entry_of_def same_key_def)
      then have "find (same_key env (pp_key p)) (entries d1) \<noteq> None"
        unfolding find_None_iff by blast
      from gen [OF this] have "entries (run_posts env (map (\<lambda>io. (io, p)) (io # ios)) db) = entries d1"
        by (simp only: list.map run_posts_Cons d1 snd_conv)
      moreover have "entries d1 = entries db @ [posted_row env io p n]" "convertible env p n"
        using new(1,2) by (simp_all add: posted_db_def fresh_post_def)
      ultimately show ?thesis by auto
    next
      case (dup e)
      with Cons.IH d1 show ?thesis by (simp only: list.map run_posts_Cons snd_conv)
    next
      case (err x)
      with Cons.IH d1 show ?thesis by (simp only: list.map run_posts_Cons snd_conv)
    qed
  qed (simp add: run_posts_def)
qed

text \<open>C5: Retrying until an answer comes posts exactly once: a caller that sends one request over
  and over, through any failures of the engine (including commits whose answer was lost), until
  it gets an answer, has added exactly one entry to a ledger that did not have its key, with the
  request's accounts, currency and converted amount, and the answer names that entry.\<close>

theorem retries_post_exactly_once:
  assumes "ledger_wf env db"
    and "\<forall>e \<in> set (entries db). lv_coll env (le_key e) \<noteq> lv_coll env (pp_key p)"
    and "d = run_posts env (map (\<lambda>io. (io, p)) ios) db"
    and "post_entry env io p d = (Inr r, d')"
  shows "\<exists>e. entries d' = entries db @ [e] \<and> le_id e = pr_entry r \<and> le_debit e = pp_debit p \<and>
    le_credit e = pp_credit p \<and> le_currency e = pp_currency p \<and> le_key e = pp_key p \<and>
    lv_dec19 env (pp_amount p) = Some (le_amount e)"
proof -
  have d': "d' = run_posts env (map (\<lambda>io. (io, p)) (ios @ [io])) db"
    using assms(3,4) by (simp add: run_posts_def)
  have none: "find (same_key env (pp_key p)) (entries db) = None"
    using assms(2) by (auto simp: same_key_def find_None_iff)
  have "ledger_wf env d"
    using run_posts_extends assms(1,3) by blast
  from post_entry_Inr [OF this assms(4)] obtain e where
    e: "find (same_key env (pp_key p)) (entries d') = Some e" "le_id e = pr_entry r" by blast
  from run_posts_same_params [OF assms(1) none d'] none e(1) obtain io' n where
    "entries d' = entries db @ [posted_row env io' p n]" "convertible env p n"
    by auto
  with none e show ?thesis
    by (auto simp: find_append posted_row_def entry_of_def convertible_def split: if_splits)
qed

theorem retries_post_exactly_once_witness:
  "\<exists>e. entries (snd (post_entry demo_env (good_io 9 6000 10 6) (demo_params ''k1'' 500)
     (run_posts demo_env (map (\<lambda>io. (io, demo_params ''k1'' 500))
        [(good_io 7 5000 8 5)\<lparr>io_commit := CommitLost (SqlxOther ''eof'')\<rparr>]) empty_db))) = [e] \<and>
     le_id e = 7"
proof -
  let ?p = "demo_params ''k1'' 500"
  let ?d = "run_posts demo_env (map (\<lambda>io. (io, ?p))
        [(good_io 7 5000 8 5)\<lparr>io_commit := CommitLost (SqlxOther ''eof'')\<rparr>]) empty_db"
  have "post_entry demo_env (good_io 9 6000 10 6) ?p ?d =
     (Inr \<lparr>pr_entry = 7, pr_was_idempotent = True, pr_created = 5000\<rparr>,
      snd (post_entry demo_env (good_io 9 6000 10 6) ?p ?d))"
    by (simp add: demo_post_simps empty_db_def run_posts_def)
  from retries_post_exactly_once [OF empty_db_wf _ refl this] show ?thesis
    by (auto simp: empty_db_def)
qed

text \<open>C6: A key cannot be reused for another posting: a request that differs from the entry of its
  key in the debit account, the credit account, the currency or the printed amount (unless the two
  payloads collide under SHA-256) is refused and no table changes, whatever else it carries (its
  metadata, its payment) and whatever fails on the way.  The refusal is \<open>IdempotencyMismatch\<close> if the
  request itself passes the guards and fits the columns (a positive amount in range, a key that is
  not too long, metadata that is absent or JSON) and no statement fails; otherwise it may be the
  error of what is wrong.  The amounts are compared as printed, so \<open>5.0\<close> and \<open>5.00\<close> differ.\<close>

theorem reused_key_is_refused:
  assumes "ledger_wf env db" and "e \<in> set (entries db)"
    and "lv_coll env (le_key e) = lv_coll env (pp_key p)"
    and "le_hash e = Some (compute_payload_hash env d c a cur)"
    and "List.member supported_currencies cur"
    and "(d, c, lv_dec_show env a, cur) \<noteq>
      (pp_debit p, pp_credit p, lv_dec_show env (pp_amount p), pp_currency p)"
    and "\<And>x y. x = payload_preimage env d c a cur \<Longrightarrow>
      y = payload_preimage env (pp_debit p) (pp_credit p) (pp_amount p) (pp_currency p) \<Longrightarrow>
      lv_hex env (lv_sha256 env x) = lv_hex env (lv_sha256 env y) \<Longrightarrow> x = y"
  shows "(\<exists>err. post_entry env io p db = (Inl err, db)) \<and>
    (post_guard p = None \<and> lv_dec19 env (pp_amount p) = Some n \<and> 0 < n \<and> lv_varchar255 env (pp_key p) \<and>
     (\<forall>m. pp_metadata p = Some m \<longrightarrow> lv_json_ok env m) \<and>
     io_begin io = None \<and> io_insert io = None \<and> io_select io = None \<longrightarrow>
     post_entry env io p db = (Inl LIdempotencyMismatch, db))"
proof (intro conjI impI)
  have same: "same_key env (pp_key p) e"
    using assms(3) by (simp add: same_key_def)
  from find_same_key_unique [OF assms(1,2) this]
  have f: "find (same_key env (pp_key p)) (entries db) = Some e" .
  have hash: "compute_payload_hash env d c a cur \<noteq> params_hash env p" if "post_guard p = None"
  proof -
    have "List.member supported_currencies (pp_currency p)"
      using that by (simp add: post_guard_None)
    with assms(5,6) have "payload_preimage env d c a cur \<noteq>
        payload_preimage env (pp_debit p) (pp_credit p) (pp_amount p) (pp_currency p)"
      by (auto simp: payload_preimage_inject)
    with assms(7) show ?thesis
      unfolding compute_payload_hash_def params_hash_def by metis
  qed
  obtain res db' where post: "post_entry env io p db = (res, db')" by force
  then show "\<exists>err. post_entry env io p db = (Inl err, db)"
  proof (cases rule: post_entry_cases)
    case (new k)
    with assms(2) same show ?thesis by (auto simp: fresh_post_def)
  next
    case (dup q)
    with f assms(4) hash show ?thesis by simp
  next
    case (err x)
    with post show ?thesis by simp
  qed
  assume fine: "post_guard p = None \<and> lv_dec19 env (pp_amount p) = Some n \<and> 0 < n \<and> lv_varchar255 env (pp_key p) \<and>
     (\<forall>m. pp_metadata p = Some m \<longrightarrow> lv_json_ok env m) \<and>
     io_begin io = None \<and> io_insert io = None \<and> io_select io = None"
  then have "convertible env p n" by (simp add: convertible_def)
  with fine hash show "post_entry env io p db = (Inl LIdempotencyMismatch, db)"
    using post_entry_retry [OF f] assms(4) by simp
qed

lemma demo_hash_inject: "lv_hex demo_env (lv_sha256 demo_env x) = lv_hex demo_env (lv_sha256 demo_env y)
    \<Longrightarrow> x = y"
proof -
  assume "lv_hex demo_env (lv_sha256 demo_env x) = lv_hex demo_env (lv_sha256 demo_env y)"
  then have "lv_b64_encode demo_env x = lv_b64_encode demo_env y"
    by (simp add: demo_env_def)
  then show "x = y"
    using demo_b64 unfolding b64_ok_def by (metis option.inject)
qed

theorem reused_key_is_refused_witness:
  "post_entry demo_env (good_io 9 6000 10 6) (demo_params ''k1'' 700)
     (posted_db demo_env (good_io 7 5000 8 5) (demo_params ''k1'' 500) 50000 empty_db) =
   (Inl LIdempotencyMismatch,
    posted_db demo_env (good_io 7 5000 8 5) (demo_params ''k1'' 500) 50000 empty_db)"
proof -
  let ?p = "(demo_params ''k1'' 700)" and ?io = "good_io 9 6000 10 6"
  let ?db = "posted_db demo_env (good_io 7 5000 8 5) (demo_params ''k1'' 500) 50000 empty_db"
  have wf: "ledger_wf demo_env ?db"
    by (rule posted_db_wf [OF empty_db_wf])
      (simp add: fresh_post_def convertible_def empty_db_def demo_post_simps)
  have "(\<exists>err. post_entry demo_env ?io ?p ?db = (Inl err, ?db)) \<and>
    (post_guard ?p = None \<and> lv_dec19 demo_env (pp_amount ?p) = Some 70000 \<and> 0 < (70000 :: int) \<and>
     lv_varchar255 demo_env (pp_key ?p) \<and> (\<forall>m. pp_metadata ?p = Some m \<longrightarrow> lv_json_ok demo_env m) \<and>
     io_begin ?io = None \<and> io_insert ?io = None \<and> io_select ?io = None \<longrightarrow>
     post_entry demo_env ?io ?p ?db = (Inl LIdempotencyMismatch, ?db))"
    by (rule reused_key_is_refused [OF wf, where d = 1 and c = 2 and cur = "''NGN''"
          and a = "\<lparr>mant = 500, dscale = 2\<rparr>"
          and e = "posted_row demo_env (good_io 7 5000 8 5) (demo_params ''k1'' 500) 50000"])
      (simp_all add: posted_db_def posted_row_def entry_of_def params_hash_def demo_hash_inject
        supported_currencies_def,
       simp_all add: demo_env_def)
  moreover have "post_guard ?p = None" "lv_dec19 demo_env (pp_amount ?p) = Some 70000"
    by (simp_all add: post_guard_def supported_currencies_def dec_less_def dec_zero_def demo_env_def round_half_even_def)
  ultimately show ?thesis by (simp add: demo_env_def)
qed

end
