(* ===== verification/Ledger_Balance.thy ===== *)
theory Ledger_Balance
  imports Ledger_Posting
begin

text \<open>
  \<open>balance.rs\<close> of \<open>services/kova-ledger\<close>: the balance of an account, computed by one SELECT
  from the entries.  The abstract ledger is a function from account and currency to a number of
  ten-thousandths; the contract \<open>double_entry\<close> says what adding an entry does to balances, and
  the conservation of money follows from it alone.
\<close>

section \<open>The query\<close>

record balance_result =
  br_balance :: decimal
  br_count :: int
  br_as_of :: "datetime option"

definition account_rows :: "ledger_env \<Rightarrow> id16 \<Rightarrow> string \<Rightarrow> ledger_entry list \<Rightarrow> ledger_entry list" where
  "account_rows env a cur es =
     filter (\<lambda>e. (le_credit e = a \<or> le_debit e = a) \<and>
                 lv_coll env (le_currency e) = lv_coll env cur) es"

text \<open>\<open>SUM(credits) - SUM(debits)\<close>, each 0 on no row, and the cast to the column type.\<close>

definition balance_units :: "ledger_env \<Rightarrow> id16 \<Rightarrow> string \<Rightarrow> ledger_entry list \<Rightarrow> int" where
  "balance_units env a cur es =
     (let rows = account_rows env a cur es
      in sum_list (map le_amount (filter (\<lambda>e. le_credit e = a) rows))
         - sum_list (map le_amount (filter (\<lambda>e. le_debit e = a) rows)))"

fun max_created :: "ledger_entry list \<Rightarrow> int option" where
  "max_created [] = None"
| "max_created (e # es) =
     (case max_created es of None \<Rightarrow> Some (le_created e) | Some t \<Rightarrow> Some (max (le_created e) t))"

definition get_balance ::
  "ledger_env \<Rightarrow> sqlx_error option \<Rightarrow> id16 \<Rightarrow> string \<Rightarrow> ledger_db \<Rightarrow> ledger_error + balance_result" where
  "get_balance env fetch a cur db =
     (if \<not> List.member supported_currencies cur
      then Inl (LInvalidArgument (''unsupported currency: '' @ cur))
      else case fetch of
          Some e \<Rightarrow> Inl (LDatabase e)
        | None \<Rightarrow>
          Inr \<lparr>br_balance = dec_of_units (lv_cast19 env (balance_units env a cur (entries db))),
               br_count = int (length (account_rows env a cur (entries db))),
               br_as_of = map_option (\<lambda>t. t * 1000)
                 (max_created (account_rows env a cur (entries db)))\<rparr>)"

section \<open>The contract of double entry\<close>

locale double_entry =
  fixes bal :: "'s \<Rightarrow> 'a \<Rightarrow> int"
    and add :: "'s \<Rightarrow> 'e \<Rightarrow> 's"
    and debit :: "'e \<Rightarrow> 'a"
    and credit :: "'e \<Rightarrow> 'a"
    and amt :: "'e \<Rightarrow> int"
  assumes bal_add: "bal (add s e) x =
    bal s x + (if x = credit e then amt e else 0) - (if x = debit e then amt e else 0)"
begin

lemma add_conserves:
  assumes "finite A" and "debit e \<in> A" and "credit e \<in> A"
  shows "(\<Sum>x\<in>A. bal (add s e) x) = (\<Sum>x\<in>A. bal s x)"
  using assms by (simp add: bal_add sum.distrib sum_subtractf sum.delta)

lemma run_conserves:
  assumes "finite A" and "\<forall>e \<in> set es. debit e \<in> A \<and> credit e \<in> A"
  shows "(\<Sum>x\<in>A. bal (foldl add s es) x) = (\<Sum>x\<in>A. bal s x)"
  using assms by (induction es arbitrary: s) (simp_all add: add_conserves)

lemma bal_bounded:
  assumes "\<forall>e \<in> set es. 0 \<le> amt e"
  shows "\<bar>bal (foldl add s es) x - bal s x\<bar> \<le> sum_list (map amt es)"
  using assms
proof (induction es arbitrary: s)
  case (Cons e es)
  have "\<bar>bal (foldl add (add s e) es) x - bal (add s e) x\<bar> \<le> sum_list (map amt es)"
    using Cons by simp
  moreover have "\<bar>bal (add s e) x - bal s x\<bar> \<le> amt e"
    using Cons.prems by (simp add: bal_add)
  ultimately show ?case by simp
qed simp

end

text \<open>What an entry moves in a currency.\<close>

definition amount_in :: "ledger_env \<Rightarrow> string \<Rightarrow> ledger_entry \<Rightarrow> int" where
  "amount_in env cur e = (if lv_coll env (le_currency e) = lv_coll env cur then le_amount e else 0)"

interpretation entries_ledger:
  double_entry "\<lambda>es a. balance_units env a cur es" "\<lambda>es e. es @ [e]" le_debit le_credit
    "amount_in env cur" for env cur
  by unfold_locales (auto simp: balance_units_def account_rows_def amount_in_def Let_def)

lemma foldl_snoc: "foldl (\<lambda>es e. es @ [e]) xs ys = xs @ ys"
  by (induction ys arbitrary: xs) auto

lemma balance_units_Nil [simp]: "balance_units env a cur [] = 0"
  by (simp add: balance_units_def account_rows_def)

section \<open>The abstract ledger\<close>

type_synonym abs_ledger = "id16 \<Rightarrow> string \<Rightarrow> int"

definition abs_post :: "id16 \<Rightarrow> id16 \<Rightarrow> int \<Rightarrow> string \<Rightarrow> abs_ledger \<Rightarrow> abs_ledger" where
  "abs_post d c n cur L = (\<lambda>a k. L a k +
     (if k = cur then (if a = c then n else 0) - (if a = d then n else 0) else 0))"

definition abs_of :: "ledger_entry list \<Rightarrow> abs_ledger" where
  "abs_of es = foldl (\<lambda>L e. abs_post (le_debit e) (le_credit e) (le_amount e) (le_currency e) L)
     (\<lambda>a k. 0) es"

text \<open>The collation keeps the four currency codes apart.\<close>

definition coll_currencies_ok :: "ledger_env \<Rightarrow> bool" where
  "coll_currencies_ok env \<longleftrightarrow> distinct (map (lv_coll env) supported_currencies)"

lemma coll_currency_eq:
  assumes "coll_currencies_ok env" and "List.member supported_currencies x"
    and "List.member supported_currencies y"
  shows "lv_coll env x = lv_coll env y \<longleftrightarrow> x = y"
  using assms by (auto simp: coll_currencies_ok_def supported_currencies_def)

lemma balance_units_abs:
  assumes "coll_currencies_ok env" and "\<forall>e \<in> set es. entry_wf e"
    and "List.member supported_currencies cur"
  shows "balance_units env a cur es = abs_of es a cur"
  using assms(2)
proof (induction es rule: rev_induct)
  case (snoc e es)
  have "lv_coll env (le_currency e) = lv_coll env cur \<longleftrightarrow> le_currency e = cur"
    using coll_currency_eq [OF assms(1) _ assms(3)] snoc.prems by (simp add: entry_wf_def)
  with snoc show ?case
    by (simp add: entries_ledger.bal_add amount_in_def abs_of_def abs_post_def)
qed (simp add: abs_of_def)

text \<open>All the money that ever moved; a ledger below \<open>10 ^ 15\<close> units of currency never overflows
  the cast of a balance.\<close>

definition volume :: "ledger_entry list \<Rightarrow> int" where
  "volume es = sum_list (map le_amount es)"

lemma balance_units_bounded:
  assumes "\<forall>e \<in> set es. entry_wf e"
  shows "\<bar>balance_units env a cur es\<bar> \<le> volume es"
proof -
  have "\<forall>e \<in> set es. 0 \<le> amount_in env cur e"
    using assms by (auto simp: amount_in_def entry_wf_def intro: less_imp_le)
  then have "\<bar>balance_units env a cur es\<bar> \<le> sum_list (map (amount_in env cur) es)"
    using entries_ledger.bal_bounded [where es = es and s = "[]" and x = a and env = env and cur = cur]
    by (simp add: foldl_snoc)
  also have "\<dots> \<le> volume es"
    unfolding volume_def
    by (rule sum_list_mono) (use assms in \<open>auto simp: amount_in_def entry_wf_def\<close>)
  finally show ?thesis .
qed

lemma get_balance_Inr:
  assumes "cast19_ok env" and "\<forall>e \<in> set (entries db). entry_wf e" and "volume (entries db) < 10 ^ 19"
    and "get_balance env fetch a cur db = Inr r"
  shows "dec_val (br_balance r) = of_int (balance_units env a cur (entries db)) / 10 ^ 4 \<and>
    List.member supported_currencies cur"
proof -
  have "\<bar>balance_units env a cur (entries db)\<bar> < 10 ^ 19"
    using balance_units_bounded [OF assms(2)] assms(3) le_less_trans by blast
  then have "lv_cast19 env (balance_units env a cur (entries db)) =
      balance_units env a cur (entries db)"
    using assms(1) by (simp add: cast19_ok_def)
  with assms(4) show ?thesis
    by (auto simp: get_balance_def split: if_splits option.splits)
qed

section \<open>Properties\<close>

text \<open>C7: The balance the ledger reports is the balance of the abstract ledger: on tables that are
  well formed and below the column's range, an answer of \<open>get_balance\<close> is the sum of the credits
  less the sum of the debits of the account in the currency; and a posting of \<open>n\<close> changes the
  abstract ledger by taking \<open>n\<close> from the debit account and giving it to the credit account,
  in its currency, and nothing else.\<close>

theorem get_balance_refines:
  assumes "ledger_wf env db" and "cast19_ok env" and "coll_currencies_ok env"
    and "volume (entries db) < 10 ^ 19"
    and "get_balance env fetch a cur db = Inr b"
    and "post_entry env io p db = (Inr r, db')"
  shows "dec_val (br_balance b) = of_int (abs_of (entries db) a cur) / 10 ^ 4 \<and>
    (if pr_was_idempotent r then abs_of (entries db') = abs_of (entries db)
     else \<exists>n > 0. lv_dec19 env (pp_amount p) = Some n \<and> abs_of (entries db') =
       abs_post (pp_debit p) (pp_credit p) n (pp_currency p) (abs_of (entries db)))"
proof
  have wf: "\<forall>e \<in> set (entries db). entry_wf e"
    using assms(1) by (simp add: ledger_wf_def)
  show "dec_val (br_balance b) = of_int (abs_of (entries db) a cur) / 10 ^ 4"
    using get_balance_Inr [OF assms(2) wf assms(4,5)] balance_units_abs [OF assms(3) wf, of cur a]
    by simp
  show "if pr_was_idempotent r then abs_of (entries db') = abs_of (entries db)
     else \<exists>n > 0. lv_dec19 env (pp_amount p) = Some n \<and> abs_of (entries db') =
       abs_post (pp_debit p) (pp_credit p) n (pp_currency p) (abs_of (entries db))"
    using assms(6)
    by (cases rule: post_entry_cases)
      (auto simp: posted_db_def posted_row_def entry_of_def abs_of_def fresh_post_def
        convertible_def)
qed

theorem get_balance_refines_witness:
  "abs_of (entries (snd (post_entry demo_env (good_io 7 5000 8 5) (demo_params ''k1'' 500) empty_db))) =
   abs_post 1 2 50000 ''NGN'' (abs_of [])"
proof -
  have post: "post_entry demo_env (good_io 7 5000 8 5) (demo_params ''k1'' 500) empty_db =
     (Inr \<lparr>pr_entry = 7, pr_was_idempotent = False, pr_created = 5000\<rparr>,
      snd (post_entry demo_env (good_io 7 5000 8 5) (demo_params ''k1'' 500) empty_db))"
    by (simp add: demo_post_simps empty_db_def)
  have bal: "get_balance demo_env None 1 ''NGN'' empty_db = Inr \<lparr>br_balance = dec_of_units 0,
      br_count = 0, br_as_of = None\<rparr>"
    by (simp add: get_balance_def supported_currencies_def demo_env_def empty_db_def
        balance_units_def account_rows_def)
  have coll: "coll_currencies_ok demo_env"
    by (simp add: coll_currencies_ok_def demo_env_def supported_currencies_def)
  have vol: "volume (entries empty_db) < 10 ^ 19"
    by (simp add: volume_def empty_db_def)
  have amt: "lv_dec19 demo_env (pp_amount (demo_params ''k1'' 500)) = Some 50000"
    by (simp add: demo_env_def round_half_even_def)
  have nil: "entries empty_db = []"
    by (simp add: empty_db_def)
  from get_balance_refines [OF empty_db_wf demo_env_ok(2) coll vol bal post] show ?thesis
    unfolding amt nil by simp
qed

text \<open>C8: Money is conserved: whatever was posted, the balances of all accounts in one currency
  add up to zero, for any finite set of accounts that contains those of the entries.\<close>

theorem balances_sum_to_zero:
  assumes "ledger_wf env db" and "cast19_ok env" and "volume (entries db) < 10 ^ 19"
    and "finite A" and "\<forall>e \<in> set (entries db). le_debit e \<in> A \<and> le_credit e \<in> A"
    and "\<forall>a \<in> A. get_balance env (fetch a) a cur db = Inr (B a)"
  shows "(\<Sum>a\<in>A. dec_val (br_balance (B a))) = 0"
proof -
  have wf: "\<forall>e \<in> set (entries db). entry_wf e"
    using assms(1) by (simp add: ledger_wf_def)
  have "(\<Sum>a\<in>A. balance_units env a cur (entries db)) = 0"
    using entries_ledger.run_conserves [OF assms(4,5), where s = "[]" and env = env and cur = cur]
    by (simp add: foldl_snoc)
  moreover have "(\<Sum>a\<in>A. dec_val (br_balance (B a))) =
      (\<Sum>a\<in>A. of_int (balance_units env a cur (entries db)) / 10 ^ 4)"
    using get_balance_Inr [OF assms(2) wf assms(3)] assms(6) by (intro sum.cong) auto
  ultimately show ?thesis
    by (simp only: sum_divide_distrib [symmetric] of_int_sum [symmetric] of_int_0 div_0)
qed

definition demo_db :: ledger_db where
  "demo_db = posted_db demo_env (good_io 7 5000 8 5) (demo_params ''k1'' 500) 50000 empty_db"

lemma demo_db_wf: "ledger_wf demo_env demo_db"
  unfolding demo_db_def
  by (rule posted_db_wf [OF empty_db_wf])
    (simp add: fresh_post_def convertible_def empty_db_def demo_post_simps)

lemma demo_db_entries:
  "entries demo_db = [\<lparr>le_id = 7, le_debit = 1, le_credit = 2, le_amount = 50000,
     le_currency = ''NGN'', le_key = ''k1'', le_hash = Some (params_hash demo_env (demo_params ''k1'' 500)),
     le_payment = None, le_metadata = None, le_created = 5\<rparr>]"
  by (simp add: demo_db_def posted_db_def posted_row_def entry_of_def empty_db_def)
    (simp add: demo_env_def)

theorem balances_sum_to_zero_witness:
  "(\<Sum>a\<in>{1, 2::id16}. dec_val (br_balance (projr (get_balance demo_env None a ''NGN'' demo_db)))) = 0 \<and>
   dec_val (br_balance (projr (get_balance demo_env None 2 ''NGN'' demo_db))) = 5"
proof
  show "(\<Sum>a\<in>{1, 2::id16}. dec_val (br_balance (projr (get_balance demo_env None a ''NGN'' demo_db)))) = 0"
    by (rule balances_sum_to_zero [OF demo_db_wf demo_env_ok(2), where fetch = "\<lambda>a. None" and cur = "''NGN''"])
      (simp_all add: demo_db_entries volume_def get_balance_def supported_currencies_def)
qed (simp add: get_balance_def supported_currencies_def balance_units_def account_rows_def
      demo_db_entries, simp add: demo_env_def)

end
