(* ===== verification/Kafka.thy ===== *)
theory Kafka
  imports Prelude
begin

text \<open>
  \<open>crates/kova-kafka\<close>: the producer with its retries, and the consumer's decoding and commit.

  The client library \<open>rdkafka\<close> and the broker behind it are outside the repository: the answer of
  the \<open>n\<close>-th call of \<open>send\<close> is an argument, \<open>script n\<close>.  A failed send says whether the message
  was appended all the same (a request can time out after the broker has written it).
  \<open>kafka_world\<close> records what the broker has in its log, in order, how often it was called, and
  how long the producer slept.
\<close>

section \<open>Errors\<close>

datatype rd_code =
    MessageTimedOut
  | QueueFull
  | BrokerTransportFailure
  | NetworkException
  | RequestTimedOut
  | OtherCode string

datatype rd_error = MessageProduction rd_code | OtherRdError string

datatype kafka_error =
    KRdkafka rd_error
  | KSerialize string
  | KRetriesExhausted nat string
  | KDeserialize string string
  | KCommitFailed rd_error

fun kafka_error_display :: "(rd_error \<Rightarrow> string) \<Rightarrow> kafka_error \<Rightarrow> string" where
  "kafka_error_display sh (KRdkafka e) = ''kafka error: '' @ sh e"
| "kafka_error_display sh (KSerialize m) = ''serialization error: '' @ m"
| "kafka_error_display sh (KRetriesExhausted n l) =
     ''publish failed after '' @ show_nat n @ '' attempts: '' @ l"
| "kafka_error_display sh (KDeserialize t m) = ''deserialization error on topic '' @ t @ '': '' @ m"
| "kafka_error_display sh (KCommitFailed e) = ''offset commit failed: '' @ sh e"

fun is_transient :: "rd_error \<Rightarrow> bool" where
  "is_transient (MessageProduction MessageTimedOut) = True"
| "is_transient (MessageProduction QueueFull) = True"
| "is_transient (MessageProduction BrokerTransportFailure) = True"
| "is_transient (MessageProduction NetworkException) = True"
| "is_transient (MessageProduction RequestTimedOut) = True"
| "is_transient _ = False"

section \<open>The producer\<close>

definition max_retries :: nat where "max_retries = 3"

definition base_backoff_ms :: nat where "base_backoff_ms = 50"

text \<open>The configuration, in the order the calls of \<open>set\<close> come.\<close>

definition producer_config :: "string \<Rightarrow> (string \<times> string) list" where
  "producer_config brokers =
     [(''bootstrap.servers'', brokers), (''acks'', ''all''), (''enable.idempotence'', ''true''),
      (''message.send.max.retries'', ''5''), (''linger.ms'', ''5''), (''compression.type'', ''snappy'')]"

record kafka_msg =
  km_topic :: string
  km_key :: string
  km_payload :: "byte list"

record kafka_world =
  kw_log :: "kafka_msg list"
  kw_calls :: nat
  kw_slept :: nat

datatype send_outcome = SendOk | SendErr rd_error bool

definition kafka_send ::
  "(nat \<Rightarrow> send_outcome) \<Rightarrow> kafka_msg \<Rightarrow> kafka_world \<Rightarrow> send_outcome \<times> kafka_world" where
  "kafka_send script msg w =
     (let r = script (kw_calls w);
          written = (case r of SendOk \<Rightarrow> True | SendErr e b \<Rightarrow> b)
      in (r, w\<lparr>kw_calls := kw_calls w + 1,
               kw_log := (if written then kw_log w @ [msg] else kw_log w)\<rparr>))"

text \<open>\<open>for attempt in 1..=MAX_RETRIES\<close>, over the attempts that are left.\<close>

fun publish_attempts ::
  "(rd_error \<Rightarrow> string) \<Rightarrow> (nat \<Rightarrow> send_outcome) \<Rightarrow> kafka_msg \<Rightarrow> nat list \<Rightarrow> string \<Rightarrow> kafka_world
    \<Rightarrow> (kafka_error + unit) \<times> kafka_world" where
  "publish_attempts sh script msg [] last_err w = (Inl (KRetriesExhausted max_retries last_err), w)"
| "publish_attempts sh script msg (attempt # rest) last_err w =
     (case kafka_send script msg w of
        (SendOk, w') \<Rightarrow> (Inr (), w')
      | (SendErr e b, w') \<Rightarrow>
        if is_transient e
        then publish_attempts sh script msg rest (sh e)
               (w'\<lparr>kw_slept := kw_slept w' + base_backoff_ms * 2 ^ (attempt - 1)\<rparr>)
        else (Inl (KRdkafka e), w'))"

text \<open>\<open>publish\<close>: the event is serialised first; \<open>to_vec\<close> is \<open>serde_json::to_vec\<close>.\<close>

definition kafka_publish ::
  "('e \<Rightarrow> string + byte list) \<Rightarrow> (rd_error \<Rightarrow> string) \<Rightarrow> (nat \<Rightarrow> send_outcome)
    \<Rightarrow> string \<Rightarrow> string \<Rightarrow> 'e \<Rightarrow> kafka_world \<Rightarrow> (kafka_error + unit) \<times> kafka_world" where
  "kafka_publish to_vec sh script topic key event w =
     (case to_vec event of
        Inl m \<Rightarrow> (Inl (KSerialize m), w)
      | Inr payload \<Rightarrow>
        publish_attempts sh script \<lparr>km_topic = topic, km_key = key, km_payload = payload\<rparr>
          [1 ..< max_retries + 1] [] w)"

section \<open>The consumer\<close>

definition consumer_config :: "string \<Rightarrow> string \<Rightarrow> (string \<times> string) list" where
  "consumer_config brokers group_id =
     [(''bootstrap.servers'', brokers), (''group.id'', group_id), (''enable.auto.commit'', ''false''),
      (''auto.offset.reset'', ''earliest''), (''session.timeout.ms'', ''10000''),
      (''fetch.min.bytes'', ''1'')]"

record owned_msg =
  om_topic :: string
  om_partition :: nat
  om_offset :: nat
  om_payload :: "byte list option"

text \<open>One item of the stream: a message of the client library, decoded; \<open>from_slice\<close> is
  \<open>serde_json::from_slice\<close>.\<close>

definition consume_item ::
  "(byte list \<Rightarrow> string + 'e) \<Rightarrow> rd_error + owned_msg \<Rightarrow> kafka_error + ('e \<times> owned_msg)" where
  "consume_item from_slice r =
     rbind (map_err KRdkafka r) (\<lambda>msg.
       let payload = (case om_payload msg of None \<Rightarrow> [] | Some p \<Rightarrow> p)
       in rbind (map_err (KDeserialize (om_topic msg)) (from_slice payload)) (\<lambda>ev. Inr (ev, msg)))"

text \<open>The client library's offset store, and what the broker has committed: each a list of topic,
  partition and message offset, oldest first.  The two outcomes are arguments.\<close>

record consumer_state =
  cs_stored :: "(string \<times> nat \<times> nat) list"
  cs_committed :: "(string \<times> nat \<times> nat) list"

definition commit_offset ::
  "rd_error option \<Rightarrow> rd_error option \<Rightarrow> owned_msg \<Rightarrow> consumer_state
    \<Rightarrow> (kafka_error + unit) \<times> consumer_state" where
  "commit_offset store commit msg s =
     (case store of
        Some e \<Rightarrow> (Inl (KCommitFailed e), s)
      | None \<Rightarrow>
        let s' = s\<lparr>cs_stored := cs_stored s @ [(om_topic msg, om_partition msg, om_offset msg)]\<rparr>
        in case commit of
             Some e \<Rightarrow> (Inl (KCommitFailed e), s')
           | None \<Rightarrow> (Inr (), s'\<lparr>cs_committed := cs_stored s'\<rparr>))"

section \<open>Lemmas\<close>

definition sum_backoff :: "nat list \<Rightarrow> nat" where
  "sum_backoff as = sum_list (map (\<lambda>a. base_backoff_ms * 2 ^ (a - 1)) as)"

lemma kafka_send_log:
  assumes "kafka_send script msg w = (r, w')"
  shows "kw_calls w' = kw_calls w + 1 \<and> kw_slept w' = kw_slept w \<and>
    (kw_log w' = kw_log w \<or> kw_log w' = kw_log w @ [msg]) \<and>
    (r = SendOk \<longrightarrow> kw_log w' = kw_log w @ [msg]) \<and> r = script (kw_calls w)"
  using assms by (auto simp: kafka_send_def Let_def split: send_outcome.splits)

text \<open>What a publish adds to the log: copies of its own message, at most one for each attempt, at
  least one when it succeeds.\<close>

lemma publish_attempts_log:
  assumes "publish_attempts sh script msg as l w = (res, w')"
  shows "\<exists>k \<le> length as. kw_log w' = kw_log w @ replicate k msg \<and>
    (res = Inr () \<longrightarrow> 0 < k) \<and> kw_calls w' \<le> kw_calls w + length as \<and>
    kw_slept w' \<le> kw_slept w + sum_backoff as"
  using assms
proof (induction as arbitrary: l w)
  case Nil
  then show ?case by (auto simp: sum_backoff_def)
next
  case (Cons a as)
  obtain r v where v: "kafka_send script msg w = (r, v)" by force
  note log = kafka_send_log [OF v]
  show ?case
  proof (cases "\<exists>e b. r = SendErr e b \<and> is_transient e")
    case True
    then obtain e b where e: "r = SendErr e b" "is_transient e" by blast
    let ?v = "v\<lparr>kw_slept := kw_slept v + base_backoff_ms * 2 ^ (a - 1)\<rparr>"
    have "publish_attempts sh script msg as (sh e) ?v = (res, w')"
      using Cons.prems v e by simp
    from Cons.IH [OF this] obtain k where k: "k \<le> length as"
        "kw_log w' = kw_log v @ replicate k msg" "res = Inr () \<longrightarrow> 0 < k"
        "kw_calls w' \<le> kw_calls v + length as"
        "kw_slept w' \<le> kw_slept v + base_backoff_ms * 2 ^ (a - 1) + sum_backoff as"
      by auto
    have s: "sum_backoff (a # as) = base_backoff_ms * 2 ^ (a - 1) + sum_backoff as"
      by (simp add: sum_backoff_def)
    from log consider "kw_log v = kw_log w" | "kw_log v = kw_log w @ [msg]" by blast
    then show ?thesis
    proof cases
      case 1
      with k log s show ?thesis by (intro exI [of _ k]) auto
    next
      case 2
      with k log s show ?thesis by (intro exI [of _ "Suc k"]) auto
    qed
  next
    case False
    with Cons.prems v have "w' = v \<and> (res = Inr () \<longrightarrow> r = SendOk)"
      by (cases r) auto
    then have v': "w' = v" "res = Inr () \<Longrightarrow> kw_log v = kw_log w @ [msg]"
      using log by auto
    show ?thesis
    proof (cases "kw_log v = kw_log w @ [msg]")
      case True
      with log v' show ?thesis by (intro exI [of _ 1]) auto
    next
      case False
      with log v' show ?thesis by (intro exI [of _ 0]) auto
    qed
  qed
qed

text \<open>The first success comes at the \<open>n\<close>-th send from the \<open>c\<close>-th on, after transient errors only.\<close>

definition first_ok :: "(nat \<Rightarrow> send_outcome) \<Rightarrow> nat \<Rightarrow> nat \<Rightarrow> bool" where
  "first_ok script c n \<longleftrightarrow> script (c + n) = SendOk \<and>
     (\<forall>m < n. \<exists>e b. script (c + m) = SendErr e b \<and> is_transient e)"

lemma first_ok_shift:
  assumes "script c = SendErr e b"
  shows "(\<exists>n < Suc k. first_ok script c n) \<longleftrightarrow>
    is_transient e \<and> (\<exists>n < k. first_ok script (Suc c) n)"
proof -
  have "first_ok script c (Suc n) \<longleftrightarrow> is_transient e \<and> first_ok script (Suc c) n" for n
    using assms by (auto simp: first_ok_def All_less_Suc2)
  moreover have "\<not> first_ok script c 0"
    using assms by (simp add: first_ok_def)
  ultimately show ?thesis
    unfolding Ex_less_Suc2 by blast
qed

lemma publish_attempts_ok_iff:
  "fst (publish_attempts sh script msg as l w) = Inr () \<longleftrightarrow>
    (\<exists>n < length as. first_ok script (kw_calls w) n)"
proof (induction as arbitrary: l w)
  case Nil
  then show ?case by simp
next
  case (Cons a as)
  obtain r v where v: "kafka_send script msg w = (r, v)" by force
  note log = kafka_send_log [OF v]
  show ?case
  proof (cases r)
    case SendOk
    then have "first_ok script (kw_calls w) 0"
      using log by (simp add: first_ok_def)
    with SendOk v show ?thesis by auto
  next
    case (SendErr e b)
    then have "script (kw_calls w) = SendErr e b" using log by simp
    from first_ok_shift [where script = script and c = "kw_calls w" and k = "length as", OF this]
    show ?thesis
      using v SendErr log by (cases "is_transient e") (simp_all add: Cons.IH)
  qed
qed

section \<open>Properties\<close>

text \<open>C31: A publish succeeds exactly when one of its three sends is acknowledged after transient
  errors only, and then the message is in the broker's log; whatever happens it appends nothing
  but copies of its own message, at most three, sends at most three times and sleeps at most
  350 ms (50, 100 and 200), so a caller never waits longer.\<close>

theorem publish_delivers:
  assumes "to_vec ev = Inr payload"
    and "kafka_publish to_vec sh script topic key ev w = (res, w')"
  shows "(res = Inr () \<longleftrightarrow> (\<exists>n < 3. first_ok script (kw_calls w) n)) \<and>
    (\<exists>k \<le> 3. kw_log w' = kw_log w @
        replicate k \<lparr>km_topic = topic, km_key = key, km_payload = payload\<rparr> \<and>
      (res = Inr () \<longrightarrow> 0 < k)) \<and>
    kw_calls w' \<le> kw_calls w + 3 \<and> kw_slept w' \<le> kw_slept w + 350"
proof -
  let ?as = "[1 ..< max_retries + 1]"
  have p: "publish_attempts sh script \<lparr>km_topic = topic, km_key = key, km_payload = payload\<rparr>
      ?as [] w = (res, w')"
    using assms by (simp add: kafka_publish_def)
  have l: "length ?as = 3" "sum_backoff ?as = 350"
    by (simp_all add: max_retries_def sum_backoff_def base_backoff_ms_def upt_rec)
  show ?thesis
    using publish_attempts_log [OF p] publish_attempts_ok_iff [of sh script _ ?as "[]" w] p
    unfolding l by (metis fst_conv)
qed

theorem publish_delivers_witness:
  "\<exists>w. kafka_publish Inr (\<lambda>e. []) (\<lambda>n. if n = 0 then SendErr (MessageProduction QueueFull) False else SendOk)
     ''t'' ''k'' [1] \<lparr>kw_log = [], kw_calls = 0, kw_slept = 0\<rparr> = (Inr (), w) \<and>
     kw_slept w = 50 \<and> kw_slept w \<le> 350"
proof -
  let ?s = "\<lambda>n. if n = 0 then SendErr (MessageProduction QueueFull) False else SendOk"
  let ?w = "\<lparr>kw_log = [\<lparr>km_topic = ''t'', km_key = ''k'', km_payload = [1]\<rparr>], kw_calls = 2, kw_slept = 50\<rparr>"
  have "kafka_publish Inr (\<lambda>e. []) ?s ''t'' ''k'' [1] \<lparr>kw_log = [], kw_calls = 0, kw_slept = 0\<rparr> =
      (Inr (), ?w)"
    by (simp add: kafka_publish_def kafka_send_def max_retries_def base_backoff_ms_def upt_rec)
  from publish_delivers [OF refl this] this show ?thesis by auto
qed

end
