(* ===== verification/Ledger_Outbox.thy ===== *)
theory Ledger_Outbox
  imports Ledger_Balance Kafka "HOL-Library.Multiset"
begin

text \<open>
  \<open>outbox.rs\<close> of \<open>services/kova-ledger\<close>: the worker that publishes the outbox rows.  A publisher
  is a function that may change the world it publishes to (type variable \<open>'w\<close>); the contract
  \<open>outbox_publisher\<close> is what the worker relies on, and the Kafka publisher meets it.

  One round of the worker, \<open>process_batch\<close>, is one transaction: the rows it marks become visible
  with the commit, and an error on the way drops the transaction, so that no mark is kept while
  what was published stays published.  Rows locked by another replica are skipped.
\<close>

section \<open>Publishers\<close>

type_synonym 'w publisher = "string \<Rightarrow> string \<Rightarrow> json \<Rightarrow> 'w \<Rightarrow> (ledger_error + unit) \<times> 'w"

definition noop_publish :: "'w publisher" where
  "noop_publish topic key payload w = (Inr (), w)"

definition kafka_outbox_publish ::
  "(json \<Rightarrow> string + byte list) \<Rightarrow> (rd_error \<Rightarrow> string) \<Rightarrow> (nat \<Rightarrow> send_outcome) \<Rightarrow> kafka_world publisher" where
  "kafka_outbox_publish to_vec sh script topic key payload w =
     (case kafka_publish to_vec sh script topic key payload w of
        (r, w') \<Rightarrow> (map_err (\<lambda>e. LInternal (kafka_error_display sh e)) r, w'))"

section \<open>One batch\<close>

datatype batch_error = BatchDb sqlx_error | BatchPublish ledger_error

text \<open>The engine's part in a round.  The order of rows with equal \<open>created_at\<close> is up to the engine,
  so the order is an argument too.\<close>

record batch_io =
  bi_begin :: "sqlx_error option"
  bi_select :: "sqlx_error option"
  bi_order :: "outbox_row list \<Rightarrow> outbox_row list"
  bi_locked :: "id16 \<Rightarrow> bool"
  bi_update :: "id16 \<Rightarrow> sqlx_error option"
  bi_now :: int
  bi_commit :: commit_outcome

definition order_ok :: "(outbox_row list \<Rightarrow> outbox_row list) \<Rightarrow> bool" where
  "order_ok f \<longleftrightarrow> (\<forall>xs. mset (f xs) = mset xs \<and> sorted (map ob_created (f xs)))"

definition pending :: "batch_io \<Rightarrow> outbox_row list \<Rightarrow> outbox_row list" where
  "pending io obs = filter (\<lambda>r. ob_published r = None \<and> \<not> bi_locked io (ob_id r)) obs"

definition batch_rows :: "batch_io \<Rightarrow> outbox_row list \<Rightarrow> outbox_row list" where
  "batch_rows io obs = take 10 (bi_order io (pending io obs))"

text \<open>The loop over the rows: publish, then mark.  The result lists the ids marked in the
  transaction.\<close>

fun publish_rows ::
  "ledger_env \<Rightarrow> 'w publisher \<Rightarrow> (id16 \<Rightarrow> sqlx_error option) \<Rightarrow> outbox_row list \<Rightarrow> id16 list \<Rightarrow> 'w
    \<Rightarrow> (batch_error + id16 list) \<times> 'w" where
  "publish_rows env publish upd [] marked w = (Inr marked, w)"
| "publish_rows env publish upd (r # rs) marked w =
     (case publish (ob_topic r) (lv_hex env (id_bytes (ob_entry r))) (ob_payload r) w of
        (Inl e, w') \<Rightarrow> (Inl (BatchPublish e), w')
      | (Inr _, w') \<Rightarrow>
        (case upd (ob_id r) of
           Some e \<Rightarrow> (Inl (BatchDb e), w')
         | None \<Rightarrow> publish_rows env publish upd rs (marked @ [ob_id r]) w'))"

definition mark_published :: "int \<Rightarrow> id16 list \<Rightarrow> outbox_row list \<Rightarrow> outbox_row list" where
  "mark_published now ids obs =
     update_where (\<lambda>r. List.member ids (ob_id r)) (\<lambda>r. r\<lparr>ob_published := Some now\<rparr>) obs"

definition process_batch ::
  "ledger_env \<Rightarrow> 'w publisher \<Rightarrow> batch_io \<Rightarrow> ledger_db \<Rightarrow> 'w
    \<Rightarrow> (batch_error + nat) \<times> ledger_db \<times> 'w" where
  "process_batch env publish io db w =
     (case bi_begin io of
        Some e \<Rightarrow> (Inl (BatchDb e), db, w)
      | None \<Rightarrow>
        (case bi_select io of
           Some e \<Rightarrow> (Inl (BatchDb e), db, w)
         | None \<Rightarrow>
           (let rows = batch_rows io (outbox db)
            in if rows = [] then (Inr 0, db, w)
               else case publish_rows env publish (bi_update io) rows [] w of
                   (Inl e, w') \<Rightarrow> (Inl e, db, w')
                 | (Inr ids, w') \<Rightarrow>
                   (let db' = db\<lparr>outbox := mark_published (bi_now io) ids (outbox db)\<rparr>
                    in case bi_commit io of
                         CommitDone \<Rightarrow> (Inr (length rows), db', w')
                       | CommitRefused e \<Rightarrow> (Inl (BatchDb e), db, w')
                       | CommitLost e \<Rightarrow> (Inl (BatchDb e), db', w')))))"

section \<open>The worker loop\<close>

text \<open>What a round's result does to the error counter, and how many milliseconds the worker then
  sleeps.\<close>

definition worker_after :: "batch_error + nat \<Rightarrow> 32 word \<Rightarrow> 32 word \<times> nat" where
  "worker_after r errs =
     (case r of
        Inr n \<Rightarrow> (0, if n = 0 then 100 else 0)
      | Inl e \<Rightarrow>
        (let errs' = errs + 1; backoff = min (2 ^ unat (min errs' 5)) 30
         in (errs', backoff * 1000)))"

fun run_outbox_worker ::
  "ledger_env \<Rightarrow> 'w publisher \<Rightarrow> batch_io list \<Rightarrow> 32 word \<Rightarrow> ledger_db \<Rightarrow> 'w
    \<Rightarrow> nat list \<times> ledger_db \<times> 'w" where
  "run_outbox_worker env publish [] errs db w = ([], db, w)"
| "run_outbox_worker env publish (io # ios) errs db w =
     (case process_batch env publish io db w of
        (r, db', w') \<Rightarrow>
          (case worker_after r errs of
             (errs', slept) \<Rightarrow>
               (case run_outbox_worker env publish ios errs' db' w' of
                  (ss, db'', w'') \<Rightarrow> (slept # ss, db'', w''))))"

section \<open>The contract of a publisher\<close>

locale outbox_publisher =
  fixes publish :: "string \<Rightarrow> string \<Rightarrow> json \<Rightarrow> 'w \<Rightarrow> (ledger_error + unit) \<times> 'w"
    and delivered :: "'w \<Rightarrow> string \<Rightarrow> string \<Rightarrow> json \<Rightarrow> bool"
  assumes ok_delivers: "publish t k p w = (Inr (), w') \<Longrightarrow> delivered w' t k p"
    and keeps_delivered: "publish t k p w = (r, w') \<Longrightarrow> delivered w t2 k2 p2 \<Longrightarrow> delivered w' t2 k2 p2"
begin

definition row_delivered :: "ledger_env \<Rightarrow> 'w \<Rightarrow> outbox_row \<Rightarrow> bool" where
  "row_delivered env w r \<longleftrightarrow> delivered w (ob_topic r) (lv_hex env (id_bytes (ob_entry r))) (ob_payload r)"

lemma publish_rows_keeps:
  assumes "publish_rows env publish upd rs marked w = (res, w')" and "row_delivered env w r"
  shows "row_delivered env w' r"
  using assms
proof (induction rs arbitrary: marked w)
  case (Cons x xs)
  obtain q v where v: "publish (ob_topic x) (lv_hex env (id_bytes (ob_entry x))) (ob_payload x) w = (q, v)"
    by force
  have "row_delivered env v r"
    using keeps_delivered [OF v] Cons.prems(2) by (simp add: row_delivered_def)
  with Cons v show ?case by (auto split: sum.splits option.splits)
qed simp

lemma publish_rows_ok:
  assumes "publish_rows env publish upd rs marked w = (Inr ids, w')"
  shows "ids = marked @ map ob_id rs \<and> (\<forall>r \<in> set rs. row_delivered env w' r)"
  using assms
proof (induction rs arbitrary: marked w)
  case (Cons x xs)
  obtain q v where v: "publish (ob_topic x) (lv_hex env (id_bytes (ob_entry x))) (ob_payload x) w = (q, v)"
    by force
  with Cons.prems have q: "q = Inr ()" and u: "upd (ob_id x) = None"
    and rest: "publish_rows env publish upd xs (marked @ [ob_id x]) v = (Inr ids, w')"
    by (auto split: sum.splits option.splits)
  have "row_delivered env v x"
    using ok_delivers v q by (simp add: row_delivered_def)
  from publish_rows_keeps [OF rest this] Cons.IH [OF rest] show ?case by simp
qed simp

text \<open>The invariant of the worker: whatever is marked has been delivered.\<close>

definition marked_delivered :: "ledger_env \<Rightarrow> ledger_db \<Rightarrow> 'w \<Rightarrow> bool" where
  "marked_delivered env db w \<longleftrightarrow>
     (\<forall>r \<in> set (outbox db). ob_published r \<noteq> None \<longrightarrow> row_delivered env w r)"

end

text \<open>The rows of a batch are rows of the table.\<close>

lemma batch_rows_subset:
  assumes "order_ok (bi_order io)"
  shows "set (batch_rows io obs) \<subseteq> set (pending io obs)"
proof -
  have "set (bi_order io (pending io obs)) = set (pending io obs)"
    using assms by (metis order_ok_def set_mset_mset)
  then show ?thesis
    unfolding batch_rows_def by (metis set_take_subset)
qed

text \<open>The ways a batch can end.\<close>

lemma process_batch_cases:
  assumes "process_batch env publish io db w = (res, db', w')"
  obtains (untouched) "db' = db" "w' = w"
    | (failed) e where "db' = db" "res = Inl e"
        "publish_rows env publish (bi_update io) (batch_rows io (outbox db)) [] w = (Inl e, w')"
    | (refused) ids e where "db' = db" "res = Inl e"
        "publish_rows env publish (bi_update io) (batch_rows io (outbox db)) [] w = (Inr ids, w')"
    | (marked) ids where "db' = db\<lparr>outbox := mark_published (bi_now io) ids (outbox db)\<rparr>"
        "publish_rows env publish (bi_update io) (batch_rows io (outbox db)) [] w = (Inr ids, w')"
  using assms
  by (auto simp: process_batch_def Let_def split: option.splits if_splits prod.splits sum.splits
      commit_outcome.splits)

context outbox_publisher
begin

lemma process_batch_marked_delivered:
  assumes "process_batch env publish io db w = (res, db', w')"
    and "distinct (map ob_id (outbox db))" and "order_ok (bi_order io)"
    and "marked_delivered env db w"
  shows "marked_delivered env db' w'"
proof -
  have keep: "marked_delivered env db w'"
    if "publish_rows env publish (bi_update io) (batch_rows io (outbox db)) [] w = (q, w')" for q
    using publish_rows_keeps [OF that] assms(4) by (auto simp: marked_delivered_def)
  from assms(1) show ?thesis
  proof (cases rule: process_batch_cases)
    case untouched
    with assms(4) show ?thesis by simp
  next
    case (failed e)
    with keep show ?thesis by simp
  next
    case (refused ids e)
    with keep show ?thesis by simp
  next
    case (marked ids)
    have ok: "ids = map ob_id (batch_rows io (outbox db))"
        "\<forall>r \<in> set (batch_rows io (outbox db)). row_delivered env w' r"
      using publish_rows_ok [OF marked(2)] by auto
    have "row_delivered env w' r" if r: "r \<in> set (outbox db)" "ob_id r \<in> set ids" for r
    proof -
      obtain b where b: "b \<in> set (batch_rows io (outbox db))" "ob_id b = ob_id r"
        using r(2) ok(1) by auto
      then have "b \<in> set (outbox db)"
        using batch_rows_subset [OF assms(3)] by (auto simp: pending_def)
      with b(2) r(1) assms(2) have "b = r"
        by (simp add: distinct_map inj_on_def)
      with ok(2) b(1) show ?thesis by simp
    qed
    with keep [OF marked(2)] show ?thesis
      by (auto simp: marked_delivered_def marked(1) mark_published_def set_update_where
          row_delivered_def)
  qed
qed

end

lemma process_batch_ids:
  "process_batch env publish io db w = (res, db', w') \<Longrightarrow>
    map ob_id (outbox db') = map ob_id (outbox db) \<and> entries db' = entries db \<and>
    map ob_entry (outbox db') = map ob_entry (outbox db)"
  by (erule process_batch_cases) (simp_all add: mark_published_def map_update_where)

text \<open>The Kafka publisher: delivered means in the broker's log.\<close>

definition kafka_delivered ::
  "(json \<Rightarrow> string + byte list) \<Rightarrow> kafka_world \<Rightarrow> string \<Rightarrow> string \<Rightarrow> json \<Rightarrow> bool" where
  "kafka_delivered to_vec w t k p \<longleftrightarrow>
     (\<exists>bs. to_vec p = Inr bs \<and> \<lparr>km_topic = t, km_key = k, km_payload = bs\<rparr> \<in> set (kw_log w))"

lemma kafka_outbox_log_grows:
  assumes "kafka_outbox_publish to_vec sh script t k p w = (r, w')"
  shows "set (kw_log w) \<subseteq> set (kw_log w')"
proof (cases "to_vec p")
  case (Inl m)
  with assms show ?thesis by (simp add: kafka_outbox_publish_def kafka_publish_def)
next
  case (Inr bs)
  then obtain q where "publish_attempts sh script \<lparr>km_topic = t, km_key = k, km_payload = bs\<rparr>
      [1 ..< max_retries + 1] [] w = (q, w')"
    using assms by (auto simp: kafka_outbox_publish_def kafka_publish_def split: prod.splits)
  from publish_attempts_log [OF this] show ?thesis by auto
qed

interpretation kafka_pub: outbox_publisher "kafka_outbox_publish to_vec sh script"
    "kafka_delivered to_vec" for to_vec sh script
proof unfold_locales
  fix t k p w w'
  assume a: "kafka_outbox_publish to_vec sh script t k p w = (Inr (), w')"
  then obtain bs where bs: "to_vec p = Inr bs"
    by (cases "to_vec p") (auto simp: kafka_outbox_publish_def kafka_publish_def)
  have "kafka_publish to_vec sh script t k p w = (Inr (), w')"
    using a by (auto simp: kafka_outbox_publish_def split: prod.splits)
  then have "publish_attempts sh script \<lparr>km_topic = t, km_key = k, km_payload = bs\<rparr>
      [1 ..< max_retries + 1] [] w = (Inr (), w')"
    using bs by (simp add: kafka_publish_def)
  from publish_attempts_log [OF this] bs show "kafka_delivered to_vec w' t k p"
    by (auto simp: kafka_delivered_def)
next
  fix t k p w r w' t2 k2 p2
  assume a: "kafka_outbox_publish to_vec sh script t k p w = (r, w')"
    and d: "kafka_delivered to_vec w t2 k2 p2"
  from kafka_outbox_log_grows [OF a] have "set (kw_log w) \<subseteq> set (kw_log w')" .
  with d show "kafka_delivered to_vec w' t2 k2 p2"
    by (auto simp: kafka_delivered_def)
qed

section \<open>Progress\<close>

definition healthy_io :: "batch_io \<Rightarrow> bool" where
  "healthy_io io \<longleftrightarrow> bi_begin io = None \<and> bi_select io = None \<and> order_ok (bi_order io) \<and>
     (\<forall>i. \<not> bi_locked io i) \<and> (\<forall>i. bi_update io i = None) \<and> bi_commit io = CommitDone"

definition unpublished :: "outbox_row list \<Rightarrow> id16 set" where
  "unpublished obs = ob_id ` {r \<in> set obs. ob_published r = None}"

definition always_ok :: "'w publisher \<Rightarrow> bool" where
  "always_ok publish \<longleftrightarrow> (\<forall>t k p w. fst (publish t k p w) = Inr ())"

lemma publish_rows_always_ok:
  assumes "always_ok publish" and "\<forall>i. upd i = None"
  shows "fst (publish_rows env publish upd rs marked w) = Inr (marked @ map ob_id rs)"
proof (induction rs arbitrary: marked w)
  case (Cons r rs)
  obtain q v where v: "publish (ob_topic r) (lv_hex env (id_bytes (ob_entry r))) (ob_payload r) w = (q, v)"
    by force
  then have "q = Inr ()" using assms(1) by (metis always_ok_def fst_conv)
  with v assms(2) Cons show ?case by simp
qed simp

lemma unpublished_mark: "unpublished (mark_published now ids obs) = unpublished obs - set ids"
  by (auto simp: unpublished_def mark_published_def set_update_where)

lemma pending_card:
  assumes "healthy_io io" and "distinct (map ob_id obs)"
  shows "length (pending io obs) = card (unpublished obs)"
proof -
  have p: "pending io obs = filter (\<lambda>r. ob_published r = None) obs"
    using assms(1) by (simp add: pending_def healthy_io_def)
  then have "set (map ob_id (pending io obs)) = unpublished obs"
    by (auto simp: unpublished_def)
  moreover have "distinct (map ob_id (pending io obs))"
    using assms(2) unfolding p by (rule distinct_map_filter)
  ultimately show ?thesis
    by (metis distinct_card length_map)
qed

lemma batch_rows_distinct:
  assumes "order_ok (bi_order io)" and "distinct (map ob_id obs)"
  shows "distinct (map ob_id (batch_rows io obs))"
proof -
  have "mset (bi_order io (pending io obs)) = mset (pending io obs)"
    using assms(1) by (simp add: order_ok_def)
  moreover have "distinct (map ob_id (pending io obs))"
    unfolding pending_def by (rule distinct_map_filter) (rule assms(2))
  ultimately have "distinct (map ob_id (bi_order io (pending io obs)))"
    by (metis mset_map mset_eq_imp_distinct_iff)
  then show ?thesis
    unfolding batch_rows_def by (metis distinct_take take_map)
qed

lemma healthy_batch:
  assumes "healthy_io io" and "always_ok publish" and "distinct (map ob_id (outbox db))"
    and "process_batch env publish io db w = (res, db', w')"
  shows "card (unpublished (outbox db')) = card (unpublished (outbox db)) - 10"
proof -
  let ?rows = "batch_rows io (outbox db)"
  note h = assms(1) [unfolded healthy_io_def]
  have m: "mset (bi_order io (pending io (outbox db))) = mset (pending io (outbox db))"
    using h by (simp add: order_ok_def)
  then have len: "length (bi_order io (pending io (outbox db))) = card (unpublished (outbox db))"
    using pending_card [OF assms(1,3)] mset_eq_length by metis
  obtain w2 where run: "publish_rows env publish (bi_update io) ?rows [] w = (Inr (map ob_id ?rows), w2)"
    using publish_rows_always_ok [OF assms(2), of "bi_update io" env ?rows "[]" w] h
    by (metis append_Nil prod.collapse)
  have db': "outbox db' = mark_published (bi_now io) (map ob_id ?rows) (outbox db)"
    using assms(4) h run
    by (auto simp: process_batch_def Let_def mark_published_def update_where_def
        split: if_splits)
  have dist: "distinct (map ob_id ?rows)"
    using batch_rows_distinct [OF _ assms(3)] h by blast
  have sub: "set (map ob_id ?rows) \<subseteq> unpublished (outbox db)"
    using batch_rows_subset [of io "outbox db"] h by (auto simp: pending_def unpublished_def)
  have "card (unpublished (outbox db')) = card (unpublished (outbox db)) - length ?rows"
    unfolding db' unpublished_mark
    using card_Diff_subset [OF _ sub] distinct_card [OF dist] by simp
  then show ?thesis
    by (simp add: batch_rows_def len)
qed

lemma run_worker_Cons:
  assumes "process_batch env publish io db w = (r, db', w')" and "worker_after r errs = (errs', s)"
    and "run_outbox_worker env publish ios errs' db' w' = (ss, db'', w'')"
  shows "run_outbox_worker env publish (io # ios) errs db w = (s # ss, db'', w'')"
  using assms by simp

lemma healthy_rounds:
  assumes "\<forall>io \<in> set ios. healthy_io io" and "always_ok publish" and "distinct (map ob_id (outbox db))"
    and "run_outbox_worker env publish ios errs db w = (ss, db', w')"
  shows "card (unpublished (outbox db')) = card (unpublished (outbox db)) - 10 * length ios"
  using assms(1,3,4)
proof (induction ios arbitrary: errs db w ss db' w')
  case (Cons io ios)
  obtain r d v where b: "process_batch env publish io db w = (r, d, v)" by (metis prod_cases3)
  obtain errs' s where a: "worker_after r errs = (errs', s)" by force
  obtain ss' d' v' where l: "run_outbox_worker env publish ios errs' d v = (ss', d', v')"
    by (metis prod_cases3)
  have "d' = db'" using Cons.prems(3) run_worker_Cons [OF b a l] by simp
  moreover have "card (unpublished (outbox d')) = card (unpublished (outbox d)) - 10 * length ios"
    using Cons.IH [OF _ _ l] Cons.prems(1,2) process_batch_ids [OF b] by simp
  moreover have "card (unpublished (outbox d)) = card (unpublished (outbox db)) - 10"
    by (rule healthy_batch [OF _ assms(2) Cons.prems(2) b]) (use Cons.prems(1) in simp)
  ultimately show ?case by simp
qed simp

section \<open>Rounds of the Kafka worker\<close>

lemma worker_marked_delivered:
  assumes "\<forall>io \<in> set ios. order_ok (bi_order io)" and "distinct (map ob_id (outbox db))"
    and "kafka_pub.marked_delivered to_vec env db w"
    and "run_outbox_worker env (kafka_outbox_publish to_vec sh script) ios errs db w = (ss, db', w')"
  shows "kafka_pub.marked_delivered to_vec env db' w' \<and>
    map ob_id (outbox db') = map ob_id (outbox db) \<and> entries db' = entries db"
  using assms
proof (induction ios arbitrary: errs db w ss db' w')
  case (Cons io ios)
  let ?pub = "kafka_outbox_publish to_vec sh script"
  obtain r d v where b: "process_batch env ?pub io db w = (r, d, v)" by (metis prod_cases3)
  obtain errs' s where a: "worker_after r errs = (errs', s)" by force
  obtain ss' d' v' where l: "run_outbox_worker env ?pub ios errs' d v = (ss', d', v')"
    by (metis prod_cases3)
  have e: "d' = db'" "v' = w'" using Cons.prems(4) run_worker_Cons [OF b a l] by auto
  have "kafka_pub.marked_delivered to_vec env d v"
    by (rule kafka_pub.process_batch_marked_delivered [OF b Cons.prems(2) _ Cons.prems(3)])
      (use Cons.prems(1) in simp)
  with Cons.IH [OF _ _ _ l] Cons.prems(1,2) process_batch_ids [OF b] e show ?case by simp
qed simp

text \<open>A row whose publication always fails keeps every batch that contains it from marking
  anything.\<close>

lemma publish_rows_poison:
  assumes "r \<in> set rs" and "\<And>w. \<exists>e. fst (publish (ob_topic r) (lv_hex env (id_bytes (ob_entry r))) (ob_payload r) w) = Inl e"
  shows "\<exists>e. fst (publish_rows env publish upd rs marked w) = Inl e"
  using assms(1)
proof (induction rs arbitrary: marked w)
  case (Cons x xs)
  obtain q v where v: "publish (ob_topic x) (lv_hex env (id_bytes (ob_entry x))) (ob_payload x) w = (q, v)"
    by force
  show ?case
  proof (cases q)
    case (Inl e)
    with v show ?thesis by simp
  next
    case (Inr u)
    with v assms(2) [of w] have "r \<noteq> x" by auto
    with v Inr Cons show ?thesis by (simp split: option.splits)
  qed
qed simp

lemma process_batch_poison:
  assumes "r \<in> set (batch_rows io (outbox db))"
    and "\<And>w. \<exists>e. fst (publish (ob_topic r) (lv_hex env (id_bytes (ob_entry r))) (ob_payload r) w) = Inl e"
    and "process_batch env publish io db w = (res, db', w')"
  shows "db' = db \<and> (\<exists>e. res = Inl e)"
proof -
  obtain e v where e: "publish_rows env publish (bi_update io) (batch_rows io (outbox db)) [] w = (Inl e, v)"
    using publish_rows_poison [OF assms(1), of publish env "bi_update io" "[]" w] assms(2)
    by (metis prod.collapse)
  moreover have "batch_rows io (outbox db) \<noteq> []" using assms(1) by auto
  ultimately show ?thesis
    using assms(3) by (auto simp: process_batch_def split: option.splits)
qed

section \<open>Properties\<close>

definition demo_world :: kafka_world where
  "demo_world = \<lparr>kw_log = [], kw_calls = 0, kw_slept = 0\<rparr>"

definition demo_batch :: batch_io where
  "demo_batch = \<lparr>bi_begin = None, bi_select = None, bi_order = sort_key ob_created,
     bi_locked = (\<lambda>i. False), bi_update = (\<lambda>i. None), bi_now = 9, bi_commit = CommitDone\<rparr>"

lemma demo_batch_ok: "healthy_io demo_batch" "order_ok (bi_order demo_batch)"
  by (simp_all add: healthy_io_def demo_batch_def order_ok_def)

lemma demo_outbox: "outbox demo_db = [posted_outbox demo_env (good_io 7 5000 8 5) (demo_params ''k1'' 500)]"
  by (simp add: demo_db_def posted_db_def empty_db_def)

text \<open>At-least-once delivery: whatever fails in whatever rounds (the engine, the broker, a
  commit whose answer is lost), a row is marked as published only when its message, with its
  topic, the hex of its entry id as key and its payload, is in the broker's log; and the worker
  neither adds nor removes a row nor touches an entry.\<close>

theorem outbox_marks_only_delivered:
  assumes "ledger_wf env db" and "\<forall>r \<in> set (outbox db). ob_published r = None"
    and "\<forall>io \<in> set ios. order_ok (bi_order io)"
    and "run_outbox_worker env (kafka_outbox_publish to_vec sh script) ios errs db w = (ss, db', w')"
  shows "map ob_id (outbox db') = map ob_id (outbox db) \<and> entries db' = entries db \<and>
    (\<forall>r \<in> set (outbox db'). ob_published r \<noteq> None \<longrightarrow>
      (\<exists>bs. to_vec (ob_payload r) = Inr bs \<and>
        \<lparr>km_topic = ob_topic r, km_key = lv_hex env (id_bytes (ob_entry r)), km_payload = bs\<rparr>
          \<in> set (kw_log w')))"
proof -
  have d: "distinct (map ob_id (outbox db))"
    using assms(1) by (simp add: ledger_wf_def)
  have m: "kafka_pub.marked_delivered to_vec env db w"
    using assms(2) by (simp add: kafka_pub.marked_delivered_def)
  from worker_marked_delivered [OF assms(3) d m assms(4)] show ?thesis
    by (simp add: kafka_pub.marked_delivered_def kafka_pub.row_delivered_def kafka_delivered_def)
qed

theorem outbox_marks_only_delivered_witness:
  "\<exists>ss db' w'. run_outbox_worker demo_env
     (kafka_outbox_publish (\<lambda>j. Inr [1]) (\<lambda>e. []) (\<lambda>n. SendOk)) [demo_batch] 0 demo_db demo_world =
       (ss, db', w') \<and> map ob_id (outbox db') = [8]"
proof -
  have u: "\<forall>r \<in> set (outbox demo_db). ob_published r = None"
    by (simp add: demo_outbox posted_outbox_def)
  obtain ss db' w' where r: "run_outbox_worker demo_env
      (kafka_outbox_publish (\<lambda>j. Inr [1]) (\<lambda>e. []) (\<lambda>n. SendOk)) [demo_batch] 0 demo_db demo_world =
       (ss, db', w')"
    by (metis prod_cases3)
  have o: "\<forall>io \<in> set [demo_batch]. order_ok (bi_order io)"
    by (simp add: demo_batch_ok)
  from outbox_marks_only_delivered [OF demo_db_wf u o r]
  have "map ob_id (outbox db') = map ob_id (outbox demo_db)"
    by blast
  then have "map ob_id (outbox db') = [8]"
    by (simp add: demo_outbox posted_outbox_def)
  with r show ?thesis by (intro exI conjI)
qed

lemma kafka_always_ok:
  assumes "\<forall>p. is_ok (to_vec p)" and "\<forall>n. script n = SendOk"
  shows "always_ok (kafka_outbox_publish to_vec sh script)"
  unfolding always_ok_def
proof (intro allI)
  fix t k p u
  show "fst (kafka_outbox_publish to_vec sh script t k p u) = Inr ()"
  proof (cases "to_vec p")
    case (Inl m)
    with assms(1) show ?thesis by (metis is_ok.simps(1))
  next
    case (Inr bs)
    obtain q v where q: "publish_attempts sh script \<lparr>km_topic = t, km_key = k, km_payload = bs\<rparr>
        [1 ..< max_retries + 1] [] u = (q, v)" by force
    have "first_ok script (kw_calls u) 0"
      using assms(2) by (simp add: first_ok_def)
    then have "q = Inr ()"
      using publish_attempts_ok_iff [of sh script _ "[1 ..< max_retries + 1]" "[]" u] q
      by (metis fst_conv length_upt max_retries_def add_diff_cancel_right' zero_less_numeral)
    with q Inr show ?thesis
      by (simp add: kafka_outbox_publish_def kafka_publish_def)
  qed
qed

text \<open>C33: The outbox drains: with a broker that acknowledges and an engine that answers, a round
  publishes the ten oldest pending rows, so after as many rounds as there are tens of pending
  rows none is left.\<close>

theorem outbox_drains:
  assumes "ledger_wf env db" and "\<forall>io \<in> set ios. healthy_io io"
    and "\<forall>p. is_ok (to_vec p)" and "\<forall>n. script n = SendOk"
    and "card (unpublished (outbox db)) \<le> 10 * length ios"
    and "run_outbox_worker env (kafka_outbox_publish to_vec sh script) ios errs db w = (ss, db', w')"
  shows "\<forall>r \<in> set (outbox db'). ob_published r \<noteq> None"
proof -
  have "always_ok (kafka_outbox_publish to_vec sh script)"
    by (rule kafka_always_ok [OF assms(3,4)])
  from healthy_rounds [OF assms(2) this _ assms(6)] assms(1,5)
  have "card (unpublished (outbox db')) = 0"
    by (simp add: ledger_wf_def)
  then have "unpublished (outbox db') = {}"
    by (simp add: unpublished_def)
  then show ?thesis
    by (auto simp: unpublished_def)
qed

theorem outbox_drains_witness:
  "\<exists>ss db' w'. run_outbox_worker demo_env
     (kafka_outbox_publish (\<lambda>j. Inr [1]) (\<lambda>e. []) (\<lambda>n. SendOk)) [demo_batch] 0 demo_db demo_world =
       (ss, db', w') \<and> list_all (\<lambda>r. ob_published r \<noteq> None) (outbox db')"
proof -
  have c: "card (unpublished (outbox demo_db)) \<le> 10 * length [demo_batch]"
  proof -
    have "unpublished (outbox demo_db) \<subseteq> {8}"
      by (auto simp: unpublished_def demo_outbox posted_outbox_def)
    then show ?thesis using card_mono [of "{8::id16}" "unpublished (outbox demo_db)"] by simp
  qed
  obtain ss db' w' where r: "run_outbox_worker demo_env
      (kafka_outbox_publish (\<lambda>j. Inr [1]) (\<lambda>e. []) (\<lambda>n. SendOk)) [demo_batch] 0 demo_db demo_world =
       (ss, db', w')"
    by (metis prod_cases3)
  have h: "\<forall>io \<in> set [demo_batch]. healthy_io io"
    by (simp add: demo_batch_ok)
  have v: "\<forall>p. is_ok ((\<lambda>j. Inr [1] :: string + byte list) p)"
    by simp
  have s: "\<forall>n. (\<lambda>n. SendOk) n = SendOk"
    by simp
  from outbox_drains [OF demo_db_wf h v s c r] r show ?thesis
    unfolding list_all_iff by blast
qed

text \<open>The error counter after \<open>k\<close> failures in a row is \<open>k\<close>.\<close>

lemma worker_after_error:
  assumes "k < 2 ^ 32 - 1"
  shows "worker_after (Inl e) (of_nat k) = (of_nat (Suc k), min (2 ^ min (Suc k) 5) 30 * 1000)"
proof -
  have u: "unat (of_nat (Suc k) :: 32 word) = Suc k"
    using assms by (simp add: unat_of_nat del: of_nat_Suc)
  have "unat (min (of_nat (Suc k)) (5 :: 32 word)) = min (Suc k) 5"
  proof (cases "Suc k \<le> 5")
    case True
    then have "(of_nat (Suc k) :: 32 word) \<le> 5"
      using u by (simp add: word_le_nat_alt del: of_nat_Suc)
    with True u show ?thesis by (simp add: min_def del: of_nat_Suc)
  next
    case False
    then have "\<not> (of_nat (Suc k) :: 32 word) \<le> 5"
      using u by (simp add: word_le_nat_alt del: of_nat_Suc)
    with False show ?thesis by (simp add: min_def del: of_nat_Suc)
  qed
  then show ?thesis
    by (simp add: worker_after_def Let_def add.commute)
qed

lemma poison_rounds:
  assumes "\<And>w. \<exists>e. fst (publish (ob_topic r) (lv_hex env (id_bytes (ob_entry r))) (ob_payload r) w) = Inl e"
    and "\<forall>io \<in> set ios. r \<in> set (batch_rows io (outbox db))" and "k + length ios < 2 ^ 32 - 1"
    and "run_outbox_worker env publish ios (of_nat k) db w = (ss, db', w')"
  shows "db' = db \<and> ss = map (\<lambda>j. min (2 ^ min j 5) 30 * 1000) [Suc k ..< Suc (k + length ios)]"
  using assms(2-4)
proof (induction ios arbitrary: k w ss db' w')
  case Nil
  then show ?case by simp
next
  case (Cons io ios)
  obtain q d v where b: "process_batch env publish io db w = (q, d, v)" by (metis prod_cases3)
  have "r \<in> set (batch_rows io (outbox db))" using Cons.prems(1) by simp
  from process_batch_poison [OF this assms(1) b] obtain e where e: "d = db" "q = Inl e" by blast
  have a: "worker_after q (of_nat k) = (of_nat (Suc k), min (2 ^ min (Suc k) 5) 30 * 1000)"
    unfolding e(2) by (rule worker_after_error) (use Cons.prems(2) in simp)
  obtain ss' d' v' where l: "run_outbox_worker env publish ios (of_nat (Suc k)) d v = (ss', d', v')"
    by (metis prod_cases3)
  have res: "ss = min (2 ^ min (Suc k) 5) 30 * 1000 # ss'" "db' = d'"
    using Cons.prems(3) run_worker_Cons [OF b a l] by auto
  have "d' = db \<and> ss' = map (\<lambda>j. min (2 ^ min j 5) 30 * 1000) [Suc (Suc k) ..< Suc (Suc k + length ios)]"
    by (rule Cons.IH [where k = "Suc k"]) (use Cons.prems l e in auto)
  with res show ?case
    by (simp add: upt_conv_Cons del: upt_Suc)
qed

text \<open>One row that can never be published stops the outbox: as long as it is among the ten
  oldest pending rows, every round ends in an error with no row marked (the rows before it are
  published again each time), and the worker sleeps 2, 4, 8, 16, 30, 30, \<dots> seconds.  The
  source's comment on the backoff (1 s, 2 s, 4 s) starts one step earlier than the code.\<close>

theorem poison_row_stops_outbox:
  assumes "\<And>w. \<exists>e. fst (publish (ob_topic r) (lv_hex env (id_bytes (ob_entry r))) (ob_payload r) w) = Inl e"
    and "\<forall>io \<in> set ios. r \<in> set (batch_rows io (outbox db))" and "length ios < 2 ^ 32 - 1"
    and "run_outbox_worker env publish ios 0 db w = (ss, db', w')"
  shows "db' = db \<and> ss = map (\<lambda>j. min (2 ^ min j 5) 30 * 1000) [1 ..< Suc (length ios)]"
  using poison_rounds [of publish r env ios db 0 w ss db' w'] assms by simp

theorem poison_row_stops_outbox_witness:
  "\<exists>ss db' w'. run_outbox_worker demo_env (\<lambda>t k p w. (Inl (LInternal ''down''), w))
     [demo_batch, demo_batch] 0 demo_db () = (ss, db', w') \<and> db' = demo_db \<and> ss = [2000, 4000]"
proof -
  let ?pub = "\<lambda>t k p w. (Inl (LInternal ''down''), w) :: (ledger_error + unit) \<times> unit"
  let ?r = "posted_outbox demo_env (good_io 7 5000 8 5) (demo_params ''k1'' 500)"
  have "?r \<in> set (batch_rows demo_batch (outbox demo_db))"
    by (simp add: demo_outbox batch_rows_def demo_batch_def pending_def posted_outbox_def)
  then have p: "\<forall>io \<in> set [demo_batch, demo_batch]. ?r \<in> set (batch_rows io (outbox demo_db))"
    by simp
  obtain ss db' w' where r: "run_outbox_worker demo_env ?pub [demo_batch, demo_batch] 0 demo_db () =
      (ss, db', w')"
    by (metis prod_cases3)
  from poison_row_stops_outbox [of ?pub ?r demo_env, OF _ p _ r] r show ?thesis
    by (simp add: upt_rec)
qed

text \<open>The publisher of a build without Kafka marks rows that no broker ever saw.\<close>

lemma noop_marks_without_delivery:
  assumes "healthy_io io" and "ledger_wf env db" and "card (unpublished (outbox db)) \<le> 10"
    and "process_batch env noop_publish io db w = (res, db', w')"
  shows "w' = w \<and> unpublished (outbox db') = {}"
proof -
  have ok: "always_ok noop_publish"
    by (simp add: always_ok_def noop_publish_def)
  have "snd (publish_rows env noop_publish upd rs m w) = w" for upd rs m
    by (induction rs arbitrary: m) (auto simp: noop_publish_def split: option.splits)
  then have w: "w2 = w" if "publish_rows env noop_publish upd rs m w = (q, w2)" for upd rs m q w2
    using that by (metis snd_conv)
  from assms(4) have "w' = w"
    by (cases rule: process_batch_cases) (auto dest: w)
  moreover have "card (unpublished (outbox db')) = 0"
    using healthy_batch [OF assms(1) ok _ assms(4)] assms(2,3) by (simp add: ledger_wf_def)
  ultimately show ?thesis
    by (simp add: unpublished_def)
qed

end
