(* ===== verification/Ledger_Pipeline.thy ===== *)
theory Ledger_Pipeline
  imports Ledger_Outbox
begin

text \<open>
  The posting path and the outbox worker of \<open>services/kova-ledger\<close> together, over the Kafka
  producer of \<open>crates/kova-kafka\<close>: postings by any callers and rounds of the worker in any order,
  each with any faults, as a step relation.  A posting and a round are each one transaction of the
  engine, which is why they are steps; the log of the broker is not transactional and keeps what a
  round that is rolled back has sent.
\<close>

inductive ledger_step ::
  "ledger_env \<Rightarrow> kafka_world publisher \<Rightarrow> ledger_db \<times> kafka_world \<Rightarrow> ledger_db \<times> kafka_world \<Rightarrow> bool"
  for env publish where
  posting: "post_entry env io p db = (res, db') \<Longrightarrow> ledger_step env publish (db, k) (db', k)"
| batch: "order_ok (bi_order io) \<Longrightarrow> process_batch env publish io db k = (res, db', k') \<Longrightarrow>
    ledger_step env publish (db, k) (db', k')"

inductive_cases ledger_stepE: "ledger_step env publish s s'"

definition kafka_start :: kafka_world where
  "kafka_start = \<lparr>kw_log = [], kw_calls = 0, kw_slept = 0\<rparr>"

text \<open>The message of an outbox row.\<close>

definition message_of ::
  "ledger_env \<Rightarrow> (json \<Rightarrow> string + byte list) \<Rightarrow> outbox_row \<Rightarrow> kafka_msg \<Rightarrow> bool" where
  "message_of env to_vec r m \<longleftrightarrow>
     km_topic m = ob_topic r \<and> km_key m = lv_hex env (id_bytes (ob_entry r)) \<and>
     to_vec (ob_payload r) = Inr (km_payload m)"

section \<open>Lemmas\<close>

text \<open>A round sends nothing but messages of the rows it holds.\<close>

lemma kafka_outbox_publish_log:
  assumes "kafka_outbox_publish to_vec sh script t key p k = (r, k')"
  shows "set (kw_log k') \<subseteq> set (kw_log k) \<union>
    {m. km_topic m = t \<and> km_key m = key \<and> to_vec p = Inr (km_payload m)}"
proof (cases "to_vec p")
  case (Inl e)
  with assms show ?thesis by (simp add: kafka_outbox_publish_def kafka_publish_def)
next
  case (Inr bs)
  then obtain q where "publish_attempts sh script \<lparr>km_topic = t, km_key = key, km_payload = bs\<rparr>
      [1 ..< max_retries + 1] [] k = (q, k')"
    using assms by (auto simp: kafka_outbox_publish_def kafka_publish_def split: prod.splits)
  from publish_attempts_log [OF this] Inr show ?thesis by auto
qed

lemma publish_rows_log:
  assumes "publish_rows env (kafka_outbox_publish to_vec sh script) upd rs marked k = (res, k')"
  shows "set (kw_log k') \<subseteq> set (kw_log k) \<union> {m. \<exists>r \<in> set rs. message_of env to_vec r m}"
  using assms
proof (induction rs arbitrary: marked k)
  case (Cons r rs)
  obtain q v where v: "kafka_outbox_publish to_vec sh script (ob_topic r) (lv_hex env (id_bytes (ob_entry r)))
      (ob_payload r) k = (q, v)" by force
  have "set (kw_log v) \<subseteq> set (kw_log k) \<union> {m. message_of env to_vec r m}"
    using kafka_outbox_publish_log [OF v] by (auto simp: message_of_def)
  moreover have "v = k' \<or> (\<exists>marked. publish_rows env (kafka_outbox_publish to_vec sh script) upd rs marked v = (res, k'))"
    using Cons.prems v by (auto split: sum.splits option.splits)
  ultimately show ?case
    using Cons.IH by fastforce
qed simp

text \<open>The invariant: the tables are well formed, marked rows are in the log, and what is in the log is
  the message of a row.\<close>

definition pipeline_inv ::
  "ledger_env \<Rightarrow> (json \<Rightarrow> string + byte list) \<Rightarrow> ledger_db \<times> kafka_world \<Rightarrow> bool" where
  "pipeline_inv env to_vec s \<longleftrightarrow>
     ledger_wf env (fst s) \<and> (\<forall>r \<in> set (outbox (fst s)). ob_topic r = entry_topic) \<and>
     kafka_pub.marked_delivered to_vec env (fst s) (snd s) \<and>
     (\<forall>m \<in> set (kw_log (snd s)). \<exists>r \<in> set (outbox (fst s)). message_of env to_vec r m)"

lemma message_of_mark:
  assumes "\<exists>r \<in> set obs. message_of env to_vec r m"
  shows "\<exists>r \<in> set (mark_published now ids obs). message_of env to_vec r m"
proof -
  obtain r where r: "r \<in> set obs" "message_of env to_vec r m" using assms by blast
  let ?q = "if List.member ids (ob_id r) then r\<lparr>ob_published := Some now\<rparr> else r"
  have "?q \<in> set (mark_published now ids obs)"
    using r(1) by (auto simp: mark_published_def set_update_where)
  moreover have "message_of env to_vec ?q m"
    using r(2) by (simp add: message_of_def)
  ultimately show ?thesis by blast
qed

lemma posting_inv:
  assumes "post_entry env io p db = (res, db')" and "pipeline_inv env to_vec (db, k)"
  shows "pipeline_inv env to_vec (db', k)"
proof -
  have wf: "ledger_wf env db'"
    using post_entry_extends [OF assms(1)] assms(2) by (simp add: pipeline_inv_def)
  from assms(1) show ?thesis
  proof (cases rule: post_entry_cases)
    case (new n)
    with assms(2) wf show ?thesis
      by (auto simp: pipeline_inv_def kafka_pub.marked_delivered_def posted_db_def posted_outbox_def)
  qed (use assms(2) in auto)
qed

lemma process_batch_wf:
  assumes "process_batch env publish io db k = (res, db', k')" and "ledger_wf env db"
  shows "ledger_wf env db'"
  using process_batch_ids [OF assms(1)] assms(2) by (simp add: ledger_wf_def)

lemma batch_inv:
  assumes "process_batch env (kafka_outbox_publish to_vec sh script) io db k = (res, db', k')"
    and "order_ok (bi_order io)" and "pipeline_inv env to_vec (db, k)"
  shows "pipeline_inv env to_vec (db', k')"
proof -
  have inv: "ledger_wf env db" "\<forall>r \<in> set (outbox db). ob_topic r = entry_topic"
      "kafka_pub.marked_delivered to_vec env db k"
      "\<forall>m \<in> set (kw_log k). \<exists>r \<in> set (outbox db). message_of env to_vec r m"
    using assms(3) by (simp_all add: pipeline_inv_def)
  have "distinct (map ob_id (outbox db))" using inv(1) by (simp add: ledger_wf_def)
  from kafka_pub.process_batch_marked_delivered [OF assms(1) this assms(2) inv(3)]
  have md: "kafka_pub.marked_delivered to_vec env db' k'" .
  have sent: "\<forall>m \<in> set (kw_log k'). \<exists>r \<in> set (outbox db). message_of env to_vec r m"
    if "publish_rows env (kafka_outbox_publish to_vec sh script) (bi_update io)
      (batch_rows io (outbox db)) [] k = (q, k')" for q
    using publish_rows_log [OF that] batch_rows_subset [OF assms(2), of "outbox db"] inv(4)
    by (force simp: pending_def)
  from assms(1) have "(\<forall>m \<in> set (kw_log k'). \<exists>r \<in> set (outbox db'). message_of env to_vec r m) \<and>
      (\<forall>r \<in> set (outbox db'). ob_topic r = entry_topic)"
  proof (cases rule: process_batch_cases)
    case (marked ids)
    then show ?thesis
      using sent [OF marked(2)] inv(2) message_of_mark
      by (auto simp: mark_published_def set_update_where)
  qed (use inv sent in auto)
  with md process_batch_wf [OF assms(1) inv(1)] show ?thesis
    by (simp add: pipeline_inv_def)
qed

lemma pipeline_reachable:
  assumes "(ledger_step env (kafka_outbox_publish to_vec sh script))\<^sup>*\<^sup>* (empty_db, kafka_start) s"
  shows "pipeline_inv env to_vec s"
  using assms
proof (induction rule: rtranclp_induct)
  case base
  show ?case
    by (simp add: pipeline_inv_def kafka_pub.marked_delivered_def empty_db_def kafka_start_def ledger_wf_def)
next
  case (step s t)
  from step.hyps(2) step.IH show ?case
    by (cases rule: ledger_step.cases) (simp_all add: posting_inv batch_inv)
qed

text \<open>What the invariant says of entries, outbox rows and messages.\<close>

lemma pipeline_inv_facts:
  assumes "pipeline_inv env to_vec (db, k)"
  shows "(\<forall>m \<in> set (kw_log k). km_topic m = entry_topic \<and>
      (\<exists>e \<in> set (entries db). km_key m = lv_hex env (id_bytes (le_id e)))) \<and>
    map ob_entry (outbox db) = map le_id (filter (\<lambda>e. le_hash e \<noteq> None) (entries db)) \<and>
    distinct (map le_id (entries db)) \<and>
    (\<forall>r \<in> set (outbox db). ob_published r = None \<or>
      (\<exists>m \<in> set (kw_log k). km_key m = lv_hex env (id_bytes (ob_entry r)) \<and>
        to_vec (ob_payload r) = Inr (km_payload m)))"
proof -
  have inv: "ledger_wf env db" "\<forall>r \<in> set (outbox db). ob_topic r = entry_topic"
      "kafka_pub.marked_delivered to_vec env db k"
      "\<forall>m \<in> set (kw_log k). \<exists>r \<in> set (outbox db). message_of env to_vec r m"
    using assms by (simp_all add: pipeline_inv_def)
  have rows: "map ob_entry (outbox db) = map le_id (filter (\<lambda>e. le_hash e \<noteq> None) (entries db))"
    using inv(1) by (simp add: ledger_wf_def hashed_def [abs_def])
  have "\<exists>e \<in> set (entries db). ob_entry r = le_id e" if "r \<in> set (outbox db)" for r
  proof -
    have "ob_entry r \<in> set (map ob_entry (outbox db))" using that by simp
    then show ?thesis unfolding rows by auto
  qed
  with inv(2,4) have "\<forall>m \<in> set (kw_log k). km_topic m = entry_topic \<and>
      (\<exists>e \<in> set (entries db). km_key m = lv_hex env (id_bytes (le_id e)))"
    unfolding message_of_def by metis
  moreover have "\<forall>r \<in> set (outbox db). ob_published r = None \<or>
      (\<exists>m \<in> set (kw_log k). km_key m = lv_hex env (id_bytes (ob_entry r)) \<and>
        to_vec (ob_payload r) = Inr (km_payload m))"
    using inv(3)
    by (force simp: kafka_pub.marked_delivered_def kafka_pub.row_delivered_def kafka_delivered_def)
  moreover have "distinct (map le_id (entries db))"
    using inv(1) by (simp add: ledger_wf_def)
  ultimately show ?thesis using rows by blast
qed

section \<open>Properties\<close>

text \<open>The transactional outbox: however postings and rounds of the worker interleave and whatever
  fails, a message is in the log only for an entry that is committed, every committed entry has
  exactly one outbox row, and that row is marked as published only when its message is in the log;
  so an entry's event is either still waiting in the outbox or sent, never lost and never made up.\<close>

theorem events_follow_entries:
  assumes "(ledger_step env (kafka_outbox_publish to_vec sh script))\<^sup>*\<^sup>* (empty_db, kafka_start) (db, k)"
  shows "(\<forall>m \<in> set (kw_log k). km_topic m = entry_topic \<and>
      (\<exists>e \<in> set (entries db). km_key m = lv_hex env (id_bytes (le_id e)))) \<and>
    map ob_entry (outbox db) = map le_id (filter (\<lambda>e. le_hash e \<noteq> None) (entries db)) \<and>
    distinct (map le_id (entries db)) \<and>
    (\<forall>r \<in> set (outbox db). ob_published r = None \<or>
      (\<exists>m \<in> set (kw_log k). km_key m = lv_hex env (id_bytes (ob_entry r)) \<and>
        to_vec (ob_payload r) = Inr (km_payload m)))"
  using pipeline_inv_facts [OF pipeline_reachable [OF assms]] by simp

theorem events_follow_entries_witness:
  "\<exists>db k. (ledger_step demo_env (kafka_outbox_publish (\<lambda>j. Inr [1]) (\<lambda>e. []) (\<lambda>n. SendOk)))\<^sup>*\<^sup>*
       (empty_db, kafka_start) (db, k) \<and> distinct (map le_id (entries db)) \<and> outbox db \<noteq> []"
proof -
  let ?pub = "kafka_outbox_publish (\<lambda>j. Inr [1]) (\<lambda>e. []) (\<lambda>n. SendOk)"
  obtain res db1 where p: "post_entry demo_env (good_io 7 5000 8 5) (demo_params ''k1'' 500) empty_db = (res, db1)"
    by force
  then have "outbox db1 \<noteq> []"
    by (auto simp: demo_post_simps empty_db_def Let_def)
  obtain r2 db2 k2 where b: "process_batch demo_env ?pub demo_batch db1 kafka_start = (r2, db2, k2)"
    by (metis prod_cases3)
  have "outbox db2 \<noteq> []"
    using process_batch_ids [OF b] \<open>outbox db1 \<noteq> []\<close> by (metis map_is_Nil_conv)
  moreover have run: "(ledger_step demo_env ?pub)\<^sup>*\<^sup>* (empty_db, kafka_start) (db2, k2)"
    using ledger_step.posting [OF p] ledger_step.batch [OF demo_batch_ok(2) b]
    by (meson converse_rtranclp_into_rtranclp rtranclp.rtrancl_refl)
  ultimately show ?thesis
    using events_follow_entries [OF run] by blast
qed

end
