(* ===== verification/Ledger_Reconciliation.thy ===== *)
theory Ledger_Reconciliation
  imports Ledger_Balance
begin

text \<open>
  \<open>reconciliation.rs\<close> of \<open>services/kova-ledger\<close>: the end-of-day pass that compares each active
  account's live balance with its last snapshot and writes a new one.

  Every query of a pass can fail: \<open>rc_fail n\<close> is the outcome of the \<open>n\<close>-th one.  The pass runs
  outside any transaction, so the snapshots it wrote before a failure stay.  The order of the
  rows of a UNION or a DISTINCT and the choice among snapshots of one time are the engine's.
\<close>

section \<open>The window\<close>

definition in_window :: "nat \<Rightarrow> nat \<Rightarrow> bool" where
  "in_window h m \<longleftrightarrow> (h = 23 \<and> 55 \<le> m) \<or> (h = 0 \<and> m \<le> 5)"

text \<open>Hour and minute of a second since the epoch, and the second of the \<open>k\<close>-th tick of the hourly
  interval of a process that started at \<open>t0\<close> (the first tick is immediate; missed ticks are
  skipped, later ones stay aligned).\<close>

definition hour_of :: "nat \<Rightarrow> nat" where
  "hour_of s = s div 3600 mod 24"

definition minute_of :: "nat \<Rightarrow> nat" where
  "minute_of s = s div 60 mod 60"

definition tick_at :: "nat \<Rightarrow> nat \<Rightarrow> nat" where
  "tick_at t0 k = t0 + 3600 * k"

definition tick_runs :: "nat \<Rightarrow> bool" where
  "tick_runs s \<longleftrightarrow> in_window (hour_of s) (minute_of s)"

section \<open>One pass\<close>

record recon_io =
  rc_fail :: "nat \<Rightarrow> sqlx_error option"
  rc_snap_id :: "nat \<Rightarrow> id16"
  rc_clock :: "nat \<Rightarrow> int"
  rc_today :: int
  rc_accounts :: "id16 list \<Rightarrow> id16 list"
  rc_currencies :: "string list \<Rightarrow> string list"
  rc_pick :: "snapshot_row list \<Rightarrow> snapshot_row"

text \<open>\<open>DATE(created_at)\<close>, as the number of the day.\<close>

definition day_of :: "int \<Rightarrow> int" where
  "day_of t = t div 86400000000"

definition active_accounts :: "recon_io \<Rightarrow> ledger_db \<Rightarrow> id16 list" where
  "active_accounts io db =
     (let today = filter (\<lambda>e. day_of (le_created e) = rc_today io) (entries db)
      in rc_accounts io (remdups (map le_debit today @ map le_credit today)))"

definition account_currencies :: "recon_io \<Rightarrow> id16 \<Rightarrow> ledger_db \<Rightarrow> string list" where
  "account_currencies io a db =
     rc_currencies io (remdups (map le_currency
       (filter (\<lambda>e. le_debit e = a \<or> le_credit e = a) (entries db))))"

text \<open>\<open>ORDER BY snapshot_at DESC LIMIT 1\<close>.\<close>

definition latest_snapshot ::
  "ledger_env \<Rightarrow> recon_io \<Rightarrow> id16 \<Rightarrow> string \<Rightarrow> snapshot_row list \<Rightarrow> snapshot_row option" where
  "latest_snapshot env io a cur ss =
     (let mine = filter (\<lambda>s. sn_account s = a \<and> lv_coll env (sn_currency s) = lv_coll env cur) ss
      in limit1 (rc_pick io) (filter (\<lambda>s. list_all (\<lambda>t. sn_at t \<le> sn_at s) mine) mine))"

definition live_balance :: "ledger_env \<Rightarrow> id16 \<Rightarrow> string \<Rightarrow> ledger_db \<Rightarrow> int" where
  "live_balance env a cur db = lv_cast19 env (balance_units env a cur (entries db))"

text \<open>The body of the inner loop: the live balance, the comparison, the fresh snapshot.  The
  counter \<open>n\<close> numbers the queries.\<close>

definition recon_one ::
  "ledger_env \<Rightarrow> recon_io \<Rightarrow> id16 \<Rightarrow> string \<Rightarrow> nat \<times> ledger_db \<Rightarrow> (sqlx_error + bool) \<times> nat \<times> ledger_db" where
  "recon_one env io a cur st =
     (let n = fst st; db = snd st
      in case rc_fail io n of
           Some e \<Rightarrow> (Inl e, n + 1, db)
         | None \<Rightarrow>
           let live = live_balance env a cur db
           in case rc_fail io (n + 1) of
                Some e \<Rightarrow> (Inl e, n + 2, db)
              | None \<Rightarrow>
                let bad = (case latest_snapshot env io a cur (snapshots db) of
                             None \<Rightarrow> False
                           | Some s \<Rightarrow> live \<noteq> sn_balance s)
                in case rc_fail io (n + 2) of
                     Some e \<Rightarrow> (Inl e, n + 3, db)
                   | None \<Rightarrow>
                     (Inr bad, n + 3,
                      db\<lparr>snapshots := snapshots db @
                         [\<lparr>sn_id = rc_snap_id io n, sn_account = a, sn_currency = cur,
                           sn_balance = live, sn_at = rc_clock io n, sn_last_entry = None\<rparr>]\<rparr>))"

fun recon_loop ::
  "ledger_env \<Rightarrow> recon_io \<Rightarrow> id16 \<Rightarrow> string list \<Rightarrow> nat \<Rightarrow> nat \<times> ledger_db
    \<Rightarrow> (sqlx_error + nat) \<times> nat \<times> ledger_db" where
  "recon_loop env io a [] mism st = (Inr mism, st)"
| "recon_loop env io a (c # cs) mism st =
     (case recon_one env io a c st of
        (Inl e, st') \<Rightarrow> (Inl e, st')
      | (Inr bad, st') \<Rightarrow> recon_loop env io a cs (if bad then mism + 1 else mism) st')"

fun recon_accounts ::
  "ledger_env \<Rightarrow> recon_io \<Rightarrow> id16 list \<Rightarrow> nat \<Rightarrow> nat \<times> ledger_db
    \<Rightarrow> (sqlx_error + nat) \<times> nat \<times> ledger_db" where
  "recon_accounts env io [] mism st = (Inr mism, st)"
| "recon_accounts env io (a # as) mism st =
     (case rc_fail io (fst st) of
        Some e \<Rightarrow> (Inl e, fst st + 1, snd st)
      | None \<Rightarrow>
        (case recon_loop env io a (account_currencies io a (snd st)) mism (fst st + 1, snd st) of
           (Inl e, st') \<Rightarrow> (Inl e, st')
         | (Inr m, st') \<Rightarrow> recon_accounts env io as m st'))"

definition reconciliation_pass ::
  "ledger_env \<Rightarrow> recon_io \<Rightarrow> ledger_db \<Rightarrow> (sqlx_error + nat) \<times> ledger_db" where
  "reconciliation_pass env io db =
     (case rc_fail io 0 of
        Some e \<Rightarrow> (Inl e, db)
      | None \<Rightarrow>
        (case recon_accounts env io (active_accounts io db) 0 (1, db) of
           (r, n, db') \<Rightarrow> (r, db')))"

text \<open>One tick: outside the window nothing; a failed pass leaves the counter.\<close>

definition eod_tick ::
  "ledger_env \<Rightarrow> recon_io \<Rightarrow> nat \<Rightarrow> 64 word \<times> ledger_db \<Rightarrow> 64 word \<times> ledger_db" where
  "eod_tick env io now st =
     (if \<not> tick_runs now then st
      else case reconciliation_pass env io (snd st) of
          (Inr m, db') \<Rightarrow> (if m > 0 then fst st + of_nat m else fst st, db')
        | (Inl e, db') \<Rightarrow> (fst st, db'))"

section \<open>Lemmas\<close>

text \<open>A pass only appends snapshots.\<close>

definition only_snapshots :: "ledger_db \<Rightarrow> ledger_db \<Rightarrow> bool" where
  "only_snapshots db db' \<longleftrightarrow> entries db' = entries db \<and> outbox db' = outbox db \<and>
     prefix (snapshots db) (snapshots db')"

lemma only_snapshots_refl [simp]: "only_snapshots db db"
  by (simp add: only_snapshots_def)

lemma only_snapshots_trans: "only_snapshots a b \<Longrightarrow> only_snapshots b c \<Longrightarrow> only_snapshots a c"
  unfolding only_snapshots_def by (auto intro: prefix_order.trans)

lemma recon_one_snapshots: "recon_one env io a c st = (r, n, db') \<Longrightarrow> only_snapshots (snd st) db'"
  by (auto simp: recon_one_def Let_def only_snapshots_def split: option.splits)

lemma recon_loop_snapshots:
  "recon_loop env io a cs m st = (r, n, db') \<Longrightarrow> only_snapshots (snd st) db'"
proof (induction cs arbitrary: m st)
  case (Cons c cs)
  obtain q k d where q: "recon_one env io a c st = (q, k, d)" by (metis prod_cases3)
  note s = recon_one_snapshots [OF q]
  show ?case
  proof (cases q)
    case (Inl e)
    with q Cons.prems s show ?thesis by simp
  next
    case (Inr bad)
    with q Cons.prems have "recon_loop env io a cs (if bad then m + 1 else m) (k, d) = (r, n, db')"
      by simp
    from Cons.IH [OF this] s show ?thesis by (auto intro: only_snapshots_trans)
  qed
qed auto

lemma recon_accounts_snapshots:
  "recon_accounts env io as m st = (r, n, db') \<Longrightarrow> only_snapshots (snd st) db'"
proof (induction as arbitrary: m st)
  case (Cons a as)
  show ?case
  proof (cases "rc_fail io (fst st)")
    case (Some e)
    with Cons.prems show ?thesis by auto
  next
    case None
    obtain q k d where q: "recon_loop env io a (account_currencies io a (snd st)) m
        (fst st + 1, snd st) = (q, k, d)" by (metis prod_cases3)
    note s = recon_loop_snapshots [OF q]
    show ?thesis
    proof (cases q)
      case (Inl e)
      with q None Cons.prems s show ?thesis by simp
    next
      case (Inr m')
      with q None Cons.prems have "recon_accounts env io as m' (k, d) = (r, n, db')" by simp
      from Cons.IH [OF this] s show ?thesis by (auto intro: only_snapshots_trans)
    qed
  qed
qed auto

lemma reconciliation_pass_snapshots:
  "reconciliation_pass env io db = (r, db') \<Longrightarrow> only_snapshots db db'"
  by (auto simp: reconciliation_pass_def split: option.splits prod.splits
      dest!: recon_accounts_snapshots)

text \<open>The snapshot just written is the latest one when the clock moved on.\<close>

lemma latest_snapshot_last:
  assumes "pick_ok (rc_pick io)" and "sn_account s = a" and "lv_coll env (sn_currency s) = lv_coll env cur"
    and "\<forall>t \<in> set ss. sn_at t < sn_at s"
  shows "latest_snapshot env io a cur (ss @ [s]) = Some s"
proof -
  let ?mine = "filter (\<lambda>s. sn_account s = a \<and> lv_coll env (sn_currency s) = lv_coll env cur) (ss @ [s])"
  have mine: "set ?mine \<subseteq> insert s (set ss)" "s \<in> set ?mine" using assms(2,3) by auto
  have "set (filter (\<lambda>u. list_all (\<lambda>t. sn_at t \<le> sn_at u) ?mine) ?mine) = {s}"
  proof -
    have "u = s" if u: "u \<in> set ?mine" "list_all (\<lambda>t. sn_at t \<le> sn_at u) ?mine" for u
    proof (rule ccontr)
      assume "u \<noteq> s"
      with u(1) mine(1) have "u \<in> set ss" by blast
      with assms(4) have "sn_at u < sn_at s" by blast
      moreover have "sn_at s \<le> sn_at u" using u(2) mine(2) by (simp add: list_all_iff)
      ultimately show False by simp
    qed
    moreover have "list_all (\<lambda>t. sn_at t \<le> sn_at s) ?mine"
      unfolding list_all_iff using mine(1) assms(4) by force
    ultimately show ?thesis using mine(2) by auto
  qed
  then show ?thesis
    unfolding latest_snapshot_def Let_def by (rule limit1_single [OF assms(1)])
qed

section \<open>Properties\<close>

text \<open>The reconciliation compares with the last snapshot, not with an independent source: after
  a check of an account and currency has written its snapshot, and the ledger has changed in any
  way since (with no snapshot of them in between and a clock that moves on), the next check
  counts a mismatch exactly if the balance changed, so a legitimate posting is reported as an
  imbalance.\<close>

theorem mismatch_iff_balance_changed:
  assumes "recon_one env io a cur (n, db) = (Inr bad, n1, db1)"
    and "snapshots db2 = snapshots db1" and "\<forall>t \<in> set (snapshots db). sn_at t < rc_clock io n"
    and "pick_ok (rc_pick io2)"
    and "recon_one env io2 a cur (m, db2) = (Inr bad2, m1, db3)"
  shows "bad2 \<longleftrightarrow> live_balance env a cur db2 \<noteq> live_balance env a cur db"
proof -
  let ?s = "\<lparr>sn_id = rc_snap_id io n, sn_account = a, sn_currency = cur,
    sn_balance = live_balance env a cur db, sn_at = rc_clock io n, sn_last_entry = None\<rparr>"
  have "snapshots db2 = snapshots db @ [?s]"
    using assms(1,2) by (auto simp: recon_one_def Let_def split: option.splits)
  then have "latest_snapshot env io2 a cur (snapshots db2) = Some ?s"
    using latest_snapshot_last [OF assms(4), of ?s a env cur "snapshots db"] assms(3) by simp
  with assms(5) show ?thesis
    by (auto simp: recon_one_def Let_def split: option.splits)
qed

definition demo_recon :: recon_io where
  "demo_recon = \<lparr>rc_fail = (\<lambda>n. None), rc_snap_id = (\<lambda>n. of_nat n), rc_clock = (\<lambda>n. 10),
     rc_today = 0, rc_accounts = (\<lambda>x. x), rc_currencies = (\<lambda>x. x), rc_pick = hd\<rparr>"

lemma recon_one_ok:
  "\<forall>n. rc_fail io n = None \<Longrightarrow> \<exists>bad m d. recon_one env io a cur st = (Inr bad, m, d)"
  by (simp add: recon_one_def Let_def)

theorem mismatch_iff_balance_changed_witness:
  "fst (recon_one demo_env demo_recon 2 ''NGN''
     (0, (snd (snd (recon_one demo_env demo_recon 2 ''NGN'' (0, empty_db))))\<lparr>entries := entries demo_db\<rparr>))
   = Inr True"
proof -
  let ?d1 = "snd (snd (recon_one demo_env demo_recon 2 ''NGN'' (0, empty_db)))"
  let ?d2 = "?d1\<lparr>entries := entries demo_db\<rparr>"
  have r1: "recon_one demo_env demo_recon 2 ''NGN'' (0, empty_db) = (Inr False, 3, ?d1)"
    by (simp add: recon_one_def demo_recon_def empty_db_def latest_snapshot_def limit1_def Let_def)
  obtain bad2 m1 d3 where r2: "recon_one demo_env demo_recon 2 ''NGN'' (0, ?d2) = (Inr bad2, m1, d3)"
    using recon_one_ok [of demo_recon demo_env 2 "''NGN''" "(0, ?d2)"] by (auto simp: demo_recon_def)
  have p: "pick_ok (rc_pick demo_recon)"
    by (simp add: demo_recon_def pick_ok_hd)
  have b: "live_balance demo_env 2 ''NGN'' ?d2 \<noteq> live_balance demo_env 2 ''NGN'' empty_db"
    by (simp add: live_balance_def balance_units_def account_rows_def demo_db_entries empty_db_def)
      (simp add: demo_env_def)
  from mismatch_iff_balance_changed [OF r1 _ _ p r2] b r2 show ?thesis
    by (simp add: empty_db_def)
qed

text \<open>A ledger process runs the end-of-day pass only if it was started in the right minutes of
  an hour: the hourly ticks of a process started at second \<open>t0\<close> hit the window 23:55 to 00:05 if
  and only if the minute of \<open>t0\<close> is at most 5 or at least 55; and a pass, however it ends, never
  touches entries or outbox rows and only appends snapshots.\<close>

theorem eod_runs_iff_started_in_time:
  "((\<exists>k. tick_runs (tick_at t0 k)) \<longleftrightarrow> minute_of t0 \<le> 5 \<or> 55 \<le> minute_of t0) \<and>
   only_snapshots db (snd (eod_tick env io now (tot, db)))"
proof
  have m: "minute_of (tick_at t0 k) = minute_of t0" for k
  proof -
    have "(t0 + 3600 * k) div 60 = t0 div 60 + 60 * k" by simp
    then show ?thesis by (simp add: minute_of_def tick_at_def)
  qed
  have h: "hour_of (tick_at t0 k) = (hour_of t0 + k) mod 24" for k
    by (simp add: hour_of_def tick_at_def mod_add_left_eq mod_add_right_eq add.commute)
  have hit: "\<exists>k. hour_of (tick_at t0 k) = x" if "x < 24" for x
  proof -
    have "hour_of t0 < 24" by (simp add: hour_of_def)
    then have "(hour_of t0 + (x + 24 - hour_of t0)) mod 24 = x" using that by simp
    with h show ?thesis by metis
  qed
  have "\<exists>k. tick_runs (tick_at t0 k)" if "minute_of t0 \<le> 5"
    using hit [of 0] that m by (auto simp: tick_runs_def in_window_def)
  moreover have "\<exists>k. tick_runs (tick_at t0 k)" if "55 \<le> minute_of t0"
    using hit [of 23] that m by (auto simp: tick_runs_def in_window_def)
  ultimately show "(\<exists>k. tick_runs (tick_at t0 k)) \<longleftrightarrow> minute_of t0 \<le> 5 \<or> 55 \<le> minute_of t0"
    using m by (auto simp: tick_runs_def in_window_def)
  show "only_snapshots db (snd (eod_tick env io now (tot, db)))"
    using reconciliation_pass_snapshots [of env io db]
    by (auto simp: eod_tick_def split: prod.splits sum.splits)
qed

end
