(* ===== verification/Ledger_Statement.thy ===== *)
theory Ledger_Statement
  imports Ledger_Balance "HOL-Library.Signed_Division"
begin

text \<open>
  \<open>statement.rs\<close> of \<open>services/kova-ledger\<close>: the pages of an account's statement by keyset
  pagination, newest first, and the cursor that names the last row of a page.  The order of the
  pages is the order of \<open>entry_key\<close>: the creation time first, then the id.
\<close>

section \<open>The order of the pages\<close>

datatype entry_key = Entry_Key (key_time: int) (key_id: id16)

instantiation entry_key :: linorder
begin

definition less_eq_entry_key :: "entry_key \<Rightarrow> entry_key \<Rightarrow> bool" where
  "less_eq_entry_key a b \<longleftrightarrow>
     key_time a < key_time b \<or> key_time a = key_time b \<and> key_id a \<le> key_id b"

definition less_entry_key :: "entry_key \<Rightarrow> entry_key \<Rightarrow> bool" where
  "less_entry_key a b \<longleftrightarrow>
     key_time a < key_time b \<or> key_time a = key_time b \<and> key_id a < key_id b"

instance
  by standard (auto simp: less_eq_entry_key_def less_entry_key_def entry_key.expand)

end

definition row_key :: "ledger_entry \<Rightarrow> entry_key" where
  "row_key e = Entry_Key (le_created e) (le_id e)"

section \<open>Cursors\<close>

text \<open>\<open>timestamp_micros\<close> of a time in nanoseconds, as an \<open>i64\<close>.\<close>

definition timestamp_micros :: "datetime \<Rightarrow> 64 word" where
  "timestamp_micros t = word_of_int (t div 1000)"

definition encode_cursor :: "ledger_env \<Rightarrow> datetime \<Rightarrow> id16 \<Rightarrow> string" where
  "encode_cursor env t i =
     lv_b64_encode env (be_bytes 8 (unat (timestamp_micros t)) @ id_bytes i)"

definition decode_cursor :: "ledger_env \<Rightarrow> string \<Rightarrow> ledger_error + (64 word \<times> id16)" where
  "decode_cursor env c =
     (case lv_b64_decode env c of
        None \<Rightarrow> Inl (LInvalidArgument ''invalid cursor encoding'')
      | Some bs \<Rightarrow>
        if length bs \<noteq> 24 then Inl (LInvalidArgument ''malformed cursor'')
        else Inr (of_nat (be_nat (take 8 bs)), id_of_bytes (drop 8 bs)))"

text \<open>\<open>/\<close> and \<open>%\<close> of an \<open>i64\<close> truncate towards zero, and \<open>as u32\<close> takes the low 32 bits; a time
  \<open>chrono\<close> refuses becomes the epoch.\<close>

definition micros_to_naive :: "ledger_env \<Rightarrow> 64 word \<Rightarrow> datetime" where
  "micros_to_naive env m =
     (let secs = sint m sdiv 1000000; sub_micros = sint m smod 1000000
      in case lv_from_timestamp env secs (unat (word_of_int (sub_micros * 1000) :: 32 word)) of
           None \<Rightarrow> 0
         | Some t \<Rightarrow> t)"

section \<open>The query\<close>

record statement_entry =
  se_id :: id16
  se_debit :: id16
  se_credit :: id16
  se_amount :: decimal
  se_currency :: string
  se_key :: string
  se_payment :: "id16 option"
  se_metadata :: "string option"
  se_created :: datetime

record statement_page =
  sp_entries :: "statement_entry list"
  sp_next :: "string option"
  sp_more :: bool

record statement_req =
  sq_account :: id16
  sq_currency :: "string option"
  sq_limit :: "32 word"
  sq_from :: "datetime option"
  sq_to :: "datetime option"

text \<open>The conditions the query builder pushes, apart from the cursor's.\<close>

definition statement_sel :: "ledger_env \<Rightarrow> statement_req \<Rightarrow> ledger_entry \<Rightarrow> bool" where
  "statement_sel env q e \<longleftrightarrow>
     (le_debit e = sq_account q \<or> le_credit e = sq_account q) \<and>
     (case sq_currency q of None \<Rightarrow> True | Some c \<Rightarrow> lv_coll env (le_currency e) = lv_coll env c) \<and>
     (case sq_from q of None \<Rightarrow> True | Some t \<Rightarrow> lv_datetime6 env t \<le> le_created e) \<and>
     (case sq_to q of None \<Rightarrow> True | Some t \<Rightarrow> le_created e \<le> lv_datetime6 env t)"

text \<open>\<open>created_at < dt OR (created_at = dt AND id < cursor_id)\<close>.\<close>

definition below_cursor :: "ledger_env \<Rightarrow> 64 word \<times> id16 \<Rightarrow> ledger_entry \<Rightarrow> bool" where
  "below_cursor env c e \<longleftrightarrow>
     (let dt = lv_datetime6 env (micros_to_naive env (fst c))
      in le_created e < dt \<or> (le_created e = dt \<and> le_id e < snd c))"

definition statement_rows ::
  "ledger_env \<Rightarrow> statement_req \<Rightarrow> (64 word \<times> id16) option \<Rightarrow> ledger_entry list \<Rightarrow> ledger_entry list" where
  "statement_rows env q c es =
     take (unat (sq_limit q) + 1)
       (rev (sort_key row_key
         (filter (\<lambda>e. statement_sel env q e \<and>
                      (case c of None \<Rightarrow> True | Some k \<Rightarrow> below_cursor env k e)) es)))"

definition row_entry :: "ledger_env \<Rightarrow> ledger_entry \<Rightarrow> ledger_error + statement_entry" where
  "row_entry env e =
     rbind (case le_metadata e of
              None \<Rightarrow> Inr None
            | Some m \<Rightarrow> map_err LDatabase (rbind (lv_json_column env m) (\<lambda>t. Inr (Some t))))
       (\<lambda>m. Inr \<lparr>se_id = le_id e, se_debit = le_debit e, se_credit = le_credit e,
                 se_amount = dec_of_units (le_amount e), se_currency = le_currency e,
                 se_key = le_key e, se_payment = le_payment e, se_metadata = m,
                 se_created = le_created e * 1000\<rparr>)"

definition statement_page_of :: "ledger_env \<Rightarrow> nat \<Rightarrow> ledger_entry list \<Rightarrow> ledger_error + statement_page" where
  "statement_page_of env limit rows =
     (let has_more = limit < length rows
      in rbind (rtraverse (row_entry env) (take (if has_more then limit else length rows) rows))
           (\<lambda>es. Inr \<lparr>sp_entries = es,
              sp_next = (if has_more \<and> es \<noteq> []
                         then Some (encode_cursor env (se_created (last es)) (se_id (last es)))
                         else None),
              sp_more = has_more\<rparr>))"

definition get_statement ::
  "ledger_env \<Rightarrow> sqlx_error option \<Rightarrow> statement_req \<Rightarrow> string option \<Rightarrow> ledger_db
    \<Rightarrow> ledger_error + statement_page" where
  "get_statement env fetch q cursor db =
     (if sq_limit q = 0 \<or> 100 < sq_limit q
      then Inl (LInvalidArgument ''limit must be between 1 and 100'')
      else rbind (case cursor of
                    None \<Rightarrow> Inr None
                  | Some c \<Rightarrow> rbind (decode_cursor env c) (\<lambda>k. Inr (Some k)))
             (\<lambda>k. case fetch of
                Some e \<Rightarrow> Inl (LDatabase e)
              | None \<Rightarrow> statement_page_of env (unat (sq_limit q))
                          (statement_rows env q k (entries db))))"

section \<open>The cursor round trip\<close>

lemma be_nat_be_bytes_word64: "(of_nat (be_nat (be_bytes 8 (unat (w :: 64 word)))) :: 64 word) = w"
proof -
  have "unat w < 256 ^ 8"
    using unsigned_less [of w, where ?'a = nat] by simp
  then show ?thesis by (simp add: be_nat_be_bytes)
qed

lemma decode_encode_cursor:
  assumes "b64_ok env"
  shows "decode_cursor env (encode_cursor env t i) = Inr (timestamp_micros t, i)"
  using assms by (simp add: b64_ok_def decode_cursor_def encode_cursor_def be_nat_be_bytes_word64)

lemma sint_word_of_int_small:
  assumes "- (2 ^ 63) \<le> m" and "m < 2 ^ 63"
  shows "sint (word_of_int m :: 64 word) = m"
  using assms by (simp add: signed_of_int signed_take_bit_int_eq_self)

lemma unat_word32_small:
  assumes "0 \<le> v" and "v < 2 ^ 32"
  shows "unat (word_of_int v :: 32 word) = nat v"
  using assms by (simp add: unat_eq_nat_uint uint_word_of_int take_bit_int_eq_self)

lemma micros_to_naive_nonneg:
  assumes "from_timestamp_ok env" and "0 \<le> m" and "m \<le> 8 * 10 ^ 18"
  shows "micros_to_naive env (word_of_int m) = m * 1000"
proof -
  have s: "sint (word_of_int m :: 64 word) = m"
    by (rule sint_word_of_int_small) (use assms(2,3) in simp_all)
  have q: "m sdiv 1000000 = m div 1000000" "m smod 1000000 = m mod 1000000"
    using assms(2)
    by (cases "m = 0"; simp add: signed_divide_int_def signed_modulo_int_def minus_mult_div_eq_mod)+
  have r: "unat (word_of_int (m mod 1000000 * 1000) :: 32 word) = nat (m mod 1000000 * 1000)"
  proof (rule unat_word32_small)
    show "m mod 1000000 * 1000 < 2 ^ 32"
      using pos_mod_bound [of 1000000 m] by simp
  qed simp
  have "nat (m mod 1000000 * 1000) < 10 ^ 9" by simp
  moreover have "\<bar>m div 1000000\<bar> \<le> 8 * 10 ^ 12" using assms(2,3) by simp
  ultimately have "lv_from_timestamp env (m div 1000000) (nat (m mod 1000000 * 1000)) =
      Some (m div 1000000 * 10 ^ 9 + m mod 1000000 * 1000)"
    using assms(1) unfolding from_timestamp_ok_def by simp
  moreover have "m div 1000000 * 10 ^ 9 + m mod 1000000 * 1000 = m * 1000"
  proof -
    have "m div 1000000 * 10 ^ 9 = m div 1000000 * 1000000 * 1000" by simp
    then show ?thesis using div_mult_mod_eq [of m 1000000] by linarith
  qed
  ultimately show ?thesis
    unfolding micros_to_naive_def Let_def s q r by simp
qed

text \<open>A negative count with a fraction of a second is not the time it came from but the epoch.\<close>

lemma micros_to_naive_negative:
  assumes "from_timestamp_ok env" and "- (2 ^ 63) \<le> m" and "m < 0" and "m smod 1000000 \<noteq> 0"
  shows "micros_to_naive env (word_of_int m) = 0"
proof -
  have s: "sint (word_of_int m :: 64 word) = m"
    by (rule sint_word_of_int_small) (use assms(2,3) in simp_all)
  define u where "u = m smod 1000000"
  have u: "- 1000000 < u" "u < 0"
    using assms(3,4) pos_mod_bound [of 1000000 "- m"] pos_mod_sign [of 1000000 "- m"]
    unfolding u_def signed_modulo_int_def signed_divide_int_def
    by (simp_all add: sgn_if minus_div_mult_eq_mod)
  define v where "v = u * 1000"
  have "v mod 2 ^ 32 = (v + 2 ^ 32) mod 2 ^ 32" by simp
  also have "\<dots> = v + 2 ^ 32" using u by (intro mod_pos_pos_trivial) (auto simp: v_def)
  finally have "uint (word_of_int v :: 32 word) = v + 2 ^ 32"
    by (simp add: uint_word_of_int take_bit_eq_mod)
  then have "2 * 10 ^ 9 \<le> unat (word_of_int v :: 32 word)"
    using u by (simp add: unat_eq_nat_uint v_def)
  then show ?thesis
    using assms(1) unfolding from_timestamp_ok_def micros_to_naive_def Let_def s
      u_def [symmetric] v_def [symmetric]
    by simp
qed

section \<open>Pages\<close>

text \<open>The whole statement, in page order.\<close>

definition full_statement :: "ledger_env \<Rightarrow> statement_req \<Rightarrow> ledger_db \<Rightarrow> ledger_entry list" where
  "full_statement env q db = rev (sort_key row_key (filter (statement_sel env q) (entries db)))"

lemma row_key_less:
  "row_key a < row_key b \<longleftrightarrow> le_created a < le_created b \<or> le_created a = le_created b \<and> le_id a < le_id b"
  by (simp add: row_key_def less_entry_key_def)

lemma full_statement_descending:
  assumes "ledger_wf env db"
  shows "sorted_wrt (\<lambda>x y. row_key y < row_key x) (full_statement env q db)"
proof -
  have "distinct (map row_key (entries db))"
    using assms by (auto simp: ledger_wf_def row_key_def distinct_map inj_on_def)
  then have "distinct (map row_key (filter (statement_sel env q) (entries db)))"
    by (rule distinct_map_filter)
  then show ?thesis
    unfolding full_statement_def by (rule rev_sort_key_descending)
qed

lemma set_full_statement: "set (full_statement env q db) = {e \<in> set (entries db). statement_sel env q e}"
  by (auto simp: full_statement_def)

text \<open>What makes a row's cursor faithful: its time is not negative and below the year 10000.\<close>

definition time_ok :: "ledger_entry \<Rightarrow> bool" where
  "time_ok e \<longleftrightarrow> 0 \<le> le_created e \<and> le_created e \<le> 8 * 10 ^ 18"

definition statement_env_ok :: "ledger_env \<Rightarrow> bool" where
  "statement_env_ok env \<longleftrightarrow> b64_ok env \<and> datetime6_ok env \<and> from_timestamp_ok env"

lemma below_cursor_row:
  assumes "statement_env_ok env" and "time_ok x"
  shows "below_cursor env (timestamp_micros (le_created x * 1000), le_id x) e \<longleftrightarrow>
    row_key e < row_key x"
proof -
  have "micros_to_naive env (timestamp_micros (le_created x * 1000)) = le_created x * 1000"
    using assms micros_to_naive_nonneg [of env "le_created x"]
    by (simp add: statement_env_ok_def time_ok_def timestamp_micros_def)
  then show ?thesis
    using assms(1)
    by (simp add: below_cursor_def row_key_less statement_env_ok_def datetime6_ok_def Let_def)
qed

text \<open>The rows a later table has beyond the earlier one, when all of them are newer than every row
  of the statement: the clock of the postings moves on between the pages.\<close>

definition newer_rows :: "ledger_env \<Rightarrow> statement_req \<Rightarrow> ledger_db \<Rightarrow> ledger_db \<Rightarrow> bool" where
  "newer_rows env q db db' \<longleftrightarrow>
     (\<exists>new. entries db' = entries db @ new \<and>
       (\<forall>n \<in> set new. \<forall>e \<in> set (entries db). row_key e < row_key n))"

lemma newer_rows_refl: "newer_rows env q db db"
  by (simp add: newer_rows_def)

lemma statement_rows_after:
  assumes "ledger_wf env db" and "statement_env_ok env" and "newer_rows env q db db'"
    and "full_statement env q db = pre @ x # rest" and "time_ok x"
  shows "statement_rows env q (Some (timestamp_micros (le_created x * 1000), le_id x)) (entries db') =
    take (unat (sq_limit q) + 1) rest"
proof -
  let ?P = "\<lambda>e. row_key e < row_key x"
  obtain new where new: "entries db' = entries db @ new"
      "\<And>n e. n \<in> set new \<Longrightarrow> e \<in> set (entries db) \<Longrightarrow> row_key e < row_key n"
    using assms(3) by (auto simp: newer_rows_def)
  have x: "x \<in> set (entries db)"
    using assms(4) set_full_statement [of env q db] by auto
  have none: "filter (\<lambda>e. statement_sel env q e \<and> ?P e) new = []"
    using new(2) x by (auto simp: filter_empty_conv dest: less_asym)
  have "rev (sort_key row_key (filter (\<lambda>e. statement_sel env q e \<and> ?P e) (entries db'))) =
      rev (sort_key row_key (filter ?P (filter (statement_sel env q) (entries db))))"
    by (simp add: new(1) none conj_commute)
  also have "\<dots> = filter ?P (pre @ x # rest)"
    using assms(4) by (simp only: sort_key_filter_rev full_statement_def)
  also have "\<dots> = rest"
    using full_statement_descending [OF assms(1), of q] assms(4)
    by (intro filter_below_descending) simp
  finally show ?thesis
    by (simp add: statement_rows_def below_cursor_row [OF assms(2,5)])
qed

lemma statement_rows_first:
  "statement_rows env q None (entries db) = take (unat (sq_limit q) + 1) (full_statement env q db)"
  by (simp add: statement_rows_def full_statement_def)

definition decodable :: "ledger_env \<Rightarrow> ledger_entry \<Rightarrow> bool" where
  "decodable env e \<longleftrightarrow> is_ok (row_entry env e)"

definition entry_out :: "ledger_env \<Rightarrow> ledger_entry \<Rightarrow> statement_entry" where
  "entry_out env e = projr (row_entry env e)"

lemma row_entry_decodable: "decodable env e \<Longrightarrow> row_entry env e = Inr (entry_out env e)"
  by (cases "row_entry env e") (simp_all add: decodable_def entry_out_def)

lemma entry_out_fields:
  assumes "decodable env e"
  shows "se_id (entry_out env e) = le_id e \<and> se_created (entry_out env e) = le_created e * 1000"
proof -
  obtain m where "entry_out env e = \<lparr>se_id = le_id e, se_debit = le_debit e,
      se_credit = le_credit e, se_amount = dec_of_units (le_amount e), se_currency = le_currency e,
      se_key = le_key e, se_payment = le_payment e, se_metadata = m,
      se_created = le_created e * 1000\<rparr>"
    using row_entry_decodable [OF assms] unfolding row_entry_def rbind_Inr_iff
    by (metis sum.inject(2))
  then show ?thesis by simp
qed

text \<open>A page cut from the rows \<open>rest\<close> that are left.\<close>

lemma statement_page_of_take:
  assumes "\<forall>e \<in> set rest. decodable env e" and "0 < n"
  shows "statement_page_of env n (take (n + 1) rest) =
    Inr \<lparr>sp_entries = map (entry_out env) (take n rest),
         sp_next = (if n < length rest
                    then Some (encode_cursor env (le_created (rest ! (n - 1)) * 1000) (le_id (rest ! (n - 1))))
                    else None),
         sp_more = n < length rest\<rparr>"
proof -
  have t: "rtraverse (row_entry env) (take n rest) = Inr (map (entry_out env) (take n rest))"
    by (rule rtraverse_ok) (meson assms(1) in_set_takeD row_entry_decodable)
  show ?thesis
  proof (cases "n < length rest")
    case True
    have "last (map (entry_out env) (take n rest)) = entry_out env (rest ! (n - 1))"
    proof -
      have "last (take n rest) = rest ! (n - 1)"
        using True assms(2) by (subst last_conv_nth) auto
      moreover have "take n rest \<noteq> []" using True assms(2) by auto
      ultimately show ?thesis by (simp add: last_map)
    qed
    moreover have "decodable env (rest ! (n - 1))"
      using True assms by simp
    ultimately show ?thesis
      using True t assms(2) entry_out_fields [of env "rest ! (n - 1)"]
      by (auto simp: statement_page_of_def Let_def)
  next
    case False
    with t show ?thesis by (simp add: statement_page_of_def)
  qed
qed

section \<open>Reading the whole statement\<close>

text \<open>A client that follows the cursors.  Each request sees the tables as they are when it is
  served; the list of them bounds the number of requests.\<close>

fun read_pages ::
  "ledger_env \<Rightarrow> statement_req \<Rightarrow> string option \<Rightarrow> ledger_db list \<Rightarrow> statement_entry list option" where
  "read_pages env q c [] = None"
| "read_pages env q c (db # dbs) =
     (case get_statement env None q c db of
        Inl e \<Rightarrow> None
      | Inr pg \<Rightarrow>
        if sp_more pg then map_option ((@) (sp_entries pg)) (read_pages env q (sp_next pg) dbs)
        else Some (sp_entries pg))"

definition limit_ok :: "statement_req \<Rightarrow> bool" where
  "limit_ok q \<longleftrightarrow> sq_limit q \<noteq> 0 \<and> sq_limit q \<le> 100"

lemma limit_ok_pos: "limit_ok q \<Longrightarrow> 0 < unat (sq_limit q)"
  unfolding limit_ok_def using unat_eq_zero gr_zeroI by blast

lemma limit_ok_guard: "limit_ok q \<Longrightarrow> \<not> (sq_limit q = 0 \<or> 100 < sq_limit q)"
  by (auto simp: limit_ok_def not_less)

definition readable :: "ledger_env \<Rightarrow> ledger_db \<Rightarrow> bool" where
  "readable env db \<longleftrightarrow> (\<forall>e \<in> set (entries db). time_ok e \<and> decodable env e)"

lemma readable_full:
  assumes "readable env db" and "full_statement env q db = pre @ rest"
  shows "\<forall>e \<in> set rest. time_ok e \<and> decodable env e"
proof -
  have "set rest \<subseteq> set (full_statement env q db)"
    using assms(2) by simp
  with assms(1) set_full_statement [of env q db] show ?thesis
    unfolding readable_def by blast
qed

text \<open>The rows that are left for a cursor: all of them for none, otherwise what follows its row.\<close>

definition left_for ::
  "ledger_env \<Rightarrow> statement_req \<Rightarrow> ledger_db \<Rightarrow> string option \<Rightarrow> ledger_entry list \<Rightarrow> bool" where
  "left_for env q db c rest \<longleftrightarrow>
     (case c of
        None \<Rightarrow> rest = full_statement env q db
      | Some s \<Rightarrow> \<exists>pre x. full_statement env q db = pre @ x # rest \<and>
          s = encode_cursor env (le_created x * 1000) (le_id x))"

lemma left_for_suffix: "left_for env q db c rest \<Longrightarrow> \<exists>pre. full_statement env q db = pre @ rest"
  by (auto simp: left_for_def split: option.splits)

lemma get_statement_page:
  assumes "ledger_wf env db" and "statement_env_ok env" and "readable env db" and "limit_ok q"
    and "left_for env q db c rest"
    and "db' = db \<or> c \<noteq> None \<and> newer_rows env q db db'"
  shows "get_statement env None q c db' =
    statement_page_of env (unat (sq_limit q)) (take (unat (sq_limit q) + 1) rest)"
proof (cases c)
  case None
  with assms(4-6) show ?thesis
    by (auto simp: get_statement_def limit_ok_guard left_for_def statement_rows_first)
next
  case (Some s)
  with assms(5) obtain pre x where x: "full_statement env q db = pre @ x # rest"
      "s = encode_cursor env (le_created x * 1000) (le_id x)"
    by (auto simp: left_for_def)
  have t: "time_ok x"
    using readable_full [OF assms(3) x(1)] by simp
  have n: "newer_rows env q db db'"
    using assms(6) newer_rows_refl by auto
  show ?thesis
    using statement_rows_after [OF assms(1,2) n x(1) t] assms(2,4) Some x(2)
    by (simp add: get_statement_def limit_ok_guard decode_encode_cursor statement_env_ok_def)
qed

lemma read_pages_rest:
  assumes "ledger_wf env db" and "statement_env_ok env" and "readable env db" and "limit_ok q"
  shows "left_for env q db c rest \<Longrightarrow> length rest < length dbs * unat (sq_limit q) \<or>
      length rest = length dbs * unat (sq_limit q) \<and> dbs \<noteq> [] \<Longrightarrow>
    (\<forall>d \<in> set dbs. newer_rows env q db d) \<Longrightarrow> (c = None \<longrightarrow> hd dbs = db) \<Longrightarrow>
    read_pages env q c dbs = Some (map (entry_out env) rest)"
proof (induction dbs arbitrary: c rest)
  case (Cons d dbs)
  let ?n = "unat (sq_limit q)"
  have n: "0 < ?n" by (rule limit_ok_pos [OF assms(4)])
  obtain pre where pre: "full_statement env q db = pre @ rest"
    using left_for_suffix [OF Cons.prems(1)] by blast
  have ok: "\<forall>e \<in> set rest. decodable env e"
    using readable_full [OF assms(3) pre] by blast
  have d: "d = db \<or> c \<noteq> None \<and> newer_rows env q db d"
    using Cons.prems(3,4) by (cases c) auto
  note page = get_statement_page [OF assms Cons.prems(1) d,
      unfolded statement_page_of_take [OF ok n]]
  show ?case
  proof (cases "?n < length rest")
    case False
    with page show ?thesis by simp
  next
    case True
    let ?x = "rest ! (?n - 1)" and ?rest = "drop ?n rest"
    have split: "rest = take (?n - 1) rest @ ?x # ?rest"
      using True n id_take_nth_drop [of "?n - 1" rest] by simp
    let ?c = "Some (encode_cursor env (le_created ?x * 1000) (le_id ?x))"
    have left: "left_for env q db ?c ?rest"
      unfolding left_for_def option.case
      by (rule exI [of _ "pre @ take (?n - 1) rest"], rule exI [of _ ?x])
        (use pre split in \<open>simp\<close>)
    have len: "length ?rest < length dbs * ?n \<or> length ?rest = length dbs * ?n \<and> dbs \<noteq> []"
      using Cons.prems(2) True by (cases dbs) auto
    have "read_pages env q ?c dbs = Some (map (entry_out env) ?rest)"
      by (rule Cons.IH [OF left len]) (use Cons.prems(3) in auto)
    then have "read_pages env q c (d # dbs) =
        Some (map (entry_out env) (take ?n rest) @ map (entry_out env) ?rest)"
      using page True by simp
    then show ?thesis
      by (simp only: map_append [symmetric] append_take_drop_id)
  qed
qed simp

section \<open>Properties\<close>

lemma demo_statement_env: "statement_env_ok demo_env"
  by (simp add: statement_env_ok_def demo_b64 demo_env_ok)

text \<open>A cursor names the row it was made from: decoding what \<open>encode_cursor\<close> made of a stored
  time and an id gives back the id and, for a time that is not negative, exactly that time; of a
  negative time with a fraction of a second it makes the epoch.\<close>

theorem cursor_roundtrip:
  assumes "statement_env_ok env" and "- (2 ^ 63) \<le> m" and "m \<le> 8 * 10 ^ 18"
  shows "\<exists>w. decode_cursor env (encode_cursor env (m * 1000) i) = Inr (w, i) \<and>
    (0 \<le> m \<longrightarrow> micros_to_naive env w = m * 1000) \<and>
    (m < 0 \<and> m smod 1000000 \<noteq> 0 \<longrightarrow> micros_to_naive env w = 0)"
  using assms decode_encode_cursor [of env "m * 1000" i] micros_to_naive_nonneg [of env m]
    micros_to_naive_negative [of env m]
  by (simp add: statement_env_ok_def timestamp_micros_def)

theorem cursor_roundtrip_witness:
  "\<exists>w. decode_cursor demo_env (encode_cursor demo_env (1700000000123456 * 1000) 42) = Inr (w, 42) \<and>
     micros_to_naive demo_env w = 1700000000123456 * 1000"
  using cursor_roundtrip [OF demo_statement_env, of 1700000000123456 42] by simp



end
