(* ===== verification/Ledger_Server.thy ===== *)
theory Ledger_Server
  imports Ledger_Statement
begin

text \<open>
  \<open>server.rs\<close> of \<open>services/kova-ledger\<close>: the three gRPC handlers, the conversions between the
  protocol messages and the types of the other modules, and the interceptor that checks the
  caller's token.  The token check itself (\<open>jsonwebtoken::decode\<close> with RS256, a PEM key and the
  issuer) is the parameter \<open>jwt_decode\<close>: key, issuers, token.
\<close>

type_synonym jwt_decode = "string \<Rightarrow> string list \<Rightarrow> string \<Rightarrow> json option"

section \<open>Conversions\<close>

record proto_timestamp =
  ts_seconds :: "64 word"
  ts_nanos :: "32 word"

definition bytes_to_id :: "byte list \<Rightarrow> grpc_status + id16" where
  "bytes_to_id b =
     (if length b = 16 then Inr (id_of_bytes b)
      else Inl (mk_status CodeInvalidArgument ''UUID field must be exactly 16 bytes''))"

definition dt_to_timestamp :: "datetime \<Rightarrow> proto_timestamp" where
  "dt_to_timestamp t =
     \<lparr>ts_seconds = word_of_int (t div 10 ^ 9), ts_nanos = word_of_int (t mod 10 ^ 9)\<rparr>"

definition timestamp_to_dt :: "ledger_env \<Rightarrow> proto_timestamp \<Rightarrow> datetime option" where
  "timestamp_to_dt env ts = lv_from_timestamp env (sint (ts_seconds ts)) (unat (ts_nanos ts))"

section \<open>Messages\<close>

record post_entry_request =
  per_debit :: "byte list"
  per_credit :: "byte list"
  per_amount :: string
  per_currency :: string
  per_key :: string
  per_payment :: "byte list"
  per_metadata :: string

record post_entry_response =
  pes_entry_id :: "byte list"
  pes_was_idempotent :: bool
  pes_created_at :: proto_timestamp

record get_balance_request =
  gbr_account :: "byte list"
  gbr_currency :: string

record get_balance_response =
  gbs_account :: "byte list"
  gbs_currency :: string
  gbs_balance :: string
  gbs_count :: int
  gbs_as_of :: "proto_timestamp option"

record get_statement_request =
  gsr_account :: "byte list"
  gsr_currency :: string
  gsr_cursor :: string
  gsr_limit :: "32 word"
  gsr_from :: "proto_timestamp option"
  gsr_to :: "proto_timestamp option"

record ledger_entry_proto =
  lep_id :: "byte list"
  lep_debit :: "byte list"
  lep_credit :: "byte list"
  lep_amount :: string
  lep_currency :: string
  lep_key :: string
  lep_payment :: "byte list"
  lep_metadata :: string
  lep_created :: proto_timestamp

record get_statement_response =
  gss_entries :: "ledger_entry_proto list"
  gss_next :: string
  gss_more :: bool

section \<open>Handlers\<close>

definition handle_post_entry ::
  "ledger_env \<Rightarrow> post_io \<Rightarrow> post_entry_request \<Rightarrow> ledger_db
    \<Rightarrow> (grpc_status + post_entry_response) \<times> ledger_db" where
  "handle_post_entry env io req db =
     (case rbind (bytes_to_id (per_debit req)) (\<lambda>debit.
           rbind (bytes_to_id (per_credit req)) (\<lambda>credit.
           rbind (map_err (\<lambda>e. mk_status CodeInvalidArgument (''invalid amount: '' @ e))
                    (lv_dec_read env (per_amount req))) (\<lambda>amt.
           rbind (if per_payment req = [] then Inr None
                  else rbind (bytes_to_id (per_payment req)) (\<lambda>i. Inr (Some i))) (\<lambda>payment.
           Inr \<lparr>pp_debit = debit, pp_credit = credit, pp_amount = amt,
                pp_currency = per_currency req, pp_key = per_key req, pp_payment = payment,
                pp_metadata = (if per_metadata req = [] then None else Some (per_metadata req))\<rparr>)))) of
        Inl st \<Rightarrow> (Inl st, db)
      | Inr params \<Rightarrow>
        (case post_entry env io params db of
           (Inl e, db') \<Rightarrow> (Inl (status_of_ledger_error e), db')
         | (Inr r, db') \<Rightarrow>
           (Inr \<lparr>pes_entry_id = id_bytes (pr_entry r), pes_was_idempotent = pr_was_idempotent r,
                 pes_created_at = dt_to_timestamp (pr_created r)\<rparr>, db')))"

definition handle_get_balance ::
  "ledger_env \<Rightarrow> sqlx_error option \<Rightarrow> get_balance_request \<Rightarrow> ledger_db
    \<Rightarrow> grpc_status + get_balance_response" where
  "handle_get_balance env fetch req db =
     rbind (bytes_to_id (gbr_account req)) (\<lambda>a.
     rbind (map_err status_of_ledger_error (get_balance env fetch a (gbr_currency req) db)) (\<lambda>r.
     Inr \<lparr>gbs_account = id_bytes a, gbs_currency = gbr_currency req,
          gbs_balance = lv_dec_show env (br_balance r), gbs_count = br_count r,
          gbs_as_of = map_option dt_to_timestamp (br_as_of r)\<rparr>))"

definition entry_to_proto :: "ledger_env \<Rightarrow> statement_entry \<Rightarrow> ledger_entry_proto" where
  "entry_to_proto env e =
     \<lparr>lep_id = id_bytes (se_id e), lep_debit = id_bytes (se_debit e),
      lep_credit = id_bytes (se_credit e), lep_amount = lv_dec_show env (se_amount e),
      lep_currency = se_currency e, lep_key = se_key e,
      lep_payment = (case se_payment e of None \<Rightarrow> [] | Some i \<Rightarrow> id_bytes i),
      lep_metadata = (case se_metadata e of None \<Rightarrow> [] | Some m \<Rightarrow> m),
      lep_created = dt_to_timestamp (se_created e)\<rparr>"

definition handle_get_statement ::
  "ledger_env \<Rightarrow> sqlx_error option \<Rightarrow> get_statement_request \<Rightarrow> ledger_db
    \<Rightarrow> grpc_status + get_statement_response" where
  "handle_get_statement env fetch req db =
     rbind (bytes_to_id (gsr_account req)) (\<lambda>a.
     let q = \<lparr>sq_account = a,
              sq_currency = (if gsr_currency req = [] then None else Some (gsr_currency req)),
              sq_limit = (if gsr_limit req = 0 then 20 else gsr_limit req),
              sq_from = Option.bind (gsr_from req) (timestamp_to_dt env),
              sq_to = Option.bind (gsr_to req) (timestamp_to_dt env)\<rparr>;
         cursor = (if gsr_cursor req = [] then None else Some (gsr_cursor req))
     in rbind (map_err status_of_ledger_error (get_statement env fetch q cursor db)) (\<lambda>page.
        Inr \<lparr>gss_entries = map (entry_to_proto env) (sp_entries page),
             gss_next = (case sp_next page of None \<Rightarrow> [] | Some c \<Rightarrow> c),
             gss_more = sp_more page\<rparr>))"

section \<open>The interceptor\<close>

text \<open>\<open>metadata\<close> is the value of the \<open>authorization\<close> header, if there is one that is visible
  ASCII.\<close>

definition auth_interceptor :: "jwt_decode \<Rightarrow> string \<Rightarrow> string option \<Rightarrow> grpc_status + json" where
  "auth_interceptor jwt pem metadata =
     (case Option.bind metadata (\<lambda>s. strip_prefix s ''Bearer '') of
        None \<Rightarrow> Inl (mk_status CodeUnauthenticated ''missing Authorization header'')
      | Some token \<Rightarrow>
        (case jwt pem [''kova-auth''] token of
           None \<Rightarrow> Inl (mk_status CodeUnauthenticated ''invalid or expired token'')
         | Some claims \<Rightarrow> Inr claims))"

datatype ledger_request =
    ReqPost post_entry_request
  | ReqBalance get_balance_request
  | ReqStatement get_statement_request

datatype ledger_response =
    RespPost post_entry_response
  | RespBalance get_balance_response
  | RespStatement get_statement_response

text \<open>\<open>KovaLedgerServer::with_interceptor\<close>: the interceptor first, on every call.\<close>

definition ledger_call ::
  "ledger_env \<Rightarrow> jwt_decode \<Rightarrow> string \<Rightarrow> post_io \<Rightarrow> sqlx_error option \<Rightarrow> string option
    \<Rightarrow> ledger_request \<Rightarrow> ledger_db \<Rightarrow> (grpc_status + ledger_response) \<times> ledger_db" where
  "ledger_call env jwt pem io fetch metadata req db =
     (case auth_interceptor jwt pem metadata of
        Inl st \<Rightarrow> (Inl st, db)
      | Inr claims \<Rightarrow>
        (case req of
           ReqPost r \<Rightarrow>
             (case handle_post_entry env io r db of
                (res, db') \<Rightarrow> (rbind res (\<lambda>x. Inr (RespPost x)), db'))
         | ReqBalance r \<Rightarrow> (rbind (handle_get_balance env fetch r db) (\<lambda>x. Inr (RespBalance x)), db)
         | ReqStatement r \<Rightarrow>
             (rbind (handle_get_statement env fetch r db) (\<lambda>x. Inr (RespStatement x)), db)))"

section \<open>Lemmas\<close>

lemma bytes_to_id_Inr: "bytes_to_id b = Inr i \<longleftrightarrow> length b = 16 \<and> i = id_of_bytes b"
  by (auto simp: bytes_to_id_def)

lemma bytes_to_id_bytes [simp]: "bytes_to_id (id_bytes i) = Inr i"
  by (simp add: bytes_to_id_def)

text \<open>A time a handler sends out comes back as the same time when a client returns it.\<close>

lemma timestamp_roundtrip:
  assumes "from_timestamp_ok env" and "\<bar>t div 10 ^ 9\<bar> \<le> 8 * 10 ^ 12"
  shows "timestamp_to_dt env (dt_to_timestamp t) = Some t"
proof -
  have n: "0 \<le> t mod 10 ^ 9" "t mod 10 ^ 9 < 10 ^ 9" by simp_all
  then have "unat (word_of_int (t mod 10 ^ 9) :: 32 word) = nat (t mod 10 ^ 9)"
    by (intro unat_word32_small) simp_all
  moreover have "sint (word_of_int (t div 10 ^ 9) :: 64 word) = t div 10 ^ 9"
    by (rule sint_word_of_int_small) (use assms(2) in \<open>simp_all add: abs_le_iff\<close>)
  moreover have "lv_from_timestamp env (t div 10 ^ 9) (nat (t mod 10 ^ 9)) =
      Some (t div 10 ^ 9 * 10 ^ 9 + t mod 10 ^ 9)"
    using assms n unfolding from_timestamp_ok_def by (metis int_nat_eq nat_less_iff of_nat_numeral of_nat_power)
  ultimately show ?thesis
    unfolding timestamp_to_dt_def dt_to_timestamp_def proto_timestamp.simps
    by (simp only: div_mult_mod_eq)
qed

lemma handle_post_entry_db:
  assumes "handle_post_entry env io req db = (res, db')"
  shows "db' = db \<or> (\<exists>p r. post_entry env io p db = (r, db') \<and>
    id_bytes (pp_debit p) = id_bytes (id_of_bytes (per_debit req)) \<and> length (per_debit req) = 16 \<and>
    length (per_credit req) = 16 \<and> pp_debit p = id_of_bytes (per_debit req) \<and>
    pp_credit p = id_of_bytes (per_credit req) \<and> lv_dec_read env (per_amount req) = Inr (pp_amount p) \<and>
    pp_currency p = per_currency req \<and> pp_key p = per_key req)"
  using assms
  by (auto simp: handle_post_entry_def rbind_Inr_iff rbind_Inl_iff bytes_to_id_Inr split: sum.splits prod.splits)

section \<open>Properties\<close>

text \<open>C20: Only an authenticated posting changes the ledger: a call that changes any table carried a
  bearer token that the verifier accepts for the issuer \<open>kova-auth\<close>, was a PostEntry request with
  16-byte account ids and a readable amount, and extended entries and outbox by exactly one row
  each; the tables stay well formed whatever the call.\<close>

theorem only_authenticated_posts_change_the_ledger:
  assumes "ledger_wf env db"
    and "ledger_call env jwt pem io fetch metadata req db = (res, db')" and "db' \<noteq> db"
  shows "\<exists>token claims r p. metadata = Some (''Bearer '' @ token) \<and>
    jwt pem [''kova-auth''] token = Some claims \<and> req = ReqPost r \<and>
    length (per_debit r) = 16 \<and> length (per_credit r) = 16 \<and>
    lv_dec_read env (per_amount r) = Inr p \<and> ledger_wf env db' \<and>
    length (entries db') = length (entries db) + 1 \<and> length (outbox db') = length (outbox db) + 1"
proof -
  obtain claims where c: "auth_interceptor jwt pem metadata = Inr claims"
    using assms(2,3) by (auto simp: ledger_call_def split: sum.splits)
  then obtain token where t: "metadata = Some (''Bearer '' @ token)"
      "jwt pem [''kova-auth''] token = Some claims"
    by (auto simp: auth_interceptor_def strip_prefix_Some_iff bind_eq_Some_conv split: option.splits)
  obtain r res2 where r: "req = ReqPost r" "handle_post_entry env io r db = (res2, db')"
    using assms(2,3) c by (auto simp: ledger_call_def split: ledger_request.splits prod.splits)
  from handle_post_entry_db [OF r(2)] assms(3) obtain p q where
    p: "post_entry env io p db = (q, db')" "length (per_debit r) = 16" "length (per_credit r) = 16"
      "lv_dec_read env (per_amount r) = Inr (pp_amount p)" by blast
  have "length (entries db') = length (entries db) + 1 \<and> length (outbox db') = length (outbox db) + 1"
    using p(1) assms(3) by (cases rule: post_entry_cases) (auto simp: posted_db_def)
  with t r(1) p post_entry_extends [OF p(1)] assms(1) show ?thesis by blast
qed

theorem only_authenticated_posts_change_the_ledger_witness:
  "\<exists>token claims. Some ''Bearer abc'' = Some (''Bearer '' @ token) \<and>
     (\<lambda>pem iss t. if t = ''abc'' then Some JNull else None) ''pem'' [''kova-auth''] token = Some claims"
proof -
  let ?jwt = "\<lambda>pem iss t. if t = ''abc'' then Some JNull else None"
  let ?r = "\<lparr>per_debit = id_bytes 1, per_credit = id_bytes 2, per_amount = ''500'',
     per_currency = ''NGN'', per_key = ''k1'', per_payment = [], per_metadata = []\<rparr>"
  have s: "strip_prefix ''Bearer abc'' ''Bearer '' = Some ''abc''"
    by (simp add: strip_prefix_def starts_with_def)
  obtain res db' where call: "ledger_call demo_env ?jwt ''pem'' (good_io 7 5000 8 5) None
      (Some ''Bearer abc'') (ReqPost ?r) empty_db = (res, db')" by force
  have "entries db' \<noteq> []"
    using call s
    by (auto simp: ledger_call_def auth_interceptor_def handle_post_entry_def demo_post_simps
        empty_db_def read_nat_def digit_val_def)
  then have "db' \<noteq> empty_db" by (auto simp: empty_db_def)
  from only_authenticated_posts_change_the_ledger [OF empty_db_wf call this] show ?thesis
    by blast
qed

end
