(* ===== verification/Gateway_Http.thy ===== *)
theory Gateway_Http
  imports Entities
begin

text \<open>
  \<open>services/kova-gateway\<close>: requests and responses as the middleware sees them, and the error
  responses of \<open>error.rs\<close>.  Of the headers only those whose value is visible ASCII are kept (the
  others fail \<open>to_str\<close> wherever the code reads a header), under lower-case names, the first one
  first.
\<close>

record authenticated_user =
  au_user_id :: uuid
  au_jti :: string
  au_device_id :: "string option"

record http_req =
  hq_method :: string
  hq_path :: string
  hq_headers :: "(string \<times> string) list"
  hq_user :: "authenticated_user option"

record http_resp =
  hs_status :: nat
  hs_headers :: "(string \<times> string) list"
  hs_body :: json

type_synonym 'w service = "http_req \<Rightarrow> 'w \<Rightarrow> http_resp \<times> 'w"

section \<open>Error responses\<close>

definition api_error :: "nat \<Rightarrow> string \<Rightarrow> string \<Rightarrow> http_resp" where
  "api_error status code message =
     \<lparr>hs_status = status, hs_headers = [],
      hs_body = envelope JNull (JObj [(''code'', JStr code), (''message'', JStr message)]) (JObj [])\<rparr>"

definition api_not_implemented :: http_resp where
  "api_not_implemented = api_error 501 ''NOT_IMPLEMENTED'' ''This endpoint is not yet implemented''"

definition api_unauthorized :: "string \<Rightarrow> string \<Rightarrow> http_resp" where
  "api_unauthorized code message = api_error 401 code message"

definition api_too_many_requests :: "nat \<Rightarrow> http_resp" where
  "api_too_many_requests retry_after_secs =
     (api_error 429 ''RATE_LIMIT_EXCEEDED'' (''Too many requests '' @ [CHR 0xE2, CHR 0x80, CHR 0x94] @ '' please slow down''))
       \<lparr>hs_headers := [(''retry-after'', show_nat retry_after_secs)]\<rparr>"

definition api_service_unavailable :: "string \<Rightarrow> http_resp" where
  "api_service_unavailable service =
     api_error 503 ''SERVICE_UNAVAILABLE''
       (''upstream service '' @ CHR 0x27 # service @ CHR 0x27 # '' is temporarily unavailable'')"

definition is_server_error :: "nat \<Rightarrow> bool" where
  "is_server_error s \<longleftrightarrow> 500 \<le> s \<and> s < 600"

text \<open>Every error has the envelope with no data and a code.\<close>

lemma api_error_envelope:
  "jfield (hs_body (api_error s c m)) ''data'' = Some JNull"
  "jfield (hs_body (api_error s c m)) ''error'' = Some (JObj [(''code'', JStr c), (''message'', JStr m)])"
  by (simp_all add: api_error_def)

lemma api_error_status [simp]:
  "hs_status (api_error s c m) = s" "hs_status api_not_implemented = 501"
  "hs_status (api_unauthorized c m) = 401" "hs_status (api_too_many_requests n) = 429"
  "hs_status (api_service_unavailable v) = 503"
  by (simp_all add: api_error_def api_not_implemented_def api_unauthorized_def
      api_too_many_requests_def api_service_unavailable_def)

section \<open>The contract of a middleware layer\<close>

text \<open>
  A layer wraps a service.  It either answers by itself, with one of its own statuses and without
  calling what it wraps, or calls it once, on a request with the same method, path and headers,
  and returns its answer with the status unchanged.  Chains of layers inherit this.
\<close>

definition same_target :: "http_req \<Rightarrow> http_req \<Rightarrow> bool" where
  "same_target a b \<longleftrightarrow> hq_method a = hq_method b \<and> hq_path a = hq_path b \<and> hq_headers a = hq_headers b"

lemma same_target_refl [simp]: "same_target a a"
  by (simp add: same_target_def)

lemma same_target_trans: "same_target a b \<Longrightarrow> same_target b c \<Longrightarrow> same_target a c"
  by (simp add: same_target_def)

locale middleware_layer =
  fixes layer :: "(http_req \<Rightarrow> 'w \<Rightarrow> http_resp \<times> 'w) \<Rightarrow> http_req \<Rightarrow> 'w \<Rightarrow> http_resp \<times> 'w"
    and own :: "nat set"
  assumes answers: "layer inner req w = (resp, w') \<Longrightarrow>
    hs_status resp \<in> own \<or>
    (\<exists>req' v r v'. same_target req req' \<and> inner req' v = (r, v') \<and> hs_status resp = hs_status r)"
begin

text \<open>Whatever the wrapped service guarantees of its statuses holds up to the layer's own.\<close>

lemma statuses:
  assumes "\<And>req v r v'. P req \<Longrightarrow> inner req v = (r, v') \<Longrightarrow> hs_status r \<in> S"
    and "\<And>a b. same_target a b \<Longrightarrow> P a \<Longrightarrow> P b" and "P req"
    and "layer inner req w = (resp, w')"
  shows "hs_status resp \<in> own \<union> S"
  using answers [OF assms(4)] assms(1-3) by (metis UnCI)

end

end
