(* ===== verification/Gateway_Auth.thy ===== *)
theory Gateway_Auth
  imports Gateway_Http
begin

text \<open>
  \<open>middleware/auth.rs\<close> of \<open>services/kova-gateway\<close>: the key set, the validation of a bearer token
  and the middleware that puts the user into the request.  \<open>jsonwebtoken\<close> and the UUID parser are
  outside the repository and are the fields of \<open>jwt_env\<close>: reading a PEM key, reading the header
  of a token, and decoding it with a key for RS256 and a list of issuers.
\<close>

section \<open>Keys and claims\<close>

datatype jwt_alg = RS256 | OtherAlg string

record jwt_header =
  jh_alg :: jwt_alg
  jh_kid :: "string option"

record kova_claims =
  kc_sub :: string
  kc_exp :: nat
  kc_iat :: nat
  kc_jti :: string
  kc_iss :: string
  kc_device_id :: "string option"

datatype jwt_error = JwtExpiredSignature | JwtOtherError

record jwt_env =
  je_read_pem :: "string \<Rightarrow> string option"
  je_header :: "string \<Rightarrow> jwt_header option"
  je_decode :: "string \<Rightarrow> string list \<Rightarrow> string \<Rightarrow> jwt_error + kova_claims"
  je_parse_uuid :: "string \<Rightarrow> uuid option"

type_synonym jwt_key_set = "string \<Rightarrow> string option"

definition key_set_from_pem :: "jwt_env \<Rightarrow> string \<Rightarrow> unit + jwt_key_set" where
  "key_set_from_pem env pem =
     (case je_read_pem env pem of
        None \<Rightarrow> Inl ()
      | Some k \<Rightarrow> Inr [''default'' \<mapsto> k])"

fun key_set_from_map :: "jwt_env \<Rightarrow> (string \<times> string) list \<Rightarrow> jwt_key_set \<Rightarrow> unit + jwt_key_set" where
  "key_set_from_map env [] m = Inr m"
| "key_set_from_map env ((kid, pem) # rest) m =
     (case je_read_pem env pem of
        None \<Rightarrow> Inl ()
      | Some k \<Rightarrow> key_set_from_map env rest (m(kid \<mapsto> k)))"

definition key_set_get :: "jwt_key_set \<Rightarrow> string option \<Rightarrow> string option" where
  "key_set_get keys kid = keys (case kid of None \<Rightarrow> ''default'' | Some k \<Rightarrow> k)"

section \<open>Validation\<close>

datatype auth_error =
    AMissingHeader | AMalformedBearer | AExpired | AInvalid | AWrongAlgorithm | AUnknownKid

definition validate_token :: "jwt_env \<Rightarrow> jwt_key_set \<Rightarrow> string \<Rightarrow> auth_error + kova_claims" where
  "validate_token env keys token =
     (case je_header env token of
        None \<Rightarrow> Inl AInvalid
      | Some h \<Rightarrow>
        if jh_alg h \<noteq> RS256 then Inl AWrongAlgorithm
        else case key_set_get keys (jh_kid h) of
            None \<Rightarrow> Inl AUnknownKid
          | Some key \<Rightarrow>
            (case je_decode env key [''kova-auth''] token of
               Inl JwtExpiredSignature \<Rightarrow> Inl AExpired
             | Inl JwtOtherError \<Rightarrow> Inl AInvalid
             | Inr claims \<Rightarrow> Inr claims))"

fun auth_error_response :: "auth_error \<Rightarrow> http_resp" where
  "auth_error_response AExpired = api_unauthorized ''TOKEN_EXPIRED'' ''Access token has expired''"
| "auth_error_response AMissingHeader =
     api_unauthorized ''TOKEN_MISSING'' ''Authorization header is required''"
| "auth_error_response AMalformedBearer =
     api_unauthorized ''TOKEN_MISSING'' ''Authorization header is required''"
| "auth_error_response AWrongAlgorithm =
     api_unauthorized ''TOKEN_INVALID'' ''Unsupported signing algorithm''"
| "auth_error_response AInvalid = api_unauthorized ''TOKEN_INVALID'' ''Access token is invalid''"
| "auth_error_response AUnknownKid = api_unauthorized ''TOKEN_INVALID'' ''Access token is invalid''"

definition is_exempt :: "string \<Rightarrow> bool" where
  "is_exempt path \<longleftrightarrow> path = ''/api/v1/kova/health'' \<or> starts_with path ''/api/v1/kova/auth/''"

section \<open>The middleware\<close>

definition bearer_token :: "http_req \<Rightarrow> auth_error + string" where
  "bearer_token req =
     (case map_of (hq_headers req) ''authorization'' of
        None \<Rightarrow> Inl AMissingHeader
      | Some h \<Rightarrow>
        (case strip_prefix h ''Bearer '' of
           None \<Rightarrow> Inl AMalformedBearer
         | Some t \<Rightarrow> Inr (trim t)))"

definition authenticate :: "jwt_env \<Rightarrow> jwt_key_set \<Rightarrow> http_req \<Rightarrow> auth_error + authenticated_user" where
  "authenticate env keys req =
     rbind (bearer_token req) (\<lambda>token.
     rbind (validate_token env keys token) (\<lambda>claims.
     rbind (ok_or (je_parse_uuid env (kc_sub claims)) AInvalid) (\<lambda>uid.
     Inr \<lparr>au_user_id = uid, au_jti = kc_jti claims, au_device_id = kc_device_id claims\<rparr>)))"

definition auth_layer :: "jwt_env \<Rightarrow> jwt_key_set \<Rightarrow> 'w service \<Rightarrow> 'w service" where
  "auth_layer env keys inner req w =
     (if is_exempt (hq_path req) then inner req w
      else case authenticate env keys req of
          Inl e \<Rightarrow> (auth_error_response e, w)
        | Inr u \<Rightarrow> inner (req\<lparr>hq_user := Some u\<rparr>) w)"

lemma auth_error_status [simp]: "hs_status (auth_error_response e) = 401"
  by (cases e) simp_all

interpretation auth_mw: middleware_layer "auth_layer env keys" "{401}" for env keys
proof unfold_locales
  fix inner req w resp w'
  assume a: "auth_layer env keys inner req w = (resp, w')"
  show "hs_status resp \<in> {401} \<or>
      (\<exists>req' v r v'. same_target req req' \<and> inner req' v = (r, v') \<and> hs_status resp = hs_status r)"
  proof (cases "is_exempt (hq_path req)")
    case True
    with a have "inner req w = (resp, w')" by (simp add: auth_layer_def)
    then show ?thesis using same_target_refl by blast
  next
    case False
    show ?thesis
    proof (cases "authenticate env keys req")
      case (Inl e)
      with a False show ?thesis by (auto simp: auth_layer_def)
    next
      case (Inr u)
      with a False have "inner (req\<lparr>hq_user := Some u\<rparr>) w = (resp, w')"
        by (simp add: auth_layer_def)
      moreover have "same_target req (req\<lparr>hq_user := Some u\<rparr>)"
        by (simp add: same_target_def)
      ultimately show ?thesis by blast
    qed
  qed
qed

section \<open>Lemmas\<close>

lemma validate_token_Inr:
  "validate_token env keys token = Inr c \<longleftrightarrow>
    (\<exists>h key. je_header env token = Some h \<and> jh_alg h = RS256 \<and>
      key_set_get keys (jh_kid h) = Some key \<and> je_decode env key [''kova-auth''] token = Inr c)"
  by (auto simp: validate_token_def split: option.splits sum.splits jwt_error.splits)

lemma bearer_token_Inr:
  "bearer_token req = Inr t \<longleftrightarrow>
    (\<exists>s. map_of (hq_headers req) ''authorization'' = Some (''Bearer '' @ s) \<and> t = trim s)"
  by (auto simp: bearer_token_def strip_prefix_Some_iff strip_prefix_None_iff split: option.splits)

text \<open>With a single key every token that names a key id of its own is refused.\<close>

lemma single_key_kid:
  assumes "key_set_from_pem env pem = Inr keys"
    and "je_header env token = Some \<lparr>jh_alg = RS256, jh_kid = Some kid\<rparr>" and "kid \<noteq> ''default''"
  shows "validate_token env keys token = Inl AUnknownKid"
  using assms by (auto simp: key_set_from_pem_def validate_token_def key_set_get_def split: option.splits)

end
