(* ===== verification/Redis.thy ===== *)
theory Redis
  imports Prelude
begin

text \<open>
  The Redis commands the services send, as operations on a store of keys with an optional expiry
  (in seconds; a key is gone from its expiry time on).  A counter is kept as an integer, which is
  how the commands read it.  The contract \<open>expiring_store\<close> is what the clients rely on.
\<close>

datatype redis_val = RInt int | RStr string

record redis_cell =
  rc_val :: redis_val
  rc_exp :: "nat option"

type_synonym redis = "string \<Rightarrow> redis_cell option"

definition cell_alive :: "nat \<Rightarrow> redis_cell \<Rightarrow> bool" where
  "cell_alive now c \<longleftrightarrow> (case rc_exp c of None \<Rightarrow> True | Some t \<Rightarrow> now < t)"

text \<open>\<open>GET\<close>, with the expiry.\<close>

definition redis_live :: "nat \<Rightarrow> string \<Rightarrow> redis \<Rightarrow> redis_cell option" where
  "redis_live now k R =
     (case R k of None \<Rightarrow> None | Some c \<Rightarrow> if cell_alive now c then Some c else None)"

definition redis_get :: "nat \<Rightarrow> string \<Rightarrow> redis \<Rightarrow> redis_val option" where
  "redis_get now k R = map_option rc_val (redis_live now k R)"

text \<open>\<open>INCR\<close>: a missing key counts from 0 and has no expiry, a present one keeps its own; \<open>None\<close>
  is the error of a value that is not an integer.\<close>

definition redis_incr :: "nat \<Rightarrow> string \<Rightarrow> redis \<Rightarrow> (int \<times> redis) option" where
  "redis_incr now k R =
     (case redis_live now k R of
        None \<Rightarrow> Some (1, R(k \<mapsto> \<lparr>rc_val = RInt 1, rc_exp = None\<rparr>))
      | Some c \<Rightarrow>
        (case rc_val c of
           RInt n \<Rightarrow> Some (n + 1, R(k \<mapsto> c\<lparr>rc_val := RInt (n + 1)\<rparr>))
         | RStr s \<Rightarrow> None))"

definition redis_expire :: "nat \<Rightarrow> string \<Rightarrow> nat \<Rightarrow> redis \<Rightarrow> redis" where
  "redis_expire now k ttl R =
     (case redis_live now k R of
        None \<Rightarrow> R
      | Some c \<Rightarrow> R(k \<mapsto> c\<lparr>rc_exp := Some (now + ttl)\<rparr>))"

text \<open>\<open>SET k v EX ttl\<close> and \<open>DEL\<close>.\<close>

definition redis_set_ex :: "nat \<Rightarrow> string \<Rightarrow> redis_val \<Rightarrow> nat \<Rightarrow> redis \<Rightarrow> redis" where
  "redis_set_ex now k v ttl R = R(k \<mapsto> \<lparr>rc_val = v, rc_exp = Some (now + ttl)\<rparr>)"

definition redis_set :: "string \<Rightarrow> redis_val \<Rightarrow> redis \<Rightarrow> redis" where
  "redis_set k v R = R(k \<mapsto> \<lparr>rc_val = v, rc_exp = None\<rparr>)"

definition redis_del :: "string \<Rightarrow> redis \<Rightarrow> redis" where
  "redis_del k R = R(k := None)"

text \<open>A call can fail before the command ran or after it.\<close>

datatype redis_fault = RedisFine | RedisDown | RedisLost

definition redis_write :: "redis_fault \<Rightarrow> (redis \<Rightarrow> redis) \<Rightarrow> redis \<Rightarrow> redis" where
  "redis_write fault cmd R = (if fault = RedisDown then R else cmd R)"

definition redis_empty :: redis where
  "redis_empty = (\<lambda>k. None)"

section \<open>The contract\<close>

locale expiring_store =
  fixes get :: "nat \<Rightarrow> 'k \<Rightarrow> 's \<Rightarrow> 'v option"
    and put :: "nat \<Rightarrow> 'k \<Rightarrow> 'v \<Rightarrow> nat \<Rightarrow> 's \<Rightarrow> 's"
    and del :: "'k \<Rightarrow> 's \<Rightarrow> 's"
  assumes get_put: "now \<le> t \<Longrightarrow> get t k (put now k v ttl s) = (if t < now + ttl then Some v else None)"
    and get_put_other: "k \<noteq> j \<Longrightarrow> get t j (put now k v ttl s) = get t j s"
    and get_del: "get t k (del k s) = None"
    and get_del_other: "k \<noteq> j \<Longrightarrow> get t j (del k s) = get t j s"
begin

text \<open>A value that is read at most \<open>ttl\<close> seconds after it was put, with other keys written in
  between, is the value put.\<close>

lemma get_put_fresh: "now \<le> t \<Longrightarrow> t < now + ttl \<Longrightarrow> get t k (put now k v ttl s) = Some v"
  by (simp add: get_put)

lemma get_put_stale: "now + ttl \<le> t \<Longrightarrow> get t k (put now k v ttl s) = None"
  by (simp add: get_put)

lemma take_once: "get t k (del k (put now k v ttl s)) = None"
  by (rule get_del)

end

interpretation redis_store: expiring_store redis_get redis_set_ex redis_del
  by unfold_locales
    (auto simp: redis_get_def redis_live_def redis_set_ex_def redis_del_def cell_alive_def)

section \<open>Lemmas\<close>

lemma redis_get_incr:
  assumes "redis_incr now k R = Some (n, R')" and "now \<le> t"
  shows "redis_get t k R' = (case redis_live now k R of
      None \<Rightarrow> Some (RInt n)
    | Some c \<Rightarrow> if cell_alive t c then Some (RInt n) else None)"
  using assms
  by (auto simp: redis_incr_def redis_get_def redis_live_def cell_alive_def
      split: option.splits if_splits redis_val.splits)

lemma redis_incr_other:
  "redis_incr now k R = Some (n, R') \<Longrightarrow> j \<noteq> k \<Longrightarrow> R' j = R j"
  by (auto simp: redis_incr_def split: option.splits redis_val.splits)

lemma redis_expire_other: "j \<noteq> k \<Longrightarrow> redis_expire now k ttl R j = R j"
  by (simp add: redis_expire_def split: option.splits)

end
