(* ===== verification/Effects.thy ===== *)
theory Effects
  imports Types_Errors
begin

text \<open>
  The form of the HTTP services' handlers: an \<open>async fn\<close> returning \<open>Result\<close> is a function from
  the world to a result and the world it leaves, an early return leaves the world as it is at
  that point, and \<open>?\<close> is \<open>ebind\<close>.  \<open>evalid\<close> says that every outcome of a program, errors
  included, satisfies a postcondition, with one rule for each combinator.
\<close>

type_synonym ('e, 'a, 'w) eff = "'w \<Rightarrow> ('e + 'a) \<times> 'w"

definition eret :: "'a \<Rightarrow> ('e, 'a, 'w) eff" where
  "eret a w = (Inr a, w)"

definition ethrow :: "'e \<Rightarrow> ('e, 'a, 'w) eff" where
  "ethrow e w = (Inl e, w)"

definition ebind :: "('e, 'a, 'w) eff \<Rightarrow> ('a \<Rightarrow> ('e, 'b, 'w) eff) \<Rightarrow> ('e, 'b, 'w) eff" where
  "ebind m f w = (case m w of (r, w') \<Rightarrow> (case r of Inl e \<Rightarrow> (Inl e, w') | Inr a \<Rightarrow> f a w'))"

text \<open>A result that does not depend on the world; reading the world; one of two programs; a guard.\<close>

definition elift :: "('e + 'a) \<Rightarrow> ('e, 'a, 'w) eff" where
  "elift r w = (r, w)"

definition egets :: "('w \<Rightarrow> 'e + 'a) \<Rightarrow> ('e, 'a, 'w) eff" where
  "egets f w = (f w, w)"

definition eguard :: "bool \<Rightarrow> 'e \<Rightarrow> ('e, unit, 'w) eff" where
  "eguard b e w = (if b then Inr () else Inl e, w)"

text \<open>A program on a part of the world, \<open>map_err\<close>, and \<open>match\<close> on the result of a program
  (\<open>.ok()\<close> with a constant handler).\<close>

definition ezoom :: "('w \<Rightarrow> 's) \<Rightarrow> ('s \<Rightarrow> 'w \<Rightarrow> 'w) \<Rightarrow> ('e, 'a, 's) eff \<Rightarrow> ('e, 'a, 'w) eff" where
  "ezoom get put m w = (case m (get w) of (r, s) \<Rightarrow> (r, put s w))"

definition emap_err :: "('e \<Rightarrow> 'd) \<Rightarrow> ('e, 'a, 'w) eff \<Rightarrow> ('d, 'a, 'w) eff" where
  "emap_err f m w = (case m w of (r, w') \<Rightarrow> (map_err f r, w'))"

definition etry :: "('e, 'a, 'w) eff \<Rightarrow> ('e + 'a \<Rightarrow> ('d, 'b, 'w) eff) \<Rightarrow> ('d, 'b, 'w) eff" where
  "etry m h w = (case m w of (r, w') \<Rightarrow> h r w')"

lemmas eff_defs = eret_def ethrow_def ebind_def elift_def egets_def eguard_def ezoom_def
  emap_err_def etry_def

section \<open>Results\<close>

lemma ebind_Inr:
  "ebind m f w = (Inr b, w'') \<longleftrightarrow> (\<exists>a w'. m w = (Inr a, w') \<and> f a w' = (Inr b, w''))"
  by (auto simp: ebind_def split: prod.splits sum.splits)

lemma ebind_Inl:
  "ebind m f w = (Inl e, w'') \<longleftrightarrow>
    m w = (Inl e, w'') \<or> (\<exists>a w'. m w = (Inr a, w') \<and> f a w' = (Inl e, w''))"
  by (auto simp: ebind_def split: prod.splits sum.splits)

lemma ebind_step: "m w = (Inr a, w') \<Longrightarrow> ebind m f w = f a w'"
  by (simp add: ebind_def)

lemma ebind_stop: "m w = (Inl e, w') \<Longrightarrow> ebind m f w = (Inl e, w')"
  by (simp add: ebind_def)

lemma ebind_eret [simp]: "ebind (eret a) f = f a"
  by (simp add: fun_eq_iff ebind_def eret_def)

lemma ebind_ethrow [simp]: "ebind (ethrow e) f = ethrow e"
  by (simp add: fun_eq_iff ebind_def ethrow_def)

lemma ebind_assoc: "ebind (ebind m f) g = ebind m (\<lambda>a. ebind (f a) g)"
  by (auto simp: fun_eq_iff ebind_def split: prod.splits sum.splits)

lemma elift_simps [simp]: "elift (Inr a) = eret a" "elift (Inl e) = ethrow e"
  by (simp_all add: fun_eq_iff elift_def eret_def ethrow_def)

lemma eguard_simps [simp]: "eguard True e = eret ()" "eguard False e = ethrow e"
  by (simp_all add: fun_eq_iff eguard_def eret_def ethrow_def)

section \<open>Validity\<close>

definition evalid :: "('w \<Rightarrow> bool) \<Rightarrow> ('e, 'a, 'w) eff \<Rightarrow> ('e + 'a \<Rightarrow> 'w \<Rightarrow> bool) \<Rightarrow> bool" where
  "evalid P m Q \<longleftrightarrow> (\<forall>w r w'. P w \<longrightarrow> m w = (r, w') \<longrightarrow> Q r w')"

text \<open>An invariant of a program: it holds afterwards, whatever the outcome.\<close>

definition einv :: "('w \<Rightarrow> bool) \<Rightarrow> ('e, 'a, 'w) eff \<Rightarrow> bool" where
  "einv P m \<longleftrightarrow> evalid P m (\<lambda>r. P)"

named_theorems einv_intros "an invariant passes through the combinators"

lemma einv_iff: "einv P m \<longleftrightarrow> (\<forall>w. P w \<longrightarrow> P (snd (m w)))"
  by (simp add: einv_def evalid_def) (metis prod.collapse snd_conv)

lemma einvD: "einv P m \<Longrightarrow> P w \<Longrightarrow> m w = (r, w') \<Longrightarrow> P w'"
  by (metis einv_iff snd_conv)

lemma einv_eret [einv_intros]: "einv P (eret a)"
  by (simp add: einv_iff eret_def)

lemma einv_ethrow [einv_intros]: "einv P (ethrow e)"
  by (simp add: einv_iff ethrow_def)

lemma einv_elift [einv_intros]: "einv P (elift r)"
  by (simp add: einv_iff elift_def)

lemma einv_egets [einv_intros]: "einv P (egets f)"
  by (simp add: einv_iff egets_def)

lemma einv_eguard [einv_intros]: "einv P (eguard b e)"
  by (simp add: einv_iff eguard_def)

lemma einv_ebind [einv_intros]: "einv P m \<Longrightarrow> (\<And>a. einv P (f a)) \<Longrightarrow> einv P (ebind m f)"
  by (simp add: einv_iff ebind_def split: prod.splits sum.splits) (metis snd_conv)

lemma einv_emap_err [einv_intros]: "einv P m \<Longrightarrow> einv P (emap_err g m)"
  by (simp add: einv_iff emap_err_def split: prod.splits) (metis snd_conv)

lemma einv_etry [einv_intros]: "einv P m \<Longrightarrow> (\<And>r. einv P (h r)) \<Longrightarrow> einv P (etry m h)"
  by (simp add: einv_iff etry_def split: prod.splits) (metis snd_conv)

lemma einv_if [einv_intros]: "einv P m \<Longrightarrow> einv P n \<Longrightarrow> einv P (if b then m else n)"
  by simp

lemma einv_option [einv_intros]:
  "einv P m \<Longrightarrow> (\<And>a. einv P (f a)) \<Longrightarrow> einv P (case x of None \<Rightarrow> m | Some a \<Rightarrow> f a)"
  by (cases x) simp_all

lemma einv_sum [einv_intros]:
  "(\<And>a. einv P (f a)) \<Longrightarrow> (\<And>b. einv P (g b)) \<Longrightarrow> einv P (case x of Inl a \<Rightarrow> f a | Inr b \<Rightarrow> g b)"
  by (cases x) simp_all

lemma einv_prod [einv_intros]: "(\<And>a b. einv P (f a b)) \<Longrightarrow> einv P (case x of (a, b) \<Rightarrow> f a b)"
  by (cases x) simp

lemma einv_Let [einv_intros]: "einv P (f x) \<Longrightarrow> einv P (let a = x in f a)"
  by simp

lemma einv_zoom:
  assumes "einv Q m" and "\<And>w. P w \<Longrightarrow> Q (get w)" and "\<And>w s. P w \<Longrightarrow> Q s \<Longrightarrow> P (put s w)"
  shows "einv P (ezoom get put m)"
  using assms unfolding einv_iff ezoom_def by (simp add: split_beta)

text \<open>A part of the world the program leaves alone, and parts it does not see.\<close>

lemma einv_field: "(\<And>s. einv (\<lambda>w. f w = s) m) \<Longrightarrow> m w = (r, w') \<Longrightarrow> f w' = f w"
  using einvD [of "\<lambda>v. f v = f w" m w r w'] by simp

lemma einv_zoom_other:
  assumes "\<And>s w. P (put s w) = P w"
  shows "einv P (ezoom get put m)"
  using assms unfolding einv_iff ezoom_def by (simp add: split_beta)

section \<open>Statements\<close>

text \<open>
  A statement that changes tables is sent to the server: it can fail before it runs, it can be
  refused by the server, and its answer can be lost after it ran.  A query only fails or not.
\<close>

datatype sql_fault = SqlFine | SqlDown string | SqlLost string

definition sql_exec :: "sql_fault \<Rightarrow> (sqlx_error, 'a, 'd) eff \<Rightarrow> (sqlx_error, 'a, 'd) eff" where
  "sql_exec fault stmt d =
     (case fault of
        SqlDown s \<Rightarrow> (Inl (SqlxOther s), d)
      | SqlFine \<Rightarrow> stmt d
      | SqlLost s \<Rightarrow> (case stmt d of (Inl e, d') \<Rightarrow> (Inl e, d') | (Inr a, d') \<Rightarrow> (Inl (SqlxOther s), d')))"

definition sql_fetch :: "string option \<Rightarrow> ('d \<Rightarrow> sqlx_error + 'a) \<Rightarrow> (sqlx_error, 'a, 'd) eff" where
  "sql_fetch fault query d = (case fault of Some s \<Rightarrow> (Inl (SqlxOther s), d) | None \<Rightarrow> (query d, d))"

lemma einv_sql_exec [einv_intros]: "einv P stmt \<Longrightarrow> einv P (sql_exec fault stmt)"
  by (auto simp: einv_iff sql_exec_def split: sql_fault.splits sum.splits prod.splits)

lemma einv_sql_fetch [einv_intros]: "einv P (sql_fetch fault query)"
  by (simp add: einv_iff sql_fetch_def split: option.splits)

lemma sql_fetch_Inr:
  "sql_fetch fault query d = (Inr a, d') \<longleftrightarrow> fault = None \<and> query d = Inr a \<and> d' = d"
  by (auto simp: sql_fetch_def split: option.splits)

lemma sql_fetch_fine [simp]: "sql_fetch None query = egets query"
  by (simp add: fun_eq_iff sql_fetch_def egets_def)

lemma sql_exec_fine [simp]: "sql_exec SqlFine stmt = stmt"
  by (simp add: fun_eq_iff sql_exec_def)

lemma sql_exec_Inr: "sql_exec fault stmt d = (Inr a, d') \<longleftrightarrow> fault = SqlFine \<and> stmt d = (Inr a, d')"
  by (auto simp: sql_exec_def split: sql_fault.splits sum.splits prod.splits)

section \<open>Services\<close>

text \<open>Requests one after another, and the contract of a service whose every request keeps an
  invariant and changes the world only in an allowed way.\<close>

fun service_run :: "('c \<Rightarrow> 'w \<Rightarrow> 'r \<times> 'w) \<Rightarrow> 'c list \<Rightarrow> 'w \<Rightarrow> 'r list \<times> 'w" where
  "service_run call [] w = ([], w)"
| "service_run call (c # cs) w =
     (case call c w of (r, w') \<Rightarrow> (case service_run call cs w' of (rs, w'') \<Rightarrow> (r # rs, w'')))"

lemma service_run_append:
  "service_run call (cs @ ds) w =
     (case service_run call cs w of (rs, v) \<Rightarrow>
        (case service_run call ds v of (qs, v') \<Rightarrow> (rs @ qs, v')))"
  by (induction cs arbitrary: w) (auto split: prod.splits)

locale evolving_service =
  fixes call :: "'c \<Rightarrow> 'w \<Rightarrow> 'r \<times> 'w"
    and ok :: "'w \<Rightarrow> bool"
    and evolves :: "'w \<Rightarrow> 'w \<Rightarrow> bool"
  assumes refl: "evolves w w"
    and trans: "evolves u v \<Longrightarrow> evolves v w \<Longrightarrow> evolves u w"
    and step: "ok w \<Longrightarrow> call c w = (r, w') \<Longrightarrow> ok w' \<and> evolves w w'"
begin

lemma run: "ok w \<Longrightarrow> service_run call cs w = (rs, w') \<Longrightarrow> ok w' \<and> evolves w w'"
proof (induction cs arbitrary: w rs)
  case Nil
  then show ?case by (simp add: refl)
next
  case (Cons c cs)
  obtain r v where call: "call c w = (r, v)" by force
  obtain qs where run: "service_run call cs v = (qs, w')"
    using Cons.prems(2) call by (auto split: prod.splits)
  from step [OF Cons.prems(1) call] Cons.IH [OF _ run] show ?case
    using trans by blast
qed

end

end
