(* ===== verification/Auth_Db.thy ===== *)
theory Auth_Db
  imports Gateway_Auth Redis Effects
begin

text \<open>
  What the handlers of \<open>services/kova-auth\<close> share: the errors and their responses (\<open>error.rs\<close>),
  the tables of the migrations, the SMS interface, the code outside the repository, and the
  extraction of the claims from the bearer token (\<open>handlers/mod.rs\<close>).

  Columns that no code reads are left out (\<open>created_at\<close>, \<open>updated_at\<close> of most tables, a device's
  name and push token).  A \<open>DATETIME\<close> column holds whole seconds.
\<close>

section \<open>Errors\<close>

datatype authn_error =
    XePhoneAlreadyRegistered
  | XeInvalidPhoneFormat
  | XeUserNotFound
  | XeOtpInvalidOrExpired
  | XeOtpAlreadyUsed
  | XeOtpRateLimitExceeded
  | XeInvalidCredentials
  | XeSessionNotFound
  | XeRefreshTokenReuse
  | XeChallengeInvalid
  | XePinAlreadySet
  | XeInvalidPin
  | XePinNotSet
  | XeUnauthorized
  | XeDatabase sqlx_error
  | XeRedis string
  | XeCrypto string
  | XeSms string

text \<open>The em and en dashes of the messages, in UTF-8.\<close>

definition dash_em :: string where "dash_em = [CHR 0xE2, CHR 0x80, CHR 0x94]"

definition dash_en :: string where "dash_en = [CHR 0xE2, CHR 0x80, CHR 0x93]"

fun authn_error_head :: "authn_error \<Rightarrow> nat \<times> string \<times> string" where
  "authn_error_head XePhoneAlreadyRegistered =
     (409, ''PHONE_ALREADY_REGISTERED'', ''Phone number already registered'')"
| "authn_error_head XeInvalidPhoneFormat =
     (400, ''INVALID_PHONE_FORMAT'', ''Phone number must be in E.164 format (e.g. +2348012345678)'')"
| "authn_error_head XeUserNotFound = (404, ''USER_NOT_FOUND'', ''No account found for this phone number'')"
| "authn_error_head XeOtpInvalidOrExpired = (401, ''OTP_INVALID'', ''OTP is invalid or expired'')"
| "authn_error_head XeOtpAlreadyUsed = (409, ''OTP_ALREADY_USED'', ''OTP has already been used'')"
| "authn_error_head XeOtpRateLimitExceeded =
     (429, ''OTP_RATE_LIMIT'', ''Too many OTP requests '' @ dash_em @ '' please wait before requesting again'')"
| "authn_error_head XeInvalidCredentials = (401, ''INVALID_CREDENTIALS'', ''Invalid credentials'')"
| "authn_error_head XeSessionNotFound = (401, ''SESSION_NOT_FOUND'', ''Session not found or expired'')"
| "authn_error_head XeRefreshTokenReuse =
     (401, ''REFRESH_TOKEN_REUSE'',
      ''Refresh token reuse detected '' @ dash_em @ '' all sessions have been revoked'')"
| "authn_error_head XeChallengeInvalid =
     (401, ''CHALLENGE_INVALID'', ''Biometric challenge is invalid or expired'')"
| "authn_error_head XePinAlreadySet =
     (409, ''PIN_ALREADY_SET'', ''PIN has already been set for this account'')"
| "authn_error_head XeInvalidPin = (400, ''INVALID_PIN'', ''PIN must be 4'' @ dash_en @ ''6 numeric digits'')"
| "authn_error_head XePinNotSet =
     (422, ''PIN_NOT_SET'',
      ''No PIN is set '' @ dash_em @ '' use POST /api/v1/kova/auth/pin to set one'')"
| "authn_error_head XeUnauthorized = (401, ''UNAUTHORIZED'', ''Missing or invalid access token'')"
| "authn_error_head (XeDatabase _) = (500, ''DATABASE_ERROR'', ''A database error occurred'')"
| "authn_error_head (XeRedis _) = (500, ''CACHE_ERROR'', ''A cache error occurred'')"
| "authn_error_head (XeCrypto _) = (500, ''CRYPTO_ERROR'', ''A cryptographic error occurred'')"
| "authn_error_head (XeSms _) =
     (500, ''SMS_ERROR'', ''Failed to deliver OTP '' @ dash_em @ '' please try again'')"

definition authn_error_response :: "authn_error \<Rightarrow> http_resp" where
  "authn_error_response e =
     (case authn_error_head e of
        (status, code, message) \<Rightarrow>
          \<lparr>hs_status = status, hs_headers = [],
           hs_body = envelope JNull (JObj [(''code'', JStr code), (''message'', JStr message)]) (JObj [])\<rparr>)"

definition authn_ok :: "nat \<Rightarrow> json \<Rightarrow> http_resp" where
  "authn_ok status d = \<lparr>hs_status = status, hs_headers = [], hs_body = envelope d JNull (JObj [])\<rparr>"

lemma authn_error_status: "400 \<le> hs_status (authn_error_response e)"
  by (cases e) (simp_all add: authn_error_response_def)

section \<open>Code outside the repository\<close>

text \<open>
  \<open>UUID_TO_BIN(_, true)\<close>, \<open>BIN_TO_UUID(_, true)\<close>, the weight of a string in the collation
  \<open>utf8mb4_unicode_ci\<close> and whether it fits a \<open>VARCHAR\<close> of a length; \<open>uuid\<close>; the phone number
  library (parse, validity, canonical form); SHA-256 and \<open>hex\<close>; \<open>bcrypt\<close> (salt, password) and
  \<open>argon2\<close> (its parameters, hashing, reading a stored hash, verifying); signing and decoding of
  tokens; the seconds a bound time gets in a column.
\<close>

record authn_env =
  xv_to_bin :: "string \<Rightarrow> id16 option"
  xv_from_bin :: "id16 \<Rightarrow> string"
  xv_coll :: "string \<Rightarrow> string"
  xv_varchar :: "nat \<Rightarrow> string \<Rightarrow> bool"
  xv_uuid_show :: "uuid \<Rightarrow> string"
  xv_uuid_parse :: "string \<Rightarrow> uuid option"
  xv_phone_parse :: "string \<Rightarrow> string option"
  xv_phone_valid :: "string \<Rightarrow> bool"
  xv_phone_e164 :: "string \<Rightarrow> string"
  xv_sha256 :: "byte list \<Rightarrow> byte list"
  xv_hex :: "byte list \<Rightarrow> string"
  xv_bcrypt_hash :: "string \<Rightarrow> string \<Rightarrow> nat \<Rightarrow> string + string"
  xv_bcrypt_verify :: "string \<Rightarrow> string \<Rightarrow> string + bool"
  xv_argon_params :: "nat \<times> nat \<times> nat \<Rightarrow> string + unit"
  xv_argon_hash :: "nat \<times> nat \<times> nat \<Rightarrow> string \<Rightarrow> string \<Rightarrow> string + string"
  xv_phc_parse :: "string \<Rightarrow> string + string"
  xv_argon_verify :: "nat \<times> nat \<times> nat \<Rightarrow> string \<Rightarrow> string \<Rightarrow> bool"
  xv_jwt_encode :: "string \<Rightarrow> kova_claims \<Rightarrow> string + string"
  xv_jwt_decode :: "string \<Rightarrow> string list \<Rightarrow> string \<Rightarrow> kova_claims option"
  xv_to_column :: "datetime \<Rightarrow> int"

definition auth_bin :: "authn_env \<Rightarrow> string \<Rightarrow> sqlx_error + id16" where
  "auth_bin env s = ok_or (xv_to_bin env s) (SqlxOther ''incorrect string value for uuid_to_bin'')"

section \<open>Tables\<close>

record user_row =
  xu_id :: id16
  xu_phone :: string
  xu_pin_hash :: string
  xu_kyc :: string

record session_row =
  xs_id :: id16
  xs_user :: id16
  xs_hash :: string
  xs_selector :: "string option"
  xs_jti :: "string option"
  xs_device :: string
  xs_expires :: int
  xs_revoked :: "int option"

record otp_row =
  xo_id :: id16
  xo_user :: id16
  xo_hash :: string
  xo_expires :: int
  xo_used :: "int option"
  xo_created :: int

record device_row =
  xd_id :: id16
  xd_user :: id16
  xd_fingerprint :: string
  xd_seen :: int

record authn_db =
  users :: "user_row list"
  sessions :: "session_row list"
  otps :: "otp_row list"
  devices :: "device_row list"

definition user_exists :: "id16 \<Rightarrow> authn_db \<Rightarrow> bool" where
  "user_exists u db \<longleftrightarrow> u \<in> xu_id ` set (users db)"

definition insert_user :: "authn_env \<Rightarrow> user_row \<Rightarrow> (sqlx_error, unit, authn_db) eff" where
  "insert_user env r db =
     (if \<not> xv_varchar env 20 (xu_phone r) then (Inl (SqlxOther ''data too long''), db)
      else if list_ex (\<lambda>q. xu_id q = xu_id r \<or> xv_coll env (xu_phone q) = xv_coll env (xu_phone r)) (users db)
      then (Inl UniqueViolation, db)
      else (Inr (), db\<lparr>users := users db @ [r]\<rparr>))"

text \<open>A nullable \<open>VARCHAR\<close>.\<close>

definition fits_null :: "authn_env \<Rightarrow> nat \<Rightarrow> string option \<Rightarrow> bool" where
  "fits_null env n s \<longleftrightarrow> (case s of None \<Rightarrow> True | Some t \<Rightarrow> xv_varchar env n t)"

definition insert_session :: "authn_env \<Rightarrow> session_row \<Rightarrow> (sqlx_error, unit, authn_db) eff" where
  "insert_session env r db =
     (if \<not> xv_varchar env 255 (xs_hash r) \<or> \<not> fits_null env 64 (xs_selector r) \<or>
         \<not> fits_null env 36 (xs_jti r) \<or> \<not> xv_varchar env 255 (xs_device r) then (Inl (SqlxOther ''data too long''), db)
      else if list_ex (\<lambda>q. xs_id q = xs_id r) (sessions db) then (Inl UniqueViolation, db)
      else if \<not> user_exists (xs_user r) db then (Inl (SqlxOther ''foreign key''), db)
      else (Inr (), db\<lparr>sessions := sessions db @ [r]\<rparr>))"

definition insert_otp :: "authn_env \<Rightarrow> otp_row \<Rightarrow> (sqlx_error, unit, authn_db) eff" where
  "insert_otp env r db =
     (if \<not> xv_varchar env 255 (xo_hash r) then (Inl (SqlxOther ''data too long''), db)
      else if \<not> xo_created r < xo_expires r then (Inl (SqlxOther ''check constraint''), db)
      else if list_ex (\<lambda>q. xo_id q = xo_id r) (otps db) then (Inl UniqueViolation, db)
      else if \<not> user_exists (xo_user r) db then (Inl (SqlxOther ''foreign key''), db)
      else (Inr (), db\<lparr>otps := otps db @ [r]\<rparr>))"

text \<open>\<open>ON DUPLICATE KEY UPDATE last_seen_at = NOW()\<close>: of the rows with the same id or the same
  user and fingerprint, the first index that has one decides.\<close>

definition upsert_device :: "authn_env \<Rightarrow> device_row \<Rightarrow> int \<Rightarrow> (sqlx_error, unit, authn_db) eff" where
  "upsert_device env r now db =
     (let by_id = (\<lambda>q. xd_id q = xd_id r);
          by_key = (\<lambda>q. xd_user q = xd_user r \<and> xv_coll env (xd_fingerprint q) = xv_coll env (xd_fingerprint r));
          touch = (\<lambda>q. q\<lparr>xd_seen := now\<rparr>)
      in if \<not> xv_varchar env 255 (xd_fingerprint r) then (Inl (SqlxOther ''data too long''), db)
         else if list_ex by_id (devices db) then (Inr (), db\<lparr>devices := update_where by_id touch (devices db)\<rparr>)
         else if list_ex by_key (devices db) then (Inr (), db\<lparr>devices := update_where by_key touch (devices db)\<rparr>)
         else if \<not> user_exists (xd_user r) db then (Inl (SqlxOther ''foreign key''), db)
         else (Inr (), db\<lparr>devices := devices db @ [r]\<rparr>))"

section \<open>The world of a handler\<close>

text \<open>The tables, Redis, and the messages that reached a phone (\<open>SmsProvider\<close>), oldest first.\<close>

record authn_world =
  xw_db :: authn_db
  xw_redis :: redis
  xw_sms :: "(string \<times> string) list"

definition on_auth_db :: "(sqlx_error, 'a, authn_db) eff \<Rightarrow> (authn_error, 'a, authn_world) eff" where
  "on_auth_db m = emap_err XeDatabase (ezoom xw_db (\<lambda>d w. w\<lparr>xw_db := d\<rparr>) m)"

definition on_auth_redis :: "redis_fault \<Rightarrow> (redis \<Rightarrow> redis) \<Rightarrow> (authn_error, unit, authn_world) eff" where
  "on_auth_redis fault cmd w =
     (if fault = RedisFine then Inr () else Inl (XeRedis ''redis''),
      w\<lparr>xw_redis := redis_write fault cmd (xw_redis w)\<rparr>)"

datatype sms_outcome = SmsSent | SmsFailed string bool

text \<open>A failed delivery may have reached the phone all the same.\<close>

definition send_otp :: "sms_outcome \<Rightarrow> string \<Rightarrow> string \<Rightarrow> (authn_error, unit, authn_world) eff" where
  "send_otp outcome phone otp w =
     (case outcome of
        SmsSent \<Rightarrow> (Inr (), w\<lparr>xw_sms := xw_sms w @ [(phone, otp)]\<rparr>)
      | SmsFailed m reached \<Rightarrow>
          (Inl (XeSms m), if reached then w\<lparr>xw_sms := xw_sms w @ [(phone, otp)]\<rparr> else w))"

section \<open>The caller\<close>

definition authn_unauthorized :: "string \<Rightarrow> http_resp" where
  "authn_unauthorized m =
     \<lparr>hs_status = 401, hs_headers = [],
      hs_body = envelope JNull (JObj [(''code'', JStr ''UNAUTHORIZED''), (''message'', JStr m)]) (JObj [])\<rparr>"

definition auth_claims_extract ::
  "authn_env \<Rightarrow> string \<Rightarrow> (string \<times> string) list \<Rightarrow> http_resp + kova_claims" where
  "auth_claims_extract env key headers =
     rbind (ok_or (map_of headers ''authorization'')
              (authn_unauthorized ''Missing Authorization header'')) (\<lambda>header.
     rbind (ok_or (strip_prefix header ''Bearer '')
              (authn_unauthorized (''Authorization header must be '' @ quoted ''Bearer <token>''))) (\<lambda>token.
     ok_or (xv_jwt_decode env key [''kova-auth''] token)
       (authn_unauthorized ''Invalid or expired access token'')))"

section \<open>Invariants\<close>

text \<open>The primary and unique keys of the four tables, the check of the codes, the foreign keys.\<close>

definition device_key :: "authn_env \<Rightarrow> device_row \<Rightarrow> id16 \<times> string" where
  "device_key env r = (xd_user r, xv_coll env (xd_fingerprint r))"

definition authn_db_wf :: "authn_env \<Rightarrow> authn_db \<Rightarrow> bool" where
  "authn_db_wf env db \<longleftrightarrow>
     distinct (map xu_id (users db)) \<and>
     distinct (map (\<lambda>r. xv_coll env (xu_phone r)) (users db)) \<and>
     distinct (map xs_id (sessions db)) \<and>
     distinct (map xo_id (otps db)) \<and>
     distinct (map xd_id (devices db)) \<and>
     distinct (map (device_key env) (devices db)) \<and>
     (\<forall>r \<in> set (otps db). xo_created r < xo_expires r) \<and>
     (\<forall>r \<in> set (sessions db). user_exists (xs_user r) db) \<and>
     (\<forall>r \<in> set (otps db). user_exists (xo_user r) db) \<and>
     (\<forall>r \<in> set (devices db). user_exists (xd_user r) db)"

text \<open>A table grows: its rows stay, in their order, changed only as \<open>R\<close> allows, and new rows come
  after them.\<close>

definition grows :: "('r \<Rightarrow> 'r \<Rightarrow> bool) \<Rightarrow> 'r list \<Rightarrow> 'r list \<Rightarrow> bool" where
  "grows R rs qs \<longleftrightarrow> (\<exists>old new. qs = old @ new \<and> list_all2 R rs old)"

lemma grows_refl: "(\<And>r. R r r) \<Longrightarrow> grows R rs rs"
  unfolding grows_def by (intro exI [of _ rs] exI [of _ "[]"]) (simp add: list_all2_refl)

lemma grows_append: "grows R rs qs \<Longrightarrow> grows R rs (qs @ ps)"
  unfolding grows_def by (metis append.assoc)

lemma grows_update:
  assumes "grows R rs qs" and "\<And>r q. R r q \<Longrightarrow> R r (f q)"
  shows "grows R rs (update_where p f qs)"
proof -
  obtain old new where q: "qs = old @ new" "list_all2 R rs old"
    using assms(1) by (auto simp: grows_def)
  have "list_all2 R rs (update_where p f old)"
    using q(2) assms(2) by (simp add: update_where_def list_all2_conv_all_nth)
  with q(1) show ?thesis
    unfolding grows_def by (intro exI [of _ "update_where p f old"] exI [of _ "update_where p f new"])
      (simp add: update_where_def)
qed

text \<open>What may happen to a row: a user's PIN hash is replaced, a session is revoked, a code is
  used.\<close>

definition user_step :: "user_row \<Rightarrow> user_row \<Rightarrow> bool" where
  "user_step r q \<longleftrightarrow> (\<exists>h. q = r\<lparr>xu_pin_hash := h\<rparr>)"

definition session_step :: "session_row \<Rightarrow> session_row \<Rightarrow> bool" where
  "session_step r q \<longleftrightarrow> q = r \<or> (\<exists>t. q = r\<lparr>xs_revoked := Some t\<rparr>)"

definition otp_step :: "otp_row \<Rightarrow> otp_row \<Rightarrow> bool" where
  "otp_step r q \<longleftrightarrow> q = r \<or> (\<exists>t. q = r\<lparr>xo_used := Some t\<rparr>)"

definition device_step :: "device_row \<Rightarrow> device_row \<Rightarrow> bool" where
  "device_step r q \<longleftrightarrow> (\<exists>t. q = r\<lparr>xd_seen := t\<rparr>)"

lemma user_step_refl: "user_step r r"
  unfolding user_step_def by (rule exI [of _ "xu_pin_hash r"]) simp

lemma device_step_refl: "device_step r r"
  unfolding device_step_def by (rule exI [of _ "xd_seen r"]) simp

definition authn_evolved :: "authn_env \<Rightarrow> authn_db \<Rightarrow> authn_db \<Rightarrow> bool" where
  "authn_evolved env db0 db \<longleftrightarrow> authn_db_wf env db \<and>
     grows user_step (users db0) (users db) \<and> grows session_step (sessions db0) (sessions db) \<and>
     grows otp_step (otps db0) (otps db) \<and> grows device_step (devices db0) (devices db)"

lemma authn_evolved_refl: "authn_db_wf env db \<Longrightarrow> authn_evolved env db db"
  by (simp add: authn_evolved_def grows_refl user_step_refl session_step_def otp_step_def device_step_refl)

named_theorems auth_evolves "statements that keep the tables well formed and let them evolve"

lemma insert_user_evolves [auth_evolves]: "einv (authn_evolved env db0) (insert_user env r)"
  by (auto simp: einv_iff insert_user_def authn_evolved_def authn_db_wf_def user_exists_def list_ex_iff
      grows_append)

lemma insert_session_evolves [auth_evolves]: "einv (authn_evolved env db0) (insert_session env r)"
  by (auto simp: einv_iff insert_session_def authn_evolved_def authn_db_wf_def user_exists_def list_ex_iff
      grows_append)

lemma insert_otp_evolves [auth_evolves]: "einv (authn_evolved env db0) (insert_otp env r)"
  by (auto simp: einv_iff insert_otp_def authn_evolved_def authn_db_wf_def user_exists_def list_ex_iff
      grows_append)

lemma touch_devices_evolved:
  assumes "authn_evolved env db0 db"
  shows "authn_evolved env db0 (db\<lparr>devices := update_where p (\<lambda>q. q\<lparr>xd_seen := t\<rparr>) (devices db)\<rparr>)"
proof -
  have "\<forall>r \<in> set (update_where p (\<lambda>q. q\<lparr>xd_seen := t\<rparr>) (devices db)). user_exists (xd_user r) db"
    using assms by (auto simp: authn_evolved_def authn_db_wf_def set_update_where)
  moreover have "map (device_key env) (update_where p (\<lambda>q. q\<lparr>xd_seen := t\<rparr>) (devices db)) =
      map (device_key env) (devices db)"
    by (rule map_update_where) (simp add: device_key_def)
  moreover have "grows device_step (devices db0) (update_where p (\<lambda>q. q\<lparr>xd_seen := t\<rparr>) (devices db))"
    using assms by (intro grows_update) (auto simp: authn_evolved_def device_step_def)
  ultimately show ?thesis
    using assms by (simp add: authn_evolved_def authn_db_wf_def user_exists_def map_update_where)
qed

lemma upsert_device_evolves [auth_evolves]: "einv (authn_evolved env db0) (upsert_device env r now)"
proof -
  have "authn_evolved env db0 (db\<lparr>devices := devices db @ [r]\<rparr>)"
    if "authn_evolved env db0 db" "user_exists (xd_user r) db"
      "\<not> list_ex (\<lambda>q. xd_id q = xd_id r) (devices db)" "\<not> list_ex (\<lambda>q. device_key env q = device_key env r) (devices db)" for db
    using that by (auto simp: authn_evolved_def authn_db_wf_def user_exists_def list_ex_iff grows_append)
  then show ?thesis
    by (simp add: einv_iff upsert_device_def device_key_def Let_def touch_devices_evolved)
qed

lemma revoke_evolved:
  assumes "authn_evolved env db0 db"
  shows "authn_evolved env db0 (db\<lparr>sessions := update_where p (\<lambda>q. q\<lparr>xs_revoked := Some t\<rparr>) (sessions db)\<rparr>)"
proof -
  let ?f = "\<lambda>q. q\<lparr>xs_revoked := Some t\<rparr>"
  have "\<forall>r \<in> set (update_where p ?f (sessions db)). user_exists (xs_user r) db"
    using assms by (auto simp: authn_evolved_def authn_db_wf_def set_update_where)
  moreover have "grows session_step (sessions db0) (update_where p ?f (sessions db))"
    using assms by (intro grows_update) (auto simp: authn_evolved_def session_step_def)
  ultimately show ?thesis
    using assms by (simp add: authn_evolved_def authn_db_wf_def user_exists_def map_update_where)
qed

lemma use_otp_evolved:
  assumes "authn_evolved env db0 db"
  shows "authn_evolved env db0 (db\<lparr>otps := update_where p (\<lambda>q. q\<lparr>xo_used := Some t\<rparr>) (otps db)\<rparr>)"
proof -
  let ?f = "\<lambda>q. q\<lparr>xo_used := Some t\<rparr>"
  have "\<forall>r \<in> set (update_where p ?f (otps db)). user_exists (xo_user r) db \<and> xo_created r < xo_expires r"
    using assms by (auto simp: authn_evolved_def authn_db_wf_def set_update_where)
  moreover have "grows otp_step (otps db0) (update_where p ?f (otps db))"
    using assms by (intro grows_update) (auto simp: authn_evolved_def otp_step_def)
  ultimately show ?thesis
    using assms by (simp add: authn_evolved_def authn_db_wf_def user_exists_def map_update_where)
qed

lemma set_pin_evolved:
  assumes "authn_evolved env db0 db"
  shows "authn_evolved env db0 (db\<lparr>users := update_where p (\<lambda>q. q\<lparr>xu_pin_hash := h\<rparr>) (users db)\<rparr>)"
proof -
  let ?f = "\<lambda>q. q\<lparr>xu_pin_hash := h\<rparr>"
  have "xu_id ` set (update_where p ?f (users db)) = xu_id ` set (users db)"
    by (metis list.set_map map_update_where user_row.select_convs(1) user_row.surjective user_row.update_convs(3))
  moreover have "grows user_step (users db0) (update_where p ?f (users db))"
    using assms by (intro grows_update) (auto simp: authn_evolved_def user_step_def)
  ultimately show ?thesis
    using assms by (simp add: authn_evolved_def authn_db_wf_def user_exists_def map_update_where)
qed

section \<open>Lemmas\<close>

lemma einv_on_auth_db [einv_intros]: "einv P m \<Longrightarrow> einv (\<lambda>w. P (xw_db w)) (on_auth_db m)"
  unfolding on_auth_db_def by (intro einv_emap_err einv_zoom [where Q = P]) simp_all

lemma einv_on_auth_redis [einv_intros]: "einv (\<lambda>w. P (xw_db w)) (on_auth_redis f c)"
  by (simp add: einv_iff on_auth_redis_def)

lemma einv_send_otp [einv_intros]: "einv (\<lambda>w. P (xw_db w)) (send_otp f p c)"
  by (simp add: einv_iff send_otp_def split: sms_outcome.split)

lemma on_auth_db_Inr:
  "on_auth_db m w = (Inr a, w') \<longleftrightarrow> (\<exists>d. m (xw_db w) = (Inr a, d) \<and> w' = w\<lparr>xw_db := d\<rparr>)"
  by (auto simp: on_auth_db_def emap_err_def ezoom_def split: prod.splits)

lemma auth_fetch_keeps: "on_auth_db (sql_fetch f q) w = (r, w') \<Longrightarrow> w' = w"
  by (auto simp: on_auth_db_def emap_err_def ezoom_def sql_fetch_def split: option.splits)

lemma auth_fetch_Inr:
  "on_auth_db (sql_fetch f q) w = (Inr a, w') \<longleftrightarrow> w' = w \<and> f = None \<and> q (xw_db w) = Inr a"
  by (auto simp: on_auth_db_Inr sql_fetch_Inr)

lemma einv_auth_fetch [einv_intros]: "einv P (on_auth_db (sql_fetch f q))"
  by (metis auth_fetch_keeps einv_iff prod.collapse)

section \<open>A concrete instance\<close>

definition demo_authn_env :: authn_env where
  "demo_authn_env =
     \<lparr>xv_to_bin = (\<lambda>s. Some (of_nat (read_nat s))), xv_from_bin = (\<lambda>i. show_nat (unat i)),
      xv_coll = (\<lambda>s. takeWhile (\<lambda>c. c \<noteq> CHR '' '') s), xv_varchar = (\<lambda>n s. length s \<le> n),
      xv_uuid_show = (\<lambda>u. show_nat (unat u)), xv_uuid_parse = (\<lambda>s. Some (of_nat (read_nat s))),
      xv_phone_parse = Some, xv_phone_valid = (\<lambda>p. p \<noteq> ''''), xv_phone_e164 = id,
      xv_sha256 = id, xv_hex = (\<lambda>bs. show_nat (length bs)),
      xv_bcrypt_hash = (\<lambda>salt s cost. Inr s), xv_bcrypt_verify = (\<lambda>s h. Inr (s = h)),
      xv_argon_params = (\<lambda>p. Inr ()), xv_argon_hash = (\<lambda>p salt s. Inr (CHR ''$'' # s)),
      xv_phc_parse = (\<lambda>h. Inr h), xv_argon_verify = (\<lambda>p s h. CHR ''$'' # s = h),
      xv_jwt_encode = (\<lambda>k c. Inr (kc_sub c)),
      xv_jwt_decode = (\<lambda>k iss t. Some \<lparr>kc_sub = t, kc_exp = 0, kc_iat = 0, kc_jti = ''j'',
        kc_iss = ''kova-auth'', kc_device_id = None\<rparr>),
      xv_to_column = (\<lambda>t. t div 10 ^ 9)\<rparr>"

definition demo_user_row :: user_row where
  "demo_user_row = \<lparr>xu_id = 7, xu_phone = ''+44'', xu_pin_hash = ''$1234'', xu_kyc = ''Unverified''\<rparr>"

definition demo_session :: session_row where
  "demo_session = \<lparr>xs_id = 1, xs_user = 7, xs_hash = ''abc'', xs_selector = Some (show_nat 3),
     xs_jti = Some ''j'', xs_device = ''d'', xs_expires = 100, xs_revoked = None\<rparr>"

definition demo_otp :: otp_row where
  "demo_otp = \<lparr>xo_id = 2, xo_user = 7, xo_hash = ''123456'', xo_expires = 100, xo_used = None, xo_created = 0\<rparr>"

definition demo_authn_world :: authn_world where
  "demo_authn_world = \<lparr>xw_db = \<lparr>users = [demo_user_row], sessions = [demo_session], otps = [demo_otp],
     devices = []\<rparr>, xw_redis = redis_empty, xw_sms = []\<rparr>"

lemma demo_authn_wf: "authn_db_wf demo_authn_env (xw_db demo_authn_world)"
  by (simp add: authn_db_wf_def demo_authn_world_def demo_user_row_def demo_session_def demo_otp_def
      user_exists_def)

end
