(* ===== verification/Auth_Crypto.thy ===== *)
theory Auth_Crypto
  imports Auth_Db
begin

text \<open>
  \<open>crypto.rs\<close> of \<open>services/kova-auth\<close>: PINs, one-time codes and random tokens.  The random number
  generator is an argument: the bytes each call of \<open>fill\<close> gives, or its failure.  The loop of
  \<open>generate_otp\<close> has no bound in the source, so it is a partial function: \<open>None\<close> is a loop that
  does not end.
\<close>

section \<open>PINs\<close>

definition argon2_mem_kb :: nat where "argon2_mem_kb = 65536"
definition argon2_iter :: nat where "argon2_iter = 3"
definition argon2_par :: nat where "argon2_par = 4"

definition argon2 :: "authn_env \<Rightarrow> authn_error + nat \<times> nat \<times> nat" where
  "argon2 env =
     (let params = (argon2_mem_kb, argon2_iter, argon2_par)
      in rbind (map_err XeCrypto (xv_argon_params env params)) (\<lambda>_. Inr params))"

definition hash_pin :: "authn_env \<Rightarrow> string \<Rightarrow> string \<Rightarrow> authn_error + string" where
  "hash_pin env salt pin =
     rbind (argon2 env) (\<lambda>a. map_err XeCrypto (xv_argon_hash env a salt pin))"

definition verify_pin :: "authn_env \<Rightarrow> string \<Rightarrow> string \<Rightarrow> authn_error + bool" where
  "verify_pin env pin hash =
     (if hash = '''' then Inr False
      else rbind (map_err XeCrypto (xv_phc_parse env hash)) (\<lambda>parsed.
           rbind (argon2 env) (\<lambda>a. Inr (xv_argon_verify env a pin parsed))))"

section \<open>One-time codes\<close>

type_synonym rng = "nat \<Rightarrow> byte list option"

definition rng_failed :: authn_error where
  "rng_failed = XeCrypto ''rng fill failed''"

definition otp_reject_threshold :: "32 word" where
  "otp_reject_threshold = 4294000000"

definition u32_from_be_bytes :: "byte list \<Rightarrow> 32 word" where
  "u32_from_be_bytes buf = of_nat (be_nat buf)"

text \<open>\<open>format!("{:06}", n % 1_000_000)\<close>.\<close>

definition otp_code :: "32 word \<Rightarrow> string" where
  "otp_code n = pad_left 6 (show_nat (unat (n mod 1000000)))"

partial_function (option) otp_loop :: "rng \<Rightarrow> nat \<Rightarrow> (authn_error + string) option" where
  "otp_loop rng k =
     (case rng k of
        None \<Rightarrow> Some (Inl rng_failed)
      | Some buf \<Rightarrow>
          if u32_from_be_bytes buf < otp_reject_threshold
          then Some (Inr (otp_code (u32_from_be_bytes buf)))
          else otp_loop rng (Suc k))"

definition generate_otp :: "rng \<Rightarrow> (authn_error + string) option" where
  "generate_otp rng = otp_loop rng 0"

definition hash_otp :: "authn_env \<Rightarrow> string \<Rightarrow> string \<Rightarrow> authn_error + string" where
  "hash_otp env salt otp = map_err XeCrypto (xv_bcrypt_hash env salt otp 10)"

definition verify_otp :: "authn_env \<Rightarrow> string \<Rightarrow> string \<Rightarrow> authn_error + bool" where
  "verify_otp env otp hash = map_err XeCrypto (xv_bcrypt_verify env otp hash)"

definition random_hex_token :: "authn_env \<Rightarrow> byte list option \<Rightarrow> authn_error + string" where
  "random_hex_token env bytes = map_err (\<lambda>_. rng_failed) (map_sum id (xv_hex env) (ok_or bytes ()))"

section \<open>Lemmas\<close>

text \<open>A draw the loop goes on after.\<close>

definition otp_rejected :: "byte list option \<Rightarrow> bool" where
  "otp_rejected draw \<longleftrightarrow>
     (case draw of None \<Rightarrow> False | Some buf \<Rightarrow> \<not> u32_from_be_bytes buf < otp_reject_threshold)"

lemma otp_rejected_iff:
  "otp_rejected draw \<longleftrightarrow> (\<exists>buf. draw = Some buf \<and> otp_reject_threshold \<le> u32_from_be_bytes buf)"
  by (auto simp: otp_rejected_def not_less split: option.splits)

lemma otp_loop_skip: "(\<And>j. j < n \<Longrightarrow> otp_rejected (rng (k + j))) \<Longrightarrow> otp_loop rng k = otp_loop rng (k + n)"
proof (induction n arbitrary: k)
  case (Suc n)
  have "otp_rejected (rng k)" using Suc.prems [of 0] by simp
  then have "otp_loop rng k = otp_loop rng (Suc k)"
    by (subst otp_loop.simps) (auto simp: otp_rejected_def split: option.splits)
  also have "\<dots> = otp_loop rng (Suc k + n)"
    using Suc.prems [of "Suc _"] by (intro Suc.IH) simp
  finally show ?case by simp
qed simp

lemma otp_loop_stops:
  assumes "otp_loop rng k = Some y"
  shows "\<exists>j. \<not> otp_rejected (rng j)"
proof (rule otp_loop.raw_induct [where P = "\<lambda>rng k y. \<exists>j. \<not> otp_rejected (rng j)", OF _ assms])
  fix loop :: "rng \<Rightarrow> nat \<Rightarrow> (authn_error + string) option" and rng k y
  assume IH: "\<And>r m z. loop r m = Some z \<Longrightarrow> \<exists>j. \<not> otp_rejected (r j)"
    and body: "(case rng k of None \<Rightarrow> Some (Inl rng_failed)
      | Some buf \<Rightarrow> if u32_from_be_bytes buf < otp_reject_threshold
          then Some (Inr (otp_code (u32_from_be_bytes buf))) else loop rng (Suc k)) = Some y"
  show "\<exists>j. \<not> otp_rejected (rng j)"
  proof (cases "otp_rejected (rng k)")
    case True
    with body have "loop rng (Suc k) = Some y"
      by (auto simp: otp_rejected_def split: option.splits)
    then show ?thesis by (rule IH)
  qed blast
qed

definition otp_outcome :: "byte list option \<Rightarrow> authn_error + string" where
  "otp_outcome draw =
     (case draw of None \<Rightarrow> Inl rng_failed | Some buf \<Rightarrow> Inr (otp_code (u32_from_be_bytes buf)))"

lemma generate_otp_first:
  assumes "\<not> otp_rejected (rng n)" and "\<And>j. j < n \<Longrightarrow> otp_rejected (rng j)"
  shows "generate_otp rng = Some (otp_outcome (rng n))"
proof -
  have "generate_otp rng = otp_loop rng n"
    using otp_loop_skip [of n rng 0] assms(2) by (simp add: generate_otp_def)
  with assms(1) show ?thesis
    by (subst (asm) otp_loop.simps) (auto simp: otp_rejected_def otp_outcome_def split: option.splits)
qed

lemma otp_code_shape: "length (otp_code n) = 6 \<and> list_all is_ascii_digit (otp_code n)"
proof -
  have "unat (n mod 1000000) < 10 ^ 6"
    by (simp add: unat_mod)
  then have "length (show_nat (unat (n mod 1000000))) \<le> 6"
    by (rule length_show_nat_le) simp
  with pad_left_digits [OF show_nat_digits] show ?thesis
    by (simp add: otp_code_def length_pad_left list_all_iff)
qed

text \<open>The draws that give a code: one in every million below the threshold.\<close>

lemma unat_otp_rest: "unat (n mod (1000000 :: 32 word)) = unat n mod 1000000"
  by (simp add: unat_mod)

lemma otp_code_eq_iff: "c < 1000000 \<Longrightarrow> otp_code n = pad_left 6 (show_nat c) \<longleftrightarrow> unat n mod 1000000 = c"
  by (metis otp_code_def read_nat_pad_left read_nat_show_nat unat_otp_rest)

lemma digits_bound: "\<forall>c \<in> set s. is_ascii_digit c \<Longrightarrow> read_nat s < 10 ^ length s"
proof (induction s rule: rev_induct)
  case (snoc c s)
  then have "digit_val c < 10" by (auto simp: is_ascii_digit_def digit_val_def)
  with snoc show ?case by (simp add: read_nat_snoc)
qed (simp add: read_nat_def)

lemma digits_inject:
  "length s = length t \<Longrightarrow> \<forall>c \<in> set s. is_ascii_digit c \<Longrightarrow> \<forall>c \<in> set t. is_ascii_digit c \<Longrightarrow>
    read_nat s = read_nat t \<Longrightarrow> s = t"
proof (induction s arbitrary: t rule: rev_induct)
  case (snoc c s)
  then obtain d t' where t: "t = t' @ [d]" by (metis length_0_conv rev_exhaust snoc_eq_iff_butlast)
  have cd: "is_ascii_digit c" "is_ascii_digit d" using snoc.prems t by auto
  then have "digit_val c < 10" "digit_val d < 10"
    by (auto simp: is_ascii_digit_def digit_val_def)
  with snoc.prems(4) t have "read_nat s = read_nat t'" "digit_val c = digit_val d"
    unfolding t read_nat_snoc by (presburger, presburger)
  moreover from this(2) cd have "(of_char c :: nat) = of_char d"
    unfolding is_ascii_digit_def digit_val_def by linarith
  ultimately show ?case
    using snoc t by simp
qed simp

lemma otp_code_surj:
  assumes "length s = 6" and "list_all is_ascii_digit s"
  shows "read_nat s < 1000000 \<and> s = pad_left 6 (show_nat (read_nat s))"
proof -
  have d: "\<forall>c \<in> set s. is_ascii_digit c" using assms(2) by (simp add: list_all_iff)
  then have lt: "read_nat s < 10 ^ 6" using digits_bound assms(1) by metis
  have "s = pad_left 6 (show_nat (read_nat s))"
    using length_pad_left [OF length_show_nat_le [OF lt]] assms(1) d
    by (intro digits_inject pad_left_digits [OF show_nat_digits]) simp_all
  with lt show ?thesis by simp
qed

lemma otp_code_draws:
  assumes "c < 1000000"
  shows "card {n. n < otp_reject_threshold \<and> otp_code n = pad_left 6 (show_nat c)} = 4294"
proof -
  have "bij_betw (\<lambda>q. of_nat (q * 1000000 + c) :: 32 word) {..<4294}
      {n. n < otp_reject_threshold \<and> otp_code n = pad_left 6 (show_nat c)}"
  proof (rule bij_betw_byWitness [where f' = "\<lambda>n. unat n div 1000000"])
    show "\<forall>q \<in> {..<4294}. unat (of_nat (q * 1000000 + c) :: 32 word) div 1000000 = q"
      using assms by (simp add: unat_of_nat del: of_nat_add of_nat_mult)
    have "of_nat (unat n div 1000000 * 1000000 + c) = n"
      if "otp_code n = pad_left 6 (show_nat c)" for n :: "32 word"
    proof -
      from that assms have "unat n div 1000000 * 1000000 + c = unat n"
        using div_mult_mod_eq [of "unat n" 1000000] by (simp only: otp_code_eq_iff)
      then show ?thesis by (simp del: of_nat_add of_nat_mult)
    qed
    then show "\<forall>n \<in> {n. n < otp_reject_threshold \<and> otp_code n = pad_left 6 (show_nat c)}.
        (of_nat (unat n div 1000000 * 1000000 + c) :: 32 word) = n"
      by simp
    show "(\<lambda>q. of_nat (q * 1000000 + c) :: 32 word) ` {..<4294}
        \<subseteq> {n. n < otp_reject_threshold \<and> otp_code n = pad_left 6 (show_nat c)}"
      using assms
      by (auto simp: otp_code_eq_iff unat_of_nat word_less_nat_alt otp_reject_threshold_def
          simp del: of_nat_add of_nat_mult)
    show "(\<lambda>n. unat n div 1000000) ` {n. n < otp_reject_threshold \<and> otp_code n = pad_left 6 (show_nat c)}
        \<subseteq> {..<4294}"
      by (auto simp: word_less_nat_alt otp_reject_threshold_def)
  qed
  then show ?thesis
    using bij_betw_same_card by fastforce
qed

section \<open>Properties\<close>

text \<open>C39: Generating a code goes on exactly as long as draws are at or above the threshold: it never
  returns if and only if every draw is, and otherwise the first draw that is not decides, with its
  code or with the failure of the generator.\<close>

theorem otp_generation_returns:
  "(generate_otp rng = None \<longleftrightarrow>
      (\<forall>j. \<exists>buf. rng j = Some buf \<and> otp_reject_threshold \<le> u32_from_be_bytes buf)) \<and>
   (\<forall>r. generate_otp rng = Some r \<longleftrightarrow>
      (\<exists>n. list_all (\<lambda>j. otp_rejected (rng j)) [0..<n] \<and> \<not> otp_rejected (rng n) \<and> r = otp_outcome (rng n)))"
proof (cases "\<exists>n. \<not> otp_rejected (rng n)")
  case True
  define n where "n = (LEAST n. \<not> otp_rejected (rng n))"
  have n: "\<not> otp_rejected (rng n)" "\<And>j. j < n \<Longrightarrow> otp_rejected (rng j)"
    unfolding n_def using LeastI_ex [OF True] not_less_Least by blast+
  have g: "generate_otp rng = Some (otp_outcome (rng n))"
    by (rule generate_otp_first [of rng n, OF n])
  have "m = n" if "list_all (\<lambda>j. otp_rejected (rng j)) [0..<m]" "\<not> otp_rejected (rng m)" for m
    using n that by (auto simp: list_all_iff intro: linorder_cases [of m n])
  with n have "(\<exists>m. list_all (\<lambda>j. otp_rejected (rng j)) [0..<m] \<and> \<not> otp_rejected (rng m) \<and>
      r = otp_outcome (rng m)) \<longleftrightarrow> r = otp_outcome (rng n)" for r
    by (metis atLeastLessThan_iff atLeastLessThan_upt list_all_iff)
  moreover have "\<not> (\<forall>j. \<exists>buf. rng j = Some buf \<and> otp_reject_threshold \<le> u32_from_be_bytes buf)"
    using n(1) unfolding otp_rejected_iff by blast
  ultimately show ?thesis using g by auto
next
  case False
  then have all: "\<exists>buf. rng j = Some buf \<and> otp_reject_threshold \<le> u32_from_be_bytes buf" for j
    by (simp add: otp_rejected_iff)
  have "generate_otp rng = None"
    using False otp_loop_stops [of rng 0] by (cases "otp_loop rng 0") (auto simp: generate_otp_def)
  with all False show ?thesis by simp
qed

text \<open>One-time codes are uniform: every string of six digits is the code of exactly 4294 of the
  draws below the threshold, and every accepted draw gives such a string.\<close>

theorem otp_codes_are_uniform:
  assumes "length s = 6" and "list_all is_ascii_digit s"
  shows "card {n. n < otp_reject_threshold \<and> otp_code n = s} = 4294 \<and>
    length (otp_code m) = 6 \<and> list_all is_ascii_digit (otp_code m)"
  using otp_code_surj [OF assms] otp_code_draws [of "read_nat s"] otp_code_shape [of m] by simp

theorem otp_codes_are_uniform_witness:
  "card {n. n < otp_reject_threshold \<and> otp_code n = ''000042''} = 4294"
  using otp_codes_are_uniform [of "''000042''"] by (simp add: is_ascii_digit_def)

end
