(* ===== verification/Auth_Tokens.thy ===== *)
theory Auth_Tokens
  imports Auth_Crypto
begin

text \<open>
  \<open>tokens.rs\<close> and \<open>handlers/token.rs\<close> of \<open>services/kova-auth\<close>: signing an access token, issuing a
  pair of tokens and rotating a refresh token.  Fresh identifiers, random bytes, salts, clock
  readings and the outcome of each statement are the fields of \<open>issue_io\<close> and \<open>rotate_io\<close>.
\<close>

definition access_ttl_secs :: int where "access_ttl_secs = 900"
definition refresh_ttl_secs :: int where "refresh_ttl_secs = 2592000"
definition bcrypt_cost :: nat where "bcrypt_cost = 10"

record token_pair =
  tp_access :: string
  tp_refresh :: string
  tp_expires_in :: nat

definition sha256_hex :: "authn_env \<Rightarrow> string \<Rightarrow> string" where
  "sha256_hex env s = xv_hex env (xv_sha256 env (bytes_of_string s))"

definition as_u64 :: "int \<Rightarrow> nat" where
  "as_u64 x = nat (x mod 2 ^ 64)"

definition access_claims :: "authn_env \<Rightarrow> kova_user_id \<Rightarrow> string \<Rightarrow> int \<Rightarrow> string \<Rightarrow> kova_claims" where
  "access_claims env user fingerprint now jti =
     \<lparr>kc_sub = xv_uuid_show env (user_uuid user), kc_exp = as_u64 (now + access_ttl_secs),
      kc_iat = as_u64 now, kc_jti = jti, kc_iss = ''kova-auth'', kc_device_id = Some fingerprint\<rparr>"

definition sign_access_token ::
  "authn_env \<Rightarrow> string \<Rightarrow> kova_user_id \<Rightarrow> string \<Rightarrow> int \<Rightarrow> uuid \<Rightarrow> authn_error + string \<times> string" where
  "sign_access_token env key user fingerprint now fresh =
     (let jti = xv_uuid_show env fresh
      in rbind (map_err XeCrypto (xv_jwt_encode env key (access_claims env user fingerprint now jti)))
           (\<lambda>token. Inr (token, jti)))"

record issue_io =
  is_now :: int
  is_jti :: uuid
  is_refresh :: "byte list option"
  is_salt :: string
  is_session :: uuid
  is_now2 :: datetime
  is_insert :: sql_fault

definition insert_session_stmt ::
  "authn_env \<Rightarrow> string \<Rightarrow> string \<Rightarrow> string \<Rightarrow> string \<Rightarrow> string \<Rightarrow> string \<Rightarrow> datetime
    \<Rightarrow> (sqlx_error, unit, authn_db) eff" where
  "insert_session_stmt env session_id user_id hash selector jti fingerprint expires_at =
     ebind (elift (auth_bin env session_id)) (\<lambda>i.
     ebind (elift (auth_bin env user_id)) (\<lambda>u.
     insert_session env
       \<lparr>xs_id = i, xs_user = u, xs_hash = hash, xs_selector = Some selector, xs_jti = Some jti,
        xs_device = fingerprint, xs_expires = xv_to_column env expires_at, xs_revoked = None\<rparr>))"

definition issue_token_pair ::
  "authn_env \<Rightarrow> string \<Rightarrow> issue_io \<Rightarrow> kova_user_id \<Rightarrow> string \<Rightarrow> (authn_error, token_pair, authn_world) eff" where
  "issue_token_pair env key io user fingerprint =
     ebind (elift (sign_access_token env key user fingerprint (is_now io) (is_jti io))) (\<lambda>(access, jti).
     ebind (elift (random_hex_token env (is_refresh io))) (\<lambda>refresh_raw.
     ebind (elift (map_err XeCrypto (xv_bcrypt_hash env (is_salt io) refresh_raw bcrypt_cost))) (\<lambda>hash.
     ebind (on_auth_db (sql_exec (is_insert io)
         (insert_session_stmt env (xv_uuid_show env (is_session io)) (xv_uuid_show env (user_uuid user)) hash
            (sha256_hex env refresh_raw) jti fingerprint (is_now2 io + refresh_ttl_secs * 10 ^ 9)))) (\<lambda>_.
     eret \<lparr>tp_access = access, tp_refresh = refresh_raw, tp_expires_in = as_u64 access_ttl_secs\<rparr>))))"

section \<open>Rotation\<close>

text \<open>\<open>WHERE token_selector = ? AND expires_at > NOW() LIMIT 1\<close>; the selector is not unique.\<close>

definition selector_matches :: "authn_env \<Rightarrow> string \<Rightarrow> session_row \<Rightarrow> bool" where
  "selector_matches env selector r \<longleftrightarrow>
     (case xs_selector r of None \<Rightarrow> False | Some s \<Rightarrow> xv_coll env s = xv_coll env selector)"

definition session_by_selector ::
  "authn_env \<Rightarrow> (session_row list \<Rightarrow> session_row) \<Rightarrow> string \<Rightarrow> int \<Rightarrow> authn_db \<Rightarrow> session_row option" where
  "session_by_selector env pick selector now db =
     limit1 pick (filter (\<lambda>r. selector_matches env selector r \<and> now < xs_expires r) (sessions db))"

definition revoke_sessions :: "(session_row \<Rightarrow> bool) \<Rightarrow> int \<Rightarrow> (sqlx_error, unit, authn_db) eff" where
  "revoke_sessions p now db =
     (Inr (), db\<lparr>sessions := update_where p (\<lambda>r. r\<lparr>xs_revoked := Some now\<rparr>) (sessions db)\<rparr>)"

text \<open>Every live session of a user, and one session by its id.\<close>

definition revoke_user_sessions :: "authn_env \<Rightarrow> string \<Rightarrow> int \<Rightarrow> (sqlx_error, unit, authn_db) eff" where
  "revoke_user_sessions env user_id now =
     ebind (elift (auth_bin env user_id)) (\<lambda>u.
     revoke_sessions (\<lambda>r. xs_user r = u \<and> xs_revoked r = None) now)"

definition revoke_session :: "authn_env \<Rightarrow> string \<Rightarrow> int \<Rightarrow> (sqlx_error, unit, authn_db) eff" where
  "revoke_session env session_id now =
     ebind (elift (auth_bin env session_id)) (\<lambda>i. revoke_sessions (\<lambda>r. xs_id r = i) now)"

record rotate_io =
  ri_select :: "string option"
  ri_pick :: "session_row list \<Rightarrow> session_row"
  ri_db_now :: int
  ri_update :: sql_fault
  ri_update_now :: int
  ri_issue :: issue_io

definition rotate_refresh_token ::
  "authn_env \<Rightarrow> string \<Rightarrow> rotate_io \<Rightarrow> string \<Rightarrow> string \<Rightarrow> (authn_error, token_pair, authn_world) eff" where
  "rotate_refresh_token env key io refresh_token fingerprint =
     ebind (on_auth_db (sql_fetch (ri_select io) (\<lambda>db. Inr
         (session_by_selector env (ri_pick io) (sha256_hex env refresh_token) (ri_db_now io) db)))) (\<lambda>found.
     ebind (elift (ok_or found XeSessionNotFound)) (\<lambda>row.
     let session_id = xv_from_bin env (xs_id row);
         user_id = xv_from_bin env (xs_user row)
     in ebind (elift (map_err XeCrypto (xv_bcrypt_verify env refresh_token (xs_hash row)))) (\<lambda>ok.
        ebind (eguard ok XeSessionNotFound) (\<lambda>_.
        if xs_revoked row \<noteq> None
        then ebind (on_auth_db (sql_exec (ri_update io) (revoke_user_sessions env user_id (ri_update_now io))))
               (\<lambda>_. ethrow XeRefreshTokenReuse)
        else ebind (on_auth_db (sql_exec (ri_update io) (revoke_session env session_id (ri_update_now io)))) (\<lambda>_.
             ebind (elift (ok_or (xv_uuid_parse env user_id) XeSessionNotFound)) (\<lambda>u.
             issue_token_pair env key (ri_issue io) (KovaUserId u) fingerprint))))))"

text \<open>The answer that carries a pair.\<close>

definition pair_response :: "token_pair \<Rightarrow> http_resp" where
  "pair_response pair =
     authn_ok 200 (JObj [(''access_token'', JStr (tp_access pair)), (''refresh_token'', JStr (tp_refresh pair)),
       (''expires_in'', JNum (int (tp_expires_in pair)))])"

definition token_refresh ::
  "authn_env \<Rightarrow> string \<Rightarrow> rotate_io \<Rightarrow> string \<Rightarrow> string \<Rightarrow> (authn_error, http_resp, authn_world) eff" where
  "token_refresh env key io refresh_token fingerprint =
     ebind (rotate_refresh_token env key io refresh_token fingerprint) (\<lambda>pair. eret (pair_response pair))"

section \<open>Lemmas\<close>

lemma revoke_sessions_evolves [auth_evolves]: "einv (authn_evolved env db0) (revoke_sessions p now)"
  by (simp add: einv_iff revoke_sessions_def revoke_evolved)

lemma insert_session_stmt_evolves [auth_evolves]:
  "einv (authn_evolved env db0) (insert_session_stmt env i u h s j f t)"
  unfolding insert_session_stmt_def by (intro einv_intros auth_evolves)

lemma issue_token_pair_evolves [auth_evolves]:
  "einv (\<lambda>w. authn_evolved env db0 (xw_db w)) (issue_token_pair env key io user fp)"
  unfolding issue_token_pair_def by (intro einv_intros auth_evolves)

lemma rotate_evolves [auth_evolves]:
  "einv (\<lambda>w. authn_evolved env db0 (xw_db w)) (rotate_refresh_token env key io t fp)"
  unfolding rotate_refresh_token_def revoke_user_sessions_def revoke_session_def
  by (intro einv_intros auth_evolves)

lemma token_refresh_evolves [auth_evolves]:
  "einv (\<lambda>w. authn_evolved env db0 (xw_db w)) (token_refresh env key io t fp)"
  unfolding token_refresh_def by (intro einv_intros auth_evolves)

text \<open>What MySQL's and the library's readings of a UUID text have in common.\<close>

definition uuid_text_ok :: "authn_env \<Rightarrow> bool" where
  "uuid_text_ok env \<longleftrightarrow>
     (\<forall>i. xv_to_bin env (xv_from_bin env i) = Some i \<and>
       (\<exists>u. xv_uuid_parse env (xv_from_bin env i) = Some u \<and> xv_to_bin env (xv_uuid_show env u) = Some i))"

lemma uuid_text_okD:
  assumes "uuid_text_ok env"
  shows "xv_to_bin env (xv_from_bin env i) = Some i"
    and "xv_uuid_parse env (xv_from_bin env i) = Some u \<Longrightarrow> xv_to_bin env (xv_uuid_show env u) = Some i"
    and "\<exists>u. xv_uuid_parse env (xv_from_bin env i) = Some u"
  using assms unfolding uuid_text_ok_def by (metis option.inject)+

lemma auth_bin_Inr [simp]: "auth_bin env s = Inr i \<longleftrightarrow> xv_to_bin env s = Some i"
  by (simp add: auth_bin_def)

lemma auth_exec_Inr:
  "on_auth_db (sql_exec f m) w = (Inr a, w') \<longleftrightarrow>
    f = SqlFine \<and> (\<exists>d. m (xw_db w) = (Inr a, d) \<and> w' = w\<lparr>xw_db := d\<rparr>)"
  by (auto simp: on_auth_db_Inr sql_exec_Inr)

text \<open>A pair is issued with exactly one new session, live, for its user, device and token.\<close>

definition issued ::
  "authn_env \<Rightarrow> string \<Rightarrow> issue_io \<Rightarrow> kova_user_id \<Rightarrow> string \<Rightarrow> token_pair \<Rightarrow> session_row \<Rightarrow> bool" where
  "issued env key io user fp pair row \<longleftrightarrow>
     xv_to_bin env (xv_uuid_show env (user_uuid user)) = Some (xs_user row) \<and>
     xv_jwt_encode env key
       (access_claims env user fp (is_now io) (xv_uuid_show env (is_jti io))) = Inr (tp_access pair) \<and>
     xv_bcrypt_hash env (is_salt io) (tp_refresh pair) bcrypt_cost = Inr (xs_hash row) \<and>
     xs_selector row = Some (sha256_hex env (tp_refresh pair)) \<and>
     xs_jti row = Some (xv_uuid_show env (is_jti io)) \<and> xs_device row = fp \<and> xs_revoked row = None \<and>
     xs_expires row = xv_to_column env (is_now2 io + refresh_ttl_secs * 10 ^ 9) \<and> tp_expires_in pair = 900"

abbreviation add_session :: "session_row \<Rightarrow> authn_world \<Rightarrow> authn_world" where
  "add_session row w \<equiv> w\<lparr>xw_db := (xw_db w)\<lparr>sessions := sessions (xw_db w) @ [row]\<rparr>\<rparr>"

lemma insert_session_Inr:
  "insert_session env r db = (Inr (), db') \<Longrightarrow> db' = db\<lparr>sessions := sessions db @ [r]\<rparr>"
  by (auto simp: insert_session_def split: if_splits)

lemma issue_token_pair_Inr:
  assumes "issue_token_pair env key io user fp w = (Inr pair, w')"
  shows "\<exists>row. issued env key io user fp pair row \<and> w' = add_session row w"
proof -
  obtain access refresh hash i u d where r:
      "xv_jwt_encode env key (access_claims env user fp (is_now io) (xv_uuid_show env (is_jti io))) = Inr access"
      "xv_bcrypt_hash env (is_salt io) refresh bcrypt_cost = Inr hash"
      "xv_to_bin env (xv_uuid_show env (user_uuid user)) = Some u"
      "insert_session env
         \<lparr>xs_id = i, xs_user = u, xs_hash = hash, xs_selector = Some (sha256_hex env refresh),
          xs_jti = Some (xv_uuid_show env (is_jti io)), xs_device = fp,
          xs_expires = xv_to_column env (is_now2 io + refresh_ttl_secs * 10 ^ 9), xs_revoked = None\<rparr> (xw_db w) =
         (Inr (), d)"
      "w' = w\<lparr>xw_db := d\<rparr>" "pair = \<lparr>tp_access = access, tp_refresh = refresh, tp_expires_in = 900\<rparr>"
    using assms
    by (auto simp: issue_token_pair_def ebind_Inr elift_def eret_def sign_access_token_def Let_def
        rbind_Inr_iff auth_exec_Inr insert_session_stmt_def as_u64_def access_ttl_secs_def split: prod.splits)
  with insert_session_Inr [OF r(4)] show ?thesis
    by (intro exI [of _ "\<lparr>xs_id = i, xs_user = u, xs_hash = hash, xs_selector = Some (sha256_hex env refresh),
          xs_jti = Some (xv_uuid_show env (is_jti io)), xs_device = fp,
          xs_expires = xv_to_column env (is_now2 io + refresh_ttl_secs * 10 ^ 9), xs_revoked = None\<rparr>"])
      (simp add: issued_def)
qed

section \<open>Rotation\<close>

lemma session_by_selector_Some:
  "pick_ok pick \<Longrightarrow> session_by_selector env pick s now db = Some r \<Longrightarrow>
    r \<in> set (sessions db) \<and> selector_matches env s r \<and> now < xs_expires r"
  unfolding session_by_selector_def by (auto dest!: limit1_Some_in)

lemma rotate_Inr:
  assumes "uuid_text_ok env" and "pick_ok (ri_pick io)"
    and "rotate_refresh_token env key io tok fp w = (Inr pair, w')"
  shows "\<exists>row new u. row \<in> set (sessions (xw_db w)) \<and> selector_matches env (sha256_hex env tok) row \<and>
    ri_db_now io < xs_expires row \<and> xs_revoked row = None \<and>
    xv_bcrypt_verify env tok (xs_hash row) = Inr True \<and>
    issued env key (ri_issue io) (KovaUserId u) fp pair new \<and> xs_user new = xs_user row \<and>
    w' = w\<lparr>xw_db := (xw_db w)\<lparr>sessions := update_where (\<lambda>r. xs_id r = xs_id row)
      (\<lambda>r. r\<lparr>xs_revoked := Some (ri_update_now io)\<rparr>) (sessions (xw_db w)) @ [new]\<rparr>\<rparr>"
proof -
  obtain row u w1 where r: "session_by_selector env (ri_pick io) (sha256_hex env tok) (ri_db_now io) (xw_db w) = Some row"
      "xv_bcrypt_verify env tok (xs_hash row) = Inr True" "xs_revoked row = None"
      "xv_uuid_parse env (xv_from_bin env (xs_user row)) = Some u"
      "w1 = w\<lparr>xw_db := (xw_db w)\<lparr>sessions := update_where (\<lambda>r. xs_id r = xs_id row)
        (\<lambda>r. r\<lparr>xs_revoked := Some (ri_update_now io)\<rparr>) (sessions (xw_db w))\<rparr>\<rparr>"
      "issue_token_pair env key (ri_issue io) (KovaUserId u) fp w1 = (Inr pair, w')"
    using assms(3) uuid_text_okD(1) [OF assms(1)]
    by (auto simp: rotate_refresh_token_def ebind_Inr auth_fetch_Inr elift_def eguard_def ethrow_def
        auth_exec_Inr revoke_session_def revoke_sessions_def Let_def split: if_splits)
  from issue_token_pair_Inr [OF r(6)] obtain new where
    new: "issued env key (ri_issue io) (KovaUserId u) fp pair new" "w' = add_session new w1"
    by blast
  then have "xs_user new = xs_user row"
    using uuid_text_okD(2) [OF assms(1) r(4)] by (simp add: issued_def)
  with r new session_by_selector_Some [OF assms(2) r(1)] show ?thesis
    by (intro exI [of _ row] exI [of _ new] exI [of _ u]) simp
qed

text \<open>A row that is revoked stays so, with its user, hash and selector.\<close>

lemma revoked_stays:
  assumes "authn_evolved env db db'" and "r \<in> set (sessions db)" and "xs_revoked r \<noteq> None"
  obtains q where "q \<in> set (sessions db')" "xs_revoked q \<noteq> None" "xs_user q = xs_user r"
    "xs_hash q = xs_hash r" "xs_selector q = xs_selector r" "xs_expires q = xs_expires r"
proof -
  obtain old new where "sessions db' = old @ new" "list_all2 session_step (sessions db) old"
    using assms(1) by (auto simp: authn_evolved_def grows_def)
  moreover obtain n where "n < length (sessions db)" "r = sessions db ! n"
    using assms(2) by (metis in_set_conv_nth)
  ultimately have "old ! n \<in> set (sessions db')" "session_step r (old ! n)"
    by (auto simp: list_all2_conv_all_nth)
  with assms(3) that [of "old ! n"] show thesis
    unfolding session_step_def by (elim disjE exE) simp_all
qed

lemma revoke_all_live:
  "list_all (\<lambda>r. xs_revoked r \<noteq> None) (filter (\<lambda>r. xs_user r = u)
     (update_where (\<lambda>r. xs_user r = u \<and> xs_revoked r = None) (\<lambda>r. r\<lparr>xs_revoked := Some t\<rparr>) rs))"
  by (induction rs) (simp_all add: update_where_def)

lemma single_match:
  assumes "filter p rs = [x]" and "y \<in> set rs" and "p y"
  shows "y = x"
proof -
  have "y \<in> set (filter p rs)" using assms(2,3) by simp
  with assms(1) show ?thesis by simp
qed

section \<open>Properties\<close>

text \<open>The presentation of a token whose one session is revoked: never a pair, whatever fails; the theft
  signal while the session has not expired and the statements get through; a plain 401 afterwards.\<close>

lemma rotate_revoked:
  assumes laws: "uuid_text_ok env" and pick: "pick_ok (ri_pick io)"
    and unique: "filter (selector_matches env (sha256_hex env tok)) (sessions (xw_db w)) = [x]"
    and x: "xs_revoked x \<noteq> None" "xv_bcrypt_verify env tok (xs_hash x) = Inr True"
  obtains e w' where "rotate_refresh_token env key io tok fp w = (Inl e, w')"
    "ri_select io = None \<Longrightarrow> \<not> ri_db_now io < xs_expires x \<Longrightarrow> e = XeSessionNotFound \<and> w' = w"
    "ri_select io = None \<Longrightarrow> ri_db_now io < xs_expires x \<Longrightarrow> ri_update io = SqlFine \<Longrightarrow>
      e = XeRefreshTokenReuse \<and> list_all (\<lambda>r. xs_revoked r \<noteq> None) (filter (\<lambda>r. xs_user r = xs_user x) (sessions (xw_db w')))"
proof -
  have "filter (\<lambda>r. selector_matches env (sha256_hex env tok) r \<and> ri_db_now io < xs_expires r)
      (sessions (xw_db w)) = (if ri_db_now io < xs_expires x then [x] else [])"
    using arg_cong [OF unique, of "filter (\<lambda>r. ri_db_now io < xs_expires r)"]
    by (simp add: conj_commute)
  then have found: "session_by_selector env (ri_pick io) (sha256_hex env tok) (ri_db_now io) (xw_db w) =
      (if ri_db_now io < xs_expires x then Some x else None)"
    using limit1_single [OF pick, of "[x]" x] by (simp add: session_by_selector_def limit1_def)
  note run = rotate_refresh_token_def on_auth_db_def eff_defs sql_fetch_def sql_exec_def Let_def
  show thesis
  proof (cases "ri_select io")
    case (Some m)
    then show thesis by (intro that) (auto simp: run)
  next
    case None
    show thesis
    proof (cases "ri_db_now io < xs_expires x")
      case False
      with None show thesis by (intro that) (auto simp: run found)
    next
      case True
      have "\<exists>e w'. rotate_refresh_token env key io tok fp w = (Inl e, w') \<and> (ri_update io = SqlFine \<longrightarrow>
          e = XeRefreshTokenReuse \<and>
          list_all (\<lambda>r. xs_revoked r \<noteq> None) (filter (\<lambda>r. xs_user r = xs_user x) (sessions (xw_db w'))))"
        using None True x uuid_text_okD(1) [OF laws]
        by (cases "ri_update io")
          (simp_all add: run found revoke_user_sessions_def auth_bin_def revoke_sessions_def revoke_all_live del: not_None_eq
            split: sum.split prod.split)
      with None True that show thesis by metis
    qed
  qed
qed

text \<open>C21: A refresh token buys one pair and then betrays its reuse: a rotation that succeeds used a
  session of that token that was live and unexpired, and replaced it by one new session of the
  same user.  Whatever the service did in between, as long as no other session has the token's
  selector, presenting the same token again is refused, whenever it happens and whatever fails.
  While the replaced session has not expired, and if the two statements get through, it is refused
  as reuse and every session of the user is revoked, the new one included; once that session has
  expired it is not found any more, and the reuse goes unnoticed: nothing is revoked.\<close>

theorem refresh_token_reuse_revokes_family:
  assumes laws: "uuid_text_ok env" and wf: "authn_db_wf env (xw_db w)"
    and picks: "pick_ok (ri_pick io)" "pick_ok (ri_pick io2)"
    and first: "rotate_refresh_token env key io tok fp w = (Inr pair, w1)"
    and between: "authn_evolved env (xw_db w1) (xw_db w2)"
    and unique: "filter (selector_matches env (sha256_hex env tok)) (sessions (xw_db w2)) = [x]"
  shows "\<exists>row e w3. row \<in> set (sessions (xw_db w)) \<and> selector_matches env (sha256_hex env tok) row \<and>
    xs_revoked row = None \<and> ri_db_now io < xs_expires row \<and>
    xv_bcrypt_verify env tok (xs_hash row) = Inr True \<and>
    length (sessions (xw_db w1)) = Suc (length (sessions (xw_db w))) \<and>
    xs_user (last (sessions (xw_db w1))) = xs_user row \<and> xs_revoked (last (sessions (xw_db w1))) = None \<and>
    rotate_refresh_token env key io2 tok fp2 w2 = (Inl e, w3) \<and>
    (ri_select io2 = None \<and> ri_db_now io2 < xs_expires row \<and> ri_update io2 = SqlFine \<longrightarrow>
      e = XeRefreshTokenReuse \<and>
      list_all (\<lambda>r. xs_revoked r \<noteq> None) (filter (\<lambda>r. xs_user r = xs_user row) (sessions (xw_db w3)))) \<and>
    (ri_select io2 = None \<and> \<not> ri_db_now io2 < xs_expires row \<longrightarrow> e = XeSessionNotFound \<and> w3 = w2)"
proof -
  obtain row new u where row: "row \<in> set (sessions (xw_db w))" "selector_matches env (sha256_hex env tok) row"
      "ri_db_now io < xs_expires row" "xs_revoked row = None" "xv_bcrypt_verify env tok (xs_hash row) = Inr True"
      and new: "issued env key (ri_issue io) (KovaUserId u) fp pair new" "xs_user new = xs_user row"
      and w1: "w1 = w\<lparr>xw_db := (xw_db w)\<lparr>sessions := update_where (\<lambda>r. xs_id r = xs_id row)
        (\<lambda>r. r\<lparr>xs_revoked := Some (ri_update_now io)\<rparr>) (sessions (xw_db w)) @ [new]\<rparr>\<rparr>"
    using rotate_Inr [OF laws picks(1) first] by blast
  let ?r = "row\<lparr>xs_revoked := Some (ri_update_now io)\<rparr>"
  have "?r \<in> set (sessions (xw_db w1))"
    using row(1) by (force simp: w1 set_update_where)
  then obtain q where q: "q \<in> set (sessions (xw_db w2))" "xs_revoked q \<noteq> None" "xs_user q = xs_user row"
      "xs_hash q = xs_hash row" "xs_selector q = xs_selector row" "xs_expires q = xs_expires row"
    by (rule revoked_stays [OF between]) simp_all
  then have "selector_matches env (sha256_hex env tok) q"
    using row(2) by (simp add: selector_matches_def)
  with single_match [OF unique q(1)] have x: "q = x" by blast
  obtain e w3 where again: "rotate_refresh_token env key io2 tok fp2 w2 = (Inl e, w3)"
      "ri_select io2 = None \<Longrightarrow> \<not> ri_db_now io2 < xs_expires row \<Longrightarrow> e = XeSessionNotFound \<and> w3 = w2"
      "ri_select io2 = None \<Longrightarrow> ri_db_now io2 < xs_expires row \<Longrightarrow> ri_update io2 = SqlFine \<Longrightarrow>
        e = XeRefreshTokenReuse \<and>
        list_all (\<lambda>r. xs_revoked r \<noteq> None) (filter (\<lambda>r. xs_user r = xs_user row) (sessions (xw_db w3)))"
    using rotate_revoked [OF laws picks(2) unique, of key fp2] q row(5) unfolding x by metis
  from row new w1 again show ?thesis
    by (intro exI [of _ row] exI [of _ e] exI [of _ w3] conjI) (auto simp: issued_def)
qed

definition demo_issue_io :: "byte list \<Rightarrow> issue_io" where
  "demo_issue_io bytes = \<lparr>is_now = 5, is_jti = 9, is_refresh = Some bytes, is_salt = [], is_session = 3,
     is_now2 = 0, is_insert = SqlFine\<rparr>"

definition demo_rotate_io :: rotate_io where
  "demo_rotate_io = \<lparr>ri_select = None, ri_pick = hd, ri_db_now = 5, ri_update = SqlFine, ri_update_now = 5,
     ri_issue = demo_issue_io [0]\<rparr>"

lemma demo_uuid_text_ok: "uuid_text_ok demo_authn_env"
  by (simp add: uuid_text_ok_def demo_authn_env_def)

lemma show_nat_demo: "show_nat 1 = ''1''" "show_nat (Suc 0) = ''1''" "show_nat 3 = ''3''" "show_nat 9 = ''9''"
    "show_nat 7 = ''7''" "show_nat (Suc (Suc (Suc 0))) = ''3''"
  by (simp_all add: show_nat.simps digit_char_def char_of_def bit_0)

lemma read_nat_demo: "read_nat ''1'' = 1" "read_nat ''3'' = 3" "read_nat ''7'' = 7" "read_nat ''9'' = 9"
  by (simp_all add: read_nat_def digit_val_def)

text \<open>The token \<open>abc\<close> of the demo session buys one pair; its second use is the theft signal.\<close>

lemma demo_rotation:
  "\<exists>pair. rotate_refresh_token demo_authn_env ''pem'' demo_rotate_io ''abc'' ''d'' demo_authn_world =
     (Inr pair, demo_authn_world\<lparr>xw_db := (xw_db demo_authn_world)\<lparr>sessions :=
        [demo_session\<lparr>xs_revoked := Some 5\<rparr>,
         \<lparr>xs_id = 3, xs_user = 7, xs_hash = ''1'', xs_selector = Some ''1'',
          xs_jti = Some ''9'', xs_device = ''d'', xs_expires = 2592000, xs_revoked = None\<rparr>]\<rparr>\<rparr>)"
  by (simp add: rotate_refresh_token_def issue_token_pair_def sign_access_token_def eff_defs on_auth_db_def
      session_by_selector_def selector_matches_def limit1_def sha256_hex_def random_hex_token_def
      insert_session_stmt_def insert_session_def fits_null_def user_exists_def revoke_session_def
      revoke_sessions_def auth_bin_def access_claims_def demo_authn_world_def demo_authn_env_def
      demo_session_def demo_user_row_def demo_rotate_io_def demo_issue_io_def refresh_ttl_secs_def
      sql_fetch_def show_nat_demo read_nat_demo update_where_def Let_def)

theorem refresh_token_reuse_revokes_family_witness:
  "fst (rotate_refresh_token demo_authn_env ''pem'' demo_rotate_io ''abc'' ''x''
     (snd (rotate_refresh_token demo_authn_env ''pem'' demo_rotate_io ''abc'' ''d'' demo_authn_world))) =
   Inl XeRefreshTokenReuse"
proof -
  obtain pair w1 where run: "rotate_refresh_token demo_authn_env ''pem'' demo_rotate_io ''abc'' ''d''
        demo_authn_world = (Inr pair, w1)"
      and w1: "sessions (xw_db w1) = [demo_session\<lparr>xs_revoked := Some 5\<rparr>,
         \<lparr>xs_id = 3, xs_user = 7, xs_hash = ''1'', xs_selector = Some ''1'',
          xs_jti = Some ''9'', xs_device = ''d'', xs_expires = 2592000, xs_revoked = None\<rparr>]"
    using demo_rotation by force
  have "authn_db_wf demo_authn_env (xw_db w1)"
    using einvD [OF rotate_evolves authn_evolved_refl [OF demo_authn_wf] run] by (simp add: authn_evolved_def)
  then have ev: "authn_evolved demo_authn_env (xw_db w1) (xw_db w1)" by (rule authn_evolved_refl)
  have "filter (selector_matches demo_authn_env (sha256_hex demo_authn_env ''abc'')) (sessions (xw_db w1)) =
      [demo_session\<lparr>xs_revoked := Some 5\<rparr>]"
    by (simp add: w1 selector_matches_def sha256_hex_def demo_authn_env_def demo_session_def show_nat_demo)
  from refresh_token_reuse_revokes_family [OF demo_uuid_text_ok demo_authn_wf _ _ run ev this,
      of demo_rotate_io "''x''"]
  show ?thesis
    unfolding run snd_conv by (auto simp: demo_rotate_io_def pick_ok_hd demo_session_def)
qed

end
