(* ===== verification/Auth_Otp.thy ===== *)
theory Auth_Otp
  imports Auth_Tokens
begin

text \<open>
  \<open>handlers/otp.rs\<close> of \<open>services/kova-auth\<close>: requesting a one-time code and logging in with it.
  A request whose generation of a code never ends has no answer: \<open>otp_request\<close> is \<open>None\<close> then.
\<close>

definition otp_rate_limit :: int where "otp_rate_limit = 3"
definition otp_rate_window_secs :: nat where "otp_rate_window_secs = 600"
definition otp_expiry_secs :: int where "otp_expiry_secs = 300"

definition otp_rate_key :: "string \<Rightarrow> string" where
  "otp_rate_key phone = ''kova:otp:rl:'' @ phone"

definition user_by_phone :: "authn_env \<Rightarrow> string \<Rightarrow> authn_db \<Rightarrow> user_row option" where
  "user_by_phone env phone db = find (\<lambda>r. xv_coll env (xu_phone r) = xv_coll env phone) (users db)"

text \<open>The user's id as text.\<close>

definition find_user ::
  "authn_env \<Rightarrow> string option \<Rightarrow> string \<Rightarrow> (authn_error, string, authn_world) eff" where
  "find_user env fault phone =
     ebind (on_auth_db (sql_fetch fault (\<lambda>db. Inr (user_by_phone env phone db)))) (\<lambda>found.
     ebind (elift (ok_or found XeUserNotFound)) (\<lambda>row.
     eret (xv_from_bin env (xu_id row))))"

section \<open>Requesting a code\<close>

record otp_request_io =
  qi_get_ok :: bool
  qi_get_at :: nat
  qi_select :: "string option"
  qi_rng :: rng
  qi_salt :: string
  qi_id :: uuid
  qi_now :: datetime
  qi_insert :: sql_fault
  qi_db_now :: int
  qi_sms :: sms_outcome
  qi_incr :: redis_fault
  qi_incr_at :: nat
  qi_expire :: redis_fault
  qi_expire_at :: nat

text \<open>\<open>redis.get(..).await.unwrap_or(None)\<close>, then \<open>unwrap_or(0)\<close>.\<close>

definition otp_count :: "otp_request_io \<Rightarrow> string \<Rightarrow> redis \<Rightarrow> int" where
  "otp_count io phone R =
     (if qi_get_ok io
      then (case redis_get (qi_get_at io) (otp_rate_key phone) R of Some (RInt n) \<Rightarrow> n | _ \<Rightarrow> 0)
      else 0)"

definition otp_prepare ::
  "authn_env \<Rightarrow> otp_request_io \<Rightarrow> string \<Rightarrow> (authn_error, string, authn_world) eff" where
  "otp_prepare env io phone =
     ebind (egets (\<lambda>w. if otp_rate_limit \<le> otp_count io phone (xw_redis w)
                       then Inl XeOtpRateLimitExceeded else Inr ())) (\<lambda>_.
     find_user env (qi_select io) phone)"

definition insert_otp_stmt ::
  "authn_env \<Rightarrow> string \<Rightarrow> string \<Rightarrow> string \<Rightarrow> datetime \<Rightarrow> int \<Rightarrow> (sqlx_error, unit, authn_db) eff" where
  "insert_otp_stmt env otp_id user_id code_hash expires_at db_now =
     ebind (elift (auth_bin env otp_id)) (\<lambda>i.
     ebind (elift (auth_bin env user_id)) (\<lambda>u.
     insert_otp env \<lparr>xo_id = i, xo_user = u, xo_hash = code_hash, xo_expires = xv_to_column env expires_at,
       xo_used = None, xo_created = db_now\<rparr>))"

text \<open>\<open>INCR\<close>, then \<open>EXPIRE\<close> on the first request of a window, whose failure is dropped.\<close>

definition count_otp_request :: "otp_request_io \<Rightarrow> string \<Rightarrow> (authn_error, unit, authn_world) eff" where
  "count_otp_request io phone w =
     (let k = otp_rate_key phone
      in if qi_incr io = RedisDown then (Inl (XeRedis ''redis''), w)
         else case redis_incr (qi_incr_at io) k (xw_redis w) of
             None \<Rightarrow> (Inl (XeRedis ''not an integer''), w)
           | Some (n, R) \<Rightarrow>
               if qi_incr io = RedisLost then (Inl (XeRedis ''redis''), w\<lparr>xw_redis := R\<rparr>)
               else (Inr (), w\<lparr>xw_redis :=
                      if n = 1
                      then redis_write (qi_expire io) (redis_expire (qi_expire_at io) k otp_rate_window_secs) R
                      else R\<rparr>))"

definition otp_deliver ::
  "authn_env \<Rightarrow> otp_request_io \<Rightarrow> string \<Rightarrow> string \<Rightarrow> string \<Rightarrow> (authn_error, http_resp, authn_world) eff" where
  "otp_deliver env io phone user_id otp =
     ebind (elift (hash_otp env (qi_salt io) otp)) (\<lambda>code_hash.
     ebind (on_auth_db (sql_exec (qi_insert io)
         (insert_otp_stmt env (xv_uuid_show env (qi_id io)) user_id code_hash
            (qi_now io + otp_expiry_secs * 10 ^ 9) (qi_db_now io)))) (\<lambda>_.
     ebind (send_otp (qi_sms io) phone otp) (\<lambda>_.
     ebind (count_otp_request io phone) (\<lambda>_.
     eret (authn_ok 200 (JObj [(''message'', JStr ''OTP sent'')]))))))"

definition otp_request ::
  "authn_env \<Rightarrow> otp_request_io \<Rightarrow> string \<Rightarrow> authn_world
    \<Rightarrow> ((authn_error + http_resp) \<times> authn_world) option" where
  "otp_request env io phone w =
     (case otp_prepare env io phone w of
        (Inl e, w') \<Rightarrow> Some (Inl e, w')
      | (Inr user_id, w') \<Rightarrow>
          (case generate_otp (qi_rng io) of
             None \<Rightarrow> None
           | Some (Inl e) \<Rightarrow> Some (Inl e, w')
           | Some (Inr otp) \<Rightarrow> Some (otp_deliver env io phone user_id otp w')))"

section \<open>Logging in with a code\<close>

record otp_use_io =
  vi_select :: "string option"
  vi_pick :: "otp_row list \<Rightarrow> otp_row"
  vi_db_now :: int
  vi_update :: sql_fault
  vi_update_now :: int

text \<open>\<open>ORDER BY created_at DESC LIMIT 1\<close> over the live codes of a user: rows created in the same
  second tie.\<close>

definition live_otps :: "id16 \<Rightarrow> int \<Rightarrow> authn_db \<Rightarrow> otp_row list" where
  "live_otps u now db = filter (\<lambda>r. xo_user r = u \<and> now < xo_expires r \<and> xo_used r = None) (otps db)"

definition newest :: "otp_row list \<Rightarrow> otp_row list" where
  "newest rs = filter (\<lambda>r. list_all (\<lambda>q. xo_created q \<le> xo_created r) rs) rs"

definition newest_otp ::
  "authn_env \<Rightarrow> otp_use_io \<Rightarrow> string \<Rightarrow> authn_db \<Rightarrow> sqlx_error + otp_row option" where
  "newest_otp env io user_id db =
     rbind (auth_bin env user_id) (\<lambda>u. Inr (limit1 (vi_pick io) (newest (live_otps u (vi_db_now io) db))))"

definition use_otp :: "authn_env \<Rightarrow> string \<Rightarrow> int \<Rightarrow> (sqlx_error, unit, authn_db) eff" where
  "use_otp env otp_id now =
     ebind (elift (auth_bin env otp_id)) (\<lambda>i db.
     (Inr (), db\<lparr>otps := update_where (\<lambda>r. xo_id r = i) (\<lambda>r. r\<lparr>xo_used := Some now\<rparr>) (otps db)\<rparr>))"

definition otp_verify ::
  "authn_env \<Rightarrow> string \<Rightarrow> string option \<Rightarrow> otp_use_io \<Rightarrow> issue_io \<Rightarrow> string \<Rightarrow> string \<Rightarrow> string
    \<Rightarrow> (authn_error, http_resp, authn_world) eff" where
  "otp_verify env key user_fault io issue phone code fingerprint =
     ebind (find_user env user_fault phone) (\<lambda>user_id.
     ebind (on_auth_db (sql_fetch (vi_select io) (newest_otp env io user_id))) (\<lambda>found.
     ebind (elift (ok_or found XeOtpInvalidOrExpired)) (\<lambda>row.
     let otp_id = xv_from_bin env (xo_id row)
     in ebind (eguard (xo_used row = None) XeOtpAlreadyUsed) (\<lambda>_.
        ebind (elift (verify_otp env code (xo_hash row))) (\<lambda>ok.
        ebind (eguard ok XeOtpInvalidOrExpired) (\<lambda>_.
        ebind (on_auth_db (sql_exec (vi_update io) (use_otp env otp_id (vi_update_now io)))) (\<lambda>_.
        ebind (elift (ok_or (xv_uuid_parse env user_id) XeUserNotFound)) (\<lambda>u.
        ebind (issue_token_pair env key issue (KovaUserId u) fingerprint) (\<lambda>pair.
        eret (pair_response pair))))))))))"

section \<open>Lemmas\<close>

lemma use_otp_evolves [auth_evolves]: "einv (authn_evolved env db0) (use_otp env i t)"
  unfolding use_otp_def by (intro einv_intros) (simp add: einv_iff use_otp_evolved)

lemma insert_otp_stmt_evolves [auth_evolves]:
  "einv (authn_evolved env db0) (insert_otp_stmt env i u h t n)"
  unfolding insert_otp_stmt_def by (intro einv_intros auth_evolves)

lemma einv_count_otp [einv_intros]: "einv (\<lambda>w. P (xw_db w)) (count_otp_request io phone)"
  by (simp add: einv_iff count_otp_request_def Let_def split: option.splits prod.splits)

lemma einv_find_user [einv_intros]: "einv P (find_user env f phone)"
  unfolding find_user_def by (intro einv_intros)

lemma otp_prepare_world: "einv P (otp_prepare env io phone)"
  unfolding otp_prepare_def by (intro einv_intros)

lemma otp_deliver_evolves [auth_evolves]:
  "einv (\<lambda>w. authn_evolved env db0 (xw_db w)) (otp_deliver env io phone u otp)"
  unfolding otp_deliver_def by (intro einv_intros auth_evolves)

lemma otp_request_evolves:
  assumes "otp_request env io phone w = Some (r, w')" and "authn_evolved env db0 (xw_db w)"
  shows "authn_evolved env db0 (xw_db w')"
proof -
  obtain p v where p: "otp_prepare env io phone w = (p, v)" by force
  have "v = w" using einvD [OF otp_prepare_world [where P = "\<lambda>x. x = w"] _ p] by simp
  with assms p show ?thesis
    by (auto simp: otp_request_def split: sum.splits option.splits
        dest!: einvD [OF otp_deliver_evolves assms(2)])
qed

lemma otp_verify_evolves [auth_evolves]:
  "einv (\<lambda>w. authn_evolved env db0 (xw_db w)) (otp_verify env key f io issue phone code fp)"
  unfolding otp_verify_def by (intro einv_intros auth_evolves)

lemma newest_otp_Inr:
  assumes "pick_ok (vi_pick io)" and "newest_otp env io user db = Inr (Some r)"
  shows "r \<in> set (otps db) \<and> xv_to_bin env user = Some (xo_user r) \<and> vi_db_now io < xo_expires r \<and>
    xo_used r = None"
  using assms
  by (auto simp: newest_otp_def rbind_Inr_iff newest_def live_otps_def dest!: limit1_Some_in)

lemma find_user_Inr:
  "find_user env f phone w = (Inr u, w') \<longleftrightarrow>
    w' = w \<and> f = None \<and> (\<exists>row. user_by_phone env phone (xw_db w) = Some row \<and> u = xv_from_bin env (xu_id row))"
  by (auto simp: find_user_def ebind_Inr auth_fetch_Inr elift_def eret_def)

lemma ok_or_Inl: "ok_or q e = Inl x \<longleftrightarrow> q = None \<and> x = e"
  by (cases q) auto

section \<open>Requests for one phone\<close>

fun otp_requests ::
  "authn_env \<Rightarrow> string \<Rightarrow> otp_request_io list \<Rightarrow> authn_world
    \<Rightarrow> ((authn_error + http_resp) list \<times> authn_world) option" where
  "otp_requests env phone [] w = Some ([], w)"
| "otp_requests env phone (io # ios) w =
     (case otp_request env io phone w of
        None \<Rightarrow> None
      | Some (r, w') \<Rightarrow> map_option (map_prod ((#) r) id) (otp_requests env phone ios w'))"

lemma otp_prepare_Inr:
  "otp_prepare env io phone w = (Inr u, w') \<Longrightarrow> w' = w \<and> otp_count io phone (xw_redis w) < otp_rate_limit"
  by (auto simp: otp_prepare_def ebind_Inr egets_def find_user_Inr split: if_splits)

text \<open>Delivering a code touches Redis only by its \<open>INCR\<close> and, after the first, its \<open>EXPIRE\<close>.\<close>

lemma otp_deliver_redis:
  assumes "otp_deliver env io phone u otp w = (r, w')"
    and "redis_incr (qi_incr_at io) (otp_rate_key phone) (xw_redis w) = Some (n, R)"
  shows "\<not> is_ok r \<and> xw_redis w' = xw_redis w \<or>
    xw_redis w' = (if n = 1 \<and> is_ok r then redis_write (qi_expire io)
        (redis_expire (qi_expire_at io) (otp_rate_key phone) otp_rate_window_secs) R else R)"
proof -
  have db: "m w = (x, v) \<Longrightarrow> xw_redis v = xw_redis w" if "m = on_auth_db s" for m s v x
    using that by (auto simp: on_auth_db_def emap_err_def ezoom_def split: prod.splits)
  have sms: "send_otp f p c v = (x, v') \<Longrightarrow> xw_redis v' = xw_redis v" for f p c v x v'
    by (auto simp: send_otp_def split: sms_outcome.splits if_splits)
  show ?thesis
    using assms
    by (auto simp: otp_deliver_def ebind_def elift_def eret_def count_otp_request_def Let_def
        split: prod.splits sum.splits if_splits dest!: db [OF refl] sms)
qed

text \<open>The counter of a phone: absent, or alive until \<open>e\<close> (for ever without an expiry).\<close>

definition otp_counter :: "nat \<Rightarrow> nat option \<Rightarrow> string \<Rightarrow> redis \<Rightarrow> bool" where
  "otp_counter n e phone R \<longleftrightarrow>
     R (otp_rate_key phone) = (if n = 0 then None else Some \<lparr>rc_val = RInt (int n), rc_exp = e\<rparr>)"

definition before :: "nat \<Rightarrow> nat option \<Rightarrow> bool" where
  "before t e \<longleftrightarrow> (case e of None \<Rightarrow> True | Some x \<Rightarrow> t < x)"

text \<open>The counter after an \<open>INCR\<close>: one more, or the first of a window.\<close>

definition bumped :: "nat \<Rightarrow> nat \<Rightarrow> nat option \<Rightarrow> nat \<times> nat option" where
  "bumped t n e = (if n \<noteq> 0 \<and> before t e then (Suc n, e) else (1, None))"

lemma otp_counter_count:
  "otp_counter n e phone R \<Longrightarrow> before (qi_get_at io) e \<Longrightarrow> qi_get_ok io \<Longrightarrow> otp_count io phone R = int n"
  by (auto simp: otp_counter_def otp_count_def redis_get_def redis_live_def cell_alive_def before_def
      split: if_splits option.splits)

lemma otp_counter_incr:
  "otp_counter n e phone R \<Longrightarrow> bumped t n e = (n', e') \<Longrightarrow>
    redis_incr t (otp_rate_key phone) R = Some (int n', R(otp_rate_key phone \<mapsto> \<lparr>rc_val = RInt (int n'), rc_exp = e'\<rparr>))"
  by (auto simp: otp_counter_def bumped_def redis_incr_def redis_live_def cell_alive_def before_def
      split: if_splits option.splits)

text \<open>One request: it leaves the counter alone, or it read fewer than three and counts.\<close>

lemma otp_request_step:
  assumes "otp_request env io phone w = Some (r, w')" and "otp_counter n e phone (xw_redis w)"
    and "qi_get_ok io" and bump: "bumped (qi_incr_at io) n e = (n', e')"
  shows "\<not> is_ok r \<and> otp_counter n e phone (xw_redis w') \<or>
    (before (qi_get_at io) e \<longrightarrow> n < 3) \<and>
    otp_counter n' (if n' = 1 \<and> is_ok r \<and> qi_expire io \<noteq> RedisDown
      then Some (qi_expire_at io + otp_rate_window_secs) else e') phone (xw_redis w')"
proof -
  obtain p v where p: "otp_prepare env io phone w = (p, v)" by force
  have v: "v = w" using einvD [OF otp_prepare_world [where P = "\<lambda>x. x = w"] _ p] by simp
  consider (stop) e where "r = Inl e" "w' = w"
    | (go) u otp where "p = Inr u" "otp_deliver env io phone u otp w = (r, w')"
    using assms(1) p v by (auto simp: otp_request_def split: sum.splits option.splits)
  then show ?thesis
  proof cases
    case stop
    with assms(2) show ?thesis by simp
  next
    case go
    have "before (qi_get_at io) e \<longrightarrow> n < 3"
      using otp_prepare_Inr [of env io phone w u w] p v go(1) otp_counter_count [OF assms(2) _ assms(3)]
      by (auto simp: otp_rate_limit_def)
    moreover have "n' = 1 \<Longrightarrow> e' = None" "n' \<noteq> 0" using bump by (auto simp: bumped_def split: if_splits)
    moreover note otp_deliver_redis [OF go(2) otp_counter_incr [OF assms(2) bump]]
    ultimately show ?thesis
      using assms(2)
      by (elim disjE) (simp_all add: otp_counter_def redis_write_def redis_expire_def redis_live_def cell_alive_def)
  qed
qed

section \<open>Properties\<close>

text \<open>A request that could read the counter, whose commands come in order, the first not before \<open>t0\<close>
  and the \<open>INCR\<close> before \<open>t1\<close>.\<close>

definition timed :: "nat \<Rightarrow> nat \<Rightarrow> otp_request_io \<Rightarrow> bool" where
  "timed t0 t1 io \<longleftrightarrow> qi_get_ok io \<and>
     t0 \<le> qi_get_at io \<and> qi_get_at io \<le> qi_incr_at io \<and> qi_incr_at io \<le> qi_expire_at io \<and> qi_incr_at io < t1"

definition lasts :: "nat \<Rightarrow> nat option \<Rightarrow> bool" where
  "lasts t e \<longleftrightarrow> (case e of None \<Rightarrow> True | Some x \<Rightarrow> t \<le> x)"

lemma otp_requests_Cons:
  assumes "otp_requests env phone (io # ios) w = Some (rs, w')"
  obtains r v rs' where "otp_request env io phone w = Some (r, v)" "otp_requests env phone ios v = Some (rs', w')"
    "rs = r # rs'"
  using assms by (auto split: option.splits prod.splits)

text \<open>While one window lasts, and while a window is running that may end.\<close>

lemma otp_requests_counted:
  assumes "otp_requests env phone ios w = Some (rs, w')" and "list_all (timed t0 (t0 + 600)) ios"
    and "otp_counter n e phone (xw_redis w)" and "n = 0 \<or> lasts (t0 + 600) e" and "n \<le> 3"
  shows "n + length (filter is_ok rs) \<le> 3"
  using assms
proof (induction ios arbitrary: w rs n e)
  case (Cons io ios)
  obtain r v rs' where r: "otp_request env io phone w = Some (r, v)" "otp_requests env phone ios v = Some (rs', w')"
      "rs = r # rs'"
    using Cons.prems(1) by (rule otp_requests_Cons)
  define e' where "e' = (if n = 0 then None else e)"
  have cnt: "otp_counter n e' phone (xw_redis w)"
    using Cons.prems(3) by (simp add: otp_counter_def e'_def)
  have t: "timed t0 (t0 + 600) io" using Cons.prems(2) by simp
  have e': "lasts (t0 + 600) e'" using Cons.prems(4) by (auto simp: e'_def lasts_def)
  with t have alive: "before (qi_get_at io) e'" "before (qi_incr_at io) e'"
    by (auto simp: before_def lasts_def timed_def split: option.splits)
  then have "bumped (qi_incr_at io) n e' = (Suc n, e')" by (simp add: bumped_def e'_def)
  from otp_request_step [OF r(1) cnt _ this] t alive(1)
  consider (same) "\<not> is_ok r" "otp_counter n e' phone (xw_redis v)"
    | (more) "n < 3" "otp_counter (Suc n) (if Suc n = 1 \<and> is_ok r \<and> qi_expire io \<noteq> RedisDown
        then Some (qi_expire_at io + otp_rate_window_secs) else e') phone (xw_redis v)"
    by (auto simp: timed_def)
  then show ?case
  proof cases
    case same
    with Cons.IH [OF r(2) _ same(2)] Cons.prems(2,5) e' r(3) show ?thesis by simp
  next
    case more
    have "Suc n + length (filter is_ok rs') \<le> 3"
      using more(1) t Cons.prems(2) e'
      by (intro Cons.IH [OF r(2) _ more(2)]) (auto simp: timed_def lasts_def otp_rate_window_secs_def)
    with r(3) show ?thesis by auto
  qed
qed simp

lemma otp_requests_windows:
  assumes "otp_requests env phone ios w = Some (rs, w')" and "list_all (timed t0 (t0 + 600)) ios"
    and "otp_counter n e phone (xw_redis w)" and "n \<le> 3"
  shows "n + length (filter is_ok rs) \<le> 6"
  using assms
proof (induction ios arbitrary: w rs n e)
  case (Cons io ios)
  obtain r v rs' where r: "otp_request env io phone w = Some (r, v)" "otp_requests env phone ios v = Some (rs', w')"
      "rs = r # rs'"
    using Cons.prems(1) by (rule otp_requests_Cons)
  have t: "timed t0 (t0 + 600) io" and ts: "list_all (timed t0 (t0 + 600)) ios" using Cons.prems(2) by simp_all
  obtain n' e' where bump: "bumped (qi_incr_at io) n e = (n', e')" by force
  let ?e = "if n' = 1 \<and> is_ok r \<and> qi_expire io \<noteq> RedisDown
    then Some (qi_expire_at io + otp_rate_window_secs) else e'"
  consider (same) "\<not> is_ok r" "otp_counter n e phone (xw_redis v)"
    | (more) "before (qi_get_at io) e \<longrightarrow> n < 3" "otp_counter n' ?e phone (xw_redis v)"
    using otp_request_step [OF r(1) Cons.prems(3) _ bump] t by (auto simp: timed_def)
  then show ?case
  proof cases
    case same
    with Cons.IH [OF r(2) ts same(2)] Cons.prems(4) r(3) show ?thesis by simp
  next
    case more
    show ?thesis
    proof (cases "n \<noteq> 0 \<and> before (qi_incr_at io) e")
      case True
      with bump have n': "n' = Suc n" by (simp add: bumped_def)
      have "before (qi_get_at io) e"
        using True t by (auto simp: before_def timed_def split: option.splits)
      with more(1) n' have "n' + length (filter is_ok rs') \<le> 6" by (intro Cons.IH [OF r(2) ts more(2)]) simp
      with n' r(3) show ?thesis by auto
    next
      case False
      with bump have n': "n' = 1" "e' = None" by (auto simp: bumped_def)
      with t have "n' + length (filter is_ok rs') \<le> 3"
        by (intro otp_requests_counted [OF r(2) ts more(2)]) (auto simp: lasts_def timed_def otp_rate_window_secs_def)
      with n' r(3) Cons.prems(4) show ?thesis by auto
    qed
  qed
qed simp

text \<open>C34: The limit on requests for a code, for requests that come one after another.  In any ten minutes
  in which the counter of a spelling of a phone number can be read, at most three such requests
  succeed if no window of it is running when they start, and at most \<open>6 - n\<close>, so five, if one is
  running that has counted \<open>n\<close> (at most 3): the rest of that window, then three of the next.  It does not matter
  what else fails, the counting itself included.  Requests at the same time are another matter: the
  counter is read before the code is hashed and sent and goes up only after that
  (\<open>concurrent_otp_requests_all_succeed\<close> in \<open>Auth_Concurrent\<close>).\<close>

theorem otp_requests_limited:
  assumes "otp_requests env phone ios w = Some (rs, w')" and "list_all (timed t0 (t0 + 600)) ios"
    and "otp_counter n e phone (xw_redis w)" and "n \<le> 3"
  shows "length (filter is_ok rs) \<le> (if n = 0 then 3 else 6 - n)"
  using otp_requests_counted [OF assms(1-3)] otp_requests_windows [OF assms] assms(4)
  by (cases "n = 0") simp_all

text \<open>If the \<open>EXPIRE\<close> after the first request is lost, the phone is locked out for good: after
  three successful requests every later one is refused, at any time.\<close>

theorem lost_expire_locks_phone:
  assumes "otp_requests env phone [io1, io2, io3] w = Some ([Inr a, Inr b, Inr c], w')"
    and "list_all (\<lambda>io. qi_get_ok io \<and> qi_incr io = RedisFine) [io1, io2, io3]"
    and "xw_redis w (otp_rate_key phone) = None" and "qi_expire io1 = RedisDown" and "qi_get_ok io"
  shows "otp_request env io phone w' = Some (Inl XeOtpRateLimitExceeded, w')"
proof -
  obtain w1 w2 where r: "otp_request env io1 phone w = Some (Inr a, w1)"
      "otp_request env io2 phone w1 = Some (Inr b, w2)" "otp_request env io3 phone w2 = Some (Inr c, w')"
    using assms(1) by (auto split: option.splits prod.splits)
  have any: "before t None" for t by (simp add: before_def)
  have first: "bumped t 0 None = (1, None)" and later: "n \<noteq> 0 \<Longrightarrow> bumped t n None = (Suc n, None)" for t n
    by (simp_all add: bumped_def any)
  have "otp_counter 0 None phone (xw_redis w)"
    using assms(3) by (simp add: otp_counter_def)
  from otp_request_step [OF r(1) this _ first] assms(2,4) have "otp_counter 1 None phone (xw_redis w1)"
    by simp
  from otp_request_step [OF r(2) this _ later] assms(2) have "otp_counter 2 None phone (xw_redis w2)"
    by (simp add: numeral_2_eq_2)
  from otp_request_step [OF r(3) this _ later] assms(2) have "otp_counter 3 None phone (xw_redis w')"
    by (simp add: numeral_3_eq_3 numeral_2_eq_2)
  from otp_counter_count [OF this any assms(5)] show ?thesis
    by (simp add: otp_request_def otp_prepare_def eff_defs otp_rate_limit_def)
qed

definition demo_otp_io :: "redis_fault \<Rightarrow> uuid \<Rightarrow> otp_request_io" where
  "demo_otp_io expire i = \<lparr>qi_get_ok = True, qi_get_at = 0, qi_select = None,
     qi_rng = (\<lambda>k. Some [0, 0, 0, 7]), qi_salt = [], qi_id = i, qi_now = 0, qi_insert = SqlFine,
     qi_db_now = 0, qi_sms = SmsSent, qi_incr = RedisFine, qi_incr_at = 0, qi_expire = expire, qi_expire_at = 0\<rparr>"

lemma demo_generate: "generate_otp (\<lambda>k. Some [0, 0, 0, 7]) = Some (Inr (otp_code 7))"
  using generate_otp_first [of "\<lambda>k. Some [0, 0, 0, 7]" 0]
  by (simp add: otp_rejected_def otp_outcome_def u32_from_be_bytes_def be_nat_def otp_reject_threshold_def)

text \<open>A request of the demo user at one instant.\<close>

definition otp_io_at :: "nat \<Rightarrow> redis_fault \<Rightarrow> uuid \<Rightarrow> otp_request_io" where
  "otp_io_at t expire i = (demo_otp_io expire i)\<lparr>qi_get_at := t, qi_incr_at := t, qi_expire_at := t\<rparr>"

lemma otp_io_at_0: "otp_io_at 0 x i = demo_otp_io x i"
  by (simp add: otp_io_at_def demo_otp_io_def)

lemma demo_otp_request:
  assumes "users (xw_db w) = [demo_user_row]" and "i \<notin> xo_id ` set (otps (xw_db w))"
    and "otp_counter n e ''+44'' (xw_redis w)" and "before t e \<longrightarrow> n < 3"
    and bump: "bumped t n e = (n', e')"
  shows "\<exists>a w'. otp_request demo_authn_env (otp_io_at t x i) ''+44'' w = Some (Inr a, w') \<and>
    users (xw_db w') = [demo_user_row] \<and> xo_id ` set (otps (xw_db w')) = insert i (xo_id ` set (otps (xw_db w))) \<and>
    otp_counter n' (if n' = 1 \<and> x \<noteq> RedisDown then Some (t + 600) else e') ''+44'' (xw_redis w')"
proof -
  have c: "otp_count (otp_io_at t x i) ''+44'' (xw_redis w) < 3"
    using assms(3,4)
    by (auto simp: otp_io_at_def otp_count_def otp_counter_def demo_otp_io_def redis_get_def redis_live_def cell_alive_def
        before_def split: option.splits if_splits)
  have inc: "redis_incr t (otp_rate_key ''+44'') (xw_redis w) = Some (int n',
      (xw_redis w)(otp_rate_key ''+44'' \<mapsto> \<lparr>rc_val = RInt (int n'), rc_exp = e'\<rparr>))"
    by (rule otp_counter_incr [OF assms(3) bump])
  have len: "length (otp_code 7) = 6" using otp_code_shape by simp
  have "\<exists>a w'. otp_request demo_authn_env (otp_io_at t x i) ''+44'' w = Some (Inr a, w') \<and>
    users (xw_db w') = [demo_user_row] \<and> xo_id ` set (otps (xw_db w')) = insert i (xo_id ` set (otps (xw_db w)))"
    using assms(1,2) c inc len
    by (auto simp: otp_request_def otp_prepare_def find_user_def otp_deliver_def count_otp_request_def
        eff_defs on_auth_db_def user_by_phone_def insert_otp_stmt_def insert_otp_def user_exists_def
        auth_bin_def hash_otp_def send_otp_def otp_io_at_def demo_otp_io_def demo_authn_env_def demo_user_row_def
        demo_generate otp_rate_limit_def otp_expiry_secs_def list_ex_iff
        Let_def sql_fetch_def)
  then obtain a w' where run: "otp_request demo_authn_env (otp_io_at t x i) ''+44'' w = Some (Inr a, w')"
      "users (xw_db w') = [demo_user_row]" "xo_id ` set (otps (xw_db w')) = insert i (xo_id ` set (otps (xw_db w)))"
    by blast
  have fields: "qi_get_ok (otp_io_at t x i)" "qi_incr_at (otp_io_at t x i) = t" "qi_expire_at (otp_io_at t x i) = t"
      "qi_expire (otp_io_at t x i) = x"
    by (simp_all add: otp_io_at_def demo_otp_io_def)
  have "otp_counter n' (if n' = 1 \<and> x \<noteq> RedisDown then Some (t + 600) else e') ''+44'' (xw_redis w')"
    using otp_request_step [OF run(1) assms(3), unfolded fields(2-), OF fields(1) bump]
    unfolding otp_rate_window_secs_def by simp
  with run show ?thesis by blast
qed

lemma demo_counter: "otp_counter 0 None ''+44'' (xw_redis demo_authn_world)"
  by (simp add: otp_counter_def demo_authn_world_def redis_empty_def)

text \<open>Three requests at the end of a window and three at the start of the next: five of them within ten
  minutes of the second.\<close>

lemma demo_two_windows:
  "\<exists>a b c d e f w1 w'. otp_request demo_authn_env (otp_io_at 0 RedisFine 5) ''+44'' demo_authn_world = Some (Inr a, w1) \<and>
    otp_counter 1 (Some 600) ''+44'' (xw_redis w1) \<and>
    otp_requests demo_authn_env ''+44''
      [otp_io_at 598 RedisFine 6, otp_io_at 599 RedisFine 7, otp_io_at 600 RedisFine 8,
       otp_io_at 601 RedisFine 9, otp_io_at 602 RedisFine 10] w1 = Some ([Inr b, Inr c, Inr d, Inr e, Inr f], w')"
proof -
  note count = bumped_def before_def
  obtain a w1 where 1: "otp_request demo_authn_env (otp_io_at 0 RedisFine 5) ''+44'' demo_authn_world = Some (Inr a, w1)"
      "users (xw_db w1) = [demo_user_row]" "xo_id ` set (otps (xw_db w1)) = {5, 2}" "otp_counter 1 (Some 600) ''+44'' (xw_redis w1)"
    using demo_otp_request [OF _ _ demo_counter, of 5 0 1 None RedisFine]
    by (auto simp: demo_authn_world_def demo_otp_def count)
  obtain b w2 where 2: "otp_request demo_authn_env (otp_io_at 598 RedisFine 6) ''+44'' w1 = Some (Inr b, w2)"
      "users (xw_db w2) = [demo_user_row]" "xo_id ` set (otps (xw_db w2)) = {6, 5, 2}" "otp_counter 2 (Some 600) ''+44'' (xw_redis w2)"
    using demo_otp_request [OF 1(2) _ 1(4), of 6 598 2 "Some 600" RedisFine] 1(3) by (auto simp: count)
  obtain c w3 where 3: "otp_request demo_authn_env (otp_io_at 599 RedisFine 7) ''+44'' w2 = Some (Inr c, w3)"
      "users (xw_db w3) = [demo_user_row]" "xo_id ` set (otps (xw_db w3)) = {7, 6, 5, 2}" "otp_counter 3 (Some 600) ''+44'' (xw_redis w3)"
    using demo_otp_request [OF 2(2) _ 2(4), of 7 599 3 "Some 600" RedisFine] 2(3) by (auto simp: count)
  obtain d w4 where 4: "otp_request demo_authn_env (otp_io_at 600 RedisFine 8) ''+44'' w3 = Some (Inr d, w4)"
      "users (xw_db w4) = [demo_user_row]" "xo_id ` set (otps (xw_db w4)) = {8, 7, 6, 5, 2}" "otp_counter 1 (Some 1200) ''+44'' (xw_redis w4)"
    using demo_otp_request [OF 3(2) _ 3(4), of 8 600 1 None RedisFine] 3(3) by (auto simp: count)
  obtain e w5 where 5: "otp_request demo_authn_env (otp_io_at 601 RedisFine 9) ''+44'' w4 = Some (Inr e, w5)"
      "users (xw_db w5) = [demo_user_row]" "xo_id ` set (otps (xw_db w5)) = {9, 8, 7, 6, 5, 2}" "otp_counter 2 (Some 1200) ''+44'' (xw_redis w5)"
    using demo_otp_request [OF 4(2) _ 4(4), of 9 601 2 "Some 1200" RedisFine] 4(3) by (auto simp: count)
  obtain f w6 where 6: "otp_request demo_authn_env (otp_io_at 602 RedisFine 10) ''+44'' w5 = Some (Inr f, w6)"
    using demo_otp_request [OF 5(2) _ 5(4), of 10 602 3 "Some 1200" RedisFine] 5(3) by (auto simp: count)
  show ?thesis
    by (rule exI [of _ a], rule exI [of _ b], rule exI [of _ c], rule exI [of _ d], rule exI [of _ e], rule exI [of _ f],
        rule exI [of _ w1], rule exI [of _ w6]) (use 1(4) in \<open>simp add: 1(1) 2(1) 3(1) 4(1) 5(1) 6\<close>)
qed

theorem five_codes_in_ten_minutes:
  "\<exists>w rs w'. otp_requests demo_authn_env ''+44''
      [otp_io_at 598 RedisFine 6, otp_io_at 599 RedisFine 7, otp_io_at 600 RedisFine 8,
       otp_io_at 601 RedisFine 9, otp_io_at 602 RedisFine 10] w = Some (rs, w') \<and> length (filter is_ok rs) = 5"
  using demo_two_windows by force

theorem otp_requests_limited_witness:
  "\<exists>w rs w'. otp_requests demo_authn_env ''+44''
      [otp_io_at 598 RedisFine 6, otp_io_at 599 RedisFine 7, otp_io_at 600 RedisFine 8,
       otp_io_at 601 RedisFine 9, otp_io_at 602 RedisFine 10] w = Some (rs, w') \<and>
     otp_counter 1 (Some 600) ''+44'' (xw_redis w) \<and> length (filter is_ok rs) \<le> 5"
proof -
  obtain w rs w' where run: "otp_requests demo_authn_env ''+44''
      [otp_io_at 598 RedisFine 6, otp_io_at 599 RedisFine 7, otp_io_at 600 RedisFine 8,
       otp_io_at 601 RedisFine 9, otp_io_at 602 RedisFine 10] w = Some (rs, w')"
      and count: "otp_counter 1 (Some 600) ''+44'' (xw_redis w)"
    using demo_two_windows by blast
  have "length (filter is_ok rs) \<le> (if (1::nat) = 0 then 3 else 6 - 1)"
    by (rule otp_requests_limited [OF run, of 598, OF _ count]) (simp_all add: timed_def otp_io_at_def demo_otp_io_def)
  with run count show ?thesis by auto
qed

theorem lost_expire_locks_phone_witness:
  "\<exists>rs w'. otp_requests demo_authn_env ''+44''
       [demo_otp_io RedisDown 5, demo_otp_io RedisFine 6, demo_otp_io RedisFine 8] demo_authn_world = Some (rs, w') \<and>
     otp_request demo_authn_env ((demo_otp_io RedisFine 9)\<lparr>qi_get_at := 10 ^ 9\<rparr>) ''+44'' w' =
       Some (Inl XeOtpRateLimitExceeded, w')"
proof -
  note count = bumped_def before_def and at_0 = otp_io_at_0 [symmetric]
  obtain a w1 where 1: "otp_request demo_authn_env (demo_otp_io RedisDown 5) ''+44'' demo_authn_world = Some (Inr a, w1)"
      "users (xw_db w1) = [demo_user_row]" "xo_id ` set (otps (xw_db w1)) = {5, 2}" "otp_counter 1 None ''+44'' (xw_redis w1)"
    using demo_otp_request [OF _ _ demo_counter, of 5 0 1 None RedisDown]
    by (auto simp: at_0 demo_authn_world_def demo_otp_def count)
  obtain b w2 where 2: "otp_request demo_authn_env (demo_otp_io RedisFine 6) ''+44'' w1 = Some (Inr b, w2)"
      "users (xw_db w2) = [demo_user_row]" "xo_id ` set (otps (xw_db w2)) = {6, 5, 2}" "otp_counter 2 None ''+44'' (xw_redis w2)"
    using demo_otp_request [OF 1(2) _ 1(4), of 6 0 2 None RedisFine] 1(3) by (auto simp: at_0 count)
  obtain c w3 where 3: "otp_request demo_authn_env (demo_otp_io RedisFine 8) ''+44'' w2 = Some (Inr c, w3)"
    using demo_otp_request [OF 2(2) _ 2(4), of 8 0 3 None RedisFine] 2(3) by (auto simp: at_0 count)
  have run: "otp_requests demo_authn_env ''+44''
      [demo_otp_io RedisDown 5, demo_otp_io RedisFine 6, demo_otp_io RedisFine 8] demo_authn_world =
      Some ([Inr a, Inr b, Inr c], w3)"
    using 1(1) 2(1) 3 by simp
  have "otp_request demo_authn_env ((demo_otp_io RedisFine 9)\<lparr>qi_get_at := 10 ^ 9\<rparr>) ''+44'' w3 =
      Some (Inl XeOtpRateLimitExceeded, w3)"
    by (rule lost_expire_locks_phone [OF run])
      (simp_all add: demo_otp_io_def demo_authn_world_def redis_empty_def)
  with run show ?thesis by blast
qed

text \<open>Guessing a code costs the attacker nothing: a wrong code, however often it is tried, changes
  neither the tables nor Redis, so no number of wrong guesses is ever refused as too many, and the
  right code is as good after them as before.\<close>

theorem otp_guessing_is_free:
  assumes "pick_ok (vi_pick io)"
    and "list_all (\<lambda>r. xv_bcrypt_verify env code (xo_hash r) \<noteq> Inr True) (otps (xw_db w))"
  shows "\<exists>e. otp_verify env key f io issue phone code fp w = (Inl e, w) \<and>
    e \<in> {XeUserNotFound, XeOtpInvalidOrExpired} \<union> range XeDatabase \<union> range XeCrypto"
proof -
  obtain ru v where u: "find_user env f phone w = (ru, v)" by force
  then have v: "v = w" "\<And>e. ru = Inl e \<Longrightarrow> e = XeUserNotFound \<or> e \<in> range XeDatabase"
    by (auto simp: find_user_def eff_defs on_auth_db_def sql_fetch_def ok_or_Inl
        split: option.splits sum.splits if_splits)
  show ?thesis
  proof (cases ru)
    case (Inl e)
    with u v show ?thesis by (auto simp: otp_verify_def ebind_def)
  next
    case user: (Inr uid)
    obtain rf v' where q: "on_auth_db (sql_fetch (vi_select io) (newest_otp env io uid)) w = (rf, v')" by force
    then have v': "v' = w" "\<And>e. rf = Inl e \<Longrightarrow> e \<in> range XeDatabase"
      by (auto simp: on_auth_db_def emap_err_def ezoom_def sql_fetch_def split: option.splits
          elim: map_err.elims)
    consider (fault) e where "rf = Inl e" | (none) "rf = Inr None"
      | (some) row where "rf = Inr (Some row)" by (cases rf) auto
    then show ?thesis
    proof cases
      case fault
      with u v v' user q show ?thesis by (auto simp: otp_verify_def ebind_def)
    next
      case none
      with u v v' user q show ?thesis by (auto simp: otp_verify_def ebind_def ethrow_def)
    next
      case some
      with q have "newest_otp env io uid (xw_db w) = Inr (Some row)"
        using v' by (auto simp: auth_fetch_Inr)
      from newest_otp_Inr [OF assms(1) this] assms(2)
      have "xo_used row = None" "xv_bcrypt_verify env code (xo_hash row) \<noteq> Inr True"
        by (auto simp: list_all_iff)
      with u v v' user q some show ?thesis
        by (cases "xv_bcrypt_verify env code (xo_hash row)")
          (auto simp: otp_verify_def ebind_def verify_otp_def ethrow_def Let_def eret_def)
    qed
  qed
qed

definition demo_use_io :: otp_use_io where
  "demo_use_io = \<lparr>vi_select = None, vi_pick = hd, vi_db_now = 5, vi_update = SqlFine, vi_update_now = 5\<rparr>"

theorem otp_guessing_is_free_witness:
  "snd (otp_verify demo_authn_env ''pem'' None demo_use_io (demo_issue_io [0]) ''+44'' ''000000'' ''d''
     demo_authn_world) = demo_authn_world"
  using otp_guessing_is_free [of demo_use_io demo_authn_env "''000000''" demo_authn_world "''pem''" None
      "demo_issue_io [0]" "''+44''" "''d''"]
  by (auto simp: demo_use_io_def pick_ok_hd demo_authn_world_def demo_otp_def demo_authn_env_def)

end
