(* ===== verification/Auth_Pin.thy ===== *)
theory Auth_Pin
  imports Auth_Otp
begin

text \<open>
  \<open>handlers/pin.rs\<close> of \<open>services/kova-auth\<close>: setting and changing the PIN, both confirmed by a
  one-time code.  \<open>verify_otp_for_user\<close> is the second copy of the check of \<open>otp_verify\<close>; the two
  are shown to be the same.
\<close>

text \<open>\<open>len()\<close> counts bytes.\<close>

definition validate_pin_format :: "string \<Rightarrow> authn_error + unit" where
  "validate_pin_format pin =
     (if \<not> (4 \<le> length pin \<and> length pin \<le> 6) \<or> \<not> list_all is_ascii_digit pin
      then Inl XeInvalidPin else Inr ())"

definition verify_otp_for_user ::
  "authn_env \<Rightarrow> otp_use_io \<Rightarrow> string \<Rightarrow> string \<Rightarrow> (authn_error, unit, authn_world) eff" where
  "verify_otp_for_user env io user_id code =
     ebind (on_auth_db (sql_fetch (vi_select io) (newest_otp env io user_id))) (\<lambda>found.
     ebind (elift (ok_or found XeOtpInvalidOrExpired)) (\<lambda>row.
     let otp_id = xv_from_bin env (xo_id row)
     in ebind (elift (verify_otp env code (xo_hash row))) (\<lambda>ok.
        ebind (eguard ok XeOtpInvalidOrExpired) (\<lambda>_.
        ebind (on_auth_db (sql_exec (vi_update io) (use_otp env otp_id (vi_update_now io)))) (\<lambda>_.
        eret ())))))"

record pin_io =
  pi_select :: "string option"
  pi_otp :: otp_use_io
  pi_salt :: string
  pi_update :: sql_fault

definition select_pin :: "authn_env \<Rightarrow> string \<Rightarrow> authn_db \<Rightarrow> sqlx_error + string option" where
  "select_pin env sub db =
     rbind (auth_bin env sub) (\<lambda>u. Inr (map_option xu_pin_hash (find (\<lambda>r. xu_id r = u) (users db))))"

definition update_pin :: "authn_env \<Rightarrow> string \<Rightarrow> string \<Rightarrow> (sqlx_error, unit, authn_db) eff" where
  "update_pin env sub hash =
     ebind (elift (auth_bin env sub)) (\<lambda>u.
     ebind (eguard (xv_varchar env 255 hash) (SqlxOther ''data too long'')) (\<lambda>_ db.
     (Inr (), db\<lparr>users := update_where (\<lambda>r. xu_id r = u) (\<lambda>r. r\<lparr>xu_pin_hash := hash\<rparr>) (users db)\<rparr>)))"

text \<open>The code is verified and used, then the new PIN is hashed and stored.\<close>

definition store_pin ::
  "authn_env \<Rightarrow> pin_io \<Rightarrow> string \<Rightarrow> string \<Rightarrow> string \<Rightarrow> (authn_error, unit, authn_world) eff" where
  "store_pin env io sub new_pin code =
     ebind (verify_otp_for_user env (pi_otp io) sub code) (\<lambda>_.
     ebind (elift (hash_pin env (pi_salt io) new_pin)) (\<lambda>hash.
     on_auth_db (sql_exec (pi_update io) (update_pin env sub hash))))"

definition pin_set ::
  "authn_env \<Rightarrow> pin_io \<Rightarrow> kova_claims \<Rightarrow> string \<Rightarrow> string \<Rightarrow> (authn_error, http_resp, authn_world) eff" where
  "pin_set env io claims new_pin code =
     ebind (elift (validate_pin_format new_pin)) (\<lambda>_.
     ebind (on_auth_db (sql_fetch (pi_select io) (select_pin env (kc_sub claims)))) (\<lambda>found.
     ebind (elift (ok_or found XeUserNotFound)) (\<lambda>pin_hash.
     ebind (eguard (pin_hash = '''') XePinAlreadySet) (\<lambda>_.
     ebind (store_pin env io (kc_sub claims) new_pin code) (\<lambda>_.
     eret (authn_ok 200 (JObj [(''message'', JStr ''PIN set successfully'')])))))))"

definition pin_change ::
  "authn_env \<Rightarrow> pin_io \<Rightarrow> kova_claims \<Rightarrow> string \<Rightarrow> string \<Rightarrow> string
    \<Rightarrow> (authn_error, http_resp, authn_world) eff" where
  "pin_change env io claims current_pin new_pin code =
     ebind (elift (validate_pin_format new_pin)) (\<lambda>_.
     ebind (on_auth_db (sql_fetch (pi_select io) (select_pin env (kc_sub claims)))) (\<lambda>found.
     ebind (elift (ok_or found XeUserNotFound)) (\<lambda>pin_hash.
     ebind (eguard (pin_hash \<noteq> '''') XePinNotSet) (\<lambda>_.
     ebind (elift (verify_pin env current_pin pin_hash)) (\<lambda>ok.
     ebind (eguard ok XeInvalidCredentials) (\<lambda>_.
     ebind (store_pin env io (kc_sub claims) new_pin code) (\<lambda>_.
     eret (authn_ok 200 (JObj [(''message'', JStr ''PIN changed successfully'')])))))))))"

section \<open>Lemmas\<close>

lemma verify_otp_for_user_evolves [auth_evolves]:
  "einv (\<lambda>w. authn_evolved env db0 (xw_db w)) (verify_otp_for_user env io u code)"
  unfolding verify_otp_for_user_def by (intro einv_intros auth_evolves)

lemma update_pin_evolves [auth_evolves]: "einv (authn_evolved env db0) (update_pin env sub hash)"
  unfolding update_pin_def by (intro einv_intros) (simp add: einv_iff set_pin_evolved)

lemma store_pin_evolves [auth_evolves]:
  "einv (\<lambda>w. authn_evolved env db0 (xw_db w)) (store_pin env io sub new code)"
  unfolding store_pin_def by (intro einv_intros auth_evolves)

lemma pin_set_evolves [auth_evolves]:
  "einv (\<lambda>w. authn_evolved env db0 (xw_db w)) (pin_set env io claims new code)"
  unfolding pin_set_def by (intro einv_intros auth_evolves)

lemma pin_change_evolves [auth_evolves]:
  "einv (\<lambda>w. authn_evolved env db0 (xw_db w)) (pin_change env io claims old new code)"
  unfolding pin_change_def by (intro einv_intros auth_evolves)

text \<open>Using a code, step by step.\<close>

abbreviation use_otp_world :: "authn_env \<Rightarrow> otp_use_io \<Rightarrow> otp_row \<Rightarrow> authn_world \<Rightarrow> authn_world" where
  "use_otp_world env io row w \<equiv> w\<lparr>xw_db := (xw_db w)\<lparr>otps :=
     update_where (\<lambda>r. xo_id r = xo_id row) (\<lambda>r. r\<lparr>xo_used := Some (vi_update_now io)\<rparr>) (otps (xw_db w))\<rparr>\<rparr>"

lemma verify_otp_for_user_Inr:
  assumes "uuid_text_ok env" and "pick_ok (vi_pick io)"
  shows "verify_otp_for_user env io u code w = (Inr (), w') \<Longrightarrow>
    \<exists>row. row \<in> set (otps (xw_db w)) \<and> xv_to_bin env u = Some (xo_user row) \<and>
      vi_db_now io < xo_expires row \<and> xo_used row = None \<and>
      xv_bcrypt_verify env code (xo_hash row) = Inr True \<and> w' = use_otp_world env io row w"
  using uuid_text_okD(1) [OF assms(1)]
  by (auto simp: verify_otp_for_user_def ebind_Inr auth_fetch_Inr elift_def eret_def eguard_def Let_def
      auth_exec_Inr use_otp_def verify_otp_def split: if_splits dest!: newest_otp_Inr [OF assms(2)])

text \<open>An error happens before the code is used, unless the answer of the \<open>UPDATE\<close> was lost.\<close>

lemma verify_otp_for_user_users:
  "einv (\<lambda>w. users (xw_db w) = U) (verify_otp_for_user env io u code)"
  unfolding verify_otp_for_user_def use_otp_def
  by (intro einv_intros einv_on_auth_db [where P = "\<lambda>d. users d = U"]) (simp add: einv_iff)

lemma ebind_cong:
  "(\<And>a v. m w = (Inr a, v) \<Longrightarrow> f a v = g a v) \<Longrightarrow> ebind m f w = ebind m g w"
  by (auto simp: ebind_def split: prod.splits sum.splits)

text \<open>What the users' table may become when a PIN is stored.\<close>

definition pin_stored ::
  "authn_env \<Rightarrow> pin_io \<Rightarrow> string \<Rightarrow> string \<Rightarrow> string \<Rightarrow> authn_world \<Rightarrow> authn_world \<Rightarrow> bool" where
  "pin_stored env io sub new code w w' \<longleftrightarrow>
     (\<exists>row hash u. row \<in> set (otps (xw_db w)) \<and> xv_to_bin env sub = Some u \<and> xo_user row = u \<and>
       vi_db_now (pi_otp io) < xo_expires row \<and> xo_used row = None \<and>
       xv_bcrypt_verify env code (xo_hash row) = Inr True \<and> hash_pin env (pi_salt io) new = Inr hash \<and>
       xw_db w' = (xw_db (use_otp_world env (pi_otp io) row w))\<lparr>users :=
         update_where (\<lambda>r. xu_id r = u) (\<lambda>r. r\<lparr>xu_pin_hash := hash\<rparr>) (users (xw_db w))\<rparr>)"

lemma store_pin_outcome:
  assumes "uuid_text_ok env" and "pick_ok (vi_pick (pi_otp io))" and "store_pin env io sub new code w = (r, w')"
  shows "users (xw_db w') = users (xw_db w) \<and> (\<exists>e. r = Inl e) \<or> pin_stored env io sub new code w w'"
proof -
  obtain ro v where o: "verify_otp_for_user env (pi_otp io) sub code w = (ro, v)" by force
  show ?thesis
  proof (cases ro)
    case (Inl e)
    with assms(3) o have "r = Inl e" "w' = v" by (simp_all add: store_pin_def ebind_def)
    with einvD [OF verify_otp_for_user_users [where U = "users (xw_db w)"] refl o] show ?thesis by simp
  next
    case (Inr x)
    with o have ok: "verify_otp_for_user env (pi_otp io) sub code w = (Inr (), v)" by simp
    obtain row where row: "row \<in> set (otps (xw_db w))" "xv_to_bin env sub = Some (xo_user row)"
        "vi_db_now (pi_otp io) < xo_expires row" "xo_used row = None"
        "xv_bcrypt_verify env code (xo_hash row) = Inr True" "v = use_otp_world env (pi_otp io) row w"
      using verify_otp_for_user_Inr [OF assms(1,2) ok] by auto
    show ?thesis
    proof (cases "hash_pin env (pi_salt io) new")
      case (Inl e)
      with assms(3) ok row(6) show ?thesis by (auto simp: store_pin_def ebind_def ethrow_def)
    next
      case hash: (Inr hash)
      let ?stmt = "sql_exec (pi_update io) (update_pin env sub hash)"
      have run: "(r, w') = on_auth_db ?stmt v"
        using assms(3) ok hash by (simp add: store_pin_def ebind_def eret_def)
      then have "users (xw_db w') = users (xw_db w) \<and> (\<exists>e. r = Inl e) \<or>
          xw_db w' = (xw_db v)\<lparr>users := update_where (\<lambda>r. xu_id r = xo_user row)
            (\<lambda>r. r\<lparr>xu_pin_hash := hash\<rparr>) (users (xw_db w))\<rparr>"
        using row(2,6)
        by (cases "pi_update io")
          (auto simp: on_auth_db_def eff_defs sql_exec_def update_pin_def auth_bin_def split: if_splits)
      with row hash show ?thesis
        unfolding pin_stored_def by blast
    qed
  qed
qed

lemma pin_set_needs_code:
  assumes "uuid_text_ok env" and "pick_ok (vi_pick (pi_otp io))"
    and "pin_set env io claims new code w = (r, w')" and "users (xw_db w') \<noteq> users (xw_db w)"
  shows "validate_pin_format new = Inr () \<and> pin_stored env io (kc_sub claims) new code w w' \<and>
    select_pin env (kc_sub claims) (xw_db w) = Inr (Some '''')"
proof -
  obtain h where "validate_pin_format new = Inr ()" "select_pin env (kc_sub claims) (xw_db w) = Inr (Some h)" "h = ''''"
      "\<exists>r'. store_pin env io (kc_sub claims) new code w = (r', w')"
    using assms(3,4)
    by (auto simp: pin_set_def ebind_def elift_def eguard_def eret_def ethrow_def on_auth_db_def emap_err_def
        ezoom_def sql_fetch_def split: prod.splits sum.splits option.splits if_splits elim!: map_err.elims ok_or.elims)
  with store_pin_outcome [OF assms(1,2)] assms(4) show ?thesis by blast
qed

section \<open>Properties\<close>

text \<open>C36: Logging in with a code checks and uses it exactly as confirming a PIN does: \<open>otp_verify\<close> is the
  look-up of the user, then \<open>verify_otp_for_user\<close>, then the issue of a pair; the check for a code
  that is already used can never fail.\<close>

theorem otp_verify_is_otp_check:
  assumes "pick_ok (vi_pick io)"
  shows "otp_verify env key f io issue phone code fp w =
    ebind (find_user env f phone) (\<lambda>user_id.
    ebind (verify_otp_for_user env io user_id code) (\<lambda>_.
    ebind (elift (ok_or (xv_uuid_parse env user_id) XeUserNotFound)) (\<lambda>u.
    ebind (issue_token_pair env key issue (KovaUserId u) fp) (\<lambda>pair.
    eret (pair_response pair))))) w"
  unfolding otp_verify_def verify_otp_for_user_def ebind_assoc
proof (rule ebind_cong, rule ebind_cong)
  fix user_id v found v'
  assume found: "on_auth_db (sql_fetch (vi_select io) (newest_otp env io user_id)) v = (Inr found, v')"
  have "xo_used row = None" if "found = Some row" for row
    using newest_otp_Inr [OF assms] found that by (auto simp: auth_fetch_Inr)
  then show "ebind (elift (ok_or found XeOtpInvalidOrExpired)) (\<lambda>row.
      let otp_id = xv_from_bin env (xo_id row)
      in ebind (eguard (xo_used row = None) XeOtpAlreadyUsed) (\<lambda>_.
         ebind (elift (verify_otp env code (xo_hash row))) (\<lambda>ok.
         ebind (eguard ok XeOtpInvalidOrExpired) (\<lambda>_.
         ebind (on_auth_db (sql_exec (vi_update io) (use_otp env otp_id (vi_update_now io)))) (\<lambda>_.
         ebind (elift (ok_or (xv_uuid_parse env user_id) XeUserNotFound)) (\<lambda>u.
         ebind (issue_token_pair env key issue (KovaUserId u) fp) (\<lambda>pair.
         eret (pair_response pair)))))))) v' =
    ebind (elift (ok_or found XeOtpInvalidOrExpired)) (\<lambda>row.
      ebind (let otp_id = xv_from_bin env (xo_id row)
       in ebind (elift (verify_otp env code (xo_hash row))) (\<lambda>ok.
          ebind (eguard ok XeOtpInvalidOrExpired) (\<lambda>_.
          ebind (on_auth_db (sql_exec (vi_update io) (use_otp env otp_id (vi_update_now io)))) (\<lambda>_.
          eret ())))) (\<lambda>_.
      ebind (elift (ok_or (xv_uuid_parse env user_id) XeUserNotFound)) (\<lambda>u.
      ebind (issue_token_pair env key issue (KovaUserId u) fp) (\<lambda>pair.
      eret (pair_response pair))))) v'"
    by (cases found) (simp_all add: Let_def ebind_assoc)
qed

theorem otp_verify_is_otp_check_witness:
  "otp_verify demo_authn_env ''pem'' None demo_use_io (demo_issue_io [0]) ''+44'' ''123456'' ''d'' demo_authn_world =
    ebind (find_user demo_authn_env None ''+44'') (\<lambda>user_id.
    ebind (verify_otp_for_user demo_authn_env demo_use_io user_id ''123456'') (\<lambda>_.
    ebind (elift (ok_or (xv_uuid_parse demo_authn_env user_id) XeUserNotFound)) (\<lambda>u.
    ebind (issue_token_pair demo_authn_env ''pem'' (demo_issue_io [0]) (KovaUserId u) ''d'') (\<lambda>pair.
    eret (pair_response pair))))) demo_authn_world"
  by (rule otp_verify_is_otp_check) (simp add: demo_use_io_def pick_ok_hd)

text \<open>C24: Changing the PIN takes the current PIN and a live code: if the users' table changes at all, the
  new PIN is well formed, the caller's PIN was set and the current PIN verified against it, an
  unused, unexpired code of the caller was verified and is used now, and only the caller's row
  changed, to the hash of the new PIN.\<close>

theorem pin_change_needs_pin_and_code:
  assumes "uuid_text_ok env" and "pick_ok (vi_pick (pi_otp io))"
    and "pin_change env io claims current new code w = (r, w')" and "users (xw_db w') \<noteq> users (xw_db w)"
  shows "validate_pin_format new = Inr () \<and>
    (\<exists>h. select_pin env (kc_sub claims) (xw_db w) = Inr (Some h) \<and> h \<noteq> '''' \<and>
      verify_pin env current h = Inr True) \<and>
    (\<exists>row hash u. row \<in> set (otps (xw_db w)) \<and> xv_to_bin env (kc_sub claims) = Some u \<and> xo_user row = u \<and>
      vi_db_now (pi_otp io) < xo_expires row \<and> xo_used row = None \<and>
      xv_bcrypt_verify env code (xo_hash row) = Inr True \<and> hash_pin env (pi_salt io) new = Inr hash \<and>
      xw_db w' = (xw_db w)\<lparr>
        otps := update_where (\<lambda>r. xo_id r = xo_id row) (\<lambda>r. r\<lparr>xo_used := Some (vi_update_now (pi_otp io))\<rparr>)
          (otps (xw_db w)),
        users := update_where (\<lambda>r. xu_id r = u) (\<lambda>r. r\<lparr>xu_pin_hash := hash\<rparr>) (users (xw_db w))\<rparr>)"
proof -
  obtain h where "validate_pin_format new = Inr ()" "select_pin env (kc_sub claims) (xw_db w) = Inr (Some h)"
      "h \<noteq> ''''" "verify_pin env current h = Inr True"
      "\<exists>r'. store_pin env io (kc_sub claims) new code w = (r', w')"
    using assms(3,4)
    by (auto simp: pin_change_def ebind_def elift_def eguard_def eret_def ethrow_def on_auth_db_def emap_err_def
        ezoom_def sql_fetch_def split: prod.splits sum.splits option.splits if_splits elim!: map_err.elims ok_or.elims)
  moreover with store_pin_outcome [OF assms(1,2)] assms(4)
  have "pin_stored env io (kc_sub claims) new code w w'" by blast
  ultimately show ?thesis
    unfolding pin_stored_def by auto
qed

definition demo_pin_io :: pin_io where
  "demo_pin_io = \<lparr>pi_select = None, pi_otp = demo_use_io, pi_salt = [], pi_update = SqlFine\<rparr>"

definition demo_claims :: kova_claims where
  "demo_claims = \<lparr>kc_sub = ''7'', kc_exp = 0, kc_iat = 0, kc_jti = ''j'', kc_iss = ''kova-auth'', kc_device_id = None\<rparr>"

theorem pin_change_needs_pin_and_code_witness:
  "\<exists>r w'. pin_change demo_authn_env demo_pin_io demo_claims ''1234'' ''98765'' ''123456'' demo_authn_world = (r, w') \<and>
     map xu_pin_hash (users (xw_db w')) = [''$98765''] \<and> hash_pin demo_authn_env [] ''98765'' = Inr ''$98765''"
proof -
  obtain r w' where run: "pin_change demo_authn_env demo_pin_io demo_claims ''1234'' ''98765'' ''123456''
      demo_authn_world = (r, w')" by force
  then have res: "map xu_pin_hash (users (xw_db w')) = [''$98765'']"
    by (auto simp: pin_change_def store_pin_def verify_otp_for_user_def newest_otp_def newest_def live_otps_def
        limit1_def use_otp_def update_pin_def select_pin_def verify_pin_def hash_pin_def verify_otp_def argon2_def
        validate_pin_format_def is_ascii_digit_def eff_defs on_auth_db_def sql_fetch_def auth_bin_def Let_def
        demo_authn_env_def demo_authn_world_def demo_pin_io_def demo_use_io_def demo_claims_def demo_otp_def
        demo_user_row_def read_nat_demo update_where_def)
  then have "users (xw_db w') \<noteq> users (xw_db demo_authn_world)"
    by (auto simp: demo_authn_world_def demo_user_row_def)
  from pin_change_needs_pin_and_code [OF demo_uuid_text_ok _ run this]
  have "\<exists>hash. hash_pin demo_authn_env [] ''98765'' = Inr hash"
    by (auto simp: demo_pin_io_def demo_use_io_def pick_ok_hd)
  with run res show ?thesis
    by (auto simp: hash_pin_def demo_authn_env_def argon2_def Let_def)
qed

end
