(* ===== verification/Auth_Session.thy ===== *)
theory Auth_Session
  imports Auth_Pin
begin

text \<open>
  \<open>handlers/device.rs\<close>, \<open>handlers/biometric.rs\<close> and \<open>handlers/register.rs\<close> of
  \<open>services/kova-auth\<close>: revoking sessions, biometric challenges and registration.
\<close>

section \<open>Revocation\<close>

definition revocation_cache_secs :: nat where
  "revocation_cache_secs = as_u64 access_ttl_secs"

definition revoked_key :: "string \<Rightarrow> string" where
  "revoked_key jti = ''kova:revoked:jti:'' @ jti"

text \<open>A failure to write the key is dropped.\<close>

definition cache_revoked_jti ::
  "redis_fault \<times> nat \<Rightarrow> string \<Rightarrow> (authn_error, unit, authn_world) eff" where
  "cache_revoked_jti fault_at jti w =
     (Inr (), w\<lparr>xw_redis := redis_write (fst fault_at)
       (redis_set_ex (snd fault_at) (revoked_key jti) (RInt 1) revocation_cache_secs) (xw_redis w)\<rparr>)"

text \<open>The order of the rows of a query without \<open>ORDER BY\<close> is \<open>di_order\<close>; the outcome of the
  \<open>n\<close>th write to Redis is \<open>di_cache n\<close>.\<close>

record device_io =
  di_select :: "string option"
  di_order :: "session_row list \<Rightarrow> session_row list"
  di_update :: sql_fault
  di_now :: int
  di_cache :: "nat \<Rightarrow> redis_fault \<times> nat"

definition own_session :: "authn_env \<Rightarrow> string \<Rightarrow> string \<Rightarrow> authn_db \<Rightarrow> sqlx_error + session_row option" where
  "own_session env session_id sub db =
     rbind (auth_bin env session_id) (\<lambda>i.
     rbind (auth_bin env sub) (\<lambda>u.
     Inr (find (\<lambda>r. xs_id r = i \<and> xs_user r = u \<and> xs_revoked r = None) (sessions db))))"

definition session_delete ::
  "authn_env \<Rightarrow> device_io \<Rightarrow> kova_claims \<Rightarrow> string \<Rightarrow> (authn_error, http_resp, authn_world) eff" where
  "session_delete env io claims session_id =
     ebind (on_auth_db (sql_fetch (di_select io) (own_session env session_id (kc_sub claims)))) (\<lambda>found.
     ebind (elift (ok_or found XeSessionNotFound)) (\<lambda>row.
     ebind (on_auth_db (sql_exec (di_update io) (revoke_session env session_id (di_now io)))) (\<lambda>_.
     ebind (case xs_jti row of None \<Rightarrow> eret () | Some jti \<Rightarrow> cache_revoked_jti (di_cache io 0) jti) (\<lambda>_.
     eret (authn_ok 200 (JObj [(''message'', JStr ''Session revoked'')]))))))"

definition live_sessions :: "authn_env \<Rightarrow> string \<Rightarrow> authn_db \<Rightarrow> sqlx_error + session_row list" where
  "live_sessions env sub db =
     rbind (auth_bin env sub) (\<lambda>u.
     Inr (filter (\<lambda>r. xs_user r = u \<and> xs_revoked r = None) (sessions db)))"

fun cache_revoked_all ::
  "(nat \<Rightarrow> redis_fault \<times> nat) \<Rightarrow> nat \<Rightarrow> session_row list \<Rightarrow> (authn_error, unit, authn_world) eff" where
  "cache_revoked_all faults n [] = eret ()"
| "cache_revoked_all faults n (r # rs) =
     (case xs_jti r of
        None \<Rightarrow> cache_revoked_all faults n rs
      | Some jti \<Rightarrow> ebind (cache_revoked_jti (faults n) jti) (\<lambda>_. cache_revoked_all faults (Suc n) rs))"

definition sessions_revoke_all ::
  "authn_env \<Rightarrow> device_io \<Rightarrow> kova_claims \<Rightarrow> (authn_error, http_resp, authn_world) eff" where
  "sessions_revoke_all env io claims =
     ebind (on_auth_db (sql_fetch (di_select io) (live_sessions env (kc_sub claims)))) (\<lambda>rows.
     ebind (on_auth_db (sql_exec (di_update io) (revoke_user_sessions env (kc_sub claims) (di_now io)))) (\<lambda>_.
     ebind (cache_revoked_all (di_cache io) 0 (di_order io rows)) (\<lambda>_.
     eret (authn_ok 200 (JObj [(''message'', JStr ''All sessions revoked'')])))))"

text \<open>\<open>WHERE access_token_jti = ? AND user_id = ? AND revoked_at IS NULL\<close>.\<close>

definition revoke_by_jti :: "authn_env \<Rightarrow> string \<Rightarrow> string \<Rightarrow> int \<Rightarrow> (sqlx_error, unit, authn_db) eff" where
  "revoke_by_jti env jti sub now =
     ebind (elift (auth_bin env sub)) (\<lambda>u.
     revoke_sessions (\<lambda>r. (case xs_jti r of None \<Rightarrow> False | Some j \<Rightarrow> xv_coll env j = xv_coll env jti) \<and>
       xs_user r = u \<and> xs_revoked r = None) now)"

definition logout ::
  "authn_env \<Rightarrow> device_io \<Rightarrow> kova_claims \<Rightarrow> (authn_error, http_resp, authn_world) eff" where
  "logout env io claims =
     ebind (on_auth_db (sql_exec (di_update io)
       (revoke_by_jti env (kc_jti claims) (kc_sub claims) (di_now io)))) (\<lambda>_.
     ebind (cache_revoked_jti (di_cache io 0) (kc_jti claims)) (\<lambda>_.
     eret (authn_ok 200 (JObj [(''message'', JStr ''Logged out'')]))))"

section \<open>Biometric challenges\<close>

definition challenge_ttl_secs :: nat where "challenge_ttl_secs = 60"

definition challenge_key :: "string \<Rightarrow> string" where
  "challenge_key user_id = ''kova:biometric:challenge:'' @ user_id"

definition biometric_challenge ::
  "authn_env \<Rightarrow> byte list option \<Rightarrow> redis_fault \<Rightarrow> nat \<Rightarrow> kova_claims
    \<Rightarrow> (authn_error, http_resp, authn_world) eff" where
  "biometric_challenge env draw fault clock claims =
     ebind (elift (random_hex_token env draw)) (\<lambda>challenge.
     ebind (on_auth_redis fault
       (redis_set_ex clock (challenge_key (kc_sub claims)) (RStr challenge) challenge_ttl_secs)) (\<lambda>_.
     eret (authn_ok 200 (JObj [(''challenge_token'', JStr challenge)]))))"

text \<open>\<open>GETDEL\<close> as an \<open>Option<String>\<close>.\<close>

definition redis_text :: "redis_val \<Rightarrow> string" where
  "redis_text v =
     (case v of RStr s \<Rightarrow> s | RInt n \<Rightarrow> if n < 0 then CHR ''-'' # show_nat (nat (- n)) else show_nat (nat n))"

definition take_challenge ::
  "redis_fault \<Rightarrow> nat \<Rightarrow> string \<Rightarrow> (authn_error, string option, authn_world) eff" where
  "take_challenge fault clock k =
     ebind (egets (\<lambda>w. Inr (map_option redis_text (redis_get clock k (xw_redis w))))) (\<lambda>stored.
     ebind (on_auth_redis fault (redis_del k)) (\<lambda>_. eret stored))"

definition biometric_verify ::
  "authn_env \<Rightarrow> string \<Rightarrow> redis_fault \<Rightarrow> nat \<Rightarrow> issue_io \<Rightarrow> kova_claims \<Rightarrow> string \<Rightarrow> string
    \<Rightarrow> (authn_error, http_resp, authn_world) eff" where
  "biometric_verify env key fault clock issue claims challenge_token fingerprint =
     ebind (take_challenge fault clock (challenge_key (kc_sub claims))) (\<lambda>stored.
     ebind (eguard (stored = Some challenge_token) XeChallengeInvalid) (\<lambda>_.
     ebind (elift (ok_or (xv_uuid_parse env (kc_sub claims)) XeUnauthorized)) (\<lambda>u.
     ebind (issue_token_pair env key issue (KovaUserId u) fingerprint) (\<lambda>pair.
     eret (pair_response pair)))))"

section \<open>Registration\<close>

definition validate_e164 :: "authn_env \<Rightarrow> string \<Rightarrow> authn_error + string" where
  "validate_e164 env raw =
     rbind (ok_or (xv_phone_parse env raw) XeInvalidPhoneFormat) (\<lambda>phone.
     if \<not> xv_phone_valid env phone then Inl XeInvalidPhoneFormat
     else Inr (xv_phone_e164 env phone))"

record register_io =
  gi_user :: uuid
  gi_insert :: sql_fault
  gi_device :: uuid
  gi_upsert :: sql_fault
  gi_db_now :: int

definition insert_user_stmt ::
  "authn_env \<Rightarrow> string \<Rightarrow> string \<Rightarrow> (sqlx_error, unit, authn_db) eff" where
  "insert_user_stmt env user_id phone =
     ebind (elift (auth_bin env user_id)) (\<lambda>i.
     insert_user env \<lparr>xu_id = i, xu_phone = phone, xu_pin_hash = '''', xu_kyc = ''Unverified''\<rparr>)"

definition upsert_device_stmt ::
  "authn_env \<Rightarrow> string \<Rightarrow> string \<Rightarrow> string \<Rightarrow> int \<Rightarrow> (sqlx_error, unit, authn_db) eff" where
  "upsert_device_stmt env device_id user_id fingerprint now =
     ebind (elift (auth_bin env device_id)) (\<lambda>i.
     ebind (elift (auth_bin env user_id)) (\<lambda>u.
     upsert_device env \<lparr>xd_id = i, xd_user = u, xd_fingerprint = fingerprint, xd_seen = now\<rparr> now))"

definition register_error :: "authn_error \<Rightarrow> authn_error" where
  "register_error e = (if e = XeDatabase UniqueViolation then XePhoneAlreadyRegistered else e)"

definition register ::
  "authn_env \<Rightarrow> register_io \<Rightarrow> string \<Rightarrow> string \<Rightarrow> (authn_error, http_resp, authn_world) eff" where
  "register env io phone_number fingerprint =
     ebind (elift (validate_e164 env phone_number)) (\<lambda>phone.
     let user_id = xv_uuid_show env (gi_user io)
     in ebind (emap_err register_error (on_auth_db (sql_exec (gi_insert io)
          (insert_user_stmt env user_id phone)))) (\<lambda>_.
        ebind (on_auth_db (sql_exec (gi_upsert io)
          (upsert_device_stmt env (xv_uuid_show env (gi_device io)) user_id fingerprint (gi_db_now io)))) (\<lambda>_.
        eret (authn_ok 201 (JObj [(''user_id'', JStr user_id), (''phone_number'', JStr phone)])))))"

section \<open>Lemmas\<close>

lemma einv_cache_jti [einv_intros]: "einv (\<lambda>w. P (xw_db w)) (cache_revoked_jti f jti)"
  by (simp add: einv_iff cache_revoked_jti_def)

lemma einv_cache_all [einv_intros]: "einv (\<lambda>w. P (xw_db w)) (cache_revoked_all f n rs)"
  by (induction rs arbitrary: n) (auto split: option.splits intro!: einv_intros)

lemma session_delete_evolves [auth_evolves]:
  "einv (\<lambda>w. authn_evolved env db0 (xw_db w)) (session_delete env io claims i)"
  unfolding session_delete_def revoke_session_def by (intro einv_intros auth_evolves)

lemma sessions_revoke_all_evolves [auth_evolves]:
  "einv (\<lambda>w. authn_evolved env db0 (xw_db w)) (sessions_revoke_all env io claims)"
  unfolding sessions_revoke_all_def revoke_user_sessions_def by (intro einv_intros auth_evolves)

lemma logout_evolves [auth_evolves]:
  "einv (\<lambda>w. authn_evolved env db0 (xw_db w)) (logout env io claims)"
  unfolding logout_def revoke_by_jti_def by (intro einv_intros auth_evolves)

lemma biometric_challenge_evolves [auth_evolves]:
  "einv (\<lambda>w. authn_evolved env db0 (xw_db w)) (biometric_challenge env d f t claims)"
  unfolding biometric_challenge_def by (intro einv_intros auth_evolves)

lemma biometric_verify_evolves [auth_evolves]:
  "einv (\<lambda>w. authn_evolved env db0 (xw_db w)) (biometric_verify env key f t io claims c fp)"
  unfolding biometric_verify_def take_challenge_def by (intro einv_intros auth_evolves)

lemma register_evolves [auth_evolves]:
  "einv (\<lambda>w. authn_evolved env db0 (xw_db w)) (register env io phone fp)"
  unfolding register_def insert_user_stmt_def upsert_device_stmt_def by (intro einv_intros auth_evolves)

lemma issue_token_pair_redis: "einv (\<lambda>w. xw_redis w = R) (issue_token_pair env key io user fp)"
proof -
  have "einv (\<lambda>w. xw_redis w = R) (on_auth_db m)" for m :: "(sqlx_error, unit, authn_db) eff"
    unfolding on_auth_db_def by (intro einv_intros einv_zoom_other) simp
  then show ?thesis
    unfolding issue_token_pair_def by (intro einv_intros)
qed

abbreviation drop_challenge :: "kova_claims \<Rightarrow> authn_world \<Rightarrow> authn_world" where
  "drop_challenge claims w \<equiv> w\<lparr>xw_redis := redis_del (challenge_key (kc_sub claims)) (xw_redis w)\<rparr>"

lemma biometric_verify_fine:
  "biometric_verify env key RedisFine t issue claims offered fp w =
    (if map_option redis_text (redis_get t (challenge_key (kc_sub claims)) (xw_redis w)) = Some offered
     then ebind (elift (ok_or (xv_uuid_parse env (kc_sub claims)) XeUnauthorized)) (\<lambda>u.
          ebind (issue_token_pair env key issue (KovaUserId u) fp) (\<lambda>pair.
          eret (pair_response pair))) (drop_challenge claims w)
     else (Inl XeChallengeInvalid, drop_challenge claims w))"
proof (cases "map_option redis_text (redis_get t (challenge_key (kc_sub claims)) (xw_redis w)) = Some offered")
  case True
  then show ?thesis
    by (simp add: biometric_verify_def take_challenge_def ebind_def egets_def eret_def on_auth_redis_def
        redis_write_def del: map_option_eq_Some)
next
  case False
  then show ?thesis
    by (simp add: biometric_verify_def take_challenge_def ebind_def egets_def eret_def ethrow_def
        on_auth_redis_def redis_write_def del: map_option_eq_Some)
qed

lemma biometric_verify_drops:
  assumes "biometric_verify env key RedisFine t issue claims offered fp w = (r, w')"
  shows "xw_redis w' = redis_del (challenge_key (kc_sub claims)) (xw_redis w)"
proof -
  let ?R = "redis_del (challenge_key (kc_sub claims)) (xw_redis w)"
  have "einv (\<lambda>w. xw_redis w = ?R)
      (ebind (elift (ok_or (xv_uuid_parse env (kc_sub claims)) XeUnauthorized)) (\<lambda>u.
       ebind (issue_token_pair env key issue (KovaUserId u) fp) (\<lambda>pair. eret (pair_response pair))))"
    by (intro einv_intros issue_token_pair_redis)
  note keeps = einvD [OF this, of "drop_challenge claims w" r w']
  show ?thesis
  proof (cases "map_option redis_text (redis_get t (challenge_key (kc_sub claims)) (xw_redis w)) = Some offered")
    case True
    with assms have "ebind (elift (ok_or (xv_uuid_parse env (kc_sub claims)) XeUnauthorized)) (\<lambda>u.
       ebind (issue_token_pair env key issue (KovaUserId u) fp) (\<lambda>pair. eret (pair_response pair)))
       (drop_challenge claims w) = (r, w')"
      by (simp only: biometric_verify_fine if_True simp_thms)
    then show ?thesis by (intro keeps) simp
  next
    case False
    with assms have "(Inl XeChallengeInvalid, drop_challenge claims w) = (r, w')"
      by (simp only: biometric_verify_fine if_False simp_thms)
    then show ?thesis by auto
  qed
qed

text \<open>Registration: refused, or exactly one new user, who has no PIN, with the canonical number.\<close>

lemma register_outcome:
  assumes "register env io raw fp w = (r, w')"
  shows "users (xw_db w') = users (xw_db w) \<and> (\<exists>e. r = Inl e) \<or>
    (\<exists>phone i. validate_e164 env raw = Inr phone \<and> xv_to_bin env (xv_uuid_show env (gi_user io)) = Some i \<and>
      list_all (\<lambda>q. xv_coll env (xu_phone q) \<noteq> xv_coll env phone) (users (xw_db w)) \<and>
      users (xw_db w') = users (xw_db w) @
        [\<lparr>xu_id = i, xu_phone = phone, xu_pin_hash = '''', xu_kyc = ''Unverified''\<rparr>])"
proof (cases "validate_e164 env raw")
  case (Inl e)
  with assms show ?thesis by (auto simp: register_def ethrow_def)
next
  case (Inr phone)
  let ?ins = "on_auth_db (sql_exec (gi_insert io) (insert_user_stmt env (xv_uuid_show env (gi_user io)) phone))"
  obtain ri v where i: "?ins w = (ri, v)" by force
  then have v: "users (xw_db v) = users (xw_db w) \<and> (\<exists>e. ri = Inl e) \<or>
      (\<exists>i. xv_to_bin env (xv_uuid_show env (gi_user io)) = Some i \<and>
        list_all (\<lambda>q. xv_coll env (xu_phone q) \<noteq> xv_coll env phone) (users (xw_db w)) \<and>
        users (xw_db v) = users (xw_db w) @
          [\<lparr>xu_id = i, xu_phone = phone, xu_pin_hash = '''', xu_kyc = ''Unverified''\<rparr>])"
    by (cases "gi_insert io"; cases "xv_to_bin env (xv_uuid_show env (gi_user io))")
      (auto simp: on_auth_db_def eff_defs sql_exec_def insert_user_stmt_def auth_bin_def insert_user_def
        list_ex_iff list_all_iff split: if_splits)
  show ?thesis
  proof (cases ri)
    case (Inl e)
    with assms Inr i have "w' = v" "\<exists>e. r = Inl e"
      by (auto simp: register_def ebind_def emap_err_def eret_def Let_def)
    with v Inr show ?thesis by blast
  next
    case ok: (Inr x)
    have dev: "einv (\<lambda>w. users (xw_db w) = U) (on_auth_db (sql_exec f (upsert_device_stmt env d u fp n)))" for U f d u n
      unfolding upsert_device_stmt_def
      by (intro einv_intros einv_on_auth_db [where P = "\<lambda>d. users d = U"])
        (simp add: einv_iff upsert_device_def Let_def)
    have "users (xw_db w') = users (xw_db v)"
      using assms Inr i ok einvD [OF dev [of "users (xw_db v)"] refl]
      by (auto simp: register_def ebind_def emap_err_def eret_def Let_def split: prod.splits sum.splits)
    with v ok Inr show ?thesis by auto
  qed
qed

section \<open>Properties\<close>

text \<open>A biometric challenge is good for one attempt within sixty seconds: the attempt succeeds as far
  as a pair can be issued exactly if it offers the challenge and comes in time, any other attempt
  changes no table, and after the first attempt, right or wrong, every further one is refused.\<close>

theorem challenge_is_used_once:
  assumes "random_hex_token env draw = Inr c" and "biometric_challenge env draw RedisFine t claims w = (Inr resp, w1)"
    and "biometric_verify env key RedisFine t1 issue claims offered fp w1 = (r, w2)" and "t \<le> t1"
  shows "(if offered = c \<and> t1 < t + 60
     then (r, w2) = ebind (elift (ok_or (xv_uuid_parse env (kc_sub claims)) XeUnauthorized)) (\<lambda>u.
        ebind (issue_token_pair env key issue (KovaUserId u) fp) (\<lambda>pair.
        eret (pair_response pair))) (drop_challenge claims w1)
     else r = Inl XeChallengeInvalid \<and> xw_db w2 = xw_db w) \<and>
    fst (biometric_verify env key RedisFine t2 issue2 claims offered2 fp2 w2) = Inl XeChallengeInvalid"
proof -
  let ?k = "challenge_key (kc_sub claims)"
  have w1: "w1 = w\<lparr>xw_redis := redis_set_ex t ?k (RStr c) 60 (xw_redis w)\<rparr>"
    using assms(1,2)
    by (auto simp: biometric_challenge_def eff_defs on_auth_redis_def redis_write_def challenge_ttl_secs_def)
  then have stored: "map_option redis_text (redis_get t1 ?k (xw_redis w1)) = (if t1 < t + 60 then Some c else None)"
    using redis_store.get_put [OF assms(4)] by (simp add: redis_text_def)
  have "redis_get t2 ?k (xw_redis w2) = None"
    using biometric_verify_drops [OF assms(3)] redis_store.get_del by simp
  then have "fst (biometric_verify env key RedisFine t2 issue2 claims offered2 fp2 w2) = Inl XeChallengeInvalid"
    unfolding biometric_verify_fine by simp
  moreover have "if offered = c \<and> t1 < t + 60
     then (r, w2) = ebind (elift (ok_or (xv_uuid_parse env (kc_sub claims)) XeUnauthorized)) (\<lambda>u.
        ebind (issue_token_pair env key issue (KovaUserId u) fp) (\<lambda>pair.
        eret (pair_response pair))) (drop_challenge claims w1)
     else r = Inl XeChallengeInvalid \<and> xw_db w2 = xw_db w"
    using assms(3) stored w1 unfolding biometric_verify_fine by (auto split: if_splits)
  ultimately show ?thesis by blast
qed

theorem challenge_is_used_once_witness:
  "fst (biometric_verify demo_authn_env ''pem'' RedisFine 200 (demo_issue_io [0]) demo_claims ''2'' ''d''
     (snd (biometric_challenge demo_authn_env (Some [0, 0]) RedisFine 100 demo_claims demo_authn_world))) =
   Inl XeChallengeInvalid"
proof -
  obtain r w1 where c: "biometric_challenge demo_authn_env (Some [0, 0]) RedisFine 100 demo_claims demo_authn_world = (Inr r, w1)"
    by (auto simp: biometric_challenge_def eff_defs on_auth_redis_def random_hex_token_def demo_authn_env_def)
  obtain q w2 where v: "biometric_verify demo_authn_env ''pem'' RedisFine 200 (demo_issue_io [0]) demo_claims ''2'' ''d'' w1 = (q, w2)"
    by force
  have h: "random_hex_token demo_authn_env (Some [0, 0]) = Inr (show_nat 2)"
    by (simp add: random_hex_token_def demo_authn_env_def numeral_2_eq_2)
  have "q = Inl XeChallengeInvalid"
    using challenge_is_used_once [OF h c v] by simp
  then show ?thesis by (simp add: c v)
qed

end
