(* ===== verification/Auth_Service.thy ===== *)
theory Auth_Service
  imports Auth_Session
begin

text \<open>
  \<open>services/kova-auth\<close> as a whole: the routes (\<open>router.rs\<close>), the health check and sequences of
  requests.  A request is one that \<open>axum\<close> has matched and whose body was read; the handlers that
  take \<open>AuthClaims\<close> run only once the extractor has accepted the token.
\<close>

definition authn_health :: "bool \<Rightarrow> string option \<Rightarrow> http_resp" where
  "authn_health db_ok ping =
     (let redis_ok = (ping = Some ''PONG'')
      in if db_ok \<and> redis_ok
         then authn_ok 200 (JObj [(''status'', JStr ''ok''), (''db'', JStr ''ok''), (''redis'', JStr ''ok'')])
         else \<lparr>hs_status = 503, hs_headers = [],
               hs_body = envelope
                 (JObj [(''status'', JStr ''degraded''),
                        (''db'', JStr (if db_ok then ''ok'' else ''down'')),
                        (''redis'', JStr (if redis_ok then ''ok'' else ''down''))])
                 (JObj [(''code'', JStr ''SERVICE_UNAVAILABLE''),
                        (''message'', JStr ''One or more dependencies are unreachable'')])
                 (JObj [])\<rparr>)"

datatype authn_req =
    XqHealth
  | XqRegister string string
  | XqOtpRequest string
  | XqOtpVerify string string string
  | XqTokenRefresh string string
  | XqChallenge
  | XqBiometricVerify string string
  | XqSessionDelete string
  | XqRevokeAll
  | XqLogout
  | XqPinSet string string
  | XqPinChange string string string

record authn_io =
  zi_register :: register_io
  zi_otp :: otp_request_io
  zi_user :: "string option"
  zi_use :: otp_use_io
  zi_issue :: issue_io
  zi_rotate :: rotate_io
  zi_draw :: "byte list option"
  zi_redis :: redis_fault
  zi_clock :: nat
  zi_device :: device_io
  zi_pin :: pin_io
  zi_db_ok :: bool
  zi_ping :: "string option"

text \<open>The handlers that need a token.\<close>

fun authn_private ::
  "authn_env \<Rightarrow> string \<Rightarrow> authn_io \<Rightarrow> kova_claims \<Rightarrow> authn_req \<Rightarrow> (authn_error, http_resp, authn_world) eff" where
  "authn_private env key io claims XqChallenge =
     biometric_challenge env (zi_draw io) (zi_redis io) (zi_clock io) claims"
| "authn_private env key io claims (XqBiometricVerify c fp) =
     biometric_verify env key (zi_redis io) (zi_clock io) (zi_issue io) claims c fp"
| "authn_private env key io claims (XqSessionDelete i) = session_delete env (zi_device io) claims i"
| "authn_private env key io claims XqRevokeAll = sessions_revoke_all env (zi_device io) claims"
| "authn_private env key io claims XqLogout = logout env (zi_device io) claims"
| "authn_private env key io claims (XqPinSet new code) = pin_set env (zi_pin io) claims new code"
| "authn_private env key io claims (XqPinChange old new code) = pin_change env (zi_pin io) claims old new code"
| "authn_private env key io claims req = ethrow XeUnauthorized"

definition authn_answer :: "authn_error + http_resp \<Rightarrow> http_resp" where
  "authn_answer r = (case r of Inl e \<Rightarrow> authn_error_response e | Inr resp \<Rightarrow> resp)"

definition answered ::
  "(authn_error, http_resp, authn_world) eff \<Rightarrow> authn_world \<Rightarrow> http_resp option \<times> authn_world" where
  "answered m w = (case m w of (r, w') \<Rightarrow> (Some (authn_answer r), w'))"

text \<open>One request; \<open>None\<close> is a request for a code whose loop never ends.  The keys are the signing
  key and the verification key.\<close>

definition authn_call ::
  "authn_env \<Rightarrow> string \<Rightarrow> string \<Rightarrow> authn_io \<Rightarrow> (string \<times> string) list \<Rightarrow> authn_req
    \<Rightarrow> authn_world \<Rightarrow> http_resp option \<times> authn_world" where
  "authn_call env key pub io headers req w =
     (case req of
        XqHealth \<Rightarrow> (Some (authn_health (zi_db_ok io) (zi_ping io)), w)
      | XqRegister phone fp \<Rightarrow> answered (register env (zi_register io) phone fp) w
      | XqOtpRequest phone \<Rightarrow>
          (case otp_request env (zi_otp io) phone w of
             None \<Rightarrow> (None, w)
           | Some (r, w') \<Rightarrow> (Some (authn_answer r), w'))
      | XqOtpVerify phone code fp \<Rightarrow>
          answered (otp_verify env key (zi_user io) (zi_use io) (zi_issue io) phone code fp) w
      | XqTokenRefresh token fp \<Rightarrow> answered (token_refresh env key (zi_rotate io) token fp) w
      | _ \<Rightarrow> (case auth_claims_extract env pub headers of
                Inl resp \<Rightarrow> (Some resp, w)
              | Inr claims \<Rightarrow> answered (authn_private env key io claims req) w))"

fun authn_serve ::
  "authn_env \<Rightarrow> string \<Rightarrow> string \<Rightarrow> authn_io \<times> (string \<times> string) list \<times> authn_req
    \<Rightarrow> authn_world \<Rightarrow> http_resp option \<times> authn_world" where
  "authn_serve env key pub (io, headers, req) = authn_call env key pub io headers req"

section \<open>Lemmas\<close>

lemma authn_private_evolves:
  "einv (\<lambda>w. authn_evolved env db0 (xw_db w)) (authn_private env key io claims req)"
  by (cases req) (simp_all add: auth_evolves einv_ethrow)

lemma answered_evolves:
  assumes "einv (\<lambda>w. authn_evolved env db0 (xw_db w)) m" and "authn_evolved env db0 (xw_db w)"
  shows "authn_evolved env db0 (xw_db (snd (answered m w)))"
  using assms unfolding answered_def einv_iff by (simp add: split_beta)

lemma authn_call_evolves:
  assumes "authn_evolved env db0 (xw_db w)"
  shows "authn_evolved env db0 (xw_db (snd (authn_call env key pub io headers req w)))"
proof -
  have token: "authn_evolved env db0 (xw_db (snd (case auth_claims_extract env pub headers of
      Inl resp \<Rightarrow> (Some resp, w) | Inr claims \<Rightarrow> answered (authn_private env key io claims q) w)))" for q
    using assms answered_evolves [OF authn_private_evolves assms] by (simp split: sum.split)
  show ?thesis
  proof (cases req)
    case (XqOtpRequest phone)
    with assms show ?thesis
      by (auto simp: authn_call_def split: option.splits dest!: otp_request_evolves [OF _ assms])
  qed (simp_all only: authn_call_def authn_req.case token answered_evolves [OF register_evolves assms]
      answered_evolves [OF otp_verify_evolves assms] answered_evolves [OF token_refresh_evolves assms] snd_conv assms)
qed

text \<open>Evolving is transitive.\<close>

lemma grows_trans:
  assumes "\<And>a b c. R a b \<Longrightarrow> R b c \<Longrightarrow> R a c" and "grows R rs qs" and "grows R qs ps"
  shows "grows R rs ps"
proof -
  obtain old new where q: "qs = old @ new" "list_all2 R rs old"
    using assms(2) by (auto simp: grows_def)
  obtain o1 o2 n2 where p: "ps = (o1 @ o2) @ n2" "list_all2 R old o1"
    using assms(3) q(1) by (auto simp: grows_def list_all2_append1)
  have "list_all2 R rs o1"
    by (rule list_all2_trans [of R R R, OF _ q(2) p(2)]) (rule assms(1))
  with p(1) show ?thesis
    unfolding grows_def by (intro exI [of _ o1] exI [of _ "o2 @ n2"]) simp
qed

lemma authn_evolved_trans:
  "authn_evolved env a b \<Longrightarrow> authn_evolved env b c \<Longrightarrow> authn_evolved env a c"
  unfolding authn_evolved_def
  by (elim conjE, intro conjI; (assumption | (erule grows_trans [rotated], assumption,
      force simp: user_step_def session_step_def otp_step_def device_step_def)))

definition authn_steps :: "authn_env \<Rightarrow> authn_db \<Rightarrow> authn_db \<Rightarrow> bool" where
  "authn_steps env db db' \<longleftrightarrow> db' = db \<or> authn_evolved env db db'"

text \<open>What a step of the tables means for each row.\<close>

lemma authn_steps_rows:
  assumes "authn_db_wf env db" and "authn_steps env db db'"
  shows "list_all2 (\<lambda>r q. \<exists>h. q = r\<lparr>xu_pin_hash := h\<rparr>) (users db) (take (length (users db)) (users db')) \<and>
    list_all2 (\<lambda>r q. q = r \<or> (\<exists>t. q = r\<lparr>xs_revoked := Some t\<rparr>))
      (sessions db) (take (length (sessions db)) (sessions db')) \<and>
    list_all2 (\<lambda>r q. q = r \<or> (\<exists>t. q = r\<lparr>xo_used := Some t\<rparr>)) (otps db) (take (length (otps db)) (otps db')) \<and>
    list_all2 (\<lambda>r q. \<exists>t. q = r\<lparr>xd_seen := t\<rparr>) (devices db) (take (length (devices db)) (devices db'))"
proof -
  have ev: "authn_evolved env db db'"
    using authn_evolved_refl [OF assms(1)] assms(2) by (auto simp: authn_steps_def)
  have g: "grows R rs qs \<Longrightarrow> list_all2 R rs (take (length rs) qs)" for R :: "'r \<Rightarrow> 'r \<Rightarrow> bool" and rs qs
    by (auto simp: grows_def list_all2_lengthD)
  show ?thesis
    using ev unfolding authn_evolved_def user_step_def [abs_def] session_step_def [abs_def]
      otp_step_def [abs_def] device_step_def [abs_def]
    by (intro conjI; elim conjE) (erule g)+
qed

interpretation authn_service: evolving_service "authn_serve env key pub"
  "\<lambda>w. authn_db_wf env (xw_db w)" "\<lambda>w w'. authn_steps env (xw_db w) (xw_db w')"
  for env key pub
proof unfold_locales
  fix w c r w'
  assume wf: "authn_db_wf env (xw_db w)" and call: "authn_serve env key pub c w = (r, w')"
  obtain io hs req where "c = (io, hs, req)" by (metis prod_cases3)
  with call authn_call_evolves [OF authn_evolved_refl [OF wf], of key pub io hs req]
  show "authn_db_wf env (xw_db w') \<and> authn_steps env (xw_db w) (xw_db w')"
    by (simp add: authn_evolved_def authn_steps_def)
qed (auto simp: authn_steps_def intro: authn_evolved_trans)

section \<open>Properties\<close>

text \<open>The life of the tables of the service: whatever requests arrive, with whatever faults, ids and
  phone numbers stay unique and every session, code and device has its user; no row is ever lost
  or moved, and it changes only by replacing a PIN hash, revoking a session, using a code or
  touching a device: a revoked session is never live again and a used code never unused.\<close>

theorem auth_table_life:
  assumes "authn_db_wf env (xw_db w)" and "service_run (authn_serve env key pub) calls w = (resps, w')"
  shows "authn_db_wf env (xw_db w') \<and>
    list_all2 (\<lambda>r q. \<exists>h. q = r\<lparr>xu_pin_hash := h\<rparr>)
      (users (xw_db w)) (take (length (users (xw_db w))) (users (xw_db w'))) \<and>
    list_all2 (\<lambda>r q. q = r \<or> (\<exists>t. q = r\<lparr>xs_revoked := Some t\<rparr>))
      (sessions (xw_db w)) (take (length (sessions (xw_db w))) (sessions (xw_db w'))) \<and>
    list_all2 (\<lambda>r q. q = r \<or> (\<exists>t. q = r\<lparr>xo_used := Some t\<rparr>))
      (otps (xw_db w)) (take (length (otps (xw_db w))) (otps (xw_db w'))) \<and>
    list_all2 (\<lambda>r q. \<exists>t. q = r\<lparr>xd_seen := t\<rparr>)
      (devices (xw_db w)) (take (length (devices (xw_db w))) (devices (xw_db w')))"
  using authn_service.run [OF assms] authn_steps_rows [OF assms(1)] by simp

definition demo_authn_io :: authn_io where
  "demo_authn_io = \<lparr>zi_register = \<lparr>gi_user = 8, gi_insert = SqlFine, gi_device = 1, gi_upsert = SqlFine, gi_db_now = 0\<rparr>,
     zi_otp = demo_otp_io RedisFine 5, zi_user = None, zi_use = demo_use_io, zi_issue = demo_issue_io [0],
     zi_rotate = demo_rotate_io, zi_draw = Some [], zi_redis = RedisFine, zi_clock = 0,
     zi_device = \<lparr>di_select = None, di_order = id, di_update = SqlFine, di_now = 5, di_cache = (\<lambda>n. (RedisFine, 0))\<rparr>,
     zi_pin = demo_pin_io, zi_db_ok = True, zi_ping = Some ''PONG''\<rparr>"

theorem auth_table_life_witness:
  "authn_db_wf demo_authn_env (xw_db (snd (service_run (authn_serve demo_authn_env ''key'' ''pub'')
     [(demo_authn_io, [], XqRegister ''+33'' ''d''), (demo_authn_io, [], XqOtpVerify ''+44'' ''123456'' ''d''),
      (demo_authn_io, [(''authorization'', ''Bearer 7'')], XqLogout)] demo_authn_world)))"
proof -
  obtain resps w' where "service_run (authn_serve demo_authn_env ''key'' ''pub'')
     [(demo_authn_io, [], XqRegister ''+33'' ''d''), (demo_authn_io, [], XqOtpVerify ''+44'' ''123456'' ''d''),
      (demo_authn_io, [(''authorization'', ''Bearer 7'')], XqLogout)] demo_authn_world = (resps, w')"
    by force
  from auth_table_life [OF demo_authn_wf this] this show ?thesis by simp
qed

end
