(* ===== verification/Gateway_Breaker.thy ===== *)
theory Gateway_Breaker
  imports Gateway_Http
begin

text \<open>
  \<open>middleware/circuit_breaker.rs\<close> of \<open>services/kova-gateway\<close>.  Times are in nanoseconds of the
  process's monotonic clock.  The breaker is shared by all requests in flight: each asks for
  permission, and later reports, or is cancelled and never reports (the client goes away and its
  future is dropped).  \<open>breaker_step\<close> is one such event, and a run is any interleaving of them.
\<close>

section \<open>The breaker\<close>

datatype breaker = Closed "32 word" | Open int | HalfOpen

definition failure_threshold :: "32 word" where "failure_threshold = 5"

definition open_duration :: int where "open_duration = 30 * 10 ^ 9"

definition breaker_init :: breaker where "breaker_init = Closed 0"

fun allow_request :: "int \<Rightarrow> breaker \<Rightarrow> bool \<times> breaker" where
  "allow_request now (Closed n) = (True, Closed n)"
| "allow_request now (Open t) =
     (if open_duration \<le> now - t then (True, HalfOpen) else (False, Open t))"
| "allow_request now HalfOpen = (False, HalfOpen)"

definition on_success :: "breaker \<Rightarrow> breaker" where
  "on_success s = Closed 0"

fun on_failure :: "int \<Rightarrow> breaker \<Rightarrow> breaker" where
  "on_failure now (Closed n) =
     (let next_n = n + 1 in if failure_threshold \<le> next_n then Open now else Closed next_n)"
| "on_failure now HalfOpen = Open now"
| "on_failure now (Open t) = Open t"

section \<open>The middleware\<close>

text \<open>\<open>CircuitBreakerMiddleware::call\<close> for one request that is not cancelled: \<open>t1\<close> is when it
  asks, \<open>t2\<close> when it reports.  The breaker is part of the world of the service, reached by
  \<open>get\<close> and \<open>put\<close>, and the wrapped service may change it while the request is in flight.\<close>

definition breaker_layer ::
  "string \<Rightarrow> ('w \<Rightarrow> breaker) \<Rightarrow> (breaker \<Rightarrow> 'w \<Rightarrow> 'w) \<Rightarrow> int \<Rightarrow> int \<Rightarrow> 'w service \<Rightarrow> 'w service" where
  "breaker_layer name get put t1 t2 inner req w =
     (case allow_request t1 (get w) of
        (False, b) \<Rightarrow> (api_service_unavailable name, put b w)
      | (True, b) \<Rightarrow>
        (case inner req (put b w) of
           (resp, w') \<Rightarrow>
             (resp, put (if is_server_error (hs_status resp) then on_failure t2 (get w')
                         else on_success (get w')) w')))"

interpretation breaker_mw: middleware_layer "breaker_layer name get put t1 t2" "{503}"
  for name get put t1 t2
proof unfold_locales
  fix inner req w resp w'
  assume a: "breaker_layer name get put t1 t2 inner req w = (resp, w')"
  obtain ok b where ok: "allow_request t1 (get w) = (ok, b)" by force
  show "hs_status resp \<in> {503} \<or>
      (\<exists>req' v r v'. same_target req req' \<and> inner req' v = (r, v') \<and> hs_status resp = hs_status r)"
  proof (cases ok)
    case False
    with a ok show ?thesis by (auto simp: breaker_layer_def)
  next
    case True
    obtain r v' where "inner req (put b w) = (r, v')" by force
    with a ok True show ?thesis
      unfolding breaker_layer_def using same_target_refl by fastforce
  qed
qed

section \<open>Interleaved requests\<close>

datatype breaker_event =
    Ask int bool
  | Succeeded int
  | Failed int
  | Cancelled int

fun event_time :: "breaker_event \<Rightarrow> int" where
  "event_time (Ask t ok) = t"
| "event_time (Succeeded t) = t"
| "event_time (Failed t) = t"
| "event_time (Cancelled t) = t"

text \<open>The state of a run: the breaker and the number of requests in flight.\<close>

inductive breaker_step :: "breaker \<times> nat \<Rightarrow> breaker_event \<Rightarrow> breaker \<times> nat \<Rightarrow> bool" where
  admit: "allow_request t s = (True, s') \<Longrightarrow> breaker_step (s, k) (Ask t True) (s', Suc k)"
| reject: "allow_request t s = (False, s') \<Longrightarrow> breaker_step (s, k) (Ask t False) (s', k)"
| success: "breaker_step (s, Suc k) (Succeeded t) (on_success s, k)"
| failure: "breaker_step (s, Suc k) (Failed t) (on_failure t s, k)"
| cancel: "breaker_step (s, Suc k) (Cancelled t) (s, k)"

inductive_cases breaker_ask: "breaker_step (s, k) (Ask t ok) (s', k')"
inductive_cases breaker_succeeded: "breaker_step (s, k) (Succeeded t) (s', k')"
inductive_cases breaker_failed: "breaker_step (s, k) (Failed t) (s', k')"
inductive_cases breaker_cancelled: "breaker_step (s, k) (Cancelled t) (s', k')"

lemmas breaker_elims = breaker_ask breaker_succeeded breaker_failed breaker_cancelled

inductive breaker_run :: "breaker \<times> nat \<Rightarrow> breaker_event list \<Rightarrow> breaker \<times> nat \<Rightarrow> bool" where
  none: "breaker_run c [] c"
| more: "breaker_step c e d \<Longrightarrow> breaker_run d es c' \<Longrightarrow> breaker_run c (e # es) c'"

inductive_cases breaker_run_Nil: "breaker_run c [] c'"
inductive_cases breaker_run_Cons: "breaker_run c (e # es) c'"

text \<open>The events of a run come in time order, from \<open>t\<close> on.\<close>

fun timed_from :: "int \<Rightarrow> breaker_event list \<Rightarrow> bool" where
  "timed_from t [] = True"
| "timed_from t (e # es) \<longleftrightarrow> t \<le> event_time e \<and> timed_from (event_time e) es"

fun admissions :: "breaker_event list \<Rightarrow> int list" where
  "admissions [] = []"
| "admissions (Ask t True # es) = t # admissions es"
| "admissions (e # es) = admissions es"

text \<open>Consecutive elements at least \<open>d\<close> apart.\<close>

fun spaced :: "int \<Rightarrow> int list \<Rightarrow> bool" where
  "spaced d (x # y # xs) \<longleftrightarrow> x + d \<le> y \<and> spaced d (y # xs)"
| "spaced d xs = True"

section \<open>Lemmas\<close>

lemma allow_request_cases:
  "allow_request t s = (ok, s') \<Longrightarrow>
    (ok \<and> s' = s \<and> (\<exists>n. s = Closed n)) \<or>
    (ok \<and> s' = HalfOpen \<and> (\<exists>u. s = Open u \<and> u + open_duration \<le> t)) \<or>
    (\<not> ok \<and> s' = s \<and> (\<exists>u. s = Open u \<and> t < u + open_duration)) \<or>
    (\<not> ok \<and> s' = s \<and> s = HalfOpen)"
  by (cases s) (auto split: if_splits)

text \<open>Once open, and without a success, the breaker admits at most one request in thirty
  seconds: the earliest next admission is thirty seconds after the last one or the last opening.\<close>

fun next_admission :: "int \<Rightarrow> breaker \<Rightarrow> int option" where
  "next_admission t (Open u) = Some (u + open_duration)"
| "next_admission t HalfOpen = Some (t + open_duration)"
| "next_admission t (Closed n) = None"

lemma admissions_skip: "\<forall>x. e \<noteq> Ask x True \<Longrightarrow> admissions (e # es) = admissions es"
  by (cases "e # es" rule: admissions.cases) auto

lemma admissions_after: "timed_from t es \<Longrightarrow> \<forall>x \<in> set (admissions es). t \<le> x"
proof (induction es arbitrary: t)
  case (Cons e es)
  then have IH: "\<forall>x \<in> set (admissions es). event_time e \<le> x" "t \<le> event_time e" by auto
  show ?case
  proof (cases "\<exists>x. e = Ask x True")
    case True
    with IH show ?thesis by (auto intro: order_trans)
  next
    case False
    with IH show ?thesis by (auto simp: admissions_skip intro: order_trans)
  qed
qed simp

lemma admissions_spaced:
  assumes "breaker_run c es c'" and "timed_from t es" and "fst c \<noteq> HalfOpen \<longrightarrow> (\<exists>u. fst c = Open u \<and> a \<le> u)"
    and "a \<le> t" and "\<forall>e \<in> set es. \<forall>u. e \<noteq> Succeeded u"
  shows "spaced open_duration (a # admissions es) \<and>
    (\<forall>u. fst c = Open u \<longrightarrow> (\<forall>x \<in> set (admissions es). u + open_duration \<le> x)) \<and>
    (\<forall>n. fst c' \<noteq> Closed n)"
  using assms
proof (induction c es c' arbitrary: t a rule: breaker_run.induct)
  case (none c)
  then show ?case by auto
next
  case (more c e d es c')
  obtain s k where c: "c = (s, k)" by force
  obtain s' k' where d: "d = (s', k')" by force
  have te: "t \<le> event_time e" "timed_from (event_time e) es" using more.prems(1) by auto
  have nos: "\<forall>e \<in> set es. \<forall>u. e \<noteq> Succeeded u" using more.prems(4) by auto
  note step = more.hyps(1) [unfolded c d]
  show ?case
  proof (cases e)
    case (Ask x ok)
    with step have al: "allow_request x s = (ok, s')" by (auto elim: breaker_ask)
    from allow_request_cases [OF al] more.prems(2) c consider
        (adm) u where "ok" "s' = HalfOpen" "s = Open u" "u + open_duration \<le> x" "a \<le> u"
      | (rej) "\<not> ok" "s' = s" by auto
    then show ?thesis
    proof cases
      case adm
      have pos: "0 \<le> open_duration" by (simp add: open_duration_def)
      have IH: "spaced open_duration (x # admissions es) \<and> (\<forall>n. fst c' \<noteq> Closed n)"
        using more.IH [of "event_time e" x] te nos adm Ask d by simp
      have "\<forall>y \<in> set (admissions es). x \<le> y"
        using admissions_after [OF te(2)] Ask by simp
      with IH adm Ask c pos show ?thesis by auto
    next
      case rej
      have "fst d \<noteq> HalfOpen \<longrightarrow> (\<exists>u. fst d = Open u \<and> a \<le> u)"
        using more.prems(2) rej c d by simp
      from more.IH [OF te(2) this _ nos] te(1) more.prems(3) rej Ask c d show ?thesis by auto
    qed
  next
    case (Succeeded x)
    with more.prems(4) show ?thesis by auto
  next
    case (Failed x)
    with step have s': "s' = on_failure x s" by (auto elim: breaker_failed)
    show ?thesis
    proof (cases s)
      case HalfOpen
      have "fst d \<noteq> HalfOpen \<longrightarrow> (\<exists>u. fst d = Open u \<and> a \<le> u)"
        using s' HalfOpen d te(1) more.prems(3) Failed by simp
      from more.IH [OF te(2) this _ nos] te(1) more.prems(3) HalfOpen Failed c show ?thesis by auto
    next
      case (Open u)
      have "fst d \<noteq> HalfOpen \<longrightarrow> (\<exists>u. fst d = Open u \<and> a \<le> u)"
        using s' Open d more.prems(2) c by simp
      from more.IH [OF te(2) this _ nos] te(1) more.prems(3) Open Failed c d s' show ?thesis by auto
    next
      case (Closed n)
      with more.prems(2) c show ?thesis by auto
    qed
  next
    case (Cancelled x)
    with step have "s' = s" by (auto elim: breaker_cancelled)
    then have "fst d \<noteq> HalfOpen \<longrightarrow> (\<exists>u. fst d = Open u \<and> a \<le> u)"
      using more.prems(2) c d by simp
    from more.IH [OF te(2) this _ nos] te(1) more.prems(3) Cancelled c d \<open>s' = s\<close> show ?thesis by auto
  qed
qed

text \<open>The breaker opens only after five failures with no success in between.\<close>

definition five_failures :: "breaker_event list \<Rightarrow> bool" where
  "five_failures es \<longleftrightarrow> (\<exists>pre mid post. es = pre @ mid @ post \<and>
     (\<forall>t. Succeeded t \<notin> set mid) \<and> length (filter (\<lambda>e. \<exists>t. e = Failed t) mid) = 5)"

lemma five_failures_Cons: "five_failures es \<Longrightarrow> five_failures (xs @ es)"
  unfolding five_failures_def by (metis append_assoc)

lemma opens_after_five:
  assumes "breaker_run c es c'" and "c = (Closed m, k)" and "unat m < 5"
    and "\<forall>t. Succeeded t \<notin> set h" and "length (filter (\<lambda>e. \<exists>t. e = Failed t) h) = unat m"
    and "(\<forall>n. fst c' \<noteq> Closed n) \<or> (\<exists>t. Ask t False \<in> set es)"
  shows "five_failures (h @ es)"
  using assms
proof (induction c es c' arbitrary: m k h rule: breaker_run.induct)
  case (none c)
  then show ?case by simp
next
  case (more c e d es c')
  obtain s' k' where d: "d = (s', k')" by force
  note step = more.hyps(1) [unfolded more.prems(1) d]
  have keep: "five_failures (h @ e # es)"
    if "d = (Closed m, k')" "\<forall>t. e \<noteq> Succeeded t \<and> e \<noteq> Failed t \<and> e \<noteq> Ask t False"
    using more.IH [OF that(1) more.prems(2), of "h @ [e]"] more.prems(3-5) that(2) by auto
  show ?case
  proof (cases e)
    case (Ask x ok)
    with step have "allow_request x (Closed m) = (ok, s')" by (auto elim: breaker_ask)
    then show ?thesis using keep Ask d by auto
  next
    case (Succeeded x)
    with step have "d = (Closed 0, k')" using d by (auto elim: breaker_succeeded simp: on_success_def)
    from more.IH [OF this, of "[]"] more.prems(5) Succeeded have "five_failures es" by auto
    then show ?thesis using five_failures_Cons [of es "h @ [e]"] by simp
  next
    case (Failed x)
    with step have s': "s' = on_failure x (Closed m)" by (auto elim: breaker_failed)
    have um: "unat (m + 1) = unat m + 1"
      using more.prems(2) unat_add_lem [of m 1] by simp
    have cnt: "length (filter (\<lambda>e. \<exists>t. e = Failed t) (h @ [e])) = unat (m + 1)"
      using more.prems(4) Failed um by simp
    have nos: "\<forall>t. Succeeded t \<notin> set (h @ [e])" using more.prems(3) Failed by auto
    show ?thesis
    proof (cases "failure_threshold \<le> m + 1")
      case True
      then have "5 \<le> unat (m + 1)" by (simp add: failure_threshold_def word_le_nat_alt)
      with um more.prems(2) have "unat (m + 1) = 5" by simp
      with cnt nos have "five_failures ((h @ [e]) @ es)"
        unfolding five_failures_def by (intro exI [of _ "[]"] exI [of _ "h @ [e]"] exI [of _ es]) simp
      then show ?thesis by simp
    next
      case False
      then have "d = (Closed (m + 1), k')" "unat (m + 1) < 5"
        using s' d by (auto simp: Let_def failure_threshold_def word_le_nat_alt)
      from more.IH [OF this nos cnt] more.prems(5) Failed show ?thesis by simp
    qed
  next
    case (Cancelled x)
    with step have "s' = Closed m" by (auto elim: breaker_cancelled)
    then show ?thesis using keep Cancelled d by auto
  qed
qed

text \<open>A half-open breaker that gets no report stays half-open and rejects everything.\<close>

lemma half_open_stuck:
  assumes "breaker_run c es c'" and "fst c = HalfOpen"
    and "\<forall>t. Succeeded t \<notin> set es \<and> Failed t \<notin> set es"
  shows "fst c' = HalfOpen \<and> admissions es = []"
  using assms
proof (induction c es c' rule: breaker_run.induct)
  case (none c)
  then show ?case by simp
next
  case (more c e d es c')
  obtain s k where c: "c = (s, k)" by force
  obtain s' k' where d: "d = (s', k')" by force
  have "s' = HalfOpen \<and> admissions (e # es) = admissions es"
    using more.hyps(1) more.prems unfolding c d
    by (cases e) (auto elim!: breaker_ask breaker_cancelled)
  with more c d show ?case by auto
qed

section \<open>Properties\<close>

text \<open>However the requests in flight interleave, the breaker leaves the closed state, or
  rejects a request at all, only after five failures with no success between them.\<close>

theorem breaker_opens_after_five_failures:
  assumes "breaker_run (breaker_init, 0) es c"
    and "(\<exists>t. Ask t False \<in> set es) \<or> (\<forall>n. fst c \<noteq> Closed n)"
  shows "\<exists>pre mid post. es = pre @ mid @ post \<and> (\<forall>t. Succeeded t \<notin> set mid) \<and>
    length (filter (\<lambda>e. \<exists>t. e = Failed t) mid) = 5"
proof -
  have "five_failures ([] @ es)"
    by (rule opens_after_five [OF assms(1), where m = 0 and k = 0])
      (use assms(2) in \<open>auto simp: breaker_init_def\<close>)
  then show ?thesis by (simp add: five_failures_def)
qed

abbreviation demo_failures :: "breaker_event list" where
  "demo_failures \<equiv> [Ask 0 True, Failed 1, Ask 2 True, Failed 3, Ask 4 True, Failed 5, Ask 6 True,
     Failed 7, Ask 8 True, Failed 9, Ask 10 False]"

lemma ask_step: "allow_request t s = (ok, s') \<Longrightarrow> k' = (if ok then Suc k else k) \<Longrightarrow>
    breaker_step (s, k) (Ask t ok) (s', k')"
  using breaker_step.admit breaker_step.reject by (cases ok) auto

lemma failed_step: "s' = on_failure t s \<Longrightarrow> breaker_step (s, Suc k) (Failed t) (s', k)"
  using breaker_step.failure by simp

lemma demo_failures_run: "breaker_run (breaker_init, 0) demo_failures (Open 9, 0)"
proof -
  have pair: "breaker_run (Closed n, 0) (Ask t True # Failed u # es) c"
    if "breaker_run (on_failure u (Closed n), 0) es c" for n t u es c
    by (rule breaker_run.more [OF ask_step [where s' = "Closed n" and k' = "Suc 0"]],
        simp, simp, rule breaker_run.more [OF failed_step])
      (use that in simp_all)
  have "breaker_run (Open 9, 0) [Ask 10 False] (Open 9, 0)"
    by (rule breaker_run.more [OF ask_step [where s' = "Open 9" and k' = 0]])
      (simp_all add: open_duration_def breaker_run.none)
  then show ?thesis
    unfolding breaker_init_def
    by (intro pair) (simp add: Let_def failure_threshold_def word_le_nat_alt, intro pair,
      simp add: Let_def failure_threshold_def, intro pair,
      simp add: Let_def failure_threshold_def, intro pair,
      simp add: Let_def failure_threshold_def, intro pair,
      simp add: Let_def failure_threshold_def)
qed

theorem breaker_opens_after_five_failures_witness:
  "\<exists>pre mid post. demo_failures = pre @ mid @ post \<and> (\<forall>t. Succeeded t \<notin> set mid) \<and>
    length (filter (\<lambda>e. \<exists>t. e = Failed t) mid) = 5"
  by (rule breaker_opens_after_five_failures [OF demo_failures_run]) simp

text \<open>While the upstream does not recover the breaker lets through at most one request in
  thirty seconds: in any run from an open state without a success, with late reports and
  cancellations in any order, the first admission comes at least thirty seconds after the
  opening and any two admissions are at least thirty seconds apart.\<close>

theorem breaker_spaces_probes:
  assumes "breaker_run (Open u, k) es c'" and "timed_from u es" and "\<forall>t. Succeeded t \<notin> set es"
  shows "spaced (30 * 10 ^ 9) (u # admissions es)"
  using admissions_spaced [OF assms(1,2), of u] assms(3)
  by (auto simp: open_duration_def)

theorem breaker_spaces_probes_witness:
  "spaced (30 * 10 ^ 9) (0 # admissions [Ask (30 * 10 ^ 9) True, Ask (31 * 10 ^ 9) False])"
proof -
  have "breaker_run (Open 0, 0) [Ask (30 * 10 ^ 9) True, Ask (31 * 10 ^ 9) False] (HalfOpen, 1)"
    by (rule breaker_run.more [OF ask_step [where s' = HalfOpen and k' = 1]], simp add: open_duration_def,
        simp, rule breaker_run.more [OF ask_step [where s' = HalfOpen and k' = 1]])
      (simp_all add: breaker_run.none)
  then show ?thesis
    by (rule breaker_spaces_probes) auto
qed

text \<open>A probe that never reports locks the breaker: once it is half-open, as long as no request
  reports a success or a failure (the probe's client went away, so its future was dropped), every
  request is rejected, for ever.\<close>

theorem lost_probe_locks_breaker:
  assumes "breaker_run (HalfOpen, k) es c'" and "\<forall>t. Succeeded t \<notin> set es \<and> Failed t \<notin> set es"
  shows "fst c' = HalfOpen \<and> (\<forall>t ok. Ask t ok \<in> set es \<longrightarrow> \<not> ok)"
proof -
  have n: "fst c' = HalfOpen" "admissions es = []"
    using half_open_stuck [OF assms(1) _ assms(2)] by auto
  have "\<not> ok" if "Ask t ok \<in> set es" for t ok
  proof
    assume ok
    with that have "Ask t True \<in> set es" by simp
    then have "t \<in> set (admissions es)"
      by (induction es rule: admissions.induct) auto
    with n(2) show False by simp
  qed
  with n(1) show ?thesis by blast
qed

theorem lost_probe_locks_breaker_witness:
  "fst (HalfOpen, 0::nat) = HalfOpen \<and> Ask (10 ^ 12) True \<notin> set [Cancelled 1, Ask (10 ^ 12) False]"
proof -
  have "breaker_run (HalfOpen, 1) [Cancelled 1, Ask (10 ^ 12) False] (HalfOpen, 0)"
    unfolding One_nat_def
    by (rule breaker_run.more [OF breaker_step.cancel],
        rule breaker_run.more [OF ask_step [where s' = HalfOpen and k' = 0]])
      (simp_all add: breaker_run.none)
  from lost_probe_locks_breaker [OF this] show ?thesis by auto
qed

end
