(* ===== verification/Gateway_Rate.thy ===== *)
theory Gateway_Rate
  imports Gateway_Http Redis
begin

text \<open>
  \<open>middleware/rate_limit.rs\<close> of \<open>services/kova-gateway\<close>: the tiers, the Lua script that counts in
  Redis, and the middleware.  Times are seconds since the epoch; the gateway's clock (which picks
  the window) and the one of Redis (which expires the keys) are taken to agree.  A call to Redis
  can fail before or after the script has run.
\<close>

section \<open>Tiers\<close>

datatype tier = TierAuth | TierStandard | TierPayment

fun tier_name :: "tier \<Rightarrow> string" where
  "tier_name TierAuth = ''auth''"
| "tier_name TierStandard = ''standard''"
| "tier_name TierPayment = ''payment''"

fun tier_limit :: "tier \<Rightarrow> int" where
  "tier_limit TierAuth = 10"
| "tier_limit TierStandard = 100"
| "tier_limit TierPayment = 30"

definition tier_window_secs :: "tier \<Rightarrow> nat" where
  "tier_window_secs t = 60"

record rate_limit_config =
  rl_auth_prefix :: string
  rl_payment_prefix :: string

definition rate_limit_default :: rate_limit_config where
  "rate_limit_default = \<lparr>rl_auth_prefix = ''/api/v1/kova/auth/otp'',
     rl_payment_prefix = ''/api/v1/kova/payments''\<rparr>"

definition tier_for :: "rate_limit_config \<Rightarrow> string \<Rightarrow> tier" where
  "tier_for cfg path =
     (if starts_with path (rl_auth_prefix cfg) then TierAuth
      else if starts_with path (rl_payment_prefix cfg) then TierPayment
      else TierStandard)"

section \<open>Counting\<close>

text \<open>The Lua script; \<open>None\<close> is an error of INCR, which leaves the store as it is.\<close>

definition lua_sliding_window :: "nat \<Rightarrow> string \<Rightarrow> int \<Rightarrow> nat \<Rightarrow> redis \<Rightarrow> (int \<times> redis) option" where
  "lua_sliding_window now key limit ttl R =
     (case redis_incr now key R of
        None \<Rightarrow> None
      | Some (count, R1) \<Rightarrow>
        let R2 = (if count = 1 then redis_expire now key ttl R1 else R1)
        in Some (if limit < count then 0 else 1, R2))"

definition rate_key :: "tier \<Rightarrow> string \<Rightarrow> nat \<Rightarrow> string" where
  "rate_key t ident minute =
     ''kova:ratelimit:'' @ tier_name t @ '':'' @ ident @ '':'' @ show_nat minute"

text \<open>The decision for one request: any error of Redis counts as allowed.\<close>

definition rate_decide ::
  "redis_fault \<Rightarrow> nat \<Rightarrow> tier \<Rightarrow> string \<Rightarrow> redis \<Rightarrow> bool \<times> redis" where
  "rate_decide fault now t ident R =
     (if fault = RedisDown then (True, R)
      else case lua_sliding_window now (rate_key t ident (now div 60)) (tier_limit t)
                  (tier_window_secs t + 1) R of
          None \<Rightarrow> (True, R)
        | Some (v, R') \<Rightarrow> (fault = RedisLost \<or> v \<noteq> 0, R'))"

section \<open>The middleware\<close>

definition req_header :: "string \<Rightarrow> http_req \<Rightarrow> string option" where
  "req_header h req = map_of (hq_headers req) h"

text \<open>\<open>v.split(',').next()\<close> and \<open>trim\<close>.\<close>

definition extract_client_ip :: "http_req \<Rightarrow> string" where
  "extract_client_ip req =
     (case req_header ''x-forwarded-for'' req of
        None \<Rightarrow> ''unknown''
      | Some v \<Rightarrow> trim (takeWhile (\<lambda>c. c \<noteq> CHR '','') v))"

definition rate_identifier :: "(uuid \<Rightarrow> string) \<Rightarrow> tier \<Rightarrow> http_req \<Rightarrow> string" where
  "rate_identifier show_uuid t req =
     (if t = TierAuth then extract_client_ip req
      else case hq_user req of
          Some u \<Rightarrow> show_uuid (au_user_id u)
        | None \<Rightarrow> extract_client_ip req)"

definition rate_limit_layer ::
  "(uuid \<Rightarrow> string) \<Rightarrow> rate_limit_config \<Rightarrow> ('w \<Rightarrow> redis) \<Rightarrow> (redis \<Rightarrow> 'w \<Rightarrow> 'w) \<Rightarrow> redis_fault \<Rightarrow> nat \<Rightarrow> nat
    \<Rightarrow> 'w service \<Rightarrow> 'w service" where
  "rate_limit_layer show_uuid cfg get put fault now now2 inner req w =
     (let t = tier_for cfg (hq_path req)
      in if hq_path req = ''/api/v1/kova/health'' then inner req w
         else case rate_decide fault now t (rate_identifier show_uuid t req) (get w) of
             (allowed, R') \<Rightarrow>
               if \<not> allowed then (api_too_many_requests (60 - now2 mod 60), put R' w)
               else inner req (put R' w))"

interpretation rate_mw: middleware_layer "rate_limit_layer show_uuid cfg get put fault now now2" "{429}"
  for show_uuid cfg get put fault now now2
proof unfold_locales
  fix inner req w resp w'
  assume a: "rate_limit_layer show_uuid cfg get put fault now now2 inner req w = (resp, w')"
  then have "hs_status resp = 429 \<or> (\<exists>v. inner req v = (resp, w'))"
    unfolding rate_limit_layer_def Let_def by (auto split: if_splits prod.splits)
  then show "hs_status resp \<in> {429} \<or>
      (\<exists>req' v r v'. same_target req req' \<and> inner req' v = (r, v') \<and> hs_status resp = hs_status r)"
    using same_target_refl by blast
qed

section \<open>Keys\<close>

lemma digit_not_colon: "c \<in> set (show_nat n) \<Longrightarrow> c \<noteq> CHR '':''"
  using show_nat_digits [of n] by (auto simp: is_ascii_digit_def)

text \<open>The last colon of a key comes before its minute, and the third one before the identifier,
  whatever the identifier holds.\<close>

lemma last_colon_unique:
  assumes "xs @ CHR '':'' # u = ys @ CHR '':'' # v" and "CHR '':'' \<notin> set u" and "CHR '':'' \<notin> set v"
  shows "xs = ys \<and> u = v"
proof -
  have "takeWhile (\<lambda>c. c \<noteq> CHR '':'') (rev (xs @ CHR '':'' # u)) = rev u"
      "takeWhile (\<lambda>c. c \<noteq> CHR '':'') (rev (ys @ CHR '':'' # v)) = rev v"
    using assms(2,3) by (auto simp: takeWhile_append2 takeWhile_tail intro!: takeWhile_append2 [THEN trans])
  with assms(1) have "rev u = rev v" by metis
  with assms(1) show ?thesis by simp
qed

lemma rate_key_inject: "rate_key t i m = rate_key t' i' m' \<longleftrightarrow> t = t' \<and> i = i' \<and> m = m'"
proof
  assume eq: "rate_key t i m = rate_key t' i' m'"
  let ?p = "\<lambda>t i. ''kova:ratelimit:'' @ tier_name t @ '':'' @ i"
  have "?p t i @ CHR '':'' # show_nat m = ?p t' i' @ CHR '':'' # show_nat m'"
    using eq by (simp add: rate_key_def)
  then have p: "?p t i = ?p t' i'" and m: "show_nat m = show_nat m'"
    using last_colon_unique digit_not_colon by blast+
  from p have "t = t' \<and> i = i'"
    by (cases t; cases t') auto
  with m show "t = t' \<and> i = i' \<and> m = m'" by simp
qed simp

section \<open>Counting in one window\<close>

type_synonym arrival = "nat \<times> tier \<times> string"

fun rate_run :: "arrival list \<Rightarrow> redis \<Rightarrow> bool list \<times> redis" where
  "rate_run [] R = ([], R)"
| "rate_run ((now, t, i) # as) R =
     (case rate_decide RedisFine now t i R of
        (ok, R') \<Rightarrow> (case rate_run as R' of (oks, R'') \<Rightarrow> (ok # oks, R'')))"

fun in_slot :: "tier \<Rightarrow> string \<Rightarrow> nat \<Rightarrow> arrival \<Rightarrow> bool" where
  "in_slot t i m (now, t', i') \<longleftrightarrow> t' = t \<and> i' = i \<and> now div 60 = m"

fun arrivals_from :: "nat \<Rightarrow> arrival list \<Rightarrow> bool" where
  "arrivals_from now [] = True"
| "arrivals_from now ((t, a) # as) \<longleftrightarrow> now \<le> t \<and> arrivals_from t as"

text \<open>The key of the slot has counted to \<open>c\<close>, and outlives the slot's minute.\<close>

definition slot_count :: "nat \<Rightarrow> tier \<Rightarrow> string \<Rightarrow> nat \<Rightarrow> redis \<Rightarrow> int \<Rightarrow> bool" where
  "slot_count now t i m R c \<longleftrightarrow>
     (c = 0 \<and> redis_live now (rate_key t i m) R = None) \<or>
     (0 < c \<and> (\<exists>e. R (rate_key t i m) = Some \<lparr>rc_val = RInt c, rc_exp = Some e\<rparr> \<and> 60 * (m + 1) < e))"

lemma slot_count_later:
  "slot_count now t i m R c \<Longrightarrow> now \<le> now' \<Longrightarrow> slot_count now' t i m R c"
  unfolding slot_count_def redis_live_def cell_alive_def
  by (auto split: option.splits if_splits)

lemma slot_count_other:
  assumes "slot_count now t i m R c" and "rate_decide RedisFine now' t' i' R = (ok, R')"
    and "\<not> in_slot t i m (now', t', i')"
  shows "slot_count now t i m R' c"
proof -
  have "rate_key t i m \<noteq> rate_key t' i' (now' div 60)"
    using assms(3) by (auto simp: rate_key_inject)
  then have "R' (rate_key t i m) = R (rate_key t i m)"
    using assms(2)
    by (auto simp: rate_decide_def lua_sliding_window_def Let_def redis_incr_other redis_expire_other
        split: option.splits if_splits)
  with assms(1) show ?thesis
    by (simp add: slot_count_def redis_live_def)
qed

lemma slot_count_hit:
  assumes "slot_count now t i m R c" and "now div 60 = m"
    and "rate_decide RedisFine now t i R = (ok, R')"
  shows "slot_count now t i m R' (c + 1) \<and> (ok \<longleftrightarrow> c + 1 \<le> tier_limit t)"
proof -
  have now: "now < 60 * (m + 1)" "60 * m \<le> now"
    using assms(2) by auto
  show ?thesis
  proof (cases "c = 0")
    case True
    with assms(1) have l: "redis_live now (rate_key t i m) R = None"
      by (auto simp: slot_count_def)
    then show ?thesis
      using assms(2,3) True now
      by (auto simp: rate_decide_def lua_sliding_window_def redis_incr_def redis_expire_def
          slot_count_def redis_live_def cell_alive_def tier_window_secs_def Let_def split: if_splits)
  next
    case False
    with assms(1) obtain e where e: "0 < c" "60 * (m + 1) < e"
        "R (rate_key t i m) = Some \<lparr>rc_val = RInt c, rc_exp = Some e\<rparr>"
      by (auto simp: slot_count_def)
    then have "redis_live now (rate_key t i m) R = Some \<lparr>rc_val = RInt c, rc_exp = Some e\<rparr>"
      using now by (simp add: redis_live_def cell_alive_def)
    then show ?thesis
      using assms(2,3) e
      by (auto simp: rate_decide_def lua_sliding_window_def redis_incr_def slot_count_def Let_def
          split: if_splits)
  qed
qed

text \<open>The decisions for the arrivals of one slot.\<close>

definition slot_decisions :: "tier \<Rightarrow> string \<Rightarrow> nat \<Rightarrow> arrival list \<Rightarrow> bool list \<Rightarrow> bool list" where
  "slot_decisions t i m as oks = map snd (filter (\<lambda>p. in_slot t i m (fst p)) (zip as oks))"

lemma rate_run_slot:
  assumes "arrivals_from now as" and "slot_count now t i m R c"
    and "rate_run as R = (oks, R')"
  shows "slot_decisions t i m as oks =
      map (\<lambda>n. c + int n < tier_limit t) [0 ..< length (filter (in_slot t i m) as)] \<and>
    length oks = length as"
  using assms
proof (induction as arbitrary: now R c oks)
  case Nil
  then show ?case by (simp add: slot_decisions_def)
next
  case (Cons a as)
  obtain t1 tier1 id1 where a: "a = (t1, tier1, id1)" by (metis prod_cases3)
  obtain ok R1 where d: "rate_decide RedisFine t1 tier1 id1 R = (ok, R1)" by force
  obtain oks1 where oks: "rate_run as R1 = (oks1, R')" "oks = ok # oks1"
    using Cons.prems(3) a d by (auto split: prod.splits)
  have le: "now \<le> t1" "arrivals_from t1 as" using Cons.prems(1) a by auto
  have sc: "slot_count t1 t i m R c" using slot_count_later [OF Cons.prems(2) le(1)] .
  show ?case
  proof (cases "in_slot t i m a")
    case False
    then have "slot_count t1 t i m R1 c" using slot_count_other [OF sc d] a by simp
    from Cons.IH [OF le(2) this oks(1)] False oks(2) show ?thesis
      by (simp add: slot_decisions_def)
  next
    case True
    then have eq: "tier1 = t" "id1 = i" "t1 div 60 = m" using a by auto
    from slot_count_hit [OF sc eq(3)] d eq have hit: "slot_count t1 t i m R1 (c + 1)"
        "ok \<longleftrightarrow> c < tier_limit t" by auto
    have "map (\<lambda>n. c + int n < tier_limit t) [0 ..< Suc k] =
        (c < tier_limit t) # map (\<lambda>n. c + 1 + int n < tier_limit t) [0 ..< k]" for k
      by (simp add: map_upt_Suc ac_simps del: upt_Suc)
    with Cons.IH [OF le(2) hit(1) oks(1)] True oks(2) hit(2) show ?thesis
      by (simp add: slot_decisions_def del: upt_Suc)
  qed
qed

section \<open>Properties\<close>

text \<open>C27: With Redis up, the limiter admits exactly the first \<open>limit\<close> requests of an identifier and
  tier in each minute of the clock and refuses the rest, whatever other identifiers, tiers and
  minutes do in between: 10, 100 or 30 for the three tiers.\<close>

theorem limiter_admits_exactly_limit:
  assumes "arrivals_from 0 as" and "rate_run as redis_empty = (oks, R')"
  shows "slot_decisions t i m as oks =
    map (\<lambda>n. int n < tier_limit t) [0 ..< length (filter (in_slot t i m) as)]"
  using rate_run_slot [OF assms(1) _ assms(2), of t i m 0]
  by (simp add: slot_count_def redis_live_def redis_empty_def)

theorem limiter_admits_exactly_limit_witness:
  "slot_decisions TierAuth ''1.2.3.4'' 0 [(5, TierAuth, ''1.2.3.4''), (7, TierStandard, ''u'')]
     (fst (rate_run [(5, TierAuth, ''1.2.3.4''), (7, TierStandard, ''u'')] redis_empty)) = [True]"
proof -
  let ?as = "[(5, TierAuth, ''1.2.3.4''), (7, TierStandard, ''u'')]"
  obtain oks R' where r: "rate_run ?as redis_empty = (oks, R')" by force
  from limiter_admits_exactly_limit [OF _ r, of TierAuth "''1.2.3.4''" 0] r show ?thesis by simp
qed

text \<open>The window is fixed, not sliding: an identifier can have twice the limit admitted within
  two seconds, the limit in the last second of a minute and the limit again in the next one.\<close>

theorem limiter_window_is_fixed:
  "fst (rate_run (replicate (nat (tier_limit t)) (60 * m + 59, t, i) @
                  replicate (nat (tier_limit t)) (60 * m + 60, t, i)) redis_empty) =
   replicate (2 * nat (tier_limit t)) True"
proof -
  let ?L = "nat (tier_limit t)"
  let ?xs = "replicate ?L (60 * m + 59, t, i)" and ?ys = "replicate ?L (60 * m + 60, t, i)"
  have L: "int ?L = tier_limit t" by (cases t) auto
  obtain oks R where r: "rate_run (?xs @ ?ys) redis_empty = (oks, R)" by force
  have from0: "arrivals_from now (replicate n (b, x)) \<longleftrightarrow> n = 0 \<or> now \<le> b" for now n b and x :: "tier \<times> string"
    by (induction n arbitrary: now) auto
  have ap: "arrivals_from now (replicate n (b, x) @ as) \<longleftrightarrow>
      (if n = 0 then arrivals_from now as else now \<le> b \<and> arrivals_from b as)" for now n b x as
    by (induction n arbitrary: now) auto
  have ord: "arrivals_from 0 (?xs @ ?ys)"
    by (simp add: ap from0)
  have sc: "slot_count 0 t i k redis_empty 0" for k
    by (simp add: slot_count_def redis_live_def redis_empty_def)
  have len: "length oks = length ?xs + length ?ys"
    using rate_run_slot [OF ord sc r] by simp
  define o1 o2 where "o1 = take ?L oks" and "o2 = drop ?L oks"
  have o: "oks = o1 @ o2" "length o1 = ?L" "length o2 = ?L"
    using len by (auto simp: o1_def o2_def)
  have z: "zip (?xs @ ?ys) oks = zip ?xs o1 @ zip ?ys o2"
    using o by simp
  have slot: "slot_decisions t i k (?xs @ ?ys) oks = replicate ?L True"
    if "length (filter (in_slot t i k) (?xs @ ?ys)) = ?L" for k
  proof -
    have "slot_decisions t i k (?xs @ ?ys) oks = map (\<lambda>n. int n < tier_limit t) [0 ..< ?L]"
      using rate_run_slot [OF ord sc r, of k] that by simp
    also have "\<dots> = map (\<lambda>n. True) [0 ..< ?L]"
      using L by (intro map_cong) auto
    finally show ?thesis by (simp add: map_replicate_const)
  qed
  have f: "(60 * m + 59) div 60 = m" "(60 * m + 60) div 60 = m + 1" by auto
  have zs: "map snd (filter (\<lambda>p. in_slot t i k (fst p)) (zip (replicate n (b, t, i)) qs)) =
      (if b div 60 = k then take n qs else [])" for k n b qs
  proof (induction n arbitrary: qs)
    case (Suc n)
    then show ?case by (cases qs) auto
  qed simp
  have "o1 = replicate ?L True"
    using slot [of m] f o by (simp add: slot_decisions_def z zs)
  moreover have "o2 = replicate ?L True"
    using slot [of "m + 1"] f o by (simp add: slot_decisions_def z zs)
  ultimately show ?thesis
    using r o(1) by (simp add: mult_2 replicate_add)
qed

end
