(* ===== verification/Gateway_Router.thy ===== *)
theory Gateway_Router
  imports Gateway_Auth Gateway_Breaker Gateway_Rate
begin

text \<open>
  \<open>router.rs\<close>, \<open>middleware/tracing.rs\<close> and \<open>main.rs\<close> of \<open>services/kova-gateway\<close>: the route table,
  the request-id middleware, and the gateway as the stack of its four layers.  A layer added
  later wraps those before it, so a request meets the circuit breaker first, then the
  authentication, the rate limiter, the tracing and the routes.

  How \<open>axum\<close> matches a path against a pattern and a method against a route, and which strings
  \<open>http\<close> accepts as a header value, are parameters.
\<close>

record gateway_env =
  ge_jwt :: jwt_env
  ge_keys :: jwt_key_set
  ge_uuid_show :: "uuid \<Rightarrow> string"
  ge_hv_ok :: "string \<Rightarrow> bool"
  ge_path_match :: "string \<Rightarrow> string \<Rightarrow> bool"
  ge_method_match :: "string \<Rightarrow> string \<Rightarrow> bool"

record gateway_io =
  gi_ask :: int
  gi_report :: int
  gi_redis :: redis_fault
  gi_now :: nat
  gi_now2 :: nat
  gi_fresh_id :: uuid

record gateway_world =
  gw_breaker :: breaker
  gw_redis :: redis

section \<open>Tracing\<close>

definition header_request_id :: string where
  "header_request_id = ''x-kova-request-id''"

definition insert_header :: "string \<Rightarrow> string \<Rightarrow> http_resp \<Rightarrow> http_resp" where
  "insert_header h v r = r\<lparr>hs_headers := (h, v) # filter (\<lambda>p. fst p \<noteq> h) (hs_headers r)\<rparr>"

definition request_id_of :: "gateway_env \<Rightarrow> uuid \<Rightarrow> http_req \<Rightarrow> string" where
  "request_id_of env fresh req =
     (case map_of (hq_headers req) header_request_id of
        Some v \<Rightarrow> v
      | None \<Rightarrow> ge_uuid_show env fresh)"

definition tracing_layer :: "gateway_env \<Rightarrow> uuid \<Rightarrow> 'w service \<Rightarrow> 'w service" where
  "tracing_layer env fresh inner req w =
     (let request_id = request_id_of env fresh req
      in case inner req w of
           (resp, w') \<Rightarrow>
             (if ge_hv_ok env request_id then insert_header header_request_id request_id resp else resp,
              w'))"

interpretation tracing_mw: middleware_layer "tracing_layer env fresh" "{}" for env fresh
proof unfold_locales
  fix inner req w resp w'
  assume a: "tracing_layer env fresh inner req w = (resp, w')"
  obtain r v where r: "inner req w = (r, v)" by force
  with a have "hs_status resp = hs_status r"
    by (auto simp: tracing_layer_def Let_def insert_header_def)
  with r show "hs_status resp \<in> {} \<or>
      (\<exists>req' v r v'. same_target req req' \<and> inner req' v = (r, v') \<and> hs_status resp = hs_status r)"
    using same_target_refl by blast
qed

section \<open>Routes\<close>

datatype route_handler = NotImplemented | HealthCheck

definition route_table :: "(string \<times> string \<times> route_handler) list" where
  "route_table =
     [(''/auth/register'', ''POST'', NotImplemented),
      (''/auth/otp/request'', ''POST'', NotImplemented),
      (''/auth/otp/verify'', ''POST'', NotImplemented),
      (''/auth/token/refresh'', ''POST'', NotImplemented),
      (''/auth/sessions/{id}'', ''DELETE'', NotImplemented),
      (''/auth/biometric/challenge'', ''POST'', NotImplemented),
      (''/auth/biometric/verify'', ''POST'', NotImplemented),
      (''/accounts'', ''POST'', NotImplemented),
      (''/accounts/{id}'', ''GET'', NotImplemented),
      (''/accounts/{id}/balance'', ''GET'', NotImplemented),
      (''/accounts/{id}/statement'', ''GET'', NotImplemented),
      (''/payments'', ''POST'', NotImplemented),
      (''/payments/{id}'', ''GET'', NotImplemented),
      (''/cards'', ''POST'', NotImplemented),
      (''/cards/{id}'', ''GET'', NotImplemented),
      (''/cards/{id}/freeze'', ''POST'', NotImplemented),
      (''/cards/{id}/freeze'', ''DELETE'', NotImplemented),
      (''/cards/{id}/transactions'', ''GET'', NotImplemented),
      (''/cards/{id}/spend-controls'', ''PUT'', NotImplemented),
      (''/kyc/submit'', ''POST'', NotImplemented),
      (''/kyc/status'', ''GET'', NotImplemented),
      (''/fx/quote'', ''POST'', NotImplemented),
      (''/fx/quotes/{id}'', ''GET'', NotImplemented),
      (''/health'', ''GET'', HealthCheck)]"

definition health_check :: http_resp where
  "health_check = \<lparr>hs_status = 200, hs_headers = [],
     hs_body = JObj [(''status'', JStr ''ok''), (''service'', JStr ''kova-gateway'')]\<rparr>"

definition empty_resp :: "nat \<Rightarrow> http_resp" where
  "empty_resp s = \<lparr>hs_status = s, hs_headers = [], hs_body = JNull\<rparr>"

fun run_handler :: "route_handler \<Rightarrow> http_resp" where
  "run_handler NotImplemented = api_not_implemented"
| "run_handler HealthCheck = health_check"

text \<open>\<open>nest("/api/v1/kova", routes())\<close>: no pattern, 404; a pattern but not its method, 405.\<close>

definition routes :: "gateway_env \<Rightarrow> 'w service" where
  "routes env req w =
     (case strip_prefix (hq_path req) ''/api/v1/kova'' of
        None \<Rightarrow> (empty_resp 404, w)
      | Some path \<Rightarrow>
        (case filter (\<lambda>r. ge_path_match env (fst r) path) route_table of
           [] \<Rightarrow> (empty_resp 404, w)
         | rs \<Rightarrow>
           (case find (\<lambda>r. ge_method_match env (fst (snd r)) (hq_method req)) rs of
              None \<Rightarrow> (empty_resp 405, w)
            | Some r \<Rightarrow> (run_handler (snd (snd r)), w))))"

section \<open>The gateway\<close>

text \<open>\<open>build\<close>, around any inner service; the gateway itself has \<open>routes\<close> inside.\<close>

definition gateway_stack ::
  "gateway_env \<Rightarrow> gateway_io \<Rightarrow> gateway_world service \<Rightarrow> gateway_world service" where
  "gateway_stack env io inner =
     breaker_layer ''kova-gateway'' gw_breaker (\<lambda>b w. w\<lparr>gw_breaker := b\<rparr>) (gi_ask io) (gi_report io)
       (auth_layer (ge_jwt env) (ge_keys env)
         (rate_limit_layer (ge_uuid_show env) rate_limit_default gw_redis
            (\<lambda>R w. w\<lparr>gw_redis := R\<rparr>) (gi_redis io) (gi_now io) (gi_now2 io)
           (tracing_layer env (gi_fresh_id io) inner)))"

definition gateway :: "gateway_env \<Rightarrow> gateway_io \<Rightarrow> gateway_world service" where
  "gateway env io = gateway_stack env io (routes env)"

text \<open>Requests one after another.\<close>

fun gateway_run ::
  "gateway_env \<Rightarrow> (gateway_io \<times> http_req) list \<Rightarrow> gateway_world \<Rightarrow> http_resp list \<times> gateway_world" where
  "gateway_run env [] w = ([], w)"
| "gateway_run env ((io, req) # calls) w =
     (case gateway env io req w of
        (r, w') \<Rightarrow> (case gateway_run env calls w' of (rs, w'') \<Rightarrow> (r # rs, w'')))"

section \<open>Lemmas\<close>

lemma run_handler_status: "hs_status (run_handler h) \<in> {200, 501}"
  by (cases h) (simp_all add: health_check_def)

lemma routes_status: "hs_status (fst (routes env req w)) \<in> {200, 404, 405, 501}"
proof -
  have "fst (routes env req w) = empty_resp 404 \<or> fst (routes env req w) = empty_resp 405 \<or>
      (\<exists>h. fst (routes env req w) = run_handler h)"
    unfolding routes_def by (auto split: option.split list.split)
  moreover have "hs_status (run_handler h) \<in> {200, 404, 405, 501}" for h
    using run_handler_status [of h] by blast
  ultimately show ?thesis
    by (elim disjE exE) (simp_all add: empty_resp_def)
qed

text \<open>A part of the world that a service and the layers around it leave alone.\<close>

definition keeps :: "('w \<Rightarrow> 'a) \<Rightarrow> 'w service \<Rightarrow> bool" where
  "keeps f svc \<longleftrightarrow> (\<forall>req w. f (snd (svc req w)) = f w)"

lemma keeps_routes: "keeps f (routes env)"
  by (auto simp: keeps_def routes_def split: option.splits list.splits)

lemma keeps_tracing: "keeps f inner \<Longrightarrow> keeps f (tracing_layer env fresh inner)"
  by (auto simp: keeps_def tracing_layer_def Let_def split: prod.splits) (metis snd_conv)+

lemma keeps_rate:
  assumes "keeps f inner" and "\<And>R w. f (put R w) = f w"
  shows "keeps f (rate_limit_layer su cfg get put fault n n2 inner)"
  using assms by (auto simp: keeps_def rate_limit_layer_def Let_def split: prod.splits)

lemma keeps_auth: "keeps f inner \<Longrightarrow> keeps f (auth_layer je ks inner)"
  by (auto simp: keeps_def auth_layer_def split: sum.splits)

lemma gateway_breaker:
  assumes "gateway env io req w = (r, w')"
  shows "case allow_request (gi_ask io) (gw_breaker w) of
      (ok, b) \<Rightarrow> if ok
        then gw_breaker w' = (if is_server_error (hs_status r) then on_failure (gi_report io) b
                              else on_success b)
        else r = api_service_unavailable ''kova-gateway'' \<and> gw_breaker w' = b"
proof -
  let ?in = "auth_layer (ge_jwt env) (ge_keys env)
         (rate_limit_layer (ge_uuid_show env) rate_limit_default gw_redis
            (\<lambda>R w. w\<lparr>gw_redis := R\<rparr>) (gi_redis io) (gi_now io) (gi_now2 io)
           (tracing_layer env (gi_fresh_id io) (routes env)))"
  have k: "keeps gw_breaker ?in"
    by (intro keeps_auth keeps_rate keeps_tracing keeps_routes) simp
  obtain ok b where b: "allow_request (gi_ask io) (gw_breaker w) = (ok, b)" by force
  obtain q v where q: "?in req (w\<lparr>gw_breaker := b\<rparr>) = (q, v)" by force
  have "gw_breaker v = b"
    using k q unfolding keeps_def by (metis gateway_world.select_convs(1) gateway_world.surjective
        gateway_world.update_convs(1) snd_conv)
  then show ?thesis
    using assms b q by (cases ok) (auto simp: gateway_def gateway_stack_def breaker_layer_def)
qed

text \<open>The request id: on every answer of the routes, on none of the answers of the other layers.\<close>

definition tagged :: "gateway_env \<Rightarrow> uuid \<Rightarrow> 'w service \<Rightarrow> bool" where
  "tagged env fresh svc \<longleftrightarrow> (\<forall>req w. ge_hv_ok env (request_id_of env fresh req) \<longrightarrow>
     map_of (hs_headers (fst (svc req w))) header_request_id =
       (if hs_status (fst (svc req w)) \<in> {401, 429, 503} then None
        else Some (request_id_of env fresh req)))"

lemma request_id_of_user [simp]: "request_id_of env fresh (req\<lparr>hq_user := u\<rparr>) = request_id_of env fresh req"
  by (simp add: request_id_of_def)

lemma tagged_tracing: "tagged env fresh (tracing_layer env fresh (routes env))"
proof -
  have "hs_status (fst (routes env req w)) \<notin> {401, 429, 503}" for req and w :: 'a
    using routes_status [of env req w] by auto
  then show ?thesis
    by (simp add: tagged_def tracing_layer_def insert_header_def Let_def split_beta)
qed

lemma tagged_rate: "tagged env fresh inner \<Longrightarrow> tagged env fresh (rate_limit_layer su cfg get put f n n2 inner)"
  by (simp add: tagged_def rate_limit_layer_def Let_def split_beta api_too_many_requests_def
      api_error_def header_request_id_def)

lemma auth_error_untagged [simp]: "hs_headers (auth_error_response e) = []"
  by (cases e) (simp_all add: api_unauthorized_def api_error_def)

lemma tagged_auth: "tagged env fresh inner \<Longrightarrow> tagged env fresh (auth_layer je ks inner)"
  by (simp add: tagged_def auth_layer_def split: sum.split)

lemma tagged_breaker: "tagged env fresh inner \<Longrightarrow> tagged env fresh (breaker_layer n get put t1 t2 inner)"
  by (simp add: tagged_def breaker_layer_def split_beta api_service_unavailable_def api_error_def
      split: bool.split)

lemma gateway_run_append:
  "gateway_run env (xs @ ys) w =
     (case gateway_run env xs w of (rs, v) \<Rightarrow>
       (case gateway_run env ys v of (qs, v') \<Rightarrow> (rs @ qs, v')))"
  by (induction xs arbitrary: w) (auto split: prod.splits)

text \<open>After \<open>n < 5\<close> requests answered with a server error a fresh breaker has counted \<open>n\<close>.\<close>

lemma gateway_run_failures:
  assumes "gateway_run env calls w = (rs, w')" and "gw_breaker w = Closed m"
    and "unat m + length calls < 5" and "\<forall>r \<in> set rs. is_server_error (hs_status r)"
  shows "gw_breaker w' = Closed (m + of_nat (length calls))"
  using assms
proof (induction calls arbitrary: w m rs)
  case Nil
  then show ?case by simp
next
  case (Cons c calls)
  obtain io req where c: "c = (io, req)" by force
  obtain r v where r: "gateway env io req w = (r, v)" by force
  obtain rs' where rs: "gateway_run env calls v = (rs', w')" "rs = r # rs'"
    using Cons.prems(1) c r by (auto split: prod.splits)
  have um: "unat (m + 1) = unat m + 1"
    using Cons.prems(3) unat_add_lem [of m 1] by simp
  then have "\<not> failure_threshold \<le> m + 1"
    using Cons.prems(3) by (simp add: failure_threshold_def word_le_nat_alt)
  then have v: "gw_breaker v = Closed (m + 1)"
    using gateway_breaker [OF r] Cons.prems(2,4) rs(2) by (simp add: Let_def)
  have "gw_breaker w' = Closed (m + 1 + of_nat (length calls))"
    by (rule Cons.IH [OF rs(1) v]) (use Cons.prems(3,4) um rs(2) in auto)
  then show ?case by (simp add: add.assoc)
qed

section \<open>Properties\<close>

text \<open>C23: A protected path is reached only with a valid token: for a path that is not exempt, unless
  the request carries a bearer token that is signed with RS256 under a key the gateway holds, is
  accepted by the verifier for the issuer \<open>kova-auth\<close> and names a user id, the answer is 401 (or
  503 from an open breaker) and does not depend on the service behind the gateway, which sees
  neither the request nor Redis a change.\<close>

theorem protected_path_needs_token:
  assumes "\<not> is_exempt (hq_path req)"
    and "\<nexists>s h key c uid. map_of (hq_headers req) ''authorization'' = Some (''Bearer '' @ s) \<and>
      je_header (ge_jwt env) (trim s) = Some h \<and> jh_alg h = RS256 \<and>
      key_set_get (ge_keys env) (jh_kid h) = Some key \<and>
      je_decode (ge_jwt env) key [''kova-auth''] (trim s) = Inr c \<and>
      je_parse_uuid (ge_jwt env) (kc_sub c) = Some uid"
    and "gateway_stack env io svc req w = (resp, w')"
  shows "hs_status resp \<in> {401, 503} \<and> gw_redis w' = gw_redis w \<and>
    gateway_stack env io other req w = (resp, w')"
proof -
  have no: "\<exists>e. authenticate (ge_jwt env) (ge_keys env) req = Inl e"
  proof (rule ccontr)
    assume "\<nexists>e. authenticate (ge_jwt env) (ge_keys env) req = Inl e"
    then obtain u where "authenticate (ge_jwt env) (ge_keys env) req = Inr u"
      by (cases "authenticate (ge_jwt env) (ge_keys env) req") auto
    with assms(2) show False
      unfolding authenticate_def rbind_Inr_iff validate_token_Inr bearer_token_Inr ok_or_Inr_iff by blast
  qed
  then obtain e where e: "authenticate (ge_jwt env) (ge_keys env) req = Inl e" by blast
  have inner: "auth_layer (ge_jwt env) (ge_keys env) svc' req v = (auth_error_response e, v)" for svc' v
    using assms(1) e by (simp add: auth_layer_def)
  show ?thesis
    using assms(3) unfolding gateway_stack_def breaker_layer_def inner
    by (auto split: prod.splits bool.splits)
qed

definition demo_gateway_env :: gateway_env where
  "demo_gateway_env = \<lparr>ge_jwt = \<lparr>je_read_pem = Some,
       je_header = (\<lambda>t. if t = ''abc'' then Some \<lparr>jh_alg = RS256, jh_kid = None\<rparr> else None),
       je_decode = (\<lambda>k iss t. Inr \<lparr>kc_sub = ''u'', kc_exp = 0, kc_iat = 0, kc_jti = ''j'',
          kc_iss = ''kova-auth'', kc_device_id = None\<rparr>),
       je_parse_uuid = (\<lambda>s. Some 1)\<rparr>,
     ge_keys = [''default'' \<mapsto> ''k''], ge_uuid_show = (\<lambda>u. ''id''), ge_hv_ok = (\<lambda>s. True),
     ge_path_match = (=), ge_method_match = (=)\<rparr>"

definition demo_gateway_world :: gateway_world where
  "demo_gateway_world = \<lparr>gw_breaker = breaker_init, gw_redis = redis_empty\<rparr>"

definition demo_io :: "int \<Rightarrow> gateway_io" where
  "demo_io t = \<lparr>gi_ask = t, gi_report = t, gi_redis = RedisFine, gi_now = 0, gi_now2 = 0, gi_fresh_id = 1\<rparr>"

definition demo_req :: "string \<Rightarrow> string \<Rightarrow> (string \<times> string) list \<Rightarrow> http_req" where
  "demo_req meth path hs = \<lparr>hq_method = meth, hq_path = path, hq_headers = hs, hq_user = None\<rparr>"

theorem protected_path_needs_token_witness:
  "hs_status (fst (gateway demo_gateway_env (demo_io 1) (demo_req ''POST'' ''/api/v1/kova/payments'' [])
     demo_gateway_world)) \<in> {401, 503}"
proof -
  let ?req = "demo_req ''POST'' ''/api/v1/kova/payments'' []"
  obtain resp w' where r: "gateway_stack demo_gateway_env (demo_io 1) (routes demo_gateway_env) ?req
      demo_gateway_world = (resp, w')" by force
  have "\<not> is_exempt (hq_path ?req)"
    by (simp add: is_exempt_def demo_req_def starts_with_def)
  from protected_path_needs_token [OF this _ r] r show ?thesis
    by (simp add: gateway_def demo_req_def)
qed

text \<open>Which answers can be traced: an answer of the routes carries the caller's request id, or a
  fresh one if the caller sent none; an answer of the breaker, the authentication or the limiter
  (401, 429, 503) carries no request id, because the tracing layer is the innermost one.\<close>

theorem request_id_only_on_routed_answers:
  assumes "gateway env io req w = (resp, w')"
    and "ge_hv_ok env (request_id_of env (gi_fresh_id io) req)"
  shows "map_of (hs_headers resp) ''x-kova-request-id'' =
    (if hs_status resp \<in> {401, 429, 503} then None
     else Some (case map_of (hq_headers req) ''x-kova-request-id'' of
                  Some v \<Rightarrow> v
                | None \<Rightarrow> ge_uuid_show env (gi_fresh_id io)))"
proof -
  have "tagged env (gi_fresh_id io) (gateway env io)"
    unfolding gateway_def gateway_stack_def
    by (intro tagged_breaker tagged_auth tagged_rate tagged_tracing)
  with assms have "map_of (hs_headers resp) header_request_id =
      (if hs_status resp \<in> {401, 429, 503} then None else Some (request_id_of env (gi_fresh_id io) req))"
    unfolding tagged_def by (metis fst_conv)
  then show ?thesis
    by (simp add: header_request_id_def request_id_of_def)
qed

theorem request_id_only_on_routed_answers_witness:
  "map_of (hs_headers (fst (gateway demo_gateway_env (demo_io 1)
     (demo_req ''POST'' ''/api/v1/kova/payments'' []) demo_gateway_world))) ''x-kova-request-id'' = None"
proof -
  let ?req = "demo_req ''POST'' ''/api/v1/kova/payments'' []"
  obtain resp w' where r: "gateway demo_gateway_env (demo_io 1) ?req demo_gateway_world = (resp, w')" by force
  have "hs_status resp = 401"
    using r by (auto simp: gateway_def gateway_stack_def breaker_layer_def auth_layer_def is_exempt_def
        authenticate_def bearer_token_def demo_req_def starts_with_def demo_gateway_world_def
        breaker_init_def Let_def is_server_error_def)
  with request_id_only_on_routed_answers [OF r] r show ?thesis
    by (simp add: demo_gateway_env_def)
qed

text \<open>Five answered stubs close the gateway: after five requests in a row that were answered with
  a server error (the 501 of a route that is not implemented counts as one), every request in the
  next thirty seconds, to whatever path and the health check among them, is answered with 503.\<close>

theorem five_stubs_close_the_gateway:
  assumes "gw_breaker w = breaker_init" and "gateway_run env (calls @ [(io, req)]) w = (rs @ [r], w')"
    and "length calls = 4" and "\<forall>q \<in> set (rs @ [r]). is_server_error (hs_status q)"
    and "gi_ask io2 < gi_report io + 30 * 10 ^ 9"
  shows "hs_status (fst (gateway env io2 req2 w')) = 503"
proof -
  obtain rs1 v where v: "gateway_run env calls w = (rs1, v)" by force
  obtain r1 v1 where r1: "gateway env io req v = (r1, v1)" by force
  have eq: "rs1 = rs" "r1 = r" "v1 = w'"
    using assms(2) v r1 by (auto simp: gateway_run_append)
  have "gw_breaker v = Closed (0 + of_nat (length calls))"
    by (rule gateway_run_failures [OF v]) (use assms eq in \<open>auto simp: breaker_init_def\<close>)
  then have "gw_breaker v = Closed 4" using assms(3) by simp
  with gateway_breaker [OF r1] assms(4) eq have "gw_breaker w' = Open (gi_report io)"
    by (simp add: Let_def failure_threshold_def)
  then have "allow_request (gi_ask io2) (gw_breaker w') = (False, Open (gi_report io))"
    using assms(5) by (simp add: open_duration_def)
  moreover obtain r2 w2 where r2: "gateway env io2 req2 w' = (r2, w2)" by force
  ultimately show ?thesis
    using gateway_breaker [OF r2] by simp
qed

abbreviation demo_register :: http_req where
  "demo_register \<equiv> demo_req ''POST'' ''/api/v1/kova/auth/register'' []"

text \<open>The registration stub needs no token and is not limited by Redis when it is down.\<close>

lemma demo_register_routes: "routes demo_gateway_env demo_register w = (api_not_implemented, w)"
proof -
  have "strip_prefix ''/api/v1/kova/auth/register'' ''/api/v1/kova'' = Some ''/auth/register''"
    by (simp add: strip_prefix_def starts_with_def)
  moreover have "filter (\<lambda>r. fst r = ''/auth/register'') route_table =
      [(''/auth/register'', ''POST'', NotImplemented)]"
    by (simp add: route_table_def)
  ultimately show ?thesis
    by (simp add: routes_def demo_req_def demo_gateway_env_def)
qed

text \<open>While Redis is down the limiter is not there.\<close>

lemma rate_limit_down:
  "put (get w) w = w \<Longrightarrow> rate_limit_layer su cfg get put RedisDown n n2 inner req w = inner req w"
  by (simp add: rate_limit_layer_def rate_decide_def Let_def)

lemma demo_register_stub:
  assumes "gw_breaker w = Closed n"
  shows "\<exists>r w'. gateway demo_gateway_env ((demo_io t)\<lparr>gi_redis := RedisDown\<rparr>) demo_register w = (r, w') \<and>
    hs_status r = 501"
proof -
  let ?io = "(demo_io t)\<lparr>gi_redis := RedisDown\<rparr>"
  let ?tr = "tracing_layer demo_gateway_env (gi_fresh_id ?io) (routes demo_gateway_env)"
  let ?rl = "rate_limit_layer (ge_uuid_show demo_gateway_env) rate_limit_default gw_redis
            (\<lambda>R w. w\<lparr>gw_redis := R\<rparr>) (gi_redis ?io) (gi_now ?io) (gi_now2 ?io) ?tr"
  have path: "hq_path demo_register = ''/api/v1/kova/auth/register''"
    by (simp add: demo_req_def)
  have redis: "gi_redis ?io = RedisDown" by simp
  have tr: "\<exists>r. ?tr demo_register v = (r, v) \<and> hs_status r = 501" for v
    by (auto simp: tracing_layer_def demo_register_routes insert_header_def Let_def)
  have rl: "\<exists>r v'. ?rl demo_register v = (r, v') \<and> hs_status r = 501" for v
    unfolding redis using tr [of v] by (subst rate_limit_down) (simp, blast)
  have ex: "is_exempt (hq_path demo_register)"
    unfolding path by (simp add: is_exempt_def starts_with_def)
  obtain r v' where r: "?rl demo_register (w\<lparr>gw_breaker := Closed n\<rparr>) = (r, v')" "hs_status r = 501"
    using rl by blast
  have "auth_layer (ge_jwt demo_gateway_env) (ge_keys demo_gateway_env) ?rl demo_register
      (w\<lparr>gw_breaker := Closed n\<rparr>) = (r, v')"
    unfolding auth_layer_def using ex r(1) by simp
  then show ?thesis
    unfolding gateway_def gateway_stack_def breaker_layer_def assms allow_request.simps
    using r(2) by simp
qed

lemma demo_register_run:
  assumes "gw_breaker w = Closed m" and "unat m + n \<le> 5"
  shows "\<exists>rs w'. gateway_run demo_gateway_env
      (replicate n ((demo_io 0)\<lparr>gi_redis := RedisDown\<rparr>, demo_register)) w = (rs, w') \<and>
    length rs = n \<and> (\<forall>q \<in> set rs. hs_status q = 501)"
  using assms
proof (induction n arbitrary: m w)
  case 0
  then show ?case by simp
next
  case (Suc n)
  obtain r v where r: "gateway demo_gateway_env ((demo_io 0)\<lparr>gi_redis := RedisDown\<rparr>) demo_register w = (r, v)"
      "hs_status r = 501"
    using demo_register_stub [OF Suc.prems(1)] by blast
  show ?case
  proof (cases n)
    case 0
    with r show ?thesis by simp
  next
    case (Suc k)
    with Suc.prems have um: "unat (m + 1) = unat m + 1"
      using unat_add_lem [of m 1] by simp
    then have "gw_breaker v = Closed (m + 1)"
      using gateway_breaker [OF r(1)] r(2) Suc.prems Suc
      by (simp add: Let_def is_server_error_def failure_threshold_def word_le_nat_alt)
    from Suc.IH [OF this] um Suc.prems obtain rs w' where
      "gateway_run demo_gateway_env (replicate n ((demo_io 0)\<lparr>gi_redis := RedisDown\<rparr>, demo_register)) v = (rs, w')"
      "length rs = n" "\<forall>q \<in> set rs. hs_status q = 501" by auto
    with r show ?thesis by auto
  qed
qed

theorem five_stubs_close_the_gateway_witness:
  "\<exists>w'. hs_status (fst (gateway demo_gateway_env (demo_io 7) (demo_req ''GET'' ''/api/v1/kova/health'' []) w')) = 503"
proof -
  let ?c = "((demo_io 0)\<lparr>gi_redis := RedisDown\<rparr>, demo_register)"
  obtain rs w' where run: "gateway_run demo_gateway_env (replicate 5 ?c) demo_gateway_world = (rs, w')"
      "length rs = 5" "\<forall>q \<in> set rs. hs_status q = 501"
    using demo_register_run [of demo_gateway_world 0 5]
    by (auto simp: demo_gateway_world_def breaker_init_def)
  have five: "replicate 5 ?c = replicate 4 ?c @ [?c]"
    by (simp add: eval_nat_numeral)
  have rs: "rs = butlast rs @ [last rs]"
    using run(2) by (metis append_butlast_last_id list.size(3) zero_neq_numeral)
  have "hs_status (fst (gateway demo_gateway_env (demo_io 7) (demo_req ''GET'' ''/api/v1/kova/health'' []) w')) = 503"
  proof (rule five_stubs_close_the_gateway)
    show "gateway_run demo_gateway_env (replicate 4 ?c @ [?c]) demo_gateway_world = (butlast rs @ [last rs], w')"
      using run(1) five rs by simp
    show "\<forall>q \<in> set (butlast rs @ [last rs]). is_server_error (hs_status q)"
      unfolding rs [symmetric] using run(3) by (simp add: is_server_error_def)
  qed (simp_all add: demo_gateway_world_def demo_io_def)
  then show ?thesis by blast
qed

end
