(* ===== verification/Auth_Gateway.thy ===== *)
theory Auth_Gateway
  imports Auth_Service Gateway_Router
begin

text \<open>
  How the auth service and the gateway meet: the tokens the one signs and the other validates, and
  the Redis both use.  In a deployment they share one Redis, in which the auth service leaves the
  keys of revoked tokens.
\<close>

section \<open>Tokens\<close>

text \<open>What the two services rely on in \<open>jsonwebtoken\<close>: a token signed with the private key has a header
  without a key id, RS256, no white space around it, and before its expiry it decodes with the
  public key to its claims, if its issuer is one of those allowed.\<close>

definition token_codec :: "authn_env \<Rightarrow> string \<Rightarrow> jwt_env \<Rightarrow> string \<Rightarrow> int \<Rightarrow> bool" where
  "token_codec env key je pub now \<longleftrightarrow>
     (\<forall>c t. xv_jwt_encode env key c = Inr t \<longrightarrow>
        je_header je t = Some \<lparr>jh_alg = RS256, jh_kid = None\<rparr> \<and> trim t = t \<and>
        (\<forall>issuers. now < int (kc_exp c) \<and> kc_iss c \<in> set issuers \<longrightarrow> je_decode je pub issuers t = Inr c))"

lemma issued_token_decodes:
  assumes "issue_token_pair env key io (KovaUserId u) fp w = (Inr pair, w')"
    and "0 \<le> is_now io" and "is_now io + access_ttl_secs < 2 ^ 64" and "now < is_now io + access_ttl_secs"
    and "token_codec env key je pub now"
  shows "je_header je (tp_access pair) = Some \<lparr>jh_alg = RS256, jh_kid = None\<rparr>"
    and "trim (tp_access pair) = tp_access pair"
    and "je_decode je pub [''kova-auth''] (tp_access pair) =
      Inr (access_claims env (KovaUserId u) fp (is_now io) (xv_uuid_show env (is_jti io)))"
proof -
  let ?c = "access_claims env (KovaUserId u) fp (is_now io) (xv_uuid_show env (is_jti io))"
  obtain row where "issued env key io (KovaUserId u) fp pair row"
    using issue_token_pair_Inr [OF assms(1)] by blast
  then have "xv_jwt_encode env key ?c = Inr (tp_access pair)"
    by (simp add: issued_def)
  moreover have "int (kc_exp ?c) = is_now io + access_ttl_secs" "kc_iss ?c = ''kova-auth''"
    using assms(2,3) by (simp_all add: access_claims_def as_u64_def access_ttl_secs_def)
  ultimately show "je_header je (tp_access pair) = Some \<lparr>jh_alg = RS256, jh_kid = None\<rparr>"
      "trim (tp_access pair) = tp_access pair" "je_decode je pub [''kova-auth''] (tp_access pair) = Inr ?c"
    using assms(4,5) unfolding token_codec_def by auto
qed

text \<open>A token issued by the auth service is accepted by the gateway for its fifteen minutes: a request
  that carries it as its bearer token is authenticated as the user it was issued for, with the
  token's id and the device it was issued to.\<close>

theorem issued_token_passes_gateway:
  assumes "issue_token_pair env key io (KovaUserId u) fp w = (Inr pair, w')"
    and "0 \<le> is_now io" and "is_now io + access_ttl_secs < 2 ^ 64" and "now < is_now io + access_ttl_secs"
    and "token_codec env key je pub now" and "je_read_pem je pem = Some pub"
    and "je_parse_uuid je (xv_uuid_show env u) = Some u" and "key_set_from_pem je pem = Inr keys"
    and "map_of (hq_headers req) ''authorization'' = Some (''Bearer '' @ tp_access pair)"
  shows "authenticate je keys req =
    Inr \<lparr>au_user_id = u, au_jti = xv_uuid_show env (is_jti io), au_device_id = Some fp\<rparr>"
proof -
  let ?c = "access_claims env (KovaUserId u) fp (is_now io) (xv_uuid_show env (is_jti io))"
  note codec = issued_token_decodes [OF assms(1-5)]
  have "key_set_get keys None = Some pub"
    using assms(6,8) by (auto simp: key_set_from_pem_def key_set_get_def)
  with codec have "validate_token je keys (tp_access pair) = Inr ?c"
    by (simp add: validate_token_def)
  moreover have "bearer_token req = Inr (tp_access pair)"
    using assms(9) codec(2) by (simp add: bearer_token_Inr)
  ultimately show ?thesis
    using assms(7) by (simp add: authenticate_def access_claims_def)
qed

definition demo_issued_claims :: kova_claims where
  "demo_issued_claims = access_claims demo_authn_env (KovaUserId 7) ''d'' 5 (show_nat 9)"

definition demo_signing_env :: authn_env where
  "demo_signing_env = demo_authn_env\<lparr>xv_jwt_encode :=
     (\<lambda>k c. if c = demo_issued_claims then Inr ''abc'' else Inl ''unused'')\<rparr>"

definition demo_jwt_env :: jwt_env where
  "demo_jwt_env = (ge_jwt demo_gateway_env)\<lparr>je_decode := (\<lambda>k iss t. Inr demo_issued_claims),
     je_parse_uuid := (\<lambda>s. Some (of_nat (read_nat s)))\<rparr>"

lemma demo_issue:
  "\<exists>pair w'. issue_token_pair demo_signing_env ''pem'' (demo_issue_io [0]) (KovaUserId 7) ''d'' demo_authn_world =
     (Inr pair, w') \<and> tp_access pair = ''abc''"
proof -
  have show_nat_env: "xv_uuid_show demo_authn_env = (\<lambda>u. show_nat (unat u))"
    by (simp add: demo_authn_env_def)
  have "access_claims demo_signing_env (KovaUserId 7) ''d'' 5 (show_nat 9) = demo_issued_claims"
    by (simp add: demo_issued_claims_def access_claims_def demo_signing_env_def)
  then show ?thesis
    by (simp add: issue_token_pair_def sign_access_token_def eff_defs on_auth_db_def sha256_hex_def
        random_hex_token_def insert_session_stmt_def insert_session_def fits_null_def user_exists_def
        auth_bin_def demo_authn_world_def demo_signing_env_def demo_authn_env_def demo_session_def
        demo_user_row_def demo_issue_io_def refresh_ttl_secs_def show_nat_demo read_nat_demo Let_def)
qed

theorem issued_token_passes_gateway_witness:
  "authenticate demo_jwt_env [''default'' \<mapsto> ''k''] (demo_req ''POST'' ''/api/v1/kova/payments''
     [(''authorization'', ''Bearer abc'')]) = Inr \<lparr>au_user_id = 7, au_jti = show_nat 9, au_device_id = Some ''d''\<rparr>"
proof -
  obtain pair w' where run: "issue_token_pair demo_signing_env ''pem'' (demo_issue_io [0]) (KovaUserId 7) ''d''
      demo_authn_world = (Inr pair, w')" and t: "tp_access pair = ''abc''"
    using demo_issue by blast
  have codec: "token_codec demo_signing_env ''pem'' demo_jwt_env ''k'' 10"
    by (simp add: token_codec_def demo_signing_env_def demo_jwt_env_def demo_gateway_env_def trim_def is_blank_def)
  have "authenticate demo_jwt_env [''default'' \<mapsto> ''k''] (demo_req ''POST'' ''/api/v1/kova/payments''
     [(''authorization'', ''Bearer abc'')]) =
     Inr \<lparr>au_user_id = 7, au_jti = xv_uuid_show demo_signing_env (is_jti (demo_issue_io [0])), au_device_id = Some ''d''\<rparr>"
    by (rule issued_token_passes_gateway [OF run _ _ _ codec, where pem = "''k''"])
      (simp_all add: demo_issue_io_def access_ttl_secs_def demo_jwt_env_def demo_gateway_env_def
        demo_signing_env_def demo_authn_env_def key_set_from_pem_def t demo_req_def)
  then show ?thesis
    by (simp add: demo_signing_env_def demo_authn_env_def demo_issue_io_def)
qed

section \<open>Revocation\<close>

text \<open>Two stores that differ at most in the keys of revoked tokens.\<close>

definition same_but_revoked :: "redis \<Rightarrow> redis \<Rightarrow> bool" where
  "same_but_revoked R R' \<longleftrightarrow> (\<forall>k. (\<exists>jti. k = revoked_key jti) \<or> R k = R' k)"

definition similar :: "gateway_world \<Rightarrow> gateway_world \<Rightarrow> bool" where
  "similar w v \<longleftrightarrow> gw_breaker w = gw_breaker v \<and> same_but_revoked (gw_redis w) (gw_redis v)"

definition blind :: "gateway_world service \<Rightarrow> bool" where
  "blind svc \<longleftrightarrow> (\<forall>req w v. similar w v \<longrightarrow>
     fst (svc req w) = fst (svc req v) \<and> similar (snd (svc req w)) (snd (svc req v)))"

lemma blindD:
  "blind svc \<Longrightarrow> similar w v \<Longrightarrow> svc req w = (r, w') \<Longrightarrow> \<exists>v'. svc req v = (r, v') \<and> similar w' v'"
  unfolding blind_def by (metis fst_conv prod.collapse snd_conv)

lemma rate_key_not_revoked: "rate_key t i m \<noteq> revoked_key jti"
  by (simp add: rate_key_def revoked_key_def)

lemma rate_decide_local:
  assumes "R (rate_key t i (now div 60)) = R' (rate_key t i (now div 60))"
    and "rate_decide f now t i R = (ok, Q)"
  shows "\<exists>Q'. rate_decide f now t i R' = (ok, Q') \<and>
    (\<forall>k. if k = rate_key t i (now div 60) then Q k = Q' k else Q k = R k \<and> Q' k = R' k)"
  using assms
  by (auto simp: rate_decide_def lua_sliding_window_def redis_incr_def redis_live_def redis_expire_def Let_def
      split: if_splits option.splits redis_val.splits)

lemma rate_decide_same:
  assumes "same_but_revoked R R'" and "rate_decide f now t i R = (ok, Q)"
  shows "\<exists>Q'. rate_decide f now t i R' = (ok, Q') \<and> same_but_revoked Q Q'"
proof -
  have "R (rate_key t i (now div 60)) = R' (rate_key t i (now div 60))"
    using assms(1) rate_key_not_revoked unfolding same_but_revoked_def by metis
  from rate_decide_local [of R t i now R', OF this assms(2)] assms(1) show ?thesis
    unfolding same_but_revoked_def by (metis (full_types))
qed

lemma blind_routes: "blind (routes env)"
  by (auto simp: blind_def routes_def split: option.splits list.splits)

lemma blind_tracing: "blind inner \<Longrightarrow> blind (tracing_layer env fresh inner)"
  unfolding blind_def tracing_layer_def Let_def by (simp add: split_beta)

lemma blind_rate:
  assumes "blind inner"
  shows "blind (rate_limit_layer su cfg gw_redis (\<lambda>R w. w\<lparr>gw_redis := R\<rparr>) f n n2 inner)"
  unfolding blind_def
proof (intro allI impI)
  fix req :: http_req and w v assume sim: "similar w v"
  let ?t = "tier_for cfg (hq_path req)"
  obtain ok Q where d: "rate_decide f n ?t (rate_identifier su ?t req) (gw_redis w) = (ok, Q)" by force
  then obtain Q' where d': "rate_decide f n ?t (rate_identifier su ?t req) (gw_redis v) = (ok, Q')"
      "same_but_revoked Q Q'"
    using rate_decide_same sim unfolding similar_def by blast
  then have "similar (w\<lparr>gw_redis := Q\<rparr>) (v\<lparr>gw_redis := Q'\<rparr>)"
    using sim by (simp add: similar_def)
  with d d' sim assms
  show "fst (rate_limit_layer su cfg gw_redis (\<lambda>R w. w\<lparr>gw_redis := R\<rparr>) f n n2 inner req w) =
        fst (rate_limit_layer su cfg gw_redis (\<lambda>R w. w\<lparr>gw_redis := R\<rparr>) f n n2 inner req v) \<and>
      similar (snd (rate_limit_layer su cfg gw_redis (\<lambda>R w. w\<lparr>gw_redis := R\<rparr>) f n n2 inner req w))
        (snd (rate_limit_layer su cfg gw_redis (\<lambda>R w. w\<lparr>gw_redis := R\<rparr>) f n n2 inner req v))"
    unfolding blind_def by (simp add: rate_limit_layer_def Let_def)
qed

lemma blind_auth: "blind inner \<Longrightarrow> blind (auth_layer je ks inner)"
  by (auto simp: blind_def auth_layer_def split: sum.splits)

lemma blind_breaker:
  assumes "blind inner"
  shows "blind (breaker_layer name gw_breaker (\<lambda>b w. w\<lparr>gw_breaker := b\<rparr>) t1 t2 inner)"
  unfolding blind_def
proof (intro allI impI)
  fix req :: http_req and w v assume sim: "similar w v"
  obtain ok b where a: "allow_request t1 (gw_breaker w) = (ok, b)" by force
  have sim2: "similar (w\<lparr>gw_breaker := b\<rparr>) (v\<lparr>gw_breaker := b\<rparr>)"
    using sim by (simp add: similar_def)
  obtain r w' where i: "inner req (w\<lparr>gw_breaker := b\<rparr>) = (r, w')" by force
  obtain v' where i': "inner req (v\<lparr>gw_breaker := b\<rparr>) = (r, v')" "similar w' v'"
    using blindD [OF assms sim2 i] by blast
  show "fst (breaker_layer name gw_breaker (\<lambda>b w. w\<lparr>gw_breaker := b\<rparr>) t1 t2 inner req w) =
        fst (breaker_layer name gw_breaker (\<lambda>b w. w\<lparr>gw_breaker := b\<rparr>) t1 t2 inner req v) \<and>
      similar (snd (breaker_layer name gw_breaker (\<lambda>b w. w\<lparr>gw_breaker := b\<rparr>) t1 t2 inner req w))
        (snd (breaker_layer name gw_breaker (\<lambda>b w. w\<lparr>gw_breaker := b\<rparr>) t1 t2 inner req v))"
    using a sim sim2 i i' by (auto simp: breaker_layer_def similar_def split: bool.splits)
qed

lemma blind_gateway: "blind (gateway env io)"
  unfolding gateway_def gateway_stack_def
  by (intro blind_breaker blind_auth blind_rate blind_tracing blind_routes)

lemma gateway_run_blind:
  "similar w v \<Longrightarrow> fst (gateway_run env calls w) = fst (gateway_run env calls v)"
proof (induction calls arbitrary: w v)
  case (Cons c calls)
  obtain io req where c: "c = (io, req)" by force
  obtain r w' where g: "gateway env io req w = (r, w')" by force
  with blindD [OF blind_gateway Cons.prems g] obtain v' where
    g': "gateway env io req v = (r, v')" "similar w' v'" by blast
  with Cons.IH [OF g'(2)] g c show ?case by (simp add: split_beta)
qed simp

text \<open>What the handlers that revoke do to Redis.\<close>

lemma cache_jti_same: "cache_revoked_jti f j w = (r, w') \<Longrightarrow> same_but_revoked R (xw_redis w) \<Longrightarrow>
    same_but_revoked R (xw_redis w')"
  by (auto simp: cache_revoked_jti_def same_but_revoked_def redis_write_def redis_set_ex_def split: if_splits) metis+

lemma cache_jti_inv: "einv (\<lambda>w. same_but_revoked R (xw_redis w)) (cache_revoked_jti f j)"
  unfolding einv_iff using cache_jti_same by (metis prod.collapse)

lemma cache_all_inv: "einv (\<lambda>w. same_but_revoked R (xw_redis w)) (cache_revoked_all f n rs)"
  by (induction rs arbitrary: n) (auto split: option.splits intro!: einv_intros cache_jti_inv)

lemma auth_db_redis: "einv (\<lambda>w. P (xw_redis w)) (on_auth_db m)"
  unfolding on_auth_db_def by (intro einv_emap_err einv_zoom_other) simp

lemma revocation_redis:
  "einv (\<lambda>w. same_but_revoked R (xw_redis w)) (logout env io claims)"
  "einv (\<lambda>w. same_but_revoked R (xw_redis w)) (session_delete env io claims i)"
  "einv (\<lambda>w. same_but_revoked R (xw_redis w)) (sessions_revoke_all env io claims)"
  unfolding logout_def session_delete_def sessions_revoke_all_def
  by (intro einv_intros cache_jti_inv cache_all_inv auth_db_redis)+

text \<open>C28: Revocation is not enforced: logging out, deleting a session or revoking all of them leaves keys
  in Redis that the gateway never reads, so every sequence of requests, with whatever tokens, gets
  the same answers from the gateway after the revocation as it would have got without it.\<close>

theorem revocation_is_not_enforced:
  assumes "m \<in> {logout env io claims, session_delete env io claims i, sessions_revoke_all env io claims}"
    and "m w = (r, w')"
  shows "fst (gateway_run genv calls \<lparr>gw_breaker = b, gw_redis = xw_redis w'\<rparr>) =
    fst (gateway_run genv calls \<lparr>gw_breaker = b, gw_redis = xw_redis w\<rparr>)"
proof -
  have "einv (\<lambda>v. same_but_revoked (xw_redis w) (xw_redis v)) m"
    using assms(1) revocation_redis by blast
  from einvD [OF this _ assms(2)] have "same_but_revoked (xw_redis w) (xw_redis w')"
    by (simp add: same_but_revoked_def)
  then have "similar \<lparr>gw_breaker = b, gw_redis = xw_redis w'\<rparr> \<lparr>gw_breaker = b, gw_redis = xw_redis w\<rparr>"
    by (auto simp: similar_def same_but_revoked_def)
  then show ?thesis by (rule gateway_run_blind)
qed

theorem revocation_is_not_enforced_witness:
  "\<exists>w'. snd (logout demo_authn_env (zi_device demo_authn_io) demo_claims demo_authn_world) = w' \<and>
     xw_redis w' (revoked_key ''j'') \<noteq> None \<and>
     fst (gateway_run demo_gateway_env
        [(demo_io 1, demo_req ''POST'' ''/api/v1/kova/payments'' [(''authorization'', ''Bearer abc'')])]
        \<lparr>gw_breaker = breaker_init, gw_redis = xw_redis w'\<rparr>) =
     fst (gateway_run demo_gateway_env
        [(demo_io 1, demo_req ''POST'' ''/api/v1/kova/payments'' [(''authorization'', ''Bearer abc'')])]
        \<lparr>gw_breaker = breaker_init, gw_redis = redis_empty\<rparr>)"
proof -
  obtain r w' where run: "logout demo_authn_env (zi_device demo_authn_io) demo_claims demo_authn_world = (r, w')"
    by force
  then have "xw_redis w' (revoked_key ''j'') \<noteq> None"
    by (auto simp: logout_def revoke_by_jti_def revoke_sessions_def cache_revoked_jti_def eff_defs on_auth_db_def
        auth_bin_def demo_authn_env_def demo_authn_io_def demo_claims_def redis_write_def redis_set_ex_def)
  moreover have "xw_redis demo_authn_world = redis_empty"
    by (simp add: demo_authn_world_def)
  ultimately show ?thesis
    using revocation_is_not_enforced [where m = "logout demo_authn_env (zi_device demo_authn_io) demo_claims"
        and env = demo_authn_env and io = "zi_device demo_authn_io" and claims = demo_claims
        and genv = demo_gateway_env and b = breaker_init, OF _ run]
    by (simp add: run del: gateway_run.simps)
qed

end
