(* ===== verification/Events.thy ===== *)
theory Events
  imports Entities
begin

text \<open>
  \<open>crates/kova-types/src/events\<close>: the Kafka events.  An event struct is its topic and the list of
  its fields with their types, in the order of the source, and what \<open>#[derive(Serialize,
  Deserialize)]\<close> makes of it is \<open>encode_event\<close> and \<open>decode_event\<close>: an object with the fields by
  name (unknown ones are skipped, a known one must not come twice, an absent \<open>Option\<close> is \<open>None\<close>)
  or an array with exactly the fields' values.  The text forms of a UUID, a \<open>Decimal\<close>
  (\<open>rust_decimal::serde::str\<close>) and a \<open>DateTime<Utc>\<close> are parameters.
\<close>

section \<open>Enums of the events\<close>

datatype decline_reason =
    InsufficientFunds | CardBlocked | CardExpired | DailyLimitExceeded | FraudBlock | InvalidPin
  | MerchantBlocked | DeclineOther

datatype fraud_decision = FdAllow | FdReview | FdBlock

datatype notification_type =
    PaymentReceived | PaymentSent | PaymentFailed | CardTransactionApproved
  | CardTransactionDeclined | KycApprovedNote | KycRejectedNote | FraudAlert | LowBalance
  | SystemAnnouncement

definition decline_reason_table :: "(decline_reason \<times> string) list" where
  "decline_reason_table =
     [(InsufficientFunds, ''insufficient_funds''), (CardBlocked, ''card_blocked''),
      (CardExpired, ''card_expired''), (DailyLimitExceeded, ''daily_limit_exceeded''),
      (FraudBlock, ''fraud_block''), (InvalidPin, ''invalid_pin''),
      (MerchantBlocked, ''merchant_blocked''), (DeclineOther, ''other'')]"

definition fraud_decision_table :: "(fraud_decision \<times> string) list" where
  "fraud_decision_table = [(FdAllow, ''allow''), (FdReview, ''review''), (FdBlock, ''block'')]"

definition notification_type_table :: "(notification_type \<times> string) list" where
  "notification_type_table =
     [(PaymentReceived, ''payment_received''), (PaymentSent, ''payment_sent''),
      (PaymentFailed, ''payment_failed''), (CardTransactionApproved, ''card_transaction_approved''),
      (CardTransactionDeclined, ''card_transaction_declined''), (KycApprovedNote, ''kyc_approved''),
      (KycRejectedNote, ''kyc_rejected''), (FraudAlert, ''fraud_alert''),
      (LowBalance, ''low_balance''), (SystemAnnouncement, ''system_announcement'')]"

lemma event_enum_complete:
  "d \<in> fst ` set decline_reason_table" "f \<in> fst ` set fraud_decision_table"
  "n \<in> fst ` set notification_type_table"
  by (cases d; simp add: decline_reason_table_def) (cases f; simp add: fraud_decision_table_def;
      fail | cases n; simp add: notification_type_table_def)+

interpretation decline_reason_enum: string_enum "''DeclineReason''" decline_reason_table
  by unfold_locales (rule event_enum_complete, simp_all add: decline_reason_table_def)

interpretation fraud_decision_enum: string_enum "''FraudDecision''" fraud_decision_table
  by unfold_locales (rule event_enum_complete, simp_all add: fraud_decision_table_def)

interpretation notification_type_enum: string_enum "''NotificationType''" notification_type_table
  by unfold_locales (rule event_enum_complete, simp_all add: notification_type_table_def)

section \<open>Field types and values\<close>

datatype field_type =
    TyU8 | TyU32 | TyU64 | TyRisk | TyId | TyText | TyDec | TyTime | TyBool
  | TyEnum "string list" | TyAny | TyOpt field_type

datatype field_val =
    VNum int | VId uuid | VText string | VDec decimal | VTime datetime | VBool bool | VAny json
  | VNone | VSome field_val

abbreviation TyCurrency :: field_type where
  "TyCurrency \<equiv> TyEnum (map snd currency_code_table)"

abbreviation TyRiskLevel :: field_type where
  "TyRiskLevel \<equiv> TyEnum (map snd kyc_risk_level_table)"

abbreviation TyNotification :: field_type where
  "TyNotification \<equiv> TyEnum (map snd notification_type_table)"

abbreviation TyDecision :: field_type where
  "TyDecision \<equiv> TyEnum (map snd fraud_decision_table)"

abbreviation TyDecline :: field_type where
  "TyDecline \<equiv> TyEnum (map snd decline_reason_table)"

record event_env =
  ev_uuid_show :: "uuid \<Rightarrow> string"
  ev_uuid_read :: "string \<Rightarrow> uuid option"
  ev_dec_show :: "decimal \<Rightarrow> string"
  ev_dec_read :: "string \<Rightarrow> decimal option"
  ev_time_show :: "datetime \<Rightarrow> string"
  ev_time_read :: "string \<Rightarrow> datetime option"

primrec encode_val :: "event_env \<Rightarrow> field_val \<Rightarrow> json" where
  "encode_val env (VNum n) = JNum n"
| "encode_val env (VId u) = JStr (ev_uuid_show env u)"
| "encode_val env (VText s) = JStr s"
| "encode_val env (VDec d) = JStr (ev_dec_show env d)"
| "encode_val env (VTime t) = JStr (ev_time_show env t)"
| "encode_val env (VBool b) = JBool b"
| "encode_val env (VAny j) = j"
| "encode_val env VNone = JNull"
| "encode_val env (VSome v) = encode_val env v"

definition num_upto :: "int \<Rightarrow> json \<Rightarrow> field_val option" where
  "num_upto m j = (case j of JNum n \<Rightarrow> if 0 \<le> n \<and> n \<le> m then Some (VNum n) else None | _ \<Rightarrow> None)"

text \<open>\<open>deserialize_risk_score\<close>: a \<open>u8\<close> first, then at most 100.\<close>

definition deserialize_risk_score :: "json \<Rightarrow> field_val option" where
  "deserialize_risk_score j =
     Option.bind (num_upto 255 j) (\<lambda>v. case v of VNum n \<Rightarrow> if 100 < n then None else Some v | _ \<Rightarrow> None)"

definition json_str :: "json \<Rightarrow> string option" where
  "json_str j = (case j of JStr s \<Rightarrow> Some s | _ \<Rightarrow> None)"

text \<open>A variant without data: its name, or an object with the name and \<open>null\<close>.\<close>

definition variant_name :: "json \<Rightarrow> string option" where
  "variant_name j = (case j of JStr s \<Rightarrow> Some s | JObj [(s, JNull)] \<Rightarrow> Some s | _ \<Rightarrow> None)"

primrec decode_val :: "event_env \<Rightarrow> field_type \<Rightarrow> json \<Rightarrow> field_val option" where
  "decode_val env TyU8 j = num_upto 255 j"
| "decode_val env TyU32 j = num_upto (2 ^ 32 - 1) j"
| "decode_val env TyU64 j = num_upto (2 ^ 64 - 1) j"
| "decode_val env TyRisk j = deserialize_risk_score j"
| "decode_val env TyId j = map_option VId (Option.bind (json_str j) (ev_uuid_read env))"
| "decode_val env TyText j = map_option VText (json_str j)"
| "decode_val env TyDec j = map_option VDec (Option.bind (json_str j) (ev_dec_read env))"
| "decode_val env TyTime j = map_option VTime (Option.bind (json_str j) (ev_time_read env))"
| "decode_val env TyBool j = (case j of JBool b \<Rightarrow> Some (VBool b) | _ \<Rightarrow> None)"
| "decode_val env (TyEnum ns) j =
     Option.bind (variant_name j) (\<lambda>s. if s \<in> set ns then Some (VText s) else None)"
| "decode_val env TyAny j = Some (VAny j)"
| "decode_val env (TyOpt t) j = (if j = JNull then Some VNone else map_option VSome (decode_val env t j))"

section \<open>Events\<close>

record event_schema =
  es_topic :: string
  es_fields :: "(string \<times> field_type) list"

fun if_missing :: "field_type \<Rightarrow> field_val option" where
  "if_missing (TyOpt t) = Some VNone"
| "if_missing t = None"

definition field_of :: "event_env \<Rightarrow> (string \<times> json) list \<Rightarrow> string \<times> field_type \<Rightarrow> field_val option" where
  "field_of env fs f =
     (case filter (\<lambda>p. fst p = fst f) fs of
        [] \<Rightarrow> if_missing (snd f)
      | [p] \<Rightarrow> decode_val env (snd f) (snd p)
      | _ \<Rightarrow> None)"

definition encode_event :: "event_env \<Rightarrow> event_schema \<Rightarrow> field_val list \<Rightarrow> json" where
  "encode_event env s vs = JObj (zip (map fst (es_fields s)) (map (encode_val env) vs))"

definition decode_event :: "event_env \<Rightarrow> event_schema \<Rightarrow> json \<Rightarrow> field_val list option" where
  "decode_event env s j =
     (case j of
        JObj fs \<Rightarrow> those (map (field_of env fs) (es_fields s))
      | JArr xs \<Rightarrow>
        (if length xs = length (es_fields s)
         then those (map2 (\<lambda>f x. decode_val env (snd f) x) (es_fields s) xs)
         else None)
      | _ \<Rightarrow> None)"

definition schema_version :: int where
  "schema_version = 1"

subsection \<open>\<open>events/account.rs\<close>\<close>

definition account_created_event :: event_schema where
  "account_created_event = \<lparr>es_topic = ''kova.account.created'', es_fields =
     [(''schema_version'', TyU8), (''event_id'', TyId), (''account_id'', TyId),
      (''user_id'', TyId), (''currency'', TyCurrency), (''account_number'', TyText),
      (''occurred_at'', TyTime)]\<rparr>"

definition account_activated_event :: event_schema where
  "account_activated_event = \<lparr>es_topic = ''kova.account.activated'', es_fields =
     [(''schema_version'', TyU8), (''event_id'', TyId), (''account_id'', TyId),
      (''user_id'', TyId), (''activated_at'', TyTime), (''occurred_at'', TyTime)]\<rparr>"

definition account_suspended_event :: event_schema where
  "account_suspended_event = \<lparr>es_topic = ''kova.account.suspended'', es_fields =
     [(''schema_version'', TyU8), (''event_id'', TyId), (''account_id'', TyId),
      (''user_id'', TyId), (''reason'', TyText), (''suspended_at'', TyTime),
      (''occurred_at'', TyTime)]\<rparr>"

definition account_closed_event :: event_schema where
  "account_closed_event = \<lparr>es_topic = ''kova.account.closed'', es_fields =
     [(''schema_version'', TyU8), (''event_id'', TyId), (''account_id'', TyId),
      (''user_id'', TyId), (''reason'', TyText), (''closed_at'', TyTime),
      (''occurred_at'', TyTime)]\<rparr>"

definition account_limit_changed_event :: event_schema where
  "account_limit_changed_event = \<lparr>es_topic = ''kova.account.limit_changed'', es_fields =
     [(''schema_version'', TyU8), (''event_id'', TyId), (''account_id'', TyId),
      (''user_id'', TyId), (''limit_type'', TyText), (''old_limit'', TyDec),
      (''new_limit'', TyDec), (''currency'', TyCurrency), (''occurred_at'', TyTime)]\<rparr>"

subsection \<open>\<open>events/card.rs\<close>\<close>

definition card_issued_event :: event_schema where
  "card_issued_event = \<lparr>es_topic = ''kova.card.issued'', es_fields =
     [(''schema_version'', TyU8), (''event_id'', TyId), (''card_id'', TyId), (''user_id'', TyId),
      (''account_id'', TyId), (''card_type'', TyText), (''last_four'', TyText),
      (''issued_at'', TyTime), (''occurred_at'', TyTime)]\<rparr>"

definition card_activated_event :: event_schema where
  "card_activated_event = \<lparr>es_topic = ''kova.card.activated'', es_fields =
     [(''schema_version'', TyU8), (''event_id'', TyId), (''card_id'', TyId), (''user_id'', TyId),
      (''activated_at'', TyTime), (''occurred_at'', TyTime)]\<rparr>"

definition card_blocked_event :: event_schema where
  "card_blocked_event = \<lparr>es_topic = ''kova.card.blocked'', es_fields =
     [(''schema_version'', TyU8), (''event_id'', TyId), (''card_id'', TyId), (''user_id'', TyId),
      (''reason'', TyText), (''blocked_at'', TyTime), (''occurred_at'', TyTime)]\<rparr>"

definition card_unblocked_event :: event_schema where
  "card_unblocked_event = \<lparr>es_topic = ''kova.card.unblocked'', es_fields =
     [(''schema_version'', TyU8), (''event_id'', TyId), (''card_id'', TyId), (''user_id'', TyId),
      (''occurred_at'', TyTime)]\<rparr>"

definition card_expired_event :: event_schema where
  "card_expired_event = \<lparr>es_topic = ''kova.card.expired'', es_fields =
     [(''schema_version'', TyU8), (''event_id'', TyId), (''card_id'', TyId), (''user_id'', TyId),
      (''expired_at'', TyTime), (''occurred_at'', TyTime)]\<rparr>"

definition card_transaction_approved_event :: event_schema where
  "card_transaction_approved_event = \<lparr>es_topic = ''kova.card.transaction.approved'', es_fields =
     [(''schema_version'', TyU8), (''event_id'', TyId), (''card_id'', TyId), (''user_id'', TyId),
      (''merchant_name'', TyText), (''merchant_category_code'', TyText), (''amount'', TyDec),
      (''currency'', TyCurrency), (''occurred_at'', TyTime)]\<rparr>"

definition card_transaction_declined_event :: event_schema where
  "card_transaction_declined_event = \<lparr>es_topic = ''kova.card.transaction.declined'', es_fields =
     [(''schema_version'', TyU8), (''event_id'', TyId), (''card_id'', TyId), (''user_id'', TyId),
      (''merchant_name'', TyText), (''merchant_category_code'', TyText), (''amount'', TyDec),
      (''currency'', TyCurrency), (''decline_reason'', TyDecline),
      (''occurred_at'', TyTime)]\<rparr>"

subsection \<open>\<open>events/fraud.rs\<close>\<close>

definition fraud_decision_event :: event_schema where
  "fraud_decision_event = \<lparr>es_topic = ''kova.fraud.decision'', es_fields =
     [(''schema_version'', TyU8), (''event_id'', TyId), (''payment_id'', TyId),
      (''user_id'', TyId), (''decision'', TyDecision), (''risk_score'', TyRisk),
      (''reason'', TyText), (''occurred_at'', TyTime)]\<rparr>"

definition fraud_case_created_event :: event_schema where
  "fraud_case_created_event = \<lparr>es_topic = ''kova.fraud.case_created'', es_fields =
     [(''schema_version'', TyU8), (''event_id'', TyId), (''case_id'', TyText),
      (''payment_id'', TyId), (''user_id'', TyId), (''risk_score'', TyRisk),
      (''assigned_to'', TyOpt TyText), (''created_at'', TyTime),
      (''occurred_at'', TyTime)]\<rparr>"

subsection \<open>\<open>events/kyc.rs\<close>\<close>

definition kyc_submitted_event :: event_schema where
  "kyc_submitted_event = \<lparr>es_topic = ''kova.kyc.submitted'', es_fields =
     [(''schema_version'', TyU8), (''event_id'', TyId), (''user_id'', TyId),
      (''application_id'', TyId), (''submitted_at'', TyTime), (''occurred_at'', TyTime)]\<rparr>"

definition kyc_document_uploaded_event :: event_schema where
  "kyc_document_uploaded_event = \<lparr>es_topic = ''kova.kyc.document_uploaded'', es_fields =
     [(''schema_version'', TyU8), (''event_id'', TyId), (''document_id'', TyId),
      (''user_id'', TyId), (''document_type'', TyText), (''uploaded_at'', TyTime),
      (''occurred_at'', TyTime)]\<rparr>"

definition kyc_review_started_event :: event_schema where
  "kyc_review_started_event = \<lparr>es_topic = ''kova.kyc.review_started'', es_fields =
     [(''schema_version'', TyU8), (''event_id'', TyId), (''user_id'', TyId),
      (''application_id'', TyId), (''reviewer_id'', TyOpt TyId), (''started_at'', TyTime),
      (''occurred_at'', TyTime)]\<rparr>"

definition kyc_approved_event :: event_schema where
  "kyc_approved_event = \<lparr>es_topic = ''kova.kyc.approved'', es_fields =
     [(''schema_version'', TyU8), (''event_id'', TyId), (''user_id'', TyId),
      (''application_id'', TyId), (''risk_level'', TyRiskLevel), (''approved_at'', TyTime),
      (''occurred_at'', TyTime)]\<rparr>"

definition kyc_rejected_event :: event_schema where
  "kyc_rejected_event = \<lparr>es_topic = ''kova.kyc.rejected'', es_fields =
     [(''schema_version'', TyU8), (''event_id'', TyId), (''user_id'', TyId),
      (''application_id'', TyId), (''rejection_reason'', TyText), (''can_resubmit'', TyBool),
      (''rejected_at'', TyTime), (''occurred_at'', TyTime)]\<rparr>"

subsection \<open>\<open>events/ledger.rs\<close>\<close>

definition ledger_entry_created_event :: event_schema where
  "ledger_entry_created_event = \<lparr>es_topic = ''kova.ledger.entry_created'', es_fields =
     [(''schema_version'', TyU8), (''event_id'', TyId), (''entry_id'', TyId),
      (''payment_id'', TyId), (''user_id'', TyId), (''debit_account_id'', TyId),
      (''credit_account_id'', TyId), (''amount'', TyDec), (''currency'', TyCurrency),
      (''entry_type'', TyText), (''occurred_at'', TyTime)]\<rparr>"

definition ledger_reconciliation_event :: event_schema where
  "ledger_reconciliation_event = \<lparr>es_topic = ''kova.ledger.reconciliation'', es_fields =
     [(''schema_version'', TyU8), (''event_id'', TyId), (''currency'', TyCurrency),
      (''entries_checked'', TyU64), (''discrepancies_found'', TyU32), (''total_debits'', TyDec),
      (''total_credits'', TyDec), (''window_start'', TyTime), (''window_end'', TyTime),
      (''occurred_at'', TyTime)]\<rparr>"

subsection \<open>\<open>events/notification.rs\<close>\<close>

definition push_notification_requested_event :: event_schema where
  "push_notification_requested_event = \<lparr>es_topic = ''kova.notification.push_requested'', es_fields =
     [(''schema_version'', TyU8), (''event_id'', TyId), (''user_id'', TyId),
      (''notification_type'', TyNotification), (''title'', TyText), (''body'', TyText),
      (''deep_link'', TyOpt TyText), (''extra'', TyOpt TyAny), (''occurred_at'', TyTime)]\<rparr>"

definition in_app_notification_event :: event_schema where
  "in_app_notification_event = \<lparr>es_topic = ''kova.notification.in_app'', es_fields =
     [(''schema_version'', TyU8), (''event_id'', TyId), (''user_id'', TyId),
      (''notification_type'', TyNotification), (''title'', TyText), (''body'', TyText),
      (''deep_link'', TyOpt TyText), (''occurred_at'', TyTime)]\<rparr>"

subsection \<open>\<open>events/payment.rs\<close>\<close>

definition payment_initiated_event :: event_schema where
  "payment_initiated_event = \<lparr>es_topic = ''kova.payment.initiated'', es_fields =
     [(''schema_version'', TyU8), (''event_id'', TyId), (''payment_id'', TyId),
      (''user_id'', TyId), (''source_account_id'', TyId), (''destination_account_id'', TyId),
      (''amount'', TyDec), (''currency'', TyCurrency), (''rail'', TyText),
      (''idempotency_key'', TyText), (''occurred_at'', TyTime)]\<rparr>"

definition payment_validated_event :: event_schema where
  "payment_validated_event = \<lparr>es_topic = ''kova.payment.validated'', es_fields =
     [(''schema_version'', TyU8), (''event_id'', TyId), (''payment_id'', TyId),
      (''user_id'', TyId), (''validation_passed'', TyBool), (''failure_reason'', TyOpt TyText),
      (''occurred_at'', TyTime)]\<rparr>"

definition payment_fraud_checked_event :: event_schema where
  "payment_fraud_checked_event = \<lparr>es_topic = ''kova.payment.fraud_checked'', es_fields =
     [(''schema_version'', TyU8), (''event_id'', TyId), (''payment_id'', TyId),
      (''user_id'', TyId), (''decision'', TyText), (''risk_score'', TyU8),
      (''occurred_at'', TyTime)]\<rparr>"

definition payment_fx_converted_event :: event_schema where
  "payment_fx_converted_event = \<lparr>es_topic = ''kova.payment.fx_converted'', es_fields =
     [(''schema_version'', TyU8), (''event_id'', TyId), (''payment_id'', TyId),
      (''user_id'', TyId), (''from_currency'', TyCurrency), (''to_currency'', TyCurrency),
      (''rate'', TyDec), (''source_amount'', TyDec), (''converted_amount'', TyDec),
      (''occurred_at'', TyTime)]\<rparr>"

definition payment_settled_event :: event_schema where
  "payment_settled_event = \<lparr>es_topic = ''kova.payment.settled'', es_fields =
     [(''schema_version'', TyU8), (''event_id'', TyId), (''payment_id'', TyId),
      (''user_id'', TyId), (''amount'', TyDec), (''currency'', TyCurrency),
      (''rail_reference'', TyText), (''settled_at'', TyTime), (''occurred_at'', TyTime)]\<rparr>"

definition payment_failed_event :: event_schema where
  "payment_failed_event = \<lparr>es_topic = ''kova.payment.failed'', es_fields =
     [(''schema_version'', TyU8), (''event_id'', TyId), (''payment_id'', TyId),
      (''user_id'', TyId), (''reason'', TyText), (''failed_at'', TyTime),
      (''occurred_at'', TyTime)]\<rparr>"

definition payment_refunded_event :: event_schema where
  "payment_refunded_event = \<lparr>es_topic = ''kova.payment.refunded'', es_fields =
     [(''schema_version'', TyU8), (''event_id'', TyId), (''payment_id'', TyId),
      (''user_id'', TyId), (''amount'', TyDec), (''currency'', TyCurrency),
      (''refunded_at'', TyTime), (''occurred_at'', TyTime)]\<rparr>"

definition payment_expired_event :: event_schema where
  "payment_expired_event = \<lparr>es_topic = ''kova.payment.expired'', es_fields =
     [(''schema_version'', TyU8), (''event_id'', TyId), (''payment_id'', TyId),
      (''user_id'', TyId), (''expired_at'', TyTime), (''occurred_at'', TyTime)]\<rparr>"

definition all_events :: "event_schema list" where
  "all_events =
     [account_created_event, account_activated_event, account_suspended_event,
      account_closed_event, account_limit_changed_event, card_issued_event,
      card_activated_event, card_blocked_event, card_unblocked_event, card_expired_event,
      card_transaction_approved_event, card_transaction_declined_event, fraud_decision_event,
      fraud_case_created_event, kyc_submitted_event, kyc_document_uploaded_event,
      kyc_review_started_event, kyc_approved_event, kyc_rejected_event,
      ledger_entry_created_event, ledger_reconciliation_event,
      push_notification_requested_event, in_app_notification_event, payment_initiated_event,
      payment_validated_event, payment_fraud_checked_event, payment_fx_converted_event,
      payment_settled_event, payment_failed_event, payment_refunded_event,
      payment_expired_event]"

lemmas event_schema_defs =
  account_created_event_def account_activated_event_def account_suspended_event_def
  account_closed_event_def account_limit_changed_event_def card_issued_event_def
  card_activated_event_def card_blocked_event_def card_unblocked_event_def
  card_expired_event_def card_transaction_approved_event_def
  card_transaction_declined_event_def fraud_decision_event_def fraud_case_created_event_def
  kyc_submitted_event_def kyc_document_uploaded_event_def kyc_review_started_event_def
  kyc_approved_event_def kyc_rejected_event_def ledger_entry_created_event_def
  ledger_reconciliation_event_def push_notification_requested_event_def
  in_app_notification_event_def payment_initiated_event_def payment_validated_event_def
  payment_fraud_checked_event_def payment_fx_converted_event_def payment_settled_event_def
  payment_failed_event_def payment_refunded_event_def payment_expired_event_def

section \<open>Typing\<close>

definition in_range :: "int \<Rightarrow> field_val \<Rightarrow> bool" where
  "in_range m v \<longleftrightarrow> (case v of VNum n \<Rightarrow> 0 \<le> n \<and> n \<le> m | _ \<Rightarrow> False)"

primrec well_typed :: "field_type \<Rightarrow> field_val \<Rightarrow> bool" where
  "well_typed TyU8 v \<longleftrightarrow> in_range 255 v"
| "well_typed TyU32 v \<longleftrightarrow> in_range (2 ^ 32 - 1) v"
| "well_typed TyU64 v \<longleftrightarrow> in_range (2 ^ 64 - 1) v"
| "well_typed TyRisk v \<longleftrightarrow> in_range 255 v"
| "well_typed TyId v \<longleftrightarrow> (case v of VId u \<Rightarrow> True | _ \<Rightarrow> False)"
| "well_typed TyText v \<longleftrightarrow> (case v of VText s \<Rightarrow> True | _ \<Rightarrow> False)"
| "well_typed TyDec v \<longleftrightarrow> (case v of VDec d \<Rightarrow> True | _ \<Rightarrow> False)"
| "well_typed TyTime v \<longleftrightarrow> (case v of VTime t \<Rightarrow> True | _ \<Rightarrow> False)"
| "well_typed TyBool v \<longleftrightarrow> (case v of VBool b \<Rightarrow> True | _ \<Rightarrow> False)"
| "well_typed (TyEnum ns) v \<longleftrightarrow> (case v of VText s \<Rightarrow> s \<in> set ns | _ \<Rightarrow> False)"
| "well_typed TyAny v \<longleftrightarrow> (case v of VAny j \<Rightarrow> True | _ \<Rightarrow> False)"
| "well_typed (TyOpt t) v \<longleftrightarrow> (case v of VNone \<Rightarrow> True | VSome w \<Rightarrow> well_typed t w | _ \<Rightarrow> False)"

primrec score_ok :: "field_type \<Rightarrow> field_val \<Rightarrow> bool" where
  "score_ok TyU8 v \<longleftrightarrow> True"
| "score_ok TyU32 v \<longleftrightarrow> True"
| "score_ok TyU64 v \<longleftrightarrow> True"
| "score_ok TyRisk v \<longleftrightarrow> in_range 100 v"
| "score_ok TyId v \<longleftrightarrow> True"
| "score_ok TyText v \<longleftrightarrow> True"
| "score_ok TyDec v \<longleftrightarrow> True"
| "score_ok TyTime v \<longleftrightarrow> True"
| "score_ok TyBool v \<longleftrightarrow> True"
| "score_ok (TyEnum ns) v \<longleftrightarrow> True"
| "score_ok TyAny v \<longleftrightarrow> True"
| "score_ok (TyOpt t) v \<longleftrightarrow> (case v of VSome w \<Rightarrow> score_ok t w | _ \<Rightarrow> True)"

text \<open>Values with a text form: \<open>rust_decimal\<close> holds a mantissa of 96 bits and at most 28
  places, a year has four digits; \<open>Some(Value::Null)\<close> is written as \<open>None\<close> is.\<close>

definition dec_repr :: "decimal \<Rightarrow> bool" where
  "dec_repr d \<longleftrightarrow> \<bar>mant d\<bar> < 2 ^ 96 \<and> dscale d \<le> 28"

definition time_repr :: "datetime \<Rightarrow> bool" where
  "time_repr t \<longleftrightarrow> 0 \<le> t \<and> t < 253402300800 * 10 ^ 9"

fun representable :: "field_val \<Rightarrow> bool" where
  "representable (VDec d) \<longleftrightarrow> dec_repr d"
| "representable (VTime t) \<longleftrightarrow> time_repr t"
| "representable (VSome v) \<longleftrightarrow> v \<noteq> VNone \<and> v \<noteq> VAny JNull \<and> representable v"
| "representable _ \<longleftrightarrow> True"

definition event_env_ok :: "event_env \<Rightarrow> bool" where
  "event_env_ok env \<longleftrightarrow>
     (\<forall>u. ev_uuid_read env (ev_uuid_show env u) = Some u) \<and>
     (\<forall>d. dec_repr d \<longrightarrow> ev_dec_read env (ev_dec_show env d) = Some d) \<and>
     (\<forall>t. time_repr t \<longrightarrow> ev_time_read env (ev_time_show env t) = Some t)"

section \<open>Lemmas\<close>

lemma those_eq_Some: "those xs = Some ys \<longleftrightarrow> xs = map Some ys"
proof (induction xs arbitrary: ys)
  case Nil
  then show ?case by auto
next
  case (Cons x xs)
  then show ?case by (cases x; cases ys) (auto split: option.splits)
qed

lemma those_eq_None: "those xs = None \<longleftrightarrow> None \<in> set xs"
proof (induction xs)
  case (Cons x xs)
  then show ?case by (cases x) auto
qed simp

lemma num_upto_JNum [simp]: "num_upto m (JNum n) = (if 0 \<le> n \<and> n \<le> m then Some (VNum n) else None)"
  by (simp add: num_upto_def)

lemma num_upto_Some: "num_upto m j = Some v \<Longrightarrow> \<exists>n. v = VNum n \<and> j = JNum n \<and> 0 \<le> n \<and> n \<le> m"
  by (auto simp: num_upto_def split: json.splits if_splits)

lemma encode_val_JNull: "encode_val env v = JNull \<Longrightarrow> representable v \<Longrightarrow> v = VNone \<or> v = VAny JNull"
  by (induction v) auto

lemma in_range_VNum [simp]: "in_range m (VNum n) \<longleftrightarrow> 0 \<le> n \<and> n \<le> m"
  by (simp add: in_range_def)

lemma in_rangeD: "in_range m v \<Longrightarrow> \<exists>n. v = VNum n \<and> 0 \<le> n \<and> n \<le> m"
  by (auto simp: in_range_def split: field_val.splits)

lemma decode_encode_val:
  assumes "event_env_ok env" and "well_typed t v" and "representable v"
  shows "decode_val env t (encode_val env v) = (if score_ok t v then Some v else None)"
  using assms(2,3)
proof (induction t arbitrary: v)
  case (TyOpt t)
  show ?case
  proof (cases "v = VNone")
    case False
    then obtain w where w: "v = VSome w" "well_typed t w" "representable w" "w \<noteq> VNone" "w \<noteq> VAny JNull"
      using TyOpt.prems by (auto split: field_val.splits)
    then have "encode_val env w \<noteq> JNull"
      using encode_val_JNull by blast
    with w TyOpt.IH [OF w(2,3)] show ?thesis by simp
  qed simp
qed (use assms(1) in \<open>auto simp: event_env_ok_def deserialize_risk_score_def json_str_def variant_name_def
        dest!: in_rangeD split: field_val.splits\<close>)

lemma decode_val_typed:
  "decode_val env t j = Some v \<Longrightarrow> well_typed t v \<and> score_ok t v"
proof (induction t arbitrary: v)
  case TyRisk
  then show ?case
    by (auto simp: deserialize_risk_score_def bind_eq_Some_conv dest!: num_upto_Some split: if_splits)
qed (auto dest!: num_upto_Some simp: bind_eq_Some_conv split: if_splits json.splits)

lemma if_missing_typed: "if_missing t = Some v \<Longrightarrow> well_typed t v \<and> score_ok t v"
  by (cases t) auto

lemma field_of_typed: "field_of env fs f = Some v \<Longrightarrow> well_typed (snd f) v \<and> score_ok (snd f) v"
  by (auto simp: field_of_def dest: if_missing_typed decode_val_typed split: list.splits)

lemma filter_single:
  "distinct (map fst fs) \<Longrightarrow> (k, x) \<in> set fs \<Longrightarrow> filter (\<lambda>p. fst p = k) fs = [(k, x)]"
proof (induction fs)
  case (Cons p fs)
  then show ?case
  proof (cases "p = (k, x)")
    case True
    with Cons.prems(1) have "\<forall>q \<in> set fs. fst q \<noteq> k" by force
    with True show ?thesis by (simp add: filter_empty_conv)
  next
    case False
    with Cons.prems have "(k, x) \<in> set fs" by auto
    moreover from this have "k \<in> fst ` set fs" by (metis fst_conv image_eqI)
    with Cons.prems(1) have "fst p \<noteq> k" by auto
    ultimately show ?thesis using Cons by simp
  qed
qed simp

lemma all_events_distinct: "s \<in> set all_events \<Longrightarrow> distinct (map fst (es_fields s))"
  unfolding all_events_def by (auto simp: event_schema_defs)

text \<open>Every struct starts with the version and ends with the time of the event.\<close>

lemma all_events_shape:
  "s \<in> set all_events \<Longrightarrow>
    hd (es_fields s) = (''schema_version'', TyU8) \<and> last (es_fields s) = (''occurred_at'', TyTime)"
  unfolding all_events_def by (auto simp: event_schema_defs)

lemma decode_encode_event:
  assumes "event_env_ok env" and "distinct (map fst (es_fields s))"
    and "list_all2 well_typed (map snd (es_fields s)) vs" and "list_all representable vs"
  shows "decode_event env s (encode_event env s vs) =
    (if list_all2 score_ok (map snd (es_fields s)) vs then Some vs else None)"
proof -
  let ?fs = "zip (map fst (es_fields s)) (map (encode_val env) vs)"
  have len: "length vs = length (es_fields s)"
    using list_all2_lengthD [OF assms(3)] by simp
  have dist: "distinct (map fst ?fs)"
    using assms(2) len by simp
  have fld: "field_of env ?fs (es_fields s ! i) =
      (if score_ok (snd (es_fields s ! i)) (vs ! i) then Some (vs ! i) else None)"
    if "i < length vs" for i
  proof -
    have "(fst (es_fields s ! i), encode_val env (vs ! i)) \<in> set ?fs"
      using that len by (auto simp: in_set_zip intro!: exI [of _ i])
    from filter_single [OF dist this] have "field_of env ?fs (es_fields s ! i) =
        decode_val env (snd (es_fields s ! i)) (encode_val env (vs ! i))"
      by (simp add: field_of_def)
    moreover have "well_typed (snd (es_fields s ! i)) (vs ! i)"
      using list_all2_nthD2 [OF assms(3) that] that len by simp
    moreover have "representable (vs ! i)"
      using assms(4) that by (simp add: list_all_length)
    ultimately show ?thesis
      by (simp add: decode_encode_val [OF assms(1)])
  qed
  have "map (field_of env ?fs) (es_fields s) =
      map (\<lambda>i. if score_ok (snd (es_fields s ! i)) (vs ! i) then Some (vs ! i) else None) [0 ..< length vs]"
    by (rule nth_equalityI) (simp_all add: len fld)
  moreover have "list_all2 score_ok (map snd (es_fields s)) vs \<longleftrightarrow>
      (\<forall>i < length vs. score_ok (snd (es_fields s ! i)) (vs ! i))"
    using len by (auto simp: list_all2_conv_all_nth)
  ultimately show ?thesis
    by (auto simp: decode_event_def encode_event_def those_eq_None those_eq_Some intro!: nth_equalityI)
qed

lemma decode_event_typed:
  assumes "decode_event env s j = Some vs"
  shows "list_all2 well_typed (map snd (es_fields s)) vs \<and> list_all2 score_ok (map snd (es_fields s)) vs"
proof (cases j)
  case (JObj fs)
  with assms have eq: "map (field_of env fs) (es_fields s) = map Some vs"
    by (simp add: decode_event_def those_eq_Some)
  then have len: "length vs = length (es_fields s)" by (metis length_map)
  have "field_of env fs (es_fields s ! i) = Some (vs ! i)" if "i < length vs" for i
    using arg_cong [OF eq, of "\<lambda>xs. xs ! i"] that len by simp
  with len show ?thesis
    by (auto simp: list_all2_conv_all_nth dest: field_of_typed)
next
  case (JArr xs)
  with assms have len: "length xs = length (es_fields s)"
      and eq: "map2 (\<lambda>f x. decode_val env (snd f) x) (es_fields s) xs = map Some vs"
    by (auto simp: decode_event_def those_eq_Some split: if_splits)
  then have len2: "length vs = length (es_fields s)" by (metis length_map length_zip min.idem)
  have "decode_val env (snd (es_fields s ! i)) (xs ! i) = Some (vs ! i)" if "i < length vs" for i
    using arg_cong [OF eq, of "\<lambda>xs. xs ! i"] that len len2 by simp
  with len2 show ?thesis
    by (auto simp: list_all2_conv_all_nth dest: decode_val_typed)
qed (use assms in \<open>simp_all add: decode_event_def\<close>)

section \<open>Properties\<close>

text \<open>C35: Every event survives its JSON form: decoding what a service encoded gives back the same
  fields, for each of the 31 event structs and all values of the fields' types that have a text
  form, with one exception: a fraud event whose score is above 100 (its type, \<open>u8\<close>, allows 255) is
  written by the producer and refused by every consumer.\<close>

theorem event_roundtrip:
  assumes "event_env_ok env" and "s \<in> set all_events"
    and "list_all2 well_typed (map snd (es_fields s)) vs" and "list_all representable vs"
  shows "decode_event env s (encode_event env s vs) =
    (if list_all2 score_ok (map snd (es_fields s)) vs then Some vs else None)"
  by (rule decode_encode_event [OF assms(1) all_events_distinct [OF assms(2)] assms(3,4)])

text \<open>An environment in which the text forms can be read back, as strings of the numbers.\<close>

definition demo_event_env :: event_env where
  "demo_event_env =
     \<lparr>ev_uuid_show = (\<lambda>u. show_nat (unat u)), ev_uuid_read = (\<lambda>s. Some (of_nat (read_nat s))),
      ev_dec_show = (\<lambda>d. (if mant d < 0 then ''-'' else ''+'') @ replicate (dscale d) CHR ''.'' @
         show_nat (nat \<bar>mant d\<bar>)),
      ev_dec_read = (\<lambda>s. let n = int (read_nat (dropWhile (\<lambda>c. c = CHR ''.'') (tl s))) in
         Some \<lparr>mant = (if hd s = CHR ''-'' then - n else n),
               dscale = length (takeWhile (\<lambda>c. c = CHR ''.'') (tl s))\<rparr>),
      ev_time_show = (\<lambda>t. show_nat (nat t)), ev_time_read = (\<lambda>s. Some (int (read_nat s)))\<rparr>"

lemma demo_event_env_ok: "event_env_ok demo_event_env"
proof -
  have hd_dot: "c \<noteq> CHR ''.''" if "c \<in> set (show_nat n)" for c n
    using show_nat_digits [of n] that by (auto simp: is_ascii_digit_def)
  have drop: "dropWhile (\<lambda>c. c = CHR ''.'') (replicate k CHR ''.'' @ show_nat n) = show_nat n" for k n
    using hd_dot [of "hd (show_nat n)" n] by (induction k) (auto simp: dropWhile_eq_self_iff)
  have take: "takeWhile (\<lambda>c. c = CHR ''.'') (replicate k CHR ''.'' @ show_nat n) = replicate k CHR ''.''" for k n
    using hd_dot [of "hd (show_nat n)" n] by (induction k) (auto simp: takeWhile_eq_Nil_iff)
  show ?thesis
    by (auto simp: event_env_ok_def demo_event_env_def drop take Let_def time_repr_def)
qed

theorem event_roundtrip_witness:
  "decode_event demo_event_env fraud_decision_event (encode_event demo_event_env fraud_decision_event
     [VNum 1, VId 7, VId 8, VId 9, VText ''block'', VNum 101, VText ''velocity'', VTime 5]) = None"
proof -
  let ?vs = "[VNum 1, VId 7, VId 8, VId 9, VText ''block'', VNum 101, VText ''velocity'', VTime 5]"
  have "fraud_decision_event \<in> set all_events" by (simp add: all_events_def)
  moreover have "list_all2 well_typed (map snd (es_fields fraud_decision_event)) ?vs"
    by (simp add: fraud_decision_event_def fraud_decision_table_def)
  moreover have "list_all representable ?vs" by (simp add: time_repr_def)
  ultimately show ?thesis
    using event_roundtrip [OF demo_event_env_ok, of fraud_decision_event ?vs]
    by (simp add: fraud_decision_event_def)
qed

text \<open>Where the scores are, and what they can be.\<close>

lemma risk_score_range:
  assumes "list_all2 well_typed (map snd (es_fields s)) vs" and "list_all2 score_ok (map snd (es_fields s)) vs"
    and "s \<in> {fraud_decision_event, fraud_case_created_event}"
  shows "\<exists>n. vs ! 5 = VNum n \<and> 0 \<le> n \<and> n \<le> 100"
proof -
  from assms(3) have "5 < length (map snd (es_fields s))" "map snd (es_fields s) ! 5 = TyRisk"
    by (auto simp: fraud_decision_event_def fraud_case_created_event_def)
  with list_all2_nthD [OF assms(2), of 5] have "in_range 100 (vs ! 5)" by simp
  then show ?thesis by (auto dest: in_rangeD)
qed

lemma checked_score_range:
  assumes "list_all2 well_typed (map snd (es_fields s)) vs" and "s = payment_fraud_checked_event"
  shows "\<exists>n. vs ! 5 = VNum n \<and> 0 \<le> n \<and> n \<le> 255"
proof -
  from assms(2) have "5 < length (map snd (es_fields s))" "map snd (es_fields s) ! 5 = TyU8"
    by (simp_all add: payment_fraud_checked_event_def)
  with list_all2_nthD [OF assms(1), of 5] have "in_range 255 (vs ! 5)" by simp
  then show ?thesis by (auto dest: in_rangeD)
qed

text \<open>Every \<open>u8\<close> is read as the score of a payment's fraud check.\<close>

theorem payment_fraud_score_is_not_checked:
  assumes "event_env_ok env" and "0 \<le> n" and "n \<le> 255" and "time_repr t"
  shows "\<exists>j vs. decode_event env payment_fraud_checked_event j = Some vs \<and> vs ! 5 = VNum n"
proof -
  let ?vs = "[VNum 1, VId 7, VId 8, VId 9, VText ''Allow'', VNum n, VTime t]"
  have "decode_event env payment_fraud_checked_event (encode_event env payment_fraud_checked_event ?vs) = Some ?vs"
    using assms by (subst decode_encode_event) (auto simp: payment_fraud_checked_event_def)
  then show ?thesis by (intro exI [of _ ?vs] exI conjI) simp_all
qed

theorem payment_fraud_score_is_not_checked_witness:
  "\<exists>j vs. decode_event demo_event_env payment_fraud_checked_event j = Some vs \<and> vs ! 5 = VNum 200"
  by (rule payment_fraud_score_is_not_checked [OF demo_event_env_ok, where t = 0]) (simp_all add: time_repr_def)

text \<open>C40: Decoding is typed and open: whatever JSON object arrives, a decoded event has exactly the fields
  of its struct, each a value of the field's type.  The score of a fraud decision and of a fraud
  case, the two that \<open>deserialize_risk_score\<close> reads, is within 0 and 100; the score of a payment's
  fraud check is any \<open>u8\<close>, though its comment says 0 to 100
  (\<open>payment_fraud_score_is_not_checked\<close>).  Fields the struct does not know make no difference, so an
  event of a later schema version that only adds fields is read.\<close>

theorem event_decoding_is_typed_and_open:
  assumes "decode_event env s (JObj (fs @ gs)) = Some vs"
    and "\<forall>k \<in> fst ` set extra. k \<notin> fst ` set (es_fields s)"
  shows "list_all2 well_typed (map snd (es_fields s)) vs \<and>
    list_all2 score_ok (map snd (es_fields s)) vs \<and>
    (s \<in> {fraud_decision_event, fraud_case_created_event} \<longrightarrow> (\<exists>n. vs ! 5 = VNum n \<and> 0 \<le> n \<and> n \<le> 100)) \<and>
    (s = payment_fraud_checked_event \<longrightarrow> (\<exists>n. vs ! 5 = VNum n \<and> 0 \<le> n \<and> n \<le> 255)) \<and>
    decode_event env s (JObj (fs @ extra @ gs)) = Some vs"
proof -
  have "field_of env (fs @ extra @ gs) f = field_of env (fs @ gs) f" if "f \<in> set (es_fields s)" for f
  proof -
    have "filter (\<lambda>p. fst p = fst f) extra = []"
      using assms(2) that by (auto simp: filter_empty_conv)
    then show ?thesis by (simp add: field_of_def)
  qed
  then have "map (field_of env (fs @ extra @ gs)) (es_fields s) = map (field_of env (fs @ gs)) (es_fields s)"
    by simp
  then have "decode_event env s (JObj (fs @ extra @ gs)) = decode_event env s (JObj (fs @ gs))"
    unfolding decode_event_def json.case by (rule arg_cong)
  then have "decode_event env s (JObj (fs @ extra @ gs)) = Some vs" using assms(1) by simp
  moreover from decode_event_typed [OF assms(1)] have typed: "list_all2 well_typed (map snd (es_fields s)) vs"
    "list_all2 score_ok (map snd (es_fields s)) vs" by simp_all
  ultimately show ?thesis
    using risk_score_range [OF typed] checked_score_range [OF typed(1)] by blast
qed

theorem event_decoding_is_typed_and_open_witness:
  "decode_event demo_event_env card_unblocked_event (JObj ([(''schema_version'', JNum 2),
     (''event_id'', JStr ''7''), (''card_id'', JStr ''8''), (''user_id'', JStr ''9'')] @
     [(''region'', JStr ''eu'')] @ [(''occurred_at'', JStr ''5'')])) =
   Some [VNum 2, VId 7, VId 8, VId 9, VTime 5]"
proof -
  have r: "read_nat ''7'' = 7" "read_nat ''8'' = 8" "read_nat ''9'' = 9" "read_nat ''5'' = 5"
    by (simp_all add: read_nat_def digit_val_def)
  have "decode_event demo_event_env card_unblocked_event (JObj ([(''schema_version'', JNum 2),
     (''event_id'', JStr ''7''), (''card_id'', JStr ''8''), (''user_id'', JStr ''9'')] @
     [(''occurred_at'', JStr ''5'')])) = Some [VNum 2, VId 7, VId 8, VId 9, VTime 5]"
    by (simp add: decode_event_def card_unblocked_event_def field_of_def json_str_def
        demo_event_env_def r)
  from event_decoding_is_typed_and_open [OF this, of "[(''region'', JStr ''eu'')]"] show ?thesis
    by (simp add: card_unblocked_event_def)
qed

end
