(* ===== verification/Account_Db.thy ===== *)
theory Account_Db
  imports Gateway_Http Redis Effects Events Account_Status
begin

text \<open>
  What the handlers of \<open>services/kova-account\<close> share: the errors and their responses
  (\<open>error.rs\<close>), the table \<open>accounts\<close> and the sequence of account numbers (the migrations), the
  interfaces of the ledger, payments and event services with their stubs (\<open>clients.rs\<close>), and the
  extraction of the caller from the bearer token (\<open>handlers/mod.rs\<close>).

  Two columns of \<open>accounts\<close> that no code reads are left out: \<open>updated_at\<close> and
  \<open>account_number_idx\<close>.
\<close>

section \<open>Errors\<close>

datatype account_error =
    AeAlreadyExists
  | AeNotFound
  | AeUnsupportedCurrency
  | AeHasBalance string
  | AePendingPayments
  | AeAlreadyClosed
  | AeInvalidTransition string string
  | AeInvalidLimit
  | AeUnauthorized
  | AeDatabase sqlx_error
  | AeRedis string
  | AeLedgerClient string
  | AePaymentsClient string
  | AeEventPublish string

text \<open>The em dash of two messages, in UTF-8.\<close>

definition em_dash :: string where
  "em_dash = [CHR 0xE2, CHR 0x80, CHR 0x94]"

fun account_error_head :: "account_error \<Rightarrow> nat \<times> string \<times> string" where
  "account_error_head AeAlreadyExists =
     (409, ''ACCOUNT_ALREADY_EXISTS'', ''An account for this currency already exists'')"
| "account_error_head AeNotFound = (404, ''ACCOUNT_NOT_FOUND'', ''Account not found'')"
| "account_error_head AeUnsupportedCurrency =
     (400, ''UNSUPPORTED_CURRENCY'',
      ''Currency not supported '' @ em_dash @ '' must be one of: NGN, GBP, USD, KES'')"
| "account_error_head (AeHasBalance _) =
     (422, ''ACCOUNT_HAS_BALANCE'', ''Account must have a zero balance before closure'')"
| "account_error_head AePendingPayments =
     (422, ''PENDING_PAYMENTS_EXIST'',
      ''Account has pending payments '' @ em_dash @ '' wait for settlement before closure'')"
| "account_error_head AeAlreadyClosed = (409, ''ACCOUNT_ALREADY_CLOSED'', ''Account is already closed'')"
| "account_error_head (AeInvalidTransition _ _) =
     (422, ''INVALID_TRANSITION'', ''Invalid account status transition'')"
| "account_error_head AeInvalidLimit = (400, ''INVALID_LIMIT'', ''limit must be between 1 and 100'')"
| "account_error_head AeUnauthorized = (401, ''UNAUTHORIZED'', ''Missing or invalid access token'')"
| "account_error_head (AeDatabase _) = (500, ''DATABASE_ERROR'', ''A database error occurred'')"
| "account_error_head (AeRedis _) = (500, ''CACHE_ERROR'', ''A cache error occurred'')"
| "account_error_head (AeLedgerClient _) =
     (502, ''LEDGER_UNAVAILABLE'', ''The ledger service is unavailable'')"
| "account_error_head (AePaymentsClient _) =
     (502, ''PAYMENTS_UNAVAILABLE'', ''The payments service is unavailable'')"
| "account_error_head (AeEventPublish _) =
     (500, ''EVENT_PUBLISH_ERROR'', ''Failed to publish account event'')"

definition account_error_detail :: "account_error \<Rightarrow> json" where
  "account_error_detail e =
     (case e of
        AeHasBalance balance \<Rightarrow> JObj [(''current_balance'', JStr balance)]
      | AeInvalidTransition src tgt \<Rightarrow> JObj [(''from'', JStr src), (''to'', JStr tgt)]
      | _ \<Rightarrow> JNull)"

definition account_error_response :: "account_error \<Rightarrow> http_resp" where
  "account_error_response e =
     (case account_error_head e of
        (status, code, message) \<Rightarrow>
          \<lparr>hs_status = status, hs_headers = [],
           hs_body = envelope JNull
             (JObj [(''code'', JStr code), (''message'', JStr message), (''detail'', account_error_detail e)])
             (JObj [])\<rparr>)"

text \<open>The answer of a handler that succeeds: \<open>data\<close>, no error, and \<open>meta\<close>.\<close>

definition ok_response :: "nat \<Rightarrow> json \<Rightarrow> json \<Rightarrow> http_resp" where
  "ok_response status d meta = \<lparr>hs_status = status, hs_headers = [], hs_body = envelope d JNull meta\<rparr>"

text \<open>\<open>detail\<close> is \<open>null\<close> but for two errors, and every error status is a client or server error.\<close>

lemma account_error_status: "400 \<le> hs_status (account_error_response e)"
  by (cases e) (simp_all add: account_error_response_def)

lemma account_error_server: "500 \<le> hs_status (account_error_response e) \<longleftrightarrow>
    (\<exists>x. e = AeDatabase x) \<or> (\<exists>x. e = AeRedis x) \<or> (\<exists>x. e = AeLedgerClient x) \<or>
    (\<exists>x. e = AePaymentsClient x) \<or> (\<exists>x. e = AeEventPublish x)"
  by (cases e) (simp_all add: account_error_response_def)

section \<open>Tables\<close>

record account_row =
  ar_id :: id16
  ar_user :: id16
  ar_number :: string
  ar_currency :: string
  ar_status :: string
  ar_created :: int
  ar_closed :: "int option"

record account_db =
  ad_rows :: "account_row list"
  ad_seq :: nat

definition account_number_ok :: "string \<Rightarrow> bool" where
  "account_number_ok n \<longleftrightarrow>
     length n = 14 \<and> take 4 n = ''KOVA'' \<and> list_all is_ascii_digit (drop 4 n)"

text \<open>The two check constraints and the two enum columns.\<close>

definition account_row_ok :: "account_row \<Rightarrow> bool" where
  "account_row_ok r \<longleftrightarrow>
     account_number_ok (ar_number r) \<and>
     (ar_closed r = None \<or> ar_status r = ''Closed'') \<and>
     ar_status r \<in> set (map snd account_status_table) \<and>
     ar_currency r \<in> set (map snd currency_code_table)"

text \<open>\<open>INSERT INTO account_number_seq () VALUES ()\<close> and \<open>last_insert_id\<close>.\<close>

definition next_account_seq :: "(sqlx_error, nat, account_db) eff" where
  "next_account_seq db =
     (if ad_seq db < 2 ^ 64 - 1 then (Inr (ad_seq db), db\<lparr>ad_seq := ad_seq db + 1\<rparr>)
      else (Inl (SqlxOther ''auto-increment exhausted''), db))"

definition same_account_key :: "account_row \<Rightarrow> account_row \<Rightarrow> bool" where
  "same_account_key r q \<longleftrightarrow>
     ar_id q = ar_id r \<or> ar_number q = ar_number r \<or> (ar_user q = ar_user r \<and> ar_currency q = ar_currency r)"

definition insert_account :: "account_row \<Rightarrow> (sqlx_error, unit, account_db) eff" where
  "insert_account r db =
     (if \<not> account_row_ok r then (Inl (SqlxOther ''check constraint''), db)
      else if list_ex (same_account_key r) (ad_rows db) then (Inl UniqueViolation, db)
      else (Inr (), db\<lparr>ad_rows := ad_rows db @ [r]\<rparr>))"

section \<open>Code outside the repository\<close>

text \<open>
  \<open>UUID_TO_BIN(_, true)\<close> (\<open>None\<close>: the statement fails) and \<open>BIN_TO_UUID(_, true)\<close> of the engine;
  the printing and parsing of \<open>uuid\<close>; \<open>Decimal::to_string\<close>; \<open>to_rfc3339\<close>; the value a bound
  time gets in a \<open>DATETIME\<close> column and the time read back from one; printing and parsing of
  \<open>serde_json\<close>; \<open>base64\<close>; the token decoder (key, issuers, token); the text forms of the events.
\<close>

record account_env =
  ac_to_bin :: "string \<Rightarrow> id16 option"
  ac_from_bin :: "id16 \<Rightarrow> string"
  ac_uuid_show :: "uuid \<Rightarrow> string"
  ac_uuid_parse :: "string \<Rightarrow> uuid option"
  ac_dec_show :: "decimal \<Rightarrow> string"
  ac_rfc3339 :: "datetime \<Rightarrow> string"
  ac_to_column :: "datetime \<Rightarrow> int"
  ac_of_column :: "int \<Rightarrow> datetime option"
  ac_json_show :: "json \<Rightarrow> string"
  ac_json_read :: "string \<Rightarrow> json option"
  ac_b64_encode :: "byte list \<Rightarrow> string"
  ac_jwt :: "string \<Rightarrow> string list \<Rightarrow> string \<Rightarrow> (string \<times> string) option"
  ac_events :: event_env

definition to_bin :: "account_env \<Rightarrow> string \<Rightarrow> sqlx_error + id16" where
  "to_bin env s = ok_or (ac_to_bin env s) (SqlxOther ''incorrect string value for uuid_to_bin'')"

section \<open>Clients\<close>

record client_balance =
  cb_available :: decimal
  cb_pending :: decimal
  cb_currency :: currency_code

record client_entry =
  ce_entry_id :: string
  ce_amount :: decimal
  ce_direction :: string
  ce_description :: string
  ce_created :: datetime

record client_page =
  cp_entries :: "client_entry list"
  cp_next :: "string option"
  cp_more :: bool

text \<open>The traits \<open>LedgerClient\<close>, \<open>PaymentsClient\<close> and \<open>EventPublisher\<close>: any implementation, over
  a state \<open>'x\<close> of the services behind it.\<close>

record 'x account_clients =
  cl_open :: "kova_account_id \<Rightarrow> currency_code \<Rightarrow> (account_error, unit, 'x) eff"
  cl_balance :: "kova_account_id \<Rightarrow> (account_error, client_balance, 'x) eff"
  cl_statement :: "kova_account_id \<Rightarrow> string option \<Rightarrow> nat \<Rightarrow> (account_error, client_page, 'x) eff"
  cl_pending :: "kova_account_id \<Rightarrow> (account_error, bool, 'x) eff"
  cl_publish :: "string \<Rightarrow> string \<Rightarrow> json \<Rightarrow> (account_error, unit, 'x) eff"

text \<open>\<open>LedgerStub\<close>, \<open>PaymentsStub\<close> and \<open>NoOpPublisher\<close>.\<close>

definition stub_clients :: "'x account_clients" where
  "stub_clients =
     \<lparr>cl_open = (\<lambda>i c. eret ()),
      cl_balance = (\<lambda>i. eret \<lparr>cb_available = dec_zero, cb_pending = dec_zero, cb_currency = NGN\<rparr>),
      cl_statement = (\<lambda>i cursor limit. eret \<lparr>cp_entries = [], cp_next = None, cp_more = False\<rparr>),
      cl_pending = (\<lambda>i. eret False),
      cl_publish = (\<lambda>topic key payload. eret ())\<rparr>"

section \<open>The world of a handler\<close>

record 'x account_world =
  aw_db :: account_db
  aw_redis :: redis
  aw_ext :: 'x

definition on_accounts :: "(sqlx_error, 'a, account_db) eff \<Rightarrow> (sqlx_error, 'a, 'x account_world) eff" where
  "on_accounts m = ezoom aw_db (\<lambda>d w. w\<lparr>aw_db := d\<rparr>) m"

definition on_ext :: "('e, 'a, 'x) eff \<Rightarrow> ('e, 'a, 'x account_world) eff" where
  "on_ext m = ezoom aw_ext (\<lambda>x w. w\<lparr>aw_ext := x\<rparr>) m"

text \<open>\<open>?\<close> on a statement: \<open>#[from] sqlx::Error\<close>.\<close>

definition db_q :: "(sqlx_error, 'a, account_db) eff \<Rightarrow> (account_error, 'a, 'x account_world) eff" where
  "db_q m = emap_err AeDatabase (on_accounts m)"

section \<open>The caller\<close>

record auth_user =
  us_sub :: string
  us_jti :: string

definition unauthorized_response :: "string \<Rightarrow> http_resp" where
  "unauthorized_response m =
     \<lparr>hs_status = 401, hs_headers = [],
      hs_body = envelope JNull (JObj [(''code'', JStr ''UNAUTHORIZED''), (''message'', JStr m)]) (JObj [])\<rparr>"

definition auth_user_extract ::
  "account_env \<Rightarrow> string \<Rightarrow> (string \<times> string) list \<Rightarrow> http_resp + auth_user" where
  "auth_user_extract env key headers =
     rbind (ok_or (map_of headers ''authorization'')
              (unauthorized_response ''Missing Authorization header'')) (\<lambda>header.
     rbind (ok_or (strip_prefix header ''Bearer '')
              (unauthorized_response
                 (''Authorization header must be '' @ quoted ''Bearer <token>''))) (\<lambda>token.
     (case ac_jwt env key [''kova-auth''] token of
        None \<Rightarrow> Inl (unauthorized_response ''Invalid or expired access token'')
      | Some (sub, jti) \<Rightarrow> Inr \<lparr>us_sub = sub, us_jti = jti\<rparr>)))"

lemma auth_user_extract_Inr:
  "auth_user_extract env key hs = Inr u \<longleftrightarrow>
    (\<exists>token. map_of hs ''authorization'' = Some (''Bearer '' @ token) \<and>
      ac_jwt env key [''kova-auth''] token = Some (us_sub u, us_jti u))"
proof
  assume "auth_user_extract env key hs = Inr u"
  then show "\<exists>token. map_of hs ''authorization'' = Some (''Bearer '' @ token) \<and>
      ac_jwt env key [''kova-auth''] token = Some (us_sub u, us_jti u)"
    by (auto simp: auth_user_extract_def rbind_Inr_iff strip_prefix_Some_iff split: option.splits)
next
  assume "\<exists>token. map_of hs ''authorization'' = Some (''Bearer '' @ token) \<and>
      ac_jwt env key [''kova-auth''] token = Some (us_sub u, us_jti u)"
  then obtain token where t: "map_of hs ''authorization'' = Some (''Bearer '' @ token)"
      "ac_jwt env key [''kova-auth''] token = Some (us_sub u, us_jti u)" by blast
  then show "auth_user_extract env key hs = Inr u"
    unfolding auth_user_extract_def t(1) ok_or.simps rbind.simps strip_prefix_append by simp
qed

section \<open>The tables' invariant\<close>

definition account_db_wf :: "account_db \<Rightarrow> bool" where
  "account_db_wf db \<longleftrightarrow>
     list_all account_row_ok (ad_rows db) \<and>
     distinct (map ar_id (ad_rows db)) \<and>
     distinct (map ar_number (ad_rows db)) \<and>
     distinct (map (\<lambda>r. (ar_user r, ar_currency r)) (ad_rows db))"

lemma insert_account_Inr:
  "insert_account r db = (Inr (), db') \<longleftrightarrow>
    account_row_ok r \<and> \<not> list_ex (same_account_key r) (ad_rows db) \<and> db' = db\<lparr>ad_rows := ad_rows db @ [r]\<rparr>"
  by (auto simp: insert_account_def)

lemma insert_account_wf: "einv account_db_wf (insert_account r)"
  by (auto simp: einv_iff insert_account_def account_db_wf_def same_account_key_def list_ex_iff)

lemma next_account_seq_wf: "einv account_db_wf next_account_seq"
  by (auto simp: einv_iff next_account_seq_def account_db_wf_def)

lemma einv_on_accounts: "einv P m \<Longrightarrow> einv (\<lambda>w. P (aw_db w)) (on_accounts m)"
  unfolding on_accounts_def by (rule einv_zoom [where Q = P]) simp_all

lemma einv_db_q: "einv P m \<Longrightarrow> einv (\<lambda>w. P (aw_db w)) (db_q m)"
  unfolding db_q_def by (intro einv_emap_err einv_on_accounts)

lemma einv_on_ext: "einv (\<lambda>w. P (aw_db w)) (on_ext m)"
  unfolding on_ext_def by (rule einv_zoom_other) simp

lemma db_q_Inr:
  "db_q m w = (Inr a, w') \<longleftrightarrow> (\<exists>d. m (aw_db w) = (Inr a, d) \<and> w' = w\<lparr>aw_db := d\<rparr>)"
  by (auto simp: db_q_def on_accounts_def emap_err_def ezoom_def split: prod.splits)

lemma on_ext_Inr:
  "on_ext m w = (Inr a, w') \<longleftrightarrow> (\<exists>x. m (aw_ext w) = (Inr a, x) \<and> w' = w\<lparr>aw_ext := x\<rparr>)"
  by (auto simp: on_ext_def ezoom_def split: prod.splits)

end
