(* ===== verification/Account_Create.thy ===== *)
theory Account_Create
  imports Account_Db
begin

text \<open>
  \<open>handlers/create.rs\<close> of \<open>services/kova-account\<close>: POST /accounts.  The outcome of each statement,
  the fresh identifiers and the clock readings are the fields of \<open>create_io\<close>.  Printing and
  parsing the fresh account id again (the \<open>unwrap\<close>) gives that id.
\<close>

definition supported :: "string list" where
  "supported = [''NGN'', ''GBP'', ''USD'', ''KES'']"

definition parse_currency :: "string \<Rightarrow> account_error + currency_code" where
  "parse_currency s =
     (if s \<notin> set supported then Inl AeUnsupportedCurrency
      else if s = ''NGN'' then Inr NGN
      else if s = ''GBP'' then Inr GBP
      else if s = ''USD'' then Inr USD
      else if s = ''KES'' then Inr KES
      else Inl AeUnsupportedCurrency)"

text \<open>\<open>{currency:?}\<close>, the name of the variant.\<close>

fun currency_debug :: "currency_code \<Rightarrow> string" where
  "currency_debug NGN = ''NGN''"
| "currency_debug GBP = ''GBP''"
| "currency_debug USD = ''USD''"
| "currency_debug KES = ''KES''"

definition account_number_of :: "nat \<Rightarrow> string" where
  "account_number_of seq = ''KOVA'' @ pad_left 10 (show_nat seq)"

record create_io =
  ci_seq :: sql_fault
  ci_insert :: sql_fault
  ci_delete :: sql_fault
  ci_id :: uuid
  ci_db_now :: int
  ci_event_id :: uuid
  ci_now :: datetime

definition insert_account_stmt ::
  "account_env \<Rightarrow> string \<Rightarrow> string \<Rightarrow> string \<Rightarrow> currency_code \<Rightarrow> int \<Rightarrow> (sqlx_error, unit, account_db) eff" where
  "insert_account_stmt env account_id user_id number currency db_now =
     ebind (elift (to_bin env account_id)) (\<lambda>i.
     ebind (elift (to_bin env user_id)) (\<lambda>u.
     insert_account \<lparr>ar_id = i, ar_user = u, ar_number = number, ar_currency = currency_debug currency,
       ar_status = ''PendingKYC'', ar_created = db_now, ar_closed = None\<rparr>))"

definition delete_account_stmt :: "account_env \<Rightarrow> string \<Rightarrow> (sqlx_error, unit, account_db) eff" where
  "delete_account_stmt env account_id =
     ebind (elift (to_bin env account_id)) (\<lambda>i db.
     (Inr (), db\<lparr>ad_rows := filter (\<lambda>r. ar_id r \<noteq> i) (ad_rows db)\<rparr>))"

definition insert_error :: "sqlx_error \<Rightarrow> account_error" where
  "insert_error e = (if e = UniqueViolation then AeAlreadyExists else AeDatabase e)"

text \<open>The opening entry, with the compensation: the result of the DELETE is dropped.\<close>

definition open_or_compensate ::
  "account_env \<Rightarrow> 'x account_clients \<Rightarrow> create_io \<Rightarrow> string \<Rightarrow> currency_code
    \<Rightarrow> (account_error, unit, 'x account_world) eff" where
  "open_or_compensate env cl io account_id currency =
     etry (on_ext (cl_open cl (KovaAccountId (ci_id io)) currency)) (\<lambda>r.
       case r of
         Inr _ \<Rightarrow> eret ()
       | Inl e \<Rightarrow> etry (on_accounts (sql_exec (ci_delete io) (delete_account_stmt env account_id)))
                       (\<lambda>_. ethrow e))"

definition created_event :: "account_env \<Rightarrow> create_io \<Rightarrow> uuid \<Rightarrow> currency_code \<Rightarrow> string \<Rightarrow> json" where
  "created_event env io uid currency number =
     encode_event (ac_events env) account_created_event
       [VNum schema_version, VId (ci_event_id io), VId (ci_id io), VId uid,
        VText (enum_display currency_code_table currency), VText number, VTime (ci_now io)]"

text \<open>What follows the INSERT: from here on an error leaves the row unless it is deleted.\<close>

definition finish_create ::
  "account_env \<Rightarrow> 'x account_clients \<Rightarrow> create_io \<Rightarrow> auth_user \<Rightarrow> string \<Rightarrow> currency_code \<Rightarrow> string
    \<Rightarrow> (account_error, http_resp, 'x account_world) eff" where
  "finish_create env cl io user body_currency currency number =
     (let account_id = ac_uuid_show env (ci_id io)
      in ebind (elift (ok_or (ac_uuid_parse env (us_sub user)) AeUnauthorized)) (\<lambda>uid.
         ebind (open_or_compensate env cl io account_id currency) (\<lambda>_.
         ebind (on_ext (cl_publish cl (es_topic account_created_event) account_id
              (created_event env io uid currency number))) (\<lambda>_.
         eret (ok_response 201
           (JObj [(''account_id'', JStr account_id), (''account_number'', JStr number),
                  (''currency'', JStr body_currency), (''status'', JStr ''PendingKYC''),
                  (''user_id'', JStr (us_sub user))])
           (JObj []))))))"

definition create_account ::
  "account_env \<Rightarrow> 'x account_clients \<Rightarrow> create_io \<Rightarrow> auth_user \<Rightarrow> string
    \<Rightarrow> (account_error, http_resp, 'x account_world) eff" where
  "create_account env cl io user body_currency =
     ebind (elift (parse_currency body_currency)) (\<lambda>currency.
     ebind (db_q (sql_exec (ci_seq io) next_account_seq)) (\<lambda>seq.
     let number = account_number_of seq
     in ebind (emap_err insert_error (on_accounts (sql_exec (ci_insert io)
          (insert_account_stmt env (ac_uuid_show env (ci_id io)) (us_sub user) number currency
             (ci_db_now io))))) (\<lambda>_.
        finish_create env cl io user body_currency currency number)))"

section \<open>Lemmas\<close>

lemma parse_currency_Inr: "parse_currency s = Inr c \<longleftrightarrow> s = currency_debug c"
  by (cases c) (auto simp: parse_currency_def supported_def)

lemma currency_debug_display: "currency_debug c = enum_display currency_code_table c"
  by (cases c) (simp_all add: currency_code_table_def)

lemma account_number_of_inject [simp]: "account_number_of m = account_number_of n \<longleftrightarrow> m = n"
  by (metis account_number_of_def append_same_eq read_nat_pad_left read_nat_show_nat same_append_eq)

text \<open>Account numbers have their ten digits up to the number ten to the tenth.\<close>

lemma account_number_of_ok: "n < 10 ^ 10 \<Longrightarrow> account_number_ok (account_number_of n)"
  using length_pad_left [OF length_show_nat_le [of n 10]] pad_left_digits [OF show_nat_digits]
  by (simp add: account_number_ok_def account_number_of_def list_all_iff)

text \<open>Beyond it the check constraint refuses every new account.\<close>

lemma account_numbers_run_out:
  assumes "10 ^ 10 \<le> n"
  shows "\<not> account_number_ok (account_number_of n)"
proof
  assume ok: "account_number_ok (account_number_of n)"
  have big: "10 ^ k \<le> read_nat s \<Longrightarrow> k < length s" if "\<forall>c \<in> set s. is_ascii_digit c" for k s
  proof -
    have "read_nat s < 10 ^ length s"
      using that
    proof (induction s rule: rev_induct)
      case Nil
      then show ?case by (simp add: read_nat_def)
    next
      case (snoc c s)
      then have "digit_val c < 10" by (auto simp: is_ascii_digit_def digit_val_def)
      with snoc show ?case by (simp add: read_nat_snoc)
    qed
    then show "10 ^ k \<le> read_nat s \<Longrightarrow> k < length s"
      by (metis le_less_trans not_less_iff_gr_or_eq one_less_numeral_iff power_strict_increasing_iff
          semiring_norm(76))
  qed
  have "10 < length (show_nat n)"
    using big [OF show_nat_digits, of 10 n] assms by simp
  with ok show False
    by (simp add: account_number_ok_def account_number_of_def pad_left_def)
qed

lemma insert_account_stmt_Inr:
  "insert_account_stmt env a u n c t db = (Inr (), db') \<longleftrightarrow>
    (\<exists>i v. ac_to_bin env a = Some i \<and> ac_to_bin env u = Some v \<and>
      insert_account \<lparr>ar_id = i, ar_user = v, ar_number = n, ar_currency = currency_debug c,
        ar_status = ''PendingKYC'', ar_created = t, ar_closed = None\<rparr> db = (Inr (), db'))"
  by (auto simp: insert_account_stmt_def ebind_Inr elift_def to_bin_def)

lemma insert_account_stmt_Inl: "insert_account_stmt env a u n c t db = (Inl e, db') \<Longrightarrow> db' = db"
  by (auto simp: insert_account_stmt_def ebind_Inl elift_def insert_account_def split: if_splits)

lemma create_account_wf: "einv (\<lambda>w. account_db_wf (aw_db w)) (create_account env cl io user c)"
proof -
  have del: "einv account_db_wf (delete_account_stmt env a)" for a
    unfolding delete_account_stmt_def
    by (intro einv_intros)
      (auto simp: einv_iff account_db_wf_def list_all_iff distinct_map inj_on_def)
  have ins: "einv account_db_wf (insert_account_stmt env a u n c t)" for a u n c t
    unfolding insert_account_stmt_def by (intro einv_intros insert_account_wf)
  show ?thesis
    unfolding create_account_def finish_create_def open_or_compensate_def
    by (intro einv_intros einv_db_q einv_on_ext einv_on_accounts next_account_seq_wf ins del)
qed

text \<open>Up to the INSERT: an error leaves the rows alone, otherwise the row is new.\<close>

abbreviation new_row :: "create_io \<Rightarrow> id16 \<Rightarrow> id16 \<Rightarrow> nat \<Rightarrow> string \<Rightarrow> account_row" where
  "new_row io i v n c \<equiv> \<lparr>ar_id = i, ar_user = v, ar_number = account_number_of n, ar_currency = c,
     ar_status = ''PendingKYC'', ar_created = ci_db_now io, ar_closed = None\<rparr>"

lemma create_account_cases:
  assumes "create_account env cl io user c w = (r, w')"
  obtains (refused) e where "r = Inl e" "ad_rows (aw_db w') = ad_rows (aw_db w)"
  | (inserted) cur i v db where "c = currency_debug cur"
      "ac_to_bin env (ac_uuid_show env (ci_id io)) = Some i" "ac_to_bin env (us_sub user) = Some v"
      "ad_rows db = ad_rows (aw_db w) @ [new_row io i v (ad_seq (aw_db w)) c]"
      "\<not> list_ex (same_account_key (new_row io i v (ad_seq (aw_db w)) c)) (ad_rows (aw_db w))"
      "if ci_insert io = SqlFine
       then finish_create env cl io user c cur (account_number_of (ad_seq (aw_db w))) (w\<lparr>aw_db := db\<rparr>) = (r, w')
       else w' = w\<lparr>aw_db := db\<rparr> \<and> (\<exists>e. r = Inl (AeDatabase e))"
proof (cases "parse_currency c")
  case (Inl e)
  with assms(1) refused show thesis by (auto simp: create_account_def ethrow_def)
next
  case cur: (Inr cur)
  obtain rs db1 where sq: "sql_exec (ci_seq io) next_account_seq (aw_db w) = (rs, db1)" by force
  show thesis
  proof (cases rs)
    case (Inl e)
    with sq have "ad_rows db1 = ad_rows (aw_db w)"
      by (auto simp: next_account_seq_def sql_exec_def split: if_splits sql_fault.splits)
    with assms(1) cur sq Inl refused show thesis
      by (auto simp: create_account_def eff_defs db_q_def on_accounts_def)
  next
    case seq: (Inr n)
    with sq have db1: "n = ad_seq (aw_db w)" "ad_rows db1 = ad_rows (aw_db w)"
      by (auto simp: next_account_seq_def sql_exec_Inr split: if_splits)
    obtain ri db2 where ins: "insert_account_stmt env (ac_uuid_show env (ci_id io)) (us_sub user)
        (account_number_of n) cur (ci_db_now io) db1 = (ri, db2)" by force
    note step = assms cur seq sq ins
    show thesis
    proof (cases "(\<exists>s. ci_insert io = SqlDown s) \<or> (\<exists>e. ri = Inl e)")
      case True
      have "db2 = db1" if "ri = Inl e" for e
        using ins that insert_account_stmt_Inl by blast
      with True have "ad_rows (aw_db w') = ad_rows db1 \<and> (\<exists>e. r = Inl e)"
        using step
        by (auto simp: create_account_def eff_defs db_q_def on_accounts_def Let_def sql_exec_def
            split: sql_fault.splits)
      with db1 refused show thesis by auto
    next
      case False
      then have ok: "ri = Inr ()" "\<And>s. ci_insert io \<noteq> SqlDown s" by (cases ri; auto)+
      have "if ci_insert io = SqlFine
          then finish_create env cl io user c cur (account_number_of n) (w\<lparr>aw_db := db2\<rparr>) = (r, w')
          else w' = w\<lparr>aw_db := db2\<rparr> \<and> (\<exists>e. r = Inl (AeDatabase e))"
        using step ok
        by (cases "ci_insert io") (auto simp: create_account_def eff_defs db_q_def on_accounts_def Let_def
            insert_error_def sql_exec_def)
      moreover obtain i v where "ac_to_bin env (ac_uuid_show env (ci_id io)) = Some i"
          "ac_to_bin env (us_sub user) = Some v"
          "ad_rows db2 = ad_rows (aw_db w) @ [new_row io i v (ad_seq (aw_db w)) c]"
          "\<not> list_ex (same_account_key (new_row io i v (ad_seq (aw_db w)) c)) (ad_rows (aw_db w))"
        using ins ok(1) db1 cur by (auto simp: insert_account_stmt_Inr insert_account_Inr parse_currency_Inr)
      moreover have "c = currency_debug cur" using cur by (simp add: parse_currency_Inr)
      ultimately show thesis
        unfolding db1(1) by (metis inserted)
    qed
  qed
qed

text \<open>After the INSERT of \<open>row\<close>: the compensation removes exactly that row.\<close>

lemma finish_create_outcome:
  assumes "finish_create env cl io user c cur n w = (r, w')" and "ci_delete io = SqlFine"
    and "ac_to_bin env (ac_uuid_show env (ci_id io)) = Some (ar_id row)"
    and "ad_rows (aw_db w) = rows @ [row]" and "\<not> list_ex (same_account_key row) rows"
  shows "ad_rows (aw_db w') = rows \<and> (\<exists>e. r = Inl e) \<or>
    ad_rows (aw_db w') = rows @ [row] \<and>
    (case r of
       Inr resp \<Rightarrow> hs_status resp = 201 \<and>
         (\<exists>x uid x'. cl_open cl (KovaAccountId (ci_id io)) cur (aw_ext w) = (Inr (), x) \<and>
           cl_publish cl ''kova.account.created'' (ac_uuid_show env (ci_id io))
             (created_event env io uid cur n) x = (Inr (), x'))
     | Inl e \<Rightarrow> ac_uuid_parse env (us_sub user) = None \<or>
         (\<exists>topic key ev x x'. cl_publish cl topic key ev x = (Inl e, x')))"
proof (cases "ac_uuid_parse env (us_sub user)")
  case None
  with assms(1,4) show ?thesis by (auto simp: finish_create_def eff_defs)
next
  case (Some uid)
  obtain ro x where op: "cl_open cl (KovaAccountId (ci_id io)) cur (aw_ext w) = (ro, x)" by force
  show ?thesis
  proof (cases ro)
    case (Inl e)
    have "filter (\<lambda>r. ar_id r \<noteq> ar_id row) (rows @ [row]) = rows"
      using assms(5) by (auto simp: list_ex_iff same_account_key_def filter_id_conv)
    moreover have "r = Inl e \<and>
        ad_rows (aw_db w') = filter (\<lambda>r. ar_id r \<noteq> ar_id row) (ad_rows (aw_db w))"
      using assms(1-3) Some op Inl
      by (auto simp: finish_create_def open_or_compensate_def delete_account_stmt_def eff_defs
          on_accounts_def on_ext_def to_bin_def Let_def)
    ultimately show ?thesis using assms(4) by simp
  next
    case (Inr u)
    obtain rp x' where pb: "cl_publish cl ''kova.account.created'' (ac_uuid_show env (ci_id io))
        (created_event env io uid cur n) x = (rp, x')" by force
    have "ad_rows (aw_db w') = ad_rows (aw_db w) \<and> (case rp of Inl e \<Rightarrow> r = Inl e
        | Inr _ \<Rightarrow> \<exists>resp. r = Inr resp \<and> hs_status resp = 201)"
      using assms(1) Some op Inr pb
      by (auto simp: finish_create_def open_or_compensate_def eff_defs on_ext_def Let_def
          ok_response_def account_created_event_def split: sum.splits)
    with assms(4) op Inr pb show ?thesis
      by (cases rp) (auto, blast+)
  qed
qed

text \<open>Whatever fails: a row is added that waits for KYC, or the rows are as before.\<close>

lemma finish_create_rows:
  assumes "finish_create env cl io user c cur n w = (r, w')"
    and "ac_to_bin env (ac_uuid_show env (ci_id io)) = Some (ar_id row)"
    and "ad_rows (aw_db w) = rows @ [row]" and "\<not> list_ex (same_account_key row) rows"
  shows "ad_rows (aw_db w') \<in> {rows, rows @ [row]}"
proof -
  obtain ro x where op: "cl_open cl (KovaAccountId (ci_id io)) cur (aw_ext w) = (ro, x)" by force
  have "filter (\<lambda>r. ar_id r \<noteq> ar_id row) (rows @ [row]) = rows"
    using assms(4) by (auto simp: list_ex_iff same_account_key_def filter_id_conv)
  with assms op show ?thesis
    by (cases "ac_uuid_parse env (us_sub user)"; cases ro; cases "ci_delete io")
      (auto simp: finish_create_def open_or_compensate_def delete_account_stmt_def eff_defs
        on_accounts_def on_ext_def to_bin_def Let_def sql_exec_def split: prod.splits sum.splits)
qed

lemma create_account_rows:
  assumes "create_account env cl io user c w = (r, w')"
  shows "ad_rows (aw_db w') = ad_rows (aw_db w) \<or>
    (\<exists>row. ad_rows (aw_db w') = ad_rows (aw_db w) @ [row] \<and> ar_status row = ''PendingKYC'')"
proof (cases rule: create_account_cases [OF assms])
  case (2 cur i v db)
  let ?row = "new_row io i v (ad_seq (aw_db w)) c"
  show ?thesis
  proof (cases "ci_insert io = SqlFine")
    case True
    from finish_create_rows [OF 2(6) [simplified True, simplified], of ?row "ad_rows (aw_db w)"] 2(2,4,5)
    show ?thesis by auto
  qed (use 2(4,6) in auto)
qed simp

section \<open>Properties\<close>

text \<open>C29: The creation saga, when every statement gets through: either the answer is 201, exactly one
  row was added (with the next account number, the status \<open>PendingKYC\<close>, the caller as owner and
  the currency asked for, of which the caller had no account), the ledger has opened the account
  and the event was published; or the answer is an error and the table is as before, the row
  deleted again when the ledger refused.  The one exception is an error after the ledger: when the
  event cannot be published (or the caller's id is no UUID to the application) the row stays.\<close>

theorem create_account_saga:
  assumes "create_account env cl io user c w = (r, w')"
    and "ci_seq io = SqlFine" and "ci_insert io = SqlFine" and "ci_delete io = SqlFine"
  shows "(\<exists>row. ad_rows (aw_db w') = ad_rows (aw_db w) @ [row] \<and>
      ar_number row = account_number_of (ad_seq (aw_db w)) \<and> ar_status row = ''PendingKYC'' \<and>
      ac_to_bin env (us_sub user) = Some (ar_user row) \<and> ar_currency row = c \<and>
      (\<forall>q \<in> set (ad_rows (aw_db w)). \<not> (ar_user q = ar_user row \<and> ar_currency q = c)) \<and>
      (case r of
         Inr resp \<Rightarrow> hs_status resp = 201 \<and>
           (\<exists>cur x uid x'. cl_open cl (KovaAccountId (ci_id io)) cur (aw_ext w) = (Inr (), x) \<and>
             cl_publish cl ''kova.account.created'' (ac_uuid_show env (ci_id io))
               (created_event env io uid cur (ar_number row)) x = (Inr (), x'))
       | Inl e \<Rightarrow> ac_uuid_parse env (us_sub user) = None \<or>
           (\<exists>topic key ev x x'. cl_publish cl topic key ev x = (Inl e, x')))) \<or>
    (\<exists>e. r = Inl e) \<and> ad_rows (aw_db w') = ad_rows (aw_db w)"
proof (cases rule: create_account_cases [OF assms(1)])
  case (1 e)
  then show ?thesis by blast
next
  case (2 cur i v db)
  let ?row = "new_row io i v (ad_seq (aw_db w)) c"
  have "\<forall>q \<in> set (ad_rows (aw_db w)). \<not> (ar_user q = v \<and> ar_currency q = c)"
    using 2(5) by (auto simp: list_ex_iff same_account_key_def)
  with finish_create_outcome [OF 2(6) [simplified assms(3), simplified] assms(4), of ?row "ad_rows (aw_db w)"] 2(2-5) show ?thesis
    by (auto intro!: exI [of _ ?row] split: sum.splits)
qed

text \<open>Environments for examples: identifiers are written as decimal numbers.\<close>

definition demo_account_env :: account_env where
  "demo_account_env =
     \<lparr>ac_to_bin = (\<lambda>s. Some (of_nat (read_nat s))), ac_from_bin = (\<lambda>i. show_nat (unat i)),
      ac_uuid_show = (\<lambda>u. show_nat (unat u)), ac_uuid_parse = (\<lambda>s. Some (of_nat (read_nat s))),
      ac_dec_show = (\<lambda>d. show_nat (nat (mant d))), ac_rfc3339 = (\<lambda>t. show_nat (nat t)),
      ac_to_column = (\<lambda>t. t div 10 ^ 9), ac_of_column = (\<lambda>c. Some (c * 10 ^ 9)),
      ac_json_show = (\<lambda>j. ''{}''), ac_json_read = (\<lambda>s. Some (JObj [])),
      ac_b64_encode = (\<lambda>bs. []), ac_jwt = (\<lambda>k iss t. Some (t, ''j'')), ac_events = demo_event_env\<rparr>"

definition demo_create_io :: create_io where
  "demo_create_io = \<lparr>ci_seq = SqlFine, ci_insert = SqlFine, ci_delete = SqlFine, ci_id = 3,
     ci_db_now = 0, ci_event_id = 4, ci_now = 0\<rparr>"

definition demo_account_world :: "unit account_world" where
  "demo_account_world = \<lparr>aw_db = \<lparr>ad_rows = [], ad_seq = 42\<rparr>, aw_redis = redis_empty, aw_ext = ()\<rparr>"

abbreviation demo_user :: auth_user where
  "demo_user \<equiv> \<lparr>us_sub = ''7'', us_jti = ''j''\<rparr>"

theorem create_account_saga_witness:
  "\<exists>row. ad_rows (aw_db (snd (create_account demo_account_env stub_clients demo_create_io demo_user ''NGN''
     demo_account_world))) = [row] \<and> ar_status row = ''PendingKYC'' \<and> ar_number row = account_number_of 42"
proof -
  obtain r w' where run: "create_account demo_account_env stub_clients demo_create_io demo_user ''NGN''
      demo_account_world = (r, w')" by force
  have "account_number_ok (account_number_of 42)"
    by (rule account_number_of_ok) simp
  then have "\<exists>x. r = Inr x"
    using run
    by (auto simp: create_account_def finish_create_def open_or_compensate_def insert_account_stmt_def
        insert_account_def account_row_ok_def eff_defs db_q_def on_accounts_def on_ext_def to_bin_def
        demo_account_env_def demo_create_io_def demo_account_world_def stub_clients_def Let_def
        parse_currency_def supported_def next_account_seq_def account_status_table_def
        currency_code_table_def)
  with create_account_saga [OF run] have "\<exists>row. ad_rows (aw_db w') = [row] \<and>
      ar_status row = ''PendingKYC'' \<and> ar_number row = account_number_of 42"
    by (auto simp: demo_create_io_def demo_account_world_def)
  then show ?thesis by (simp add: run)
qed

end
