(* ===== verification/Account_Close.thy ===== *)
theory Account_Close
  imports Account_Create
begin

text \<open>
  \<open>handlers/close.rs\<close> of \<open>services/kova-account\<close>: DELETE /accounts/:id.  The checks come before
  the one statement that writes; the outcome of each statement and the clock are the fields of
  \<open>close_io\<close>.
\<close>

definition parse_status :: "string \<Rightarrow> account_error + account_status" where
  "parse_status s =
     (if s = ''Active'' then Inr AccActive
      else if s = ''Frozen'' then Inr AccFrozen
      else if s = ''Closed'' then Inr AccClosed
      else if s = ''PendingKYC'' then Inr AccPendingKYC
      else Inl (AeInvalidTransition s ''Closed''))"

text \<open>\<open>SELECT \<dots> FROM accounts WHERE id = UUID_TO_BIN(?, true) AND user_id = UUID_TO_BIN(?, true)
  LIMIT 1\<close>: the id is the primary key.\<close>

definition owned_row :: "account_env \<Rightarrow> string \<Rightarrow> string \<Rightarrow> account_db \<Rightarrow> sqlx_error + account_row option" where
  "owned_row env account_id user_id db =
     rbind (to_bin env account_id) (\<lambda>i.
     rbind (to_bin env user_id) (\<lambda>u.
     Inr (find (\<lambda>r. ar_id r = i \<and> ar_user r = u) (ad_rows db))))"

definition fetch_owned ::
  "account_env \<Rightarrow> string option \<Rightarrow> string \<Rightarrow> auth_user \<Rightarrow> (account_error, account_row, 'x account_world) eff" where
  "fetch_owned env fault account_id user =
     ebind (db_q (sql_fetch fault (owned_row env account_id (us_sub user)))) (\<lambda>row.
     elift (ok_or row AeNotFound))"

record close_io =
  cx_select :: "string option"
  cx_update :: sql_fault
  cx_now :: datetime
  cx_event_id :: uuid

definition close_account_stmt :: "account_env \<Rightarrow> string \<Rightarrow> datetime \<Rightarrow> (sqlx_error, unit, account_db) eff" where
  "close_account_stmt env account_id closed_at =
     ebind (elift (to_bin env account_id)) (\<lambda>i db.
     (Inr (), db\<lparr>ad_rows := update_where (\<lambda>r. ar_id r = i)
        (\<lambda>r. r\<lparr>ar_status := ''Closed'', ar_closed := Some (ac_to_column env closed_at)\<rparr>) (ad_rows db)\<rparr>))"

definition closed_event :: "account_env \<Rightarrow> close_io \<Rightarrow> uuid \<Rightarrow> uuid \<Rightarrow> json" where
  "closed_event env io aid uid =
     encode_event (ac_events env) account_closed_event
       [VNum schema_version, VId (cx_event_id io), VId aid, VId uid, VText ''user_initiated'',
        VTime (cx_now io), VTime (cx_now io)]"

text \<open>Steps 2 to 4: nothing is written.\<close>

definition close_checks ::
  "account_env \<Rightarrow> 'x account_clients \<Rightarrow> kova_account_id \<Rightarrow> account_status
    \<Rightarrow> (account_error, unit, 'x account_world) eff" where
  "close_checks env cl kid current =
     ebind (on_ext (cl_pending cl kid)) (\<lambda>pending.
     ebind (eguard (\<not> pending) AePendingPayments) (\<lambda>_.
     ebind (on_ext (cl_balance cl kid)) (\<lambda>bal.
     ebind (eguard (dec_is_zero (cb_available bal) \<and> dec_is_zero (cb_pending bal))
              (AeHasBalance (ac_dec_show env (cb_available bal)))) (\<lambda>_.
     ebind (elift (map_err (\<lambda>e. AeInvalidTransition (it_from e) (it_to e))
              (account_transition current AccClosed))) (\<lambda>_.
     eret ())))))"

text \<open>Steps 1 to 4, all checks: the ids of the account and its owner.\<close>

definition close_prepare ::
  "account_env \<Rightarrow> 'x account_clients \<Rightarrow> close_io \<Rightarrow> auth_user \<Rightarrow> string
    \<Rightarrow> (account_error, uuid \<times> uuid, 'x account_world) eff" where
  "close_prepare env cl io user account_id =
     ebind (fetch_owned env (cx_select io) account_id user) (\<lambda>row.
     ebind (elift (parse_status (ar_status row))) (\<lambda>current.
     ebind (eguard (current \<noteq> AccClosed) AeAlreadyClosed) (\<lambda>_.
     ebind (elift (ok_or (ac_uuid_parse env account_id) AeNotFound)) (\<lambda>aid.
     ebind (elift (ok_or (ac_uuid_parse env (us_sub user)) AeUnauthorized)) (\<lambda>uid.
     ebind (close_checks env cl (KovaAccountId aid) current) (\<lambda>_.
     eret (aid, uid)))))))"

definition close_account ::
  "account_env \<Rightarrow> 'x account_clients \<Rightarrow> close_io \<Rightarrow> auth_user \<Rightarrow> string
    \<Rightarrow> (account_error, http_resp, 'x account_world) eff" where
  "close_account env cl io user account_id =
     ebind (close_prepare env cl io user account_id) (\<lambda>(aid, uid).
     ebind (db_q (sql_exec (cx_update io) (close_account_stmt env account_id (cx_now io)))) (\<lambda>_.
     ebind (on_ext (cl_publish cl (es_topic account_closed_event) account_id
          (closed_event env io aid uid))) (\<lambda>_.
     eret (ok_response 200
       (JObj [(''account_id'', JStr account_id), (''status'', JStr ''Closed''),
              (''closed_at'', JStr (ac_rfc3339 env (cx_now io)))])
       (JObj [])))))"

section \<open>Lemmas\<close>

lemma parse_status_Inr: "parse_status s = Inr t \<longleftrightarrow> s = account_status_debug t"
  by (cases t) (auto simp: parse_status_def)

lemma owned_row_Inr:
  "owned_row env a u db = Inr (Some r) \<Longrightarrow>
    ac_to_bin env a = Some (ar_id r) \<and> ac_to_bin env u = Some (ar_user r) \<and> r \<in> set (ad_rows db)"
  by (auto simp: owned_row_def rbind_Inr_iff to_bin_def dest!: find_Some_in)

lemma fetch_owned_Inr:
  "fetch_owned env f a u w = (Inr r, w') \<longleftrightarrow>
    w' = w \<and> f = None \<and> owned_row env a (us_sub u) (aw_db w) = Inr (Some r)"
  by (auto simp: fetch_owned_def ebind_Inr db_q_Inr sql_fetch_Inr elift_def)

lemma fetch_owned_db: "einv P (fetch_owned env f a u)"
proof -
  have "einv P (db_q (sql_fetch f q))" for q :: "account_db \<Rightarrow> sqlx_error + account_row option"
    by (auto simp: einv_iff db_q_def on_accounts_def emap_err_def ezoom_def sql_fetch_def split: option.splits)
  then show ?thesis
    unfolding fetch_owned_def by (intro einv_intros)
qed

lemma close_checks_db: "einv (\<lambda>w. P (aw_db w)) (close_checks env cl k s)"
  unfolding close_checks_def by (intro einv_intros einv_on_ext)

lemma close_checks_Inr:
  "close_checks env cl k s w = (Inr (), w') \<Longrightarrow>
    s \<in> {AccActive, AccFrozen} \<and>
    (\<exists>x bal x'. cl_pending cl k (aw_ext w) = (Inr False, x) \<and> cl_balance cl k x = (Inr bal, x') \<and>
      dec_val (cb_available bal) = 0 \<and> dec_val (cb_pending bal) = 0)"
  by (auto simp: close_checks_def ebind_Inr on_ext_Inr eguard_def elift_def eret_def dec_is_zero_iff
      account_transition_Inr split: if_splits)

lemma close_account_stmt_wf: "einv account_db_wf (close_account_stmt env a t)"
proof -
  have "account_db_wf db \<Longrightarrow> account_db_wf (db\<lparr>ad_rows := update_where p
      (\<lambda>r. r\<lparr>ar_status := ''Closed'', ar_closed := c\<rparr>) (ad_rows db)\<rparr>)" for db p c
    by (auto simp: account_db_wf_def map_update_where list_all_iff set_update_where account_row_ok_def
        account_status_table_def)
  then show ?thesis
    unfolding close_account_stmt_def by (intro einv_intros) (simp add: einv_iff)
qed

lemma close_prepare_db: "einv (\<lambda>w. P (aw_db w)) (close_prepare env cl io user a)"
  unfolding close_prepare_def by (intro einv_intros fetch_owned_db close_checks_db)

lemma close_account_wf: "einv (\<lambda>w. account_db_wf (aw_db w)) (close_account env cl io user a)"
  unfolding close_account_def
  by (intro einv_intros einv_db_q einv_on_ext close_prepare_db close_account_stmt_wf)

text \<open>What the checks establish: the account is the caller's, neither closed nor waiting for KYC,
  has no pending payment and a zero balance.\<close>

definition may_close ::
  "account_env \<Rightarrow> 'x account_clients \<Rightarrow> auth_user \<Rightarrow> string \<Rightarrow> 'x account_world \<Rightarrow> account_row \<Rightarrow> bool" where
  "may_close env cl user a w row \<longleftrightarrow>
     row \<in> set (ad_rows (aw_db w)) \<and> ac_to_bin env a = Some (ar_id row) \<and>
     ac_to_bin env (us_sub user) = Some (ar_user row) \<and> ar_status row \<in> {''Active'', ''Frozen''} \<and>
     (\<exists>aid x bal x'. ac_uuid_parse env a = Some aid \<and>
       cl_pending cl (KovaAccountId aid) (aw_ext w) = (Inr False, x) \<and>
       cl_balance cl (KovaAccountId aid) x = (Inr bal, x') \<and>
       dec_val (cb_available bal) = 0 \<and> dec_val (cb_pending bal) = 0)"

lemma close_prepare_Inr:
  assumes "close_prepare env cl io user a w = (Inr (aid, uid), v)"
  shows "\<exists>row. may_close env cl user a w row"
proof -
  obtain row current where r: "owned_row env a (us_sub user) (aw_db w) = Inr (Some row)"
      "ar_status row = account_status_debug current" "ac_uuid_parse env a = Some aid"
      "close_checks env cl (KovaAccountId aid) current w = (Inr (), v)"
    using assms
    by (auto simp: close_prepare_def ebind_Inr fetch_owned_Inr elift_def eguard_def eret_def
        parse_status_Inr split: if_splits)
  with owned_row_Inr [OF r(1)] close_checks_Inr [OF r(4)] show ?thesis
    unfolding may_close_def by (intro exI [of _ row]) auto
qed

abbreviation closed_by :: "account_env \<Rightarrow> close_io \<Rightarrow> account_row \<Rightarrow> account_row" where
  "closed_by env io r \<equiv> r\<lparr>ar_status := ''Closed'', ar_closed := Some (ac_to_column env (cx_now io))\<rparr>"

lemma close_account_outcome:
  assumes "close_account env cl io user a w = (r, w')"
  shows "aw_db w' = aw_db w \<and> (\<exists>e. r = Inl e) \<or>
    (\<exists>row. may_close env cl user a w row \<and>
      ad_rows (aw_db w') = update_where (\<lambda>q. ar_id q = ar_id row) (closed_by env io) (ad_rows (aw_db w)) \<and>
      (case r of
         Inr resp \<Rightarrow> hs_status resp = 200 \<and>
           (\<exists>ev x x'. cl_publish cl ''kova.account.closed'' a ev x = (Inr (), x'))
       | Inl e \<Rightarrow> True))"
proof -
  obtain rp v where p: "close_prepare env cl io user a w = (rp, v)" by force
  have v: "aw_db v = aw_db w"
    using einvD [OF close_prepare_db [where P = "\<lambda>d. d = aw_db w"] _ p] by simp
  show ?thesis
  proof (cases rp)
    case (Inl e)
    with assms p v show ?thesis by (auto simp: close_account_def ebind_def)
  next
    case (Inr ids)
    then obtain aid uid where ids: "rp = Inr (aid, uid)" by (cases ids) auto
    from close_prepare_Inr p ids obtain row where row: "may_close env cl user a w row" by blast
    then have i: "ac_to_bin env a = Some (ar_id row)" by (simp add: may_close_def)
    obtain q x where pub: "cl_publish cl ''kova.account.closed'' a (closed_event env io aid uid) (aw_ext v) = (q, x)"
      by force
    show ?thesis
    proof (cases "\<exists>s. cx_update io = SqlDown s")
      case True
      with assms p ids v show ?thesis
        by (auto simp: close_account_def ebind_def db_q_def on_accounts_def emap_err_def ezoom_def sql_exec_def)
    next
      case False
      have "ad_rows (aw_db w') = update_where (\<lambda>q. ar_id q = ar_id row) (closed_by env io) (ad_rows (aw_db w)) \<and>
          (case r of Inr resp \<Rightarrow> hs_status resp = 200 \<and> q = Inr () | Inl e \<Rightarrow> True)"
        using assms p ids v i pub False
        by (cases "cx_update io"; cases q)
          (auto simp: close_account_def close_account_stmt_def eff_defs db_q_def on_accounts_def on_ext_def
            sql_exec_def to_bin_def ok_response_def account_closed_event_def)
      with pub have "ad_rows (aw_db w') = update_where (\<lambda>q. ar_id q = ar_id row) (closed_by env io)
            (ad_rows (aw_db w)) \<and>
          (case r of Inr resp \<Rightarrow> hs_status resp = 200 \<and>
              (\<exists>ev x x'. cl_publish cl ''kova.account.closed'' a ev x = (Inr (), x'))
           | Inl e \<Rightarrow> True)"
        by (auto split: sum.splits)
      with row show ?thesis by blast
    qed
  qed
qed

section \<open>Properties\<close>

text \<open>C30: Closing is safe: the table changes only if the account belongs to the caller, is active or
  frozen, the payments service reported no pending payment and the ledger a zero balance, and then
  exactly that account's row becomes closed; a success was also announced by an event.\<close>

theorem close_account_is_safe:
  assumes "close_account env cl io user a w = (r, w')"
  shows "aw_db w' = aw_db w \<and> (\<exists>e. r = Inl e) \<or>
    (\<exists>row. may_close env cl user a w row \<and>
      ad_rows (aw_db w') = update_where (\<lambda>q. ar_id q = ar_id row) (closed_by env io) (ad_rows (aw_db w)) \<and>
      (case r of
         Inr resp \<Rightarrow> hs_status resp = 200 \<and>
           (\<exists>ev x x'. cl_publish cl ''kova.account.closed'' a ev x = (Inr (), x'))
       | Inl e \<Rightarrow> True))"
  by (rule close_account_outcome [OF assms])

definition demo_close_io :: close_io where
  "demo_close_io = \<lparr>cx_select = None, cx_update = SqlFine, cx_now = 9 * 10 ^ 9, cx_event_id = 5\<rparr>"

definition demo_active_world :: "unit account_world" where
  "demo_active_world = \<lparr>aw_db = \<lparr>ad_rows =
       [\<lparr>ar_id = 3, ar_user = 7, ar_number = account_number_of 42, ar_currency = ''NGN'',
         ar_status = ''Active'', ar_created = 0, ar_closed = None\<rparr>], ad_seq = 43\<rparr>,
     aw_redis = redis_empty, aw_ext = ()\<rparr>"

theorem close_account_is_safe_witness:
  "map ar_status (ad_rows (aw_db (snd (close_account demo_account_env stub_clients demo_close_io demo_user ''3''
     demo_active_world)))) = [''Closed'']"
proof -
  obtain r w' where run: "close_account demo_account_env stub_clients demo_close_io demo_user ''3''
      demo_active_world = (r, w')" by force
  have rd: "read_nat ''7'' = 7" "read_nat ''3'' = 3" by (simp_all add: read_nat_def digit_val_def)
  have "\<exists>x. r = Inr x"
    using run
    by (auto simp: close_account_def close_prepare_def close_checks_def fetch_owned_def owned_row_def
        close_account_stmt_def eff_defs db_q_def on_accounts_def on_ext_def to_bin_def parse_status_def
        demo_account_env_def demo_close_io_def demo_active_world_def stub_clients_def rd dec_is_zero_def
        dec_zero_def account_transition_def Let_def)
  with close_account_is_safe [OF run] have "map ar_status (ad_rows (aw_db w')) = [''Closed'']"
    by (auto simp: demo_active_world_def may_close_def update_where_def)
  then show ?thesis by (simp add: run)
qed

text \<open>A closing event that fails to be published is lost: the account is closed all the same, the
  caller gets the publisher's error, and every later attempt is refused as already closed, without
  an event.\<close>

theorem failed_close_event_is_lost:
  assumes "account_db_wf (aw_db w)" and "close_account env cl io user a w = (Inl e, w')"
    and "cx_update io = SqlFine" and "aw_db w' \<noteq> aw_db w" and "cx_select io2 = None"
  shows "close_account env cl io2 user a w' = (Inl AeAlreadyClosed, w')"
proof -
  from close_account_outcome [OF assms(2)] assms(4) obtain row where
    row: "may_close env cl user a w row"
      "ad_rows (aw_db w') = update_where (\<lambda>q. ar_id q = ar_id row) (closed_by env io) (ad_rows (aw_db w))"
    by auto
  then have i: "ac_to_bin env a = Some (ar_id row)" "ac_to_bin env (us_sub user) = Some (ar_user row)"
      "row \<in> set (ad_rows (aw_db w))"
    by (auto simp: may_close_def)
  let ?row = "closed_by env io row"
  have "account_db_wf (aw_db w')"
    using einvD [OF close_account_wf assms(1,2)] .
  then have "find (\<lambda>r. ar_id r = ar_id ?row) (ad_rows (aw_db w')) = Some ?row"
    using i(3) row(2)
    by (intro find_distinct_key) (auto simp: account_db_wf_def set_update_where)
  then obtain q where q: "find (\<lambda>r. ar_id r = ar_id row \<and> ar_user r = ar_user row) (ad_rows (aw_db w')) = Some q"
      "q \<in> set (ad_rows (aw_db w'))" "ar_id q = ar_id row"
    using find_None_iff [of "\<lambda>r. ar_id r = ar_id row \<and> ar_user r = ar_user row" "ad_rows (aw_db w')"]
    by (cases "find (\<lambda>r. ar_id r = ar_id row \<and> ar_user r = ar_user row) (ad_rows (aw_db w'))")
      (auto dest: find_Some_in)
  then have "ar_status q = ''Closed''"
    unfolding row(2) set_update_where by auto
  with q i(1,2) assms(5) show ?thesis
    by (auto simp: close_account_def close_prepare_def fetch_owned_def owned_row_def to_bin_def eff_defs
        db_q_def on_accounts_def parse_status_def)
qed

definition deaf_clients :: "unit account_clients" where
  "deaf_clients = stub_clients\<lparr>cl_publish := (\<lambda>topic key payload. ethrow (AeEventPublish ''down''))\<rparr>"

lemma demo_active_wf: "account_db_wf (aw_db demo_active_world)"
  using account_number_of_ok [of 42]
  by (simp add: account_db_wf_def demo_active_world_def account_row_ok_def account_status_table_def
      currency_code_table_def)

theorem failed_close_event_is_lost_witness:
  "fst (close_account demo_account_env deaf_clients demo_close_io demo_user ''3''
     (snd (close_account demo_account_env deaf_clients demo_close_io demo_user ''3'' demo_active_world))) =
   Inl AeAlreadyClosed"
proof -
  obtain r w' where run: "close_account demo_account_env deaf_clients demo_close_io demo_user ''3''
      demo_active_world = (r, w')" by force
  have rd: "read_nat ''7'' = 7" "read_nat ''3'' = 3" by (simp_all add: read_nat_def digit_val_def)
  have res: "r = Inl (AeEventPublish ''down'') \<and> map ar_status (ad_rows (aw_db w')) = [''Closed'']"
    using run
    by (auto simp: close_account_def close_prepare_def close_checks_def fetch_owned_def owned_row_def
        close_account_stmt_def eff_defs db_q_def on_accounts_def on_ext_def to_bin_def parse_status_def
        demo_account_env_def demo_close_io_def demo_active_world_def stub_clients_def deaf_clients_def rd
        dec_is_zero_def dec_zero_def account_transition_def Let_def update_where_def)
  then have "aw_db w' \<noteq> aw_db demo_active_world"
    by (auto simp: demo_active_world_def)
  with failed_close_event_is_lost [OF demo_active_wf run [unfolded conjunct1 [OF res]], of demo_close_io]
  have "close_account demo_account_env deaf_clients demo_close_io demo_user ''3'' w' = (Inl AeAlreadyClosed, w')"
    by (simp add: demo_close_io_def)
  then show ?thesis by (simp add: run)
qed

end
