(* ===== verification/Account_Read.thy ===== *)
theory Account_Read
  imports Account_Close
begin

text \<open>
  The handlers of \<open>services/kova-account\<close> that only read: \<open>handlers/get.rs\<close>, \<open>balance.rs\<close>,
  \<open>statement.rs\<close> and \<open>health.rs\<close>.  Columns of the types the queries name are read without error
  (\<open>unwrap_or_default\<close> is not reached); an account's balance is cached in Redis.
\<close>

section \<open>Accounts\<close>

definition account_json :: "account_env \<Rightarrow> account_row \<Rightarrow> (string \<times> json) list" where
  "account_json env r =
     [(''account_id'', JStr (ac_from_bin env (ar_id r))), (''account_number'', JStr (ar_number r)),
      (''currency'', JStr (ar_currency r)), (''status'', JStr (ar_status r)),
      (''user_id'', JStr (ac_from_bin env (ar_user r)))]"

text \<open>\<open>ORDER BY created_at ASC\<close> does not fix the order of rows of the same second: the engine's
  choice is the parameter \<open>tie\<close>, of which nothing is known but that it permutes the table.\<close>

definition list_accounts_query ::
  "account_env \<Rightarrow> (account_row list \<Rightarrow> account_row list) \<Rightarrow> string \<Rightarrow> account_db \<Rightarrow> sqlx_error + account_row list" where
  "list_accounts_query env tie user_id db =
     rbind (to_bin env user_id) (\<lambda>u.
     Inr (sort_key ar_created (tie (filter (\<lambda>r. ar_user r = u) (ad_rows db)))))"

definition list_accounts ::
  "account_env \<Rightarrow> (account_row list \<Rightarrow> account_row list) \<Rightarrow> string option \<Rightarrow> auth_user
    \<Rightarrow> (account_error, http_resp, 'x account_world) eff" where
  "list_accounts env tie fault user =
     ebind (db_q (sql_fetch fault (list_accounts_query env tie (us_sub user)))) (\<lambda>rows.
     eret (ok_response 200 (JArr (map (\<lambda>r. JObj (account_json env r)) rows))
             (JObj [(''count'', JNum (int (length rows)))])))"

definition get_account ::
  "account_env \<Rightarrow> string option \<Rightarrow> auth_user \<Rightarrow> string \<Rightarrow> (account_error, http_resp, 'x account_world) eff" where
  "get_account env fault user account_id =
     ebind (fetch_owned env fault account_id user) (\<lambda>row.
     eret (ok_response 200
       (JObj (account_json env row @
          [(''closed_at'', jopt (map_option (\<lambda>t. JStr (ac_rfc3339 env t))
             (Option.bind (ar_closed row) (ac_of_column env))))]))
       (JObj [])))"

section \<open>Balance\<close>

definition balance_cache_ttl_secs :: nat where "balance_cache_ttl_secs = 5"

definition balance_cache_key :: "string \<Rightarrow> string" where
  "balance_cache_key account_id = ''kova:balance:'' @ account_id"

text \<open>The faults of one request, and Redis's clock at the read, the write and the second read.\<close>

record balance_io =
  bi_select :: "string option"
  bi_get :: bool
  bi_set :: redis_fault
  bi_get2 :: bool
  bi_now :: nat
  bi_now_set :: nat
  bi_now2 :: nat

text \<open>\<open>redis.get(..)\<close> and \<open>serde_json::from_str\<close>: no value when either fails.\<close>

definition cache_read :: "account_env \<Rightarrow> bool \<Rightarrow> nat \<Rightarrow> string \<Rightarrow> redis \<Rightarrow> json option" where
  "cache_read env up now key R =
     (if \<not> up then None
      else case redis_get now key R of
          None \<Rightarrow> None
        | Some (RStr s) \<Rightarrow> ac_json_read env s
        | Some (RInt n) \<Rightarrow> Some (JNum n))"

definition balance_json :: "account_env \<Rightarrow> string \<Rightarrow> string \<Rightarrow> client_balance \<Rightarrow> json" where
  "balance_json env account_id currency bal =
     JObj [(''account_id'', JStr account_id), (''currency'', JStr currency),
           (''available_balance'', JStr (ac_dec_show env (cb_available bal))),
           (''pending_amount'', JStr (ac_dec_show env (cb_pending bal)))]"

definition owned_open_row ::
  "account_env \<Rightarrow> string \<Rightarrow> string \<Rightarrow> account_db \<Rightarrow> sqlx_error + account_row option" where
  "owned_open_row env account_id user_id db =
     rbind (to_bin env account_id) (\<lambda>i.
     rbind (to_bin env user_id) (\<lambda>u.
     Inr (find (\<lambda>r. ar_id r = i \<and> ar_user r = u \<and> ar_status r \<noteq> ''Closed'') (ad_rows db))))"

definition on_cache :: "(redis \<Rightarrow> redis) \<Rightarrow> ('e, unit, 'x account_world) eff" where
  "on_cache f w = (Inr (), w\<lparr>aw_redis := f (aw_redis w)\<rparr>)"

text \<open>The ledger is asked, and its answer cached; if it fails, the cache is read once more.\<close>

definition ask_ledger ::
  "account_env \<Rightarrow> 'x account_clients \<Rightarrow> balance_io \<Rightarrow> string \<Rightarrow> string \<Rightarrow> kova_account_id
    \<Rightarrow> (account_error, http_resp, 'x account_world) eff" where
  "ask_ledger env cl io account_id currency kid =
     etry (on_ext (cl_balance cl kid)) (\<lambda>r.
       case r of
         Inr bal \<Rightarrow>
           let d = balance_json env account_id currency bal
           in ebind (on_cache (redis_write (bi_set io) (redis_set_ex (bi_now_set io)
                (balance_cache_key account_id) (RStr (ac_json_show env d)) balance_cache_ttl_secs))) (\<lambda>_.
              eret (ok_response 200 d (JObj [])))
       | Inl e \<Rightarrow>
           ebind (egets (\<lambda>w. Inr (cache_read env (bi_get2 io) (bi_now2 io)
               (balance_cache_key account_id) (aw_redis w)))) (\<lambda>cached.
           case cached of
             Some v \<Rightarrow> eret (ok_response 200 v (JObj [(''stale'', JBool True)]))
           | None \<Rightarrow> ethrow e))"

definition account_balance ::
  "account_env \<Rightarrow> 'x account_clients \<Rightarrow> balance_io \<Rightarrow> auth_user \<Rightarrow> string
    \<Rightarrow> (account_error, http_resp, 'x account_world) eff" where
  "account_balance env cl io user account_id =
     ebind (db_q (sql_fetch (bi_select io) (owned_open_row env account_id (us_sub user)))) (\<lambda>found.
     ebind (elift (ok_or found AeNotFound)) (\<lambda>row.
     ebind (egets (\<lambda>w. Inr (cache_read env (bi_get io) (bi_now io)
         (balance_cache_key account_id) (aw_redis w)))) (\<lambda>cached.
     case cached of
       Some v \<Rightarrow> eret (ok_response 200 v (JObj []))
     | None \<Rightarrow>
         ebind (elift (ok_or (ac_uuid_parse env account_id) AeNotFound)) (\<lambda>aid.
         ask_ledger env cl io account_id (ar_currency row) (KovaAccountId aid)))))"

section \<open>Statement\<close>

definition default_limit :: nat where "default_limit = 20"

definition max_limit :: nat where "max_limit = 100"

record statement_query =
  sy_cursor :: "string option"
  sy_limit :: "nat option"

definition statement_entry_json :: "account_env \<Rightarrow> client_entry \<Rightarrow> json" where
  "statement_entry_json env e =
     JObj [(''entry_id'', JStr (ce_entry_id e)), (''amount'', JStr (ac_dec_show env (ce_amount e))),
           (''direction'', JStr (ce_direction e)), (''description'', JStr (ce_description e)),
           (''created_at'', JStr (ac_rfc3339 env (ce_created e)))]"

definition account_statement ::
  "account_env \<Rightarrow> 'x account_clients \<Rightarrow> string option \<Rightarrow> auth_user \<Rightarrow> string \<Rightarrow> statement_query
    \<Rightarrow> (account_error, http_resp, 'x account_world) eff" where
  "account_statement env cl fault user account_id q =
     (let limit = (case sy_limit q of None \<Rightarrow> default_limit | Some n \<Rightarrow> n)
      in ebind (eguard (\<not> (limit = 0 \<or> max_limit < limit)) AeInvalidLimit) (\<lambda>_.
         ebind (fetch_owned env fault account_id user) (\<lambda>_.
         ebind (elift (ok_or (ac_uuid_parse env account_id) AeNotFound)) (\<lambda>aid.
         ebind (on_ext (cl_statement cl (KovaAccountId aid) (sy_cursor q) limit)) (\<lambda>page.
         eret (ok_response 200 (JArr (map (statement_entry_json env) (cp_entries page)))
           (JObj [(''cursor'', jopt (map_option
                     (\<lambda>c. JStr (ac_b64_encode env (bytes_of_string c))) (cp_next page))),
                  (''has_more'', JBool (cp_more page)),
                  (''limit'', JNum (int limit))])))))))"

section \<open>Health\<close>

definition account_health :: "bool \<Rightarrow> string option \<Rightarrow> http_resp" where
  "account_health db_ok ping =
     (let redis_ok = (ping = Some ''PONG'')
      in if db_ok \<and> redis_ok
         then ok_response 200
           (JObj [(''status'', JStr ''ok''), (''db'', JStr ''ok''), (''redis'', JStr ''ok'')]) (JObj [])
         else \<lparr>hs_status = 503, hs_headers = [],
               hs_body = envelope
                 (JObj [(''status'', JStr ''degraded''),
                        (''db'', JStr (if db_ok then ''ok'' else ''down'')),
                        (''redis'', JStr (if redis_ok then ''ok'' else ''down''))])
                 (JObj [(''code'', JStr ''SERVICE_UNAVAILABLE''),
                        (''message'', JStr ''One or more dependencies are unreachable'')])
                 (JObj [])\<rparr>)"

section \<open>Lemmas\<close>

lemma db_fetch_keeps: "db_q (sql_fetch f q) w = (r, w') \<Longrightarrow> w' = w"
  by (auto simp: db_q_def on_accounts_def emap_err_def ezoom_def sql_fetch_def split: option.splits)

lemma einv_db_fetch: "einv P (db_q (sql_fetch f q))"
  by (metis db_fetch_keeps einv_iff prod.collapse)

lemma einv_on_cache: "einv (\<lambda>w. P (aw_db w)) (on_cache f)"
  by (simp add: einv_iff on_cache_def)

text \<open>The readers leave the tables alone.\<close>

lemma list_accounts_db: "einv (\<lambda>w. P (aw_db w)) (list_accounts env tie f u)"
  unfolding list_accounts_def by (intro einv_intros einv_db_fetch)

lemma get_account_db: "einv (\<lambda>w. P (aw_db w)) (get_account env f u a)"
  unfolding get_account_def by (intro einv_intros fetch_owned_db)

lemma ask_ledger_db: "einv (\<lambda>w. P (aw_db w)) (ask_ledger env cl io a c k)"
  unfolding ask_ledger_def by (intro einv_intros einv_on_ext einv_on_cache)

lemma account_balance_db: "einv (\<lambda>w. P (aw_db w)) (account_balance env cl io u a)"
  unfolding account_balance_def by (intro einv_intros einv_db_fetch ask_ledger_db)

lemma account_statement_db: "einv (\<lambda>w. P (aw_db w)) (account_statement env cl f u a q)"
  unfolding account_statement_def by (intro einv_intros fetch_owned_db einv_on_ext)

lemma find_conj_filter: "find (\<lambda>x. P x \<and> Q x) xs = find P (filter Q xs)"
  by (induction xs) auto

lemma db_q_fetch_cong:
  assumes "q d1 = q d2"
  shows "fst (db_q (sql_fetch f q) (w\<lparr>aw_db := d1\<rparr>)) = fst (db_q (sql_fetch f q) (w\<lparr>aw_db := d2\<rparr>))"
  using assms
  by (simp add: db_q_def on_accounts_def emap_err_def ezoom_def sql_fetch_def split: option.split)

section \<open>What a reader depends on\<close>

definition own_rows :: "account_env \<Rightarrow> auth_user \<Rightarrow> account_db \<Rightarrow> account_row list" where
  "own_rows env user db = filter (\<lambda>r. ac_to_bin env (us_sub user) = Some (ar_user r)) (ad_rows db)"

lemma own_rows_bin:
  "ac_to_bin env (us_sub user) = Some u \<Longrightarrow> own_rows env user db = filter (\<lambda>r. ar_user r = u) (ad_rows db)"
  by (auto simp: own_rows_def intro: filter_cong)

lemma owned_row_own:
  "owned_row env a (us_sub user) db = rbind (to_bin env a) (\<lambda>i. rbind (to_bin env (us_sub user)) (\<lambda>u.
     Inr (find (\<lambda>r. ar_id r = i) (own_rows env user db))))"
proof (cases "ac_to_bin env (us_sub user)")
  case None
  then show ?thesis by (simp add: owned_row_def to_bin_def)
next
  case (Some u)
  then show ?thesis
    by (simp add: owned_row_def to_bin_def own_rows_bin [OF Some] find_conj_filter)
qed

lemma owned_open_row_own:
  "owned_open_row env a (us_sub user) db = rbind (to_bin env a) (\<lambda>i. rbind (to_bin env (us_sub user)) (\<lambda>u.
     Inr (find (\<lambda>r. ar_id r = i \<and> ar_status r \<noteq> ''Closed'') (own_rows env user db))))"
proof (cases "ac_to_bin env (us_sub user)")
  case None
  then show ?thesis by (simp add: owned_open_row_def to_bin_def)
next
  case (Some u)
  have "(\<lambda>r. ar_id r = i \<and> ar_user r = u \<and> ar_status r \<noteq> ''Closed'') =
      (\<lambda>r. (ar_id r = i \<and> ar_status r \<noteq> ''Closed'') \<and> ar_user r = u)" for i
    by auto
  then show ?thesis
    by (simp add: owned_open_row_def to_bin_def Some own_rows_bin [OF Some] find_conj_filter)
qed

lemma list_query_own:
  "list_accounts_query env tie (us_sub user) db =
    rbind (to_bin env (us_sub user)) (\<lambda>u. Inr (sort_key ar_created (tie (own_rows env user db))))"
proof (cases "ac_to_bin env (us_sub user)")
  case None
  then show ?thesis by (simp add: list_accounts_query_def to_bin_def)
next
  case (Some u)
  then show ?thesis by (simp add: list_accounts_query_def to_bin_def own_rows_bin [OF Some])
qed

text \<open>A fetch whose query gives the same on two tables, in front of anything that does not look at
  the table.\<close>

lemma fetch_then_cong:
  assumes "q d1 = q d2" and "\<And>a. fst (k a (w\<lparr>aw_db := d1\<rparr>)) = fst (k a (w\<lparr>aw_db := d2\<rparr>))"
  shows "fst (ebind (db_q (sql_fetch f q)) k (w\<lparr>aw_db := d1\<rparr>)) =
    fst (ebind (db_q (sql_fetch f q)) k (w\<lparr>aw_db := d2\<rparr>))"
  using assms
  by (simp add: ebind_def db_q_def on_accounts_def emap_err_def ezoom_def sql_fetch_def
      split: option.split sum.split)

lemma ask_ledger_fst:
  "fst (ask_ledger env cl io a c k (w\<lparr>aw_db := d\<rparr>)) = fst (ask_ledger env cl io a c k w)"
proof -
  obtain r x where b: "cl_balance cl k (aw_ext w) = (r, x)" by force
  show ?thesis
    by (cases r) (simp_all add: ask_ledger_def eff_defs on_ext_def on_cache_def b Let_def split: option.split)
qed

section \<open>Properties\<close>

text \<open>C32: One user's requests never show another user's accounts: the answers to listing, reading
  one account, its balance and its statement are determined by the rows the caller owns, the cache
  and the other services; changing, adding or removing rows of other users changes no answer.\<close>

theorem reads_see_only_own_accounts:
  assumes "own_rows env user d1 = own_rows env user d2"
  shows "fst (list_accounts env tie f user (w\<lparr>aw_db := d1\<rparr>)) = fst (list_accounts env tie f user (w\<lparr>aw_db := d2\<rparr>)) \<and>
    fst (get_account env f user a (w\<lparr>aw_db := d1\<rparr>)) = fst (get_account env f user a (w\<lparr>aw_db := d2\<rparr>)) \<and>
    fst (account_balance env cl io user a (w\<lparr>aw_db := d1\<rparr>)) = fst (account_balance env cl io user a (w\<lparr>aw_db := d2\<rparr>)) \<and>
    fst (account_statement env cl f user a q (w\<lparr>aw_db := d1\<rparr>)) = fst (account_statement env cl f user a q (w\<lparr>aw_db := d2\<rparr>))"
proof (intro conjI)
  have own: "owned_row env a (us_sub user) d1 = owned_row env a (us_sub user) d2"
      "owned_open_row env a (us_sub user) d1 = owned_open_row env a (us_sub user) d2"
      "list_accounts_query env tie (us_sub user) d1 = list_accounts_query env tie (us_sub user) d2"
    using assms by (simp_all only: owned_row_own owned_open_row_own list_query_own)
  show "fst (list_accounts env tie f user (w\<lparr>aw_db := d1\<rparr>)) = fst (list_accounts env tie f user (w\<lparr>aw_db := d2\<rparr>))"
    unfolding list_accounts_def by (rule fetch_then_cong [OF own(3)]) (simp add: eret_def)
  show "fst (get_account env f user a (w\<lparr>aw_db := d1\<rparr>)) = fst (get_account env f user a (w\<lparr>aw_db := d2\<rparr>))"
    unfolding get_account_def fetch_owned_def ebind_assoc
    by (rule fetch_then_cong [OF own(1)]) (simp add: eff_defs split: sum.split)
  show "fst (account_balance env cl io user a (w\<lparr>aw_db := d1\<rparr>)) = fst (account_balance env cl io user a (w\<lparr>aw_db := d2\<rparr>))"
    unfolding account_balance_def
    by (rule fetch_then_cong [OF own(2)])
      (simp add: ebind_def elift_def egets_def eret_def ask_ledger_fst split: sum.split option.split)
  show "fst (account_statement env cl f user a q (w\<lparr>aw_db := d1\<rparr>)) = fst (account_statement env cl f user a q (w\<lparr>aw_db := d2\<rparr>))"
  proof -
    have *: "ebind (eguard b e) k v = (if b then k () v else (Inl e, v))" for b e k and v :: "'b account_world"
      by (simp add: eff_defs)
    show ?thesis
      unfolding account_statement_def fetch_owned_def ebind_assoc Let_def *
      by (simp, intro impI, rule fetch_then_cong [OF own(1)])
        (simp add: eff_defs on_ext_def split: sum.split prod.split)
  qed
qed

theorem reads_see_only_own_accounts_witness:
  "fst (list_accounts demo_account_env id None demo_user
       (demo_active_world\<lparr>aw_db := (aw_db demo_active_world)\<lparr>ad_rows := ad_rows (aw_db demo_active_world) @
          [\<lparr>ar_id = 4, ar_user = 8, ar_number = account_number_of 41, ar_currency = ''NGN'',
            ar_status = ''Frozen'', ar_created = 0, ar_closed = None\<rparr>]\<rparr>\<rparr>)) =
   fst (list_accounts demo_account_env id None demo_user (demo_active_world\<lparr>aw_db := aw_db demo_active_world\<rparr>))"
proof -
  let ?d = "(aw_db demo_active_world)\<lparr>ad_rows := ad_rows (aw_db demo_active_world) @
          [\<lparr>ar_id = 4, ar_user = 8, ar_number = account_number_of 41, ar_currency = ''NGN'',
            ar_status = ''Frozen'', ar_created = 0, ar_closed = None\<rparr>]\<rparr>"
  have "own_rows demo_account_env demo_user ?d = own_rows demo_account_env demo_user (aw_db demo_active_world)"
    by (simp add: own_rows_def demo_account_env_def demo_active_world_def read_nat_def digit_val_def)
  from reads_see_only_own_accounts [OF this] show ?thesis by blast
qed

text \<open>A balance is at most five seconds old: after a request that asked the ledger, and as long
  as nobody else writes the cache, a request within five seconds gets the same answer without the
  ledger being asked, and a later one asks the ledger again.\<close>

theorem balance_at_most_five_seconds_old:
  assumes "account_balance env cl io user a w = (r, w')" and "bi_select io = None" and "bi_set io = RedisFine"
    and "cache_read env (bi_get io) (bi_now io) (balance_cache_key a) (aw_redis w) = None"
    and "owned_open_row env a (us_sub user) (aw_db w) = Inr (Some row)"
    and "ac_uuid_parse env a = Some aid"
    and "cl_balance cl (KovaAccountId aid) (aw_ext w) = (Inr bal, x)"
    and "ac_json_read env (ac_json_show env (balance_json env a (ar_currency row) bal)) =
      Some (balance_json env a (ar_currency row) bal)"
    and "bi_select io2 = None" and "bi_get io2" and "bi_now_set io \<le> bi_now io2"
    and "aw_redis v = aw_redis w'"
    and "owned_open_row env a (us_sub user2) (aw_db v) = Inr (Some row2)"
  shows "r = Inr (ok_response 200 (balance_json env a (ar_currency row) bal) (JObj [])) \<and>
    account_balance env cl io2 user2 a v =
      (if bi_now io2 < bi_now_set io + 5 then (r, v)
       else ask_ledger env cl io2 a (ar_currency row2) (KovaAccountId aid) v)"
proof -
  let ?key = "balance_cache_key a" and ?d = "balance_json env a (ar_currency row) bal"
  have r: "r = Inr (ok_response 200 ?d (JObj []))"
    and R: "aw_redis w' = redis_set_ex (bi_now_set io) ?key (RStr (ac_json_show env ?d)) 5 (aw_redis w)"
    using assms(1-7)
    by (auto simp: account_balance_def ask_ledger_def eff_defs db_q_def on_accounts_def on_ext_def on_cache_def
        redis_write_def balance_cache_ttl_secs_def Let_def)
  have "redis_get (bi_now io2) ?key (aw_redis v) =
      (if bi_now io2 < bi_now_set io + 5 then Some (RStr (ac_json_show env ?d)) else None)"
    unfolding assms(12) R by (rule redis_store.get_put [OF assms(11)])
  then have "cache_read env True (bi_now io2) ?key (aw_redis v) =
      (if bi_now io2 < bi_now_set io + 5 then Some ?d else None)"
    using assms(8) by (simp add: cache_read_def)
  with assms(6,9,10,13) r show ?thesis
    by (simp add: account_balance_def eff_defs db_q_def on_accounts_def)
qed

abbreviation demo_bal :: json where
  "demo_bal \<equiv> balance_json demo_account_env ''3'' ''NGN''
     \<lparr>cb_available = dec_zero, cb_pending = dec_zero, cb_currency = NGN\<rparr>"

definition demo_cache_env :: account_env where
  "demo_cache_env = demo_account_env\<lparr>ac_json_read := (\<lambda>s. Some demo_bal)\<rparr>"

definition demo_balance_io :: "nat \<Rightarrow> balance_io" where
  "demo_balance_io t = \<lparr>bi_select = None, bi_get = True, bi_set = RedisFine, bi_get2 = True,
     bi_now = t, bi_now_set = t, bi_now2 = t\<rparr>"

lemma demo_balance_facts:
  "owned_open_row demo_cache_env ''3'' ''7'' (aw_db demo_active_world) =
     Inr (Some (hd (ad_rows (aw_db demo_active_world))))"
  "cache_read demo_cache_env b t (balance_cache_key ''3'') (aw_redis demo_active_world) = None"
  "balance_json demo_cache_env ''3'' c x = balance_json demo_account_env ''3'' c x"
  "ac_uuid_parse demo_cache_env ''3'' = Some 3"
  by (simp_all add: owned_open_row_def to_bin_def demo_cache_env_def demo_account_env_def cache_read_def
      demo_active_world_def redis_empty_def redis_get_def redis_live_def balance_json_def read_nat_def digit_val_def)

theorem balance_at_most_five_seconds_old_witness:
  "\<exists>r w'. account_balance demo_cache_env stub_clients (demo_balance_io 100) demo_user ''3'' demo_active_world = (r, w') \<and>
     account_balance demo_cache_env stub_clients (demo_balance_io 104) demo_user ''3''
       (demo_active_world\<lparr>aw_redis := aw_redis w'\<rparr>) = (r, demo_active_world\<lparr>aw_redis := aw_redis w'\<rparr>)"
proof -
  obtain r w' where run: "account_balance demo_cache_env stub_clients (demo_balance_io 100) demo_user ''3''
      demo_active_world = (r, w')" by force
  let ?v = "demo_active_world\<lparr>aw_redis := aw_redis w'\<rparr>"
  let ?row = "hd (ad_rows (aw_db demo_active_world))"
  let ?bal = "\<lparr>cb_available = dec_zero, cb_pending = dec_zero, cb_currency = NGN\<rparr>"
  have "r = Inr (ok_response 200 (balance_json demo_cache_env ''3'' (ar_currency ?row) ?bal) (JObj [])) \<and>
    account_balance demo_cache_env stub_clients (demo_balance_io 104) demo_user ''3'' ?v =
      (if bi_now (demo_balance_io 104) < bi_now_set (demo_balance_io 100) + 5 then (r, ?v)
       else ask_ledger demo_cache_env stub_clients (demo_balance_io 104) ''3'' (ar_currency ?row)
         (KovaAccountId 3) ?v)"
  proof (rule balance_at_most_five_seconds_old [OF run, where x = "()"])
    show "ac_uuid_parse demo_cache_env ''3'' = Some 3"
      by (rule demo_balance_facts)
    show "cl_balance stub_clients (KovaAccountId 3) (aw_ext demo_active_world) = (Inr ?bal, ())"
      by (simp add: stub_clients_def eret_def)
    show "ac_json_read demo_cache_env (ac_json_show demo_cache_env
        (balance_json demo_cache_env ''3'' (ar_currency ?row) ?bal)) =
        Some (balance_json demo_cache_env ''3'' (ar_currency ?row) ?bal)"
      unfolding demo_balance_facts(3) by (simp add: demo_cache_env_def demo_active_world_def)
  qed (simp_all add: demo_balance_facts, simp_all add: demo_balance_io_def)
  then show ?thesis
    using run by (auto simp: demo_balance_io_def)
qed

text \<open>The stale value is never served: when the ledger fails the cache is read again, but unless
  another request filled it in between (or the first read failed) that read finds nothing, so a
  caller gets the ledger's error and no answer carries the \<open>stale\<close> mark.\<close>

lemma stale_balance_never_served:
  assumes "account_balance env cl io user a w = (Inr resp, w')" and "bi_get io" and "bi_now io \<le> bi_now2 io"
  shows "\<exists>d. resp = ok_response 200 d (JObj [])"
proof -
  have miss: "cache_read env True (bi_now io) k R = None \<Longrightarrow> cache_read env b (bi_now2 io) k R = None" for b k R
    using assms(3)
    by (auto simp: cache_read_def redis_get_def redis_live_def cell_alive_def
        split: option.splits if_splits redis_val.splits)
  show ?thesis
    using assms(1,2) miss
    by (auto simp: account_balance_def ask_ledger_def eff_defs on_ext_def on_cache_def Let_def
        dest!: db_fetch_keeps split: prod.splits sum.splits option.splits)
qed

end
