(* ===== verification/Account_Service.thy ===== *)
theory Account_Service
  imports Account_Read
begin

text \<open>
  \<open>services/kova-account\<close> as a whole: the routes (\<open>router.rs\<close>), each handler behind the
  extraction of the caller, and sequences of requests.  A request is one that \<open>axum\<close> has matched
  and whose body and query were read.
\<close>

datatype account_req =
    AqHealth
  | AqCreate string
  | AqList
  | AqGet string
  | AqClose string
  | AqBalance string
  | AqStatement string statement_query

record account_io =
  yi_create :: create_io
  yi_close :: close_io
  yi_balance :: balance_io
  yi_select :: "string option"
  yi_tie :: "account_row list \<Rightarrow> account_row list"
  yi_db_ok :: bool
  yi_ping :: "string option"

fun account_handle ::
  "account_env \<Rightarrow> 'x account_clients \<Rightarrow> account_io \<Rightarrow> auth_user \<Rightarrow> account_req
    \<Rightarrow> (account_error, http_resp, 'x account_world) eff" where
  "account_handle env cl io user AqHealth = eret (account_health (yi_db_ok io) (yi_ping io))"
| "account_handle env cl io user (AqCreate c) = create_account env cl (yi_create io) user c"
| "account_handle env cl io user AqList = list_accounts env (yi_tie io) (yi_select io) user"
| "account_handle env cl io user (AqGet a) = get_account env (yi_select io) user a"
| "account_handle env cl io user (AqClose a) = close_account env cl (yi_close io) user a"
| "account_handle env cl io user (AqBalance a) = account_balance env cl (yi_balance io) user a"
| "account_handle env cl io user (AqStatement a q) = account_statement env cl (yi_select io) user a q"

definition answer :: "account_error + http_resp \<Rightarrow> http_resp" where
  "answer r = (case r of Inl e \<Rightarrow> account_error_response e | Inr resp \<Rightarrow> resp)"

definition account_call ::
  "account_env \<Rightarrow> string \<Rightarrow> 'x account_clients \<Rightarrow> account_io \<Rightarrow> (string \<times> string) list \<Rightarrow> account_req
    \<Rightarrow> 'x account_world \<Rightarrow> http_resp \<times> 'x account_world" where
  "account_call env key cl io headers req w =
     (if req = AqHealth then (account_health (yi_db_ok io) (yi_ping io), w)
      else case auth_user_extract env key headers of
          Inl resp \<Rightarrow> (resp, w)
        | Inr user \<Rightarrow> (case account_handle env cl io user req w of (r, w') \<Rightarrow> (answer r, w')))"

fun account_serve ::
  "account_env \<Rightarrow> string \<Rightarrow> 'x account_clients \<Rightarrow> account_io \<times> (string \<times> string) list \<times> account_req
    \<Rightarrow> 'x account_world \<Rightarrow> http_resp \<times> 'x account_world" where
  "account_serve env key cl (io, headers, req) = account_call env key cl io headers req"

section \<open>Lemmas\<close>

lemma account_handle_wf: "einv (\<lambda>w. account_db_wf (aw_db w)) (account_handle env cl io user req)"
  by (cases req)
    (simp_all add: create_account_wf close_account_wf list_accounts_db get_account_db account_balance_db
      account_statement_db einv_eret)

text \<open>How a table may change: a row stays, or is closed from \<open>Active\<close> or \<open>Frozen\<close>; rows that wait
  for KYC are added at the end.\<close>

definition row_step :: "account_row \<Rightarrow> account_row \<Rightarrow> bool" where
  "row_step r q \<longleftrightarrow> q = r \<or>
     ar_status r \<in> {''Active'', ''Frozen''} \<and> (\<exists>t. q = r\<lparr>ar_status := ''Closed'', ar_closed := Some t\<rparr>)"

definition rows_step :: "account_row list \<Rightarrow> account_row list \<Rightarrow> bool" where
  "rows_step rs qs \<longleftrightarrow> (\<exists>old new. qs = old @ new \<and> list_all2 row_step rs old \<and>
     (\<forall>r \<in> set new. ar_status r = ''PendingKYC''))"

lemma row_step_refl: "row_step r r"
  by (simp add: row_step_def)

lemma row_step_trans: "row_step r q \<Longrightarrow> row_step q p \<Longrightarrow> row_step r p"
  by (auto simp: row_step_def)

lemma row_step_pending: "row_step r q \<Longrightarrow> ar_status r = ''PendingKYC'' \<Longrightarrow> q = r"
  by (auto simp: row_step_def)

lemma rows_step_refl: "rows_step rs rs"
  unfolding rows_step_def by (intro exI [of _ rs] exI [of _ "[]"]) (simp add: list_all2_refl row_step_refl)

lemma rows_step_trans:
  assumes "rows_step rs qs" and "rows_step qs ps"
  shows "rows_step rs ps"
proof -
  obtain old new where q: "qs = old @ new" "list_all2 row_step rs old" "\<forall>r \<in> set new. ar_status r = ''PendingKYC''"
    using assms(1) by (auto simp: rows_step_def)
  obtain o1 o2 new2 where p: "ps = (o1 @ o2) @ new2" "list_all2 row_step old o1" "list_all2 row_step new o2"
      "\<forall>r \<in> set new2. ar_status r = ''PendingKYC''"
    using assms(2) q(1) by (auto simp: rows_step_def list_all2_append1)
  have "o2 = new"
    using p(3) q(3) by (induction new o2 rule: list_all2_induct) (auto dest: row_step_pending)
  moreover have "list_all2 row_step rs o1"
    using list_all2_trans [OF row_step_trans q(2) p(2)] .
  ultimately show ?thesis
    unfolding rows_step_def using p(1,4) q(3) by (intro exI [of _ o1] exI [of _ "o2 @ new2"]) auto
qed

lemma close_account_rows:
  assumes "account_db_wf (aw_db w)" and "close_account env cl io user a w = (r, w')"
  shows "rows_step (ad_rows (aw_db w)) (ad_rows (aw_db w'))"
proof (cases "aw_db w' = aw_db w")
  case False
  with close_account_outcome [OF assms(2)] obtain row where row: "may_close env cl user a w row"
      "ad_rows (aw_db w') = update_where (\<lambda>q. ar_id q = ar_id row) (closed_by env io) (ad_rows (aw_db w))"
    by blast
  have "row_step q (if ar_id q = ar_id row then closed_by env io q else q)" if "q \<in> set (ad_rows (aw_db w))" for q
  proof (cases "ar_id q = ar_id row")
    case True
    with that row(1) assms(1) have "q = row"
      by (auto simp: may_close_def account_db_wf_def distinct_map inj_on_def)
    with row(1) show ?thesis by (auto simp: may_close_def row_step_def)
  qed (simp add: row_step_refl)
  then have "list_all2 row_step (ad_rows (aw_db w)) (ad_rows (aw_db w'))"
    unfolding row(2) update_where_def by (simp add: list_all2_conv_all_nth)
  then show ?thesis
    unfolding rows_step_def by (intro exI [of _ "ad_rows (aw_db w')"] exI [of _ "[]"]) simp
qed (simp add: rows_step_refl)

lemma account_handle_rows:
  assumes "account_db_wf (aw_db w)" and "account_handle env cl io user req w = (r, w')"
  shows "rows_step (ad_rows (aw_db w)) (ad_rows (aw_db w'))"
proof -
  have same: "rows_step (ad_rows (aw_db w)) (ad_rows (aw_db w'))"
    if "einv (\<lambda>v. aw_db v = aw_db w) (account_handle env cl io user req)"
    using einvD [OF that _ assms(2)] by (simp add: rows_step_refl)
  show ?thesis
  proof (cases req)
    case (AqCreate c)
    with assms(2) have "create_account env cl (yi_create io) user c w = (r, w')" by simp
    from create_account_rows [OF this] show ?thesis
    proof (elim disjE exE conjE)
      fix row assume "ad_rows (aw_db w') = ad_rows (aw_db w) @ [row]" "ar_status row = ''PendingKYC''"
      then show ?thesis
        unfolding rows_step_def by (intro exI [of _ "ad_rows (aw_db w)"] exI [of _ "[row]"])
          (simp add: list_all2_refl row_step_refl)
    qed (simp add: rows_step_refl)
  next
    case (AqClose a)
    with assms show ?thesis by (simp add: close_account_rows)
  qed (intro same, simp add: einv_eret list_accounts_db [where P = "\<lambda>d. d = aw_db w"]
      get_account_db [where P = "\<lambda>d. d = aw_db w"] account_balance_db [where P = "\<lambda>d. d = aw_db w"]
      account_statement_db [where P = "\<lambda>d. d = aw_db w"])+
qed

lemma account_call_rows:
  assumes "account_db_wf (aw_db w)" and "account_call env key cl io hs req w = (resp, w')"
  shows "account_db_wf (aw_db w') \<and> rows_step (ad_rows (aw_db w)) (ad_rows (aw_db w'))"
proof (cases "req = AqHealth \<or> (\<exists>x. auth_user_extract env key hs = Inl x)")
  case True
  with assms have "w' = w" by (auto simp: account_call_def split: if_splits)
  with assms(1) show ?thesis by (simp add: rows_step_refl)
next
  case False
  then obtain user where "auth_user_extract env key hs = Inr user"
    by (cases "auth_user_extract env key hs") auto
  with False assms(2) obtain r where "account_handle env cl io user req w = (r, w')"
    by (auto simp: account_call_def split: prod.splits if_splits)
  with einvD [OF account_handle_wf assms(1)] account_handle_rows [OF assms(1)] show ?thesis by blast
qed

interpretation account_service: evolving_service "account_serve env key cl"
  "\<lambda>w. account_db_wf (aw_db w)" "\<lambda>w w'. rows_step (ad_rows (aw_db w)) (ad_rows (aw_db w'))"
  for env key cl
proof unfold_locales
  fix w c r w'
  assume wf: "account_db_wf (aw_db w)" and call: "account_serve env key cl c w = (r, w')"
  obtain io hs req where "c = (io, hs, req)" by (metis prod_cases3)
  with call account_call_rows [OF wf]
  show "account_db_wf (aw_db w') \<and> rows_step (ad_rows (aw_db w)) (ad_rows (aw_db w'))"
    by simp
qed (simp add: rows_step_refl, rule rows_step_trans)

section \<open>Properties\<close>

text \<open>The life of the accounts table: whatever requests arrive, with whatever faults, ids, account
  numbers and the pair of owner and currency stay unique and every row satisfies the schema; no
  row is ever lost, moved or changed but by closing an active or frozen account, so a closed
  account stays exactly as it is; and every added row waits for KYC.\<close>

theorem account_table_life:
  assumes "account_db_wf (aw_db w)" and "service_run (account_serve env key cl) calls w = (resps, w')"
  shows "account_db_wf (aw_db w') \<and>
    (\<exists>old new. ad_rows (aw_db w') = old @ new \<and>
      list_all2 (\<lambda>r q. q = r \<or> ar_status r \<in> {''Active'', ''Frozen''} \<and>
        (\<exists>t. q = r\<lparr>ar_status := ''Closed'', ar_closed := Some t\<rparr>)) (ad_rows (aw_db w)) old \<and>
      (\<forall>r \<in> set new. ar_status r = ''PendingKYC''))"
  using account_service.run [OF assms] by (simp add: rows_step_def row_step_def [abs_def])

definition demo_account_io :: account_io where
  "demo_account_io = \<lparr>yi_create = demo_create_io, yi_close = demo_close_io,
     yi_balance = demo_balance_io 0, yi_select = None, yi_tie = id, yi_db_ok = True, yi_ping = Some ''PONG''\<rparr>"

theorem account_table_life_witness:
  "account_db_wf (aw_db (snd (service_run (account_serve demo_account_env ''pem'' stub_clients)
     [(demo_account_io, [(''authorization'', ''Bearer 7'')], AqClose ''3''),
      (demo_account_io, [(''authorization'', ''Bearer 8'')], AqCreate ''GBP'')] demo_active_world)))"
proof -
  obtain resps w' where "service_run (account_serve demo_account_env ''pem'' stub_clients)
     [(demo_account_io, [(''authorization'', ''Bearer 7'')], AqClose ''3''),
      (demo_account_io, [(''authorization'', ''Bearer 8'')], AqCreate ''GBP'')] demo_active_world = (resps, w')"
    by force
  from account_table_life [OF demo_active_wf this] this show ?thesis by simp
qed

text \<open>Nothing in the service ever activates an account, so one that it opened cannot be closed.\<close>

lemma opened_account_cannot_be_closed:
  assumes "close_account env cl io user a w = (r, w')" and "\<forall>q \<in> set (ad_rows (aw_db w)). ar_status q = ''PendingKYC''"
  shows "aw_db w' = aw_db w \<and> (\<exists>e. r = Inl e)"
  using close_account_outcome [OF assms(1)] assms(2) by (auto simp: may_close_def)

end
