(* ===== verification/Interleave.thy ===== *)
theory Interleave
  imports Effects
begin

text \<open>
  Handlers that run at the same time.  An \<open>async fn\<close> gives up the processor where it awaits, so
  between two statements of one handler any other handler of the process, or of another replica
  over the same database, may run statements of its own.  A program \<open>prog\<close> is a handler cut at its
  awaits: it has finished, it will never finish, or it waits to run one more action on the shared
  world and goes on as the outcome says.  A pool of programs is run by a schedule, the list of the
  programs whose next action runs; a request that is dropped half-way is one that is not scheduled
  any more.

  \<open>implements\<close> ties a program to the function of \<open>Effects\<close> that models the same handler when it
  runs alone, and \<open>safe\<close> is a rely-guarantee judgement with one relation, \<open>evolves\<close>, as what each
  program does to the world and expects of the others.
\<close>

datatype ('e, 'a, 'w) prog =
    Done "'e + 'a"
  | Hang
  | Act "'w \<Rightarrow> ('e, 'a, 'w) prog \<times> 'w"

text \<open>One action; going on with the result, whatever it is; \<open>?\<close>; \<open>map_err\<close>.\<close>

definition patom :: "('e, 'a, 'w) eff \<Rightarrow> ('e, 'a, 'w) prog" where
  "patom m = Act (\<lambda>w. map_prod Done id (m w))"

primrec ptry :: "('e, 'a, 'w) prog \<Rightarrow> ('e + 'a \<Rightarrow> ('d, 'b, 'w) prog) \<Rightarrow> ('d, 'b, 'w) prog" where
  "ptry (Done r) = (\<lambda>h. h r)"
| "ptry Hang = (\<lambda>h. Hang)"
| "ptry (Act m) = (\<lambda>h. Act (\<lambda>w. case map_prod ptry id (m w) of (k, w') \<Rightarrow> (k h, w')))"

definition pbind :: "('e, 'a, 'w) prog \<Rightarrow> ('a \<Rightarrow> ('e, 'b, 'w) prog) \<Rightarrow> ('e, 'b, 'w) prog" where
  "pbind p f = ptry p (\<lambda>r. case r of Inl e \<Rightarrow> Done (Inl e) | Inr a \<Rightarrow> f a)"

definition pmap_err :: "('e \<Rightarrow> 'd) \<Rightarrow> ('e, 'a, 'w) prog \<Rightarrow> ('d, 'a, 'w) prog" where
  "pmap_err g p = ptry p (\<lambda>r. Done (map_err g r))"

text \<open>A condition that needs no action.\<close>

definition pguard :: "bool \<Rightarrow> 'e \<Rightarrow> ('e, unit, 'w) prog" where
  "pguard b e = Done (if b then Inr () else Inl e)"

lemma ptry_Act: "ptry (Act m) h = Act (\<lambda>w. case m w of (p, w') \<Rightarrow> (ptry p h, w'))"
  by (simp add: fun_eq_iff split: prod.split)

lemma pbind_patom:
  "pbind (patom m) f = Act (\<lambda>w. case m w of (r, w') \<Rightarrow> (case r of Inl e \<Rightarrow> Done (Inl e) | Inr a \<Rightarrow> f a, w'))"
  by (simp add: pbind_def patom_def fun_eq_iff split: prod.split)

section \<open>Alone\<close>

primrec solo :: "('e, 'a, 'w) prog \<Rightarrow> 'w \<Rightarrow> (('e + 'a) \<times> 'w) option" where
  "solo (Done r) = (\<lambda>w. Some (r, w))"
| "solo Hang = (\<lambda>w. None)"
| "solo (Act m) = (\<lambda>w. case map_prod solo id (m w) of (k, w') \<Rightarrow> k w')"

definition implements :: "('e, 'a, 'w) prog \<Rightarrow> ('e, 'a, 'w) eff \<Rightarrow> bool" where
  "implements p m \<longleftrightarrow> (\<forall>w. solo p w = Some (m w))"

named_theorems impl_intros "a program and its handler, combinator by combinator"

lemma solo_patom [simp]: "solo (patom m) w = Some (m w)"
  by (cases "m w") (simp add: patom_def)

lemma solo_ptry:
  "solo (ptry p h) w = (case solo p w of None \<Rightarrow> None | Some (r, w') \<Rightarrow> solo (h r) w')"
proof (induction p arbitrary: w)
  case (Act m)
  obtain p v where m: "m w = (p, v)" by force
  have "solo (ptry p h) v = (case solo p v of None \<Rightarrow> None | Some (r, w') \<Rightarrow> solo (h r) w')"
    by (rule Act.IH [of "(p, v)" p]) (use m in \<open>auto intro: range_eqI [of _ _ w]\<close>)
  then show ?case by (simp add: m)
qed simp_all

lemma solo_pbind:
  "solo (pbind p f) w =
    (case solo p w of None \<Rightarrow> None
     | Some (r, w') \<Rightarrow> (case r of Inl e \<Rightarrow> Some (Inl e, w') | Inr a \<Rightarrow> solo (f a) w'))"
  by (simp add: pbind_def solo_ptry split: option.splits prod.splits sum.splits)

lemma implementsD: "implements p m \<Longrightarrow> solo p w = Some (m w)"
  by (simp add: implements_def)

lemma impl_patom [impl_intros]: "implements (patom m) m"
  by (simp add: implements_def)

lemma impl_Done [impl_intros]: "implements (Done r) (elift r)"
  by (simp add: implements_def elift_def)

lemma impl_ret [impl_intros]: "implements (Done (Inr a)) (eret a)"
  by (simp add: implements_def eret_def)

lemma impl_throw [impl_intros]: "implements (Done (Inl e)) (ethrow e)"
  by (simp add: implements_def ethrow_def)

lemma impl_guard [impl_intros]: "implements (pguard b e) (eguard b e)"
  by (simp add: implements_def pguard_def eguard_def)

lemma impl_try [impl_intros]:
  "implements p m \<Longrightarrow> (\<And>r. implements (h r) (k r)) \<Longrightarrow> implements (ptry p h) (etry m k)"
  by (simp add: implements_def solo_ptry etry_def split: prod.split)

lemma impl_bind [impl_intros]:
  "implements p m \<Longrightarrow> (\<And>a. implements (f a) (g a)) \<Longrightarrow> implements (pbind p f) (ebind m g)"
  by (simp add: implements_def solo_pbind ebind_def split: prod.split sum.split)

lemma impl_map_err [impl_intros]: "implements p m \<Longrightarrow> implements (pmap_err g p) (emap_err g m)"
  by (simp add: implements_def pmap_err_def solo_ptry emap_err_def split: prod.split)

lemma impl_if [impl_intros]:
  "implements p m \<Longrightarrow> implements q n \<Longrightarrow> implements (if b then p else q) (if b then m else n)"
  by simp

lemma impl_option [impl_intros]:
  "implements p m \<Longrightarrow> (\<And>a. implements (f a) (g a)) \<Longrightarrow>
    implements (case x of None \<Rightarrow> p | Some a \<Rightarrow> f a) (case x of None \<Rightarrow> m | Some a \<Rightarrow> g a)"
  by (cases x) simp_all

lemma impl_sum [impl_intros]:
  "(\<And>a. implements (f a) (f' a)) \<Longrightarrow> (\<And>b. implements (g b) (g' b)) \<Longrightarrow>
    implements (case x of Inl a \<Rightarrow> f a | Inr b \<Rightarrow> g b) (case x of Inl a \<Rightarrow> f' a | Inr b \<Rightarrow> g' b)"
  by (cases x) simp_all

lemma impl_prod [impl_intros]:
  "(\<And>a b. implements (f a b) (g a b)) \<Longrightarrow>
    implements (case x of (a, b) \<Rightarrow> f a b) (case x of (a, b) \<Rightarrow> g a b)"
  by (cases x) simp

lemma impl_Let [impl_intros]:
  "implements (f x) (g x) \<Longrightarrow> implements (let a = x in f a) (let a = x in g a)"
  by simp

section \<open>Together\<close>

text \<open>The next action of the program at an index; nothing if it has none.\<close>

fun turn :: "nat \<Rightarrow> ('e, 'a, 'w) prog list \<times> 'w \<Rightarrow> ('e, 'a, 'w) prog list \<times> 'w" where
  "turn i (ps, w) =
     (if i < length ps
      then case ps ! i of
          Act m \<Rightarrow> (case m w of (p, w') \<Rightarrow> (ps[i := p], w'))
        | _ \<Rightarrow> (ps, w)
      else (ps, w))"

declare turn.simps [simp del]

definition schedule ::
  "nat list \<Rightarrow> ('e, 'a, 'w) prog list \<times> 'w \<Rightarrow> ('e, 'a, 'w) prog list \<times> 'w" where
  "schedule order s = fold turn order s"

text \<open>The result of a program that has finished.\<close>

definition finished :: "('e, 'a, 'w) prog \<Rightarrow> ('e + 'a) option" where
  "finished p = (case p of Done r \<Rightarrow> Some r | _ \<Rightarrow> None)"

lemma finished_Done: "finished p = Some r \<longleftrightarrow> p = Done r"
  by (cases p) (simp_all add: finished_def)

text \<open>The same as a step relation: one program of the pool moves.\<close>

inductive pool_step ::
  "('e, 'a, 'w) prog list \<times> 'w \<Rightarrow> ('e, 'a, 'w) prog list \<times> 'w \<Rightarrow> bool" where
  moves: "i < length ps \<Longrightarrow> ps ! i = Act m \<Longrightarrow> m w = (p, w') \<Longrightarrow> pool_step (ps, w) (ps[i := p], w')"

inductive_cases pool_stepE: "pool_step s s'"

lemma schedule_Nil [simp]: "schedule [] s = s"
  by (simp add: schedule_def)

lemma schedule_Cons: "schedule (i # order) s = schedule order (turn i s)"
  by (simp add: schedule_def)

lemma schedule_append: "schedule (xs @ ys) s = schedule ys (schedule xs s)"
  by (simp add: schedule_def)

lemma turn_step: "turn i s = s \<or> pool_step s (turn i s)"
proof (cases s)
  case (Pair ps w)
  show ?thesis
  proof (cases "i < length ps")
    case True
    then show ?thesis
      by (cases "ps ! i") (auto simp: Pair turn.simps split: prod.split intro: pool_step.intros)
  qed (simp add: Pair turn.simps)
qed

lemma step_turn: "pool_step s s' \<Longrightarrow> \<exists>i. s' = turn i s"
proof (erule pool_stepE)
  fix i ps m w p w'
  assume "s = (ps, w)" "s' = (ps[i := p], w')" "i < length ps" "ps ! i = Act m" "m w = (p, w')"
  then have "s' = turn i s" by (simp add: turn.simps)
  then show "\<exists>i. s' = turn i s" ..
qed

text \<open>What schedules reach is what the steps reach.\<close>

lemma schedule_steps: "pool_step\<^sup>*\<^sup>* s s' \<longleftrightarrow> (\<exists>order. s' = schedule order s)"
proof
  assume "pool_step\<^sup>*\<^sup>* s s'"
  then show "\<exists>order. s' = schedule order s"
  proof (induction rule: rtranclp_induct)
    case base
    show ?case by (rule exI [of _ "[]"]) simp
  next
    case (step u v)
    then obtain order i where "u = schedule order s" "v = turn i u" using step_turn by blast
    then have "v = schedule (order @ [i]) s" by (simp add: schedule_append schedule_Cons)
    then show ?case by blast
  qed
next
  assume "\<exists>order. s' = schedule order s"
  then obtain order where "s' = schedule order s" ..
  moreover have "pool_step\<^sup>*\<^sup>* s (schedule order s)"
  proof (induction order arbitrary: s)
    case (Cons i order)
    have "pool_step\<^sup>*\<^sup>* s (turn i s)" using turn_step [of i s] by auto
    with Cons [of "turn i s"] show ?case by (simp add: schedule_Cons)
  qed simp
  ultimately show "pool_step\<^sup>*\<^sup>* s s'" by simp
qed

lemma turn_length [simp]: "length (fst (turn i s)) = length (fst s)"
  by (cases s) (simp add: turn.simps split: prog.split prod.split)

lemma schedule_length: "schedule order s = (ps', w') \<Longrightarrow> length ps' = length (fst s)"
proof (induction order arbitrary: s)
  case (Cons i order)
  from Cons.IH [of "turn i s"] Cons.prems show ?case by (simp add: schedule_Cons)
qed auto

text \<open>The first part of a program scheduled until it has finished, while the others wait; the whole
  program.\<close>

lemma schedule_ptry:
  assumes "i < length ps" and "ps ! i = ptry p h" and "solo p w = Some (r, w')"
  shows "\<exists>k. schedule (replicate k i) (ps, w) = (ps[i := h r], w')"
  using assms
proof (induction p arbitrary: ps w)
  case (Done r')
  then have "schedule (replicate 0 i) (ps, w) = (ps[i := h r], w')"
    by (metis list_update_id option.inject prod.inject ptry.simps(1) replicate_0 schedule_Nil solo.simps(1))
  then show ?case by blast
next
  case Hang
  then show ?case by simp
next
  case (Act m)
  obtain p v where m: "m w = (p, v)" by force
  with Act.prems have p: "solo p v = Some (r, w')" by simp
  have "\<exists>k. schedule (replicate k i) (ps[i := ptry p h], v) = ((ps[i := ptry p h])[i := h r], w')"
    by (rule Act.IH [of "(p, v)" p]) (use m p Act.prems in \<open>auto intro: range_eqI [of _ _ w]\<close>)
  then obtain k where "schedule (replicate k i) (ps[i := ptry p h], v) = (ps[i := h r], w')" by auto
  moreover have "turn i (ps, w) = (ps[i := ptry p h], v)"
    using Act.prems m by (simp add: turn.simps)
  ultimately have "schedule (replicate (Suc k) i) (ps, w) = (ps[i := h r], w')"
    by (simp add: schedule_Cons)
  then show ?case by blast
qed

lemma ptry_Done: "ptry p Done = p"
proof (induction p)
  case (Act m)
  have "(\<lambda>w. case map_prod ptry id (m w) of (k, w') \<Rightarrow> (k Done, w')) = m"
  proof
    fix w
    obtain q v where "m w = (q, v)" by force
    with Act [of "(q, v)" q] show "(case map_prod ptry id (m w) of (k, w') \<Rightarrow> (k Done, w')) = m w"
      by simp (metis rangeI)
  qed
  then show ?case by simp
qed simp_all

lemma schedule_solo:
  assumes "i < length ps" and "ps ! i = p" and "solo p w = Some (r, w')"
  shows "\<exists>k. schedule (replicate k i) (ps, w) = (ps[i := Done r], w')"
  using schedule_ptry [of i ps p Done] assms by (simp add: ptry_Done)

lemma schedule_pbind:
  assumes "i < length ps" and "ps ! i = pbind p f" and "solo p w = Some (Inr a, w')"
  shows "\<exists>k. schedule (replicate k i) (ps, w) = (ps[i := f a], w')"
  using schedule_ptry [OF assms(1) assms(2) [unfolded pbind_def] assms(3)] by simp

section \<open>Rely and guarantee\<close>

text \<open>What the others do between two actions of a program (\<open>rely\<close>), what each of its own actions may
  do (\<open>guar\<close>), and what anybody does (\<open>evolves\<close>).\<close>

locale rely_guarantee =
  fixes ok :: "'w \<Rightarrow> bool" and rely guar evolves :: "'w \<Rightarrow> 'w \<Rightarrow> bool"
  assumes rely_refl: "rely w w"
    and guar_refl: "guar w w"
    and rely_trans: "rely u v \<Longrightarrow> rely v w \<Longrightarrow> rely u w"
    and rely_evolves: "rely u v \<Longrightarrow> evolves u v"
    and guar_evolves: "guar u v \<Longrightarrow> evolves u v"
    and evolves_trans: "evolves u v \<Longrightarrow> evolves v w \<Longrightarrow> evolves u w"
begin

text \<open>From the world \<open>w\<close> on, with the others keeping to \<open>rely\<close> between its actions, the program keeps
  to \<open>guar\<close> and keeps the world \<open>ok\<close>, and its result satisfies \<open>Q\<close> in every world from its end on.\<close>

primrec safe :: "('e, 'a, 'w) prog \<Rightarrow> ('e + 'a \<Rightarrow> 'w \<Rightarrow> bool) \<Rightarrow> 'w \<Rightarrow> bool" where
  "safe (Done r) = (\<lambda>Q w. \<forall>v. ok v \<longrightarrow> rely w v \<longrightarrow> Q r v)"
| "safe Hang = (\<lambda>Q w. True)"
| "safe (Act m) = (\<lambda>Q w. \<forall>v. ok v \<longrightarrow> rely w v \<longrightarrow>
     (case map_prod safe id (m v) of (s, v') \<Rightarrow> ok v' \<and> guar v v' \<and> s Q v'))"

lemma evolves_refl: "evolves w w"
  by (rule rely_evolves) (rule rely_refl)

lemma safe_later:
  assumes "safe p Q w" and "rely w v"
  shows "safe p Q v"
  using assms(1) rely_trans [OF assms(2)] by (cases p) simp_all

lemma safe_Act:
  "safe (Act m) Q w \<Longrightarrow> ok v \<Longrightarrow> rely w v \<Longrightarrow> m v = (p, v') \<Longrightarrow> ok v' \<and> guar v v' \<and> safe p Q v'"
  by fastforce

lemma safe_ActI:
  assumes "\<And>v p v'. ok v \<Longrightarrow> rely w v \<Longrightarrow> m v = (p, v') \<Longrightarrow> ok v' \<and> guar v v' \<and> safe p Q v'"
  shows "safe (Act m) Q w"
  unfolding safe.simps
proof (intro allI impI)
  fix v assume v: "ok v" "rely w v"
  obtain p v' where m: "m v = (p, v')" by force
  from assms [OF v m] show "case map_prod safe id (m v) of (s, v') \<Rightarrow> ok v' \<and> guar v v' \<and> s Q v'"
    by (simp add: m)
qed

lemma safe_result: "safe (Done r) Q w \<Longrightarrow> ok w \<Longrightarrow> Q r w"
  by (simp add: rely_refl)

lemma safe_patom:
  fixes m :: "('e, 'a, 'w) eff"
  assumes "\<And>v r v'. ok v \<Longrightarrow> rely w v \<Longrightarrow> m v = (r, v') \<Longrightarrow>
      ok v' \<and> guar v v' \<and> (\<forall>u. ok u \<longrightarrow> rely v' u \<longrightarrow> Q r u)"
  shows "safe (patom m) Q w"
  unfolding patom_def
proof (rule safe_ActI)
  fix v v' :: 'w and p :: "('e, 'a, 'w) prog"
  assume v: "ok v" "rely w v" and m: "map_prod Done id (m v) = (p, v')"
  obtain r where r: "m v = (r, v')" "p = Done r" using m by (cases "m v") auto
  from assms [OF v r(1)] show "ok v' \<and> guar v v' \<and> safe p Q v'" by (simp add: r(2))
qed

lemma safe_ptry:
  assumes "safe p Q w" and "ok w"
    and "\<And>r v. ok v \<Longrightarrow> evolves w v \<Longrightarrow> \<forall>u. ok u \<longrightarrow> rely v u \<longrightarrow> Q r u \<Longrightarrow> safe (h r) R v"
  shows "safe (ptry p h) R w"
  using assms
proof (induction p arbitrary: w)
  case (Done r)
  then show ?case by (simp add: evolves_refl)
next
  case Hang
  show ?case by simp
next
  case (Act m)
  have go: "ok v' \<and> guar v v' \<and> safe (ptry p h) R v'"
    if v: "ok v" "rely w v" and m: "m v = (p, v')" for v p v'
  proof -
    have s: "ok v'" "guar v v'" "safe p Q v'" using safe_Act [OF Act.prems(1) v m] by auto
    then have w: "evolves w v'" using evolves_trans [OF rely_evolves [OF v(2)] guar_evolves] by blast
    have "safe (ptry p h) R v'"
    proof (rule Act.IH [of "(p, v')" p v'])
      show "(p, v') \<in> range m" using m by (metis rangeI)
      show "safe (h r) R u"
        if "ok u" "evolves v' u" "\<forall>x. ok x \<longrightarrow> rely u x \<longrightarrow> Q r x" for r u
        using Act.prems(3) [OF that(1) evolves_trans [OF w that(2)] that(3)] .
    qed (use s in simp_all)
    with s show ?thesis by blast
  qed
  show ?case
    unfolding ptry.simps safe.simps
  proof (intro allI impI)
    fix v assume v: "ok v" "rely w v"
    obtain p v' where m: "m v = (p, v')" by force
    from go [OF v m] show "case map_prod safe id (case map_prod ptry id (m v) of (k, w') \<Rightarrow> (k h, w')) of
        (s, v') \<Rightarrow> ok v' \<and> guar v v' \<and> s R v'"
      by (simp add: m)
  qed
qed

lemma safe_pbind:
  assumes "safe p Q w" and "ok w"
    and "\<And>a v. ok v \<Longrightarrow> evolves w v \<Longrightarrow> \<forall>u. ok u \<longrightarrow> rely v u \<longrightarrow> Q (Inr a) u \<Longrightarrow> safe (f a) R v"
    and "\<And>e v. ok v \<Longrightarrow> evolves w v \<Longrightarrow> Q (Inl e) v \<Longrightarrow> R (Inl e) v"
  shows "safe (pbind p f) R w"
  unfolding pbind_def
proof (rule safe_ptry [OF assms(1,2)])
  fix r v assume v: "ok v" "evolves w v" "\<forall>u. ok u \<longrightarrow> rely v u \<longrightarrow> Q r u"
  then show "safe (case r of Inl e \<Rightarrow> Done (Inl e) | Inr a \<Rightarrow> f a) R v"
    using assms(3,4) evolves_trans [OF v(2) rely_evolves] by (cases r) auto
qed

lemma safe_conseq:
  assumes "safe p Q w" and "ok w" and "\<And>r u. ok u \<Longrightarrow> evolves w u \<Longrightarrow> Q r u \<Longrightarrow> R r u"
  shows "safe p R w"
proof -
  have "safe (ptry p Done) R w"
    by (rule safe_ptry [OF assms(1,2)]) (simp, metis assms(3) evolves_trans rely_evolves)
  then show ?thesis by (simp add: ptry_Done)
qed

lemma safe_pmap_err:
  "safe p (\<lambda>r. Q (map_err g r)) w \<Longrightarrow> ok w \<Longrightarrow> safe (pmap_err g p) Q w"
  unfolding pmap_err_def by (rule safe_ptry) simp_all

text \<open>A program that keeps to its guarantee: one rule for each combinator.\<close>

definition calm :: "('e, 'a, 'w) prog \<Rightarrow> bool" where
  "calm p \<longleftrightarrow> (\<forall>w. ok w \<longrightarrow> safe p (\<lambda>r v. True) w)"

lemma calm_safe:
  "calm p \<Longrightarrow> ok w \<Longrightarrow> (\<And>r u. ok u \<Longrightarrow> evolves w u \<Longrightarrow> R r u) \<Longrightarrow> safe p R w"
  unfolding calm_def by (rule safe_conseq) auto

lemma calm_Done: "calm (Done r)"
  by (simp add: calm_def)

lemma calm_Hang: "calm Hang"
  by (simp add: calm_def)

lemma calm_pguard: "calm (pguard b e)"
  by (simp add: calm_def pguard_def)

lemma calm_patom: "(\<And>u. ok u \<Longrightarrow> einv (\<lambda>v. ok v \<and> guar u v) m) \<Longrightarrow> calm (patom m)"
  unfolding calm_def using guar_refl by (auto intro!: safe_patom dest: einvD)

lemma calm_ptry: "calm p \<Longrightarrow> (\<And>r. calm (h r)) \<Longrightarrow> calm (ptry p h)"
  unfolding calm_def by (auto intro: safe_ptry)

lemma calm_pbind: "calm p \<Longrightarrow> (\<And>a. calm (f a)) \<Longrightarrow> calm (pbind p f)"
  unfolding pbind_def by (intro calm_ptry) (auto split: sum.split intro: calm_Done)

lemma calm_pmap_err: "calm p \<Longrightarrow> calm (pmap_err g p)"
  unfolding pmap_err_def by (intro calm_ptry calm_Done)

lemma calm_if: "calm p \<Longrightarrow> calm q \<Longrightarrow> calm (if b then p else q)"
  by simp

lemma calm_option: "calm p \<Longrightarrow> (\<And>a. calm (f a)) \<Longrightarrow> calm (case x of None \<Rightarrow> p | Some a \<Rightarrow> f a)"
  by (cases x) simp_all

lemma calm_sum: "(\<And>a. calm (f a)) \<Longrightarrow> (\<And>b. calm (g b)) \<Longrightarrow> calm (case x of Inl a \<Rightarrow> f a | Inr b \<Rightarrow> g b)"
  by (cases x) simp_all

lemma calm_prod: "(\<And>a b. calm (f a b)) \<Longrightarrow> calm (case x of (a, b) \<Rightarrow> f a b)"
  by (cases x) simp

lemma calm_Let: "calm (f x) \<Longrightarrow> calm (let a = x in f a)"
  by simp

lemmas calm_rules = calm_Done calm_Hang calm_pguard calm_ptry calm_pbind calm_pmap_err calm_if calm_option
  calm_sum calm_prod calm_Let

text \<open>A program that keeps to its guarantee and whose value, if it has one, satisfies \<open>Q\<close>.\<close>

definition gives :: "('e, 'a, 'w) prog \<Rightarrow> ('a \<Rightarrow> bool) \<Rightarrow> bool" where
  "gives p Q \<longleftrightarrow> (\<forall>w. ok w \<longrightarrow> safe p (\<lambda>r v. \<forall>a. r = Inr a \<longrightarrow> Q a) w)"

lemma calm_gives: "calm p \<Longrightarrow> gives p (\<lambda>a. True)"
  by (simp add: calm_def gives_def)

lemma gives_calm: "gives p Q \<Longrightarrow> calm p"
  unfolding gives_def calm_def by (auto elim: safe_conseq)

lemma gives_Done: "(\<And>a. r = Inr a \<Longrightarrow> Q a) \<Longrightarrow> gives (Done r) Q"
  by (simp add: gives_def)

lemma gives_pguard: "(b \<Longrightarrow> Q ()) \<Longrightarrow> gives (pguard b e) Q"
  unfolding pguard_def by (rule gives_Done) (auto split: if_splits)

lemma gives_pbind: "gives p P \<Longrightarrow> (\<And>a. P a \<Longrightarrow> gives (f a) Q) \<Longrightarrow> gives (pbind p f) Q"
  unfolding gives_def
proof (intro allI impI)
  fix w assume p: "\<forall>w. ok w \<longrightarrow> safe p (\<lambda>r v. \<forall>a. r = Inr a \<longrightarrow> P a) w"
    and f: "\<And>a. P a \<Longrightarrow> \<forall>w. ok w \<longrightarrow> safe (f a) (\<lambda>r v. \<forall>a. r = Inr a \<longrightarrow> Q a) w" and w: "ok w"
  show "safe (pbind p f) (\<lambda>r v. \<forall>a. r = Inr a \<longrightarrow> Q a) w"
    by (rule safe_pbind [OF p [rule_format, OF w] w]) (use f rely_refl in auto)
qed

lemma gives_pbind_any: "calm p \<Longrightarrow> (\<And>a. gives (f a) Q) \<Longrightarrow> gives (pbind p f) Q"
  by (rule gives_pbind [OF calm_gives])

lemma gives_pmap_err:
  fixes g :: "'e \<Rightarrow> 'd" and p :: "('e, 'a, 'w) prog"
  assumes "gives p Q"
  shows "gives (pmap_err g p) Q"
proof -
  have "map_err g r = Inr a \<Longrightarrow> r = Inr a" for r :: "'e + 'a" and a by (cases r) auto
  then show ?thesis
    using assms unfolding gives_def by (auto intro!: safe_pmap_err elim!: safe_conseq)
qed

lemma gives_patom:
  assumes "\<And>u. ok u \<Longrightarrow> einv (\<lambda>v. ok v \<and> guar u v) m" and "\<And>u a v. ok u \<Longrightarrow> m u = (Inr a, v) \<Longrightarrow> Q a"
  shows "gives (patom m) Q"
  unfolding gives_def
proof (intro allI impI, rule safe_patom)
  fix w v r v' assume v: "ok v" and m: "m v = (r, v')"
  from einvD [OF assms(1) [OF v] _ m] v guar_refl have "ok v' \<and> guar v v'" by blast
  with assms(2) [OF v] m show "ok v' \<and> guar v v' \<and> (\<forall>u. ok u \<longrightarrow> rely v' u \<longrightarrow> (\<forall>a. r = Inr a \<longrightarrow> Q a))"
    by blast
qed

lemma calm_bind_gives: "gives p P \<Longrightarrow> (\<And>a. P a \<Longrightarrow> calm (f a)) \<Longrightarrow> calm (pbind p f)"
  using gives_calm [OF gives_pbind [of p P f "\<lambda>a. True"]] calm_gives by blast

end

text \<open>A pool in which the program at each index has a part of the world to itself: what it does, the
  others expect.\<close>

locale owned_world =
  fixes ok :: "'w \<Rightarrow> bool" and rely guar :: "nat \<Rightarrow> 'w \<Rightarrow> 'w \<Rightarrow> bool" and evolves :: "'w \<Rightarrow> 'w \<Rightarrow> bool"
  assumes each: "rely_guarantee (rely i) (guar i) evolves"
    and others: "guar i u v \<Longrightarrow> j \<noteq> i \<Longrightarrow> rely j u v"

sublocale owned_world \<subseteq> one: rely_guarantee ok "rely i" "guar i" evolves for i
  by (rule each)

context owned_world
begin

lemma turn_safe:
  assumes "ok w" and "\<forall>i < length ps. one.safe i (ps ! i) (Q i) w" and "turn k (ps, w) = (ps', w')"
  shows "ok w' \<and> evolves w w' \<and> (\<forall>i < length ps'. one.safe i (ps' ! i) (Q i) w')"
proof (cases "\<exists>m. k < length ps \<and> ps ! k = Act m")
  case True
  then obtain m p where k: "k < length ps" "ps ! k = Act m" and m: "m w = (p, w')" and ps: "ps' = ps[k := p]"
    using assms(3) by (auto simp: turn.simps split: prod.splits)
  have s: "ok w'" "guar k w w'" "one.safe k p (Q k) w'"
    using one.safe_Act [where m = m and w = w and Q = "Q k", OF _ assms(1) one.rely_refl m] assms(2) k by auto
  have "one.safe i (ps' ! i) (Q i) w'" if "i < length ps'" for i
  proof (cases "i = k")
    case False
    with that assms(2) have "one.safe i (ps ! i) (Q i) w" by (simp add: ps)
    then show ?thesis using one.safe_later others [OF s(2) False] False by (simp add: ps)
  qed (use s(3) k(1) ps in simp)
  with s one.guar_evolves show ?thesis by blast
next
  case False
  then have "turn k (ps, w) = (ps, w)"
    by (cases "ps ! k") (auto simp: turn.simps)
  with assms show ?thesis by (simp add: one.evolves_refl)
qed

lemma schedule_safe:
  assumes "ok w" and "\<forall>i < length ps. one.safe i (ps ! i) (Q i) w" and "schedule order (ps, w) = (ps', w')"
  shows "ok w' \<and> evolves w w' \<and> (\<forall>i < length ps'. one.safe i (ps' ! i) (Q i) w')"
  using assms
proof (induction order arbitrary: ps w)
  case Nil
  then show ?case by (simp add: one.evolves_refl)
next
  case (Cons i order)
  obtain qs v where t: "turn i (ps, w) = (qs, v)" by force
  from turn_safe [OF Cons.prems(1,2) t] have v: "ok v" "evolves w v" "\<forall>i < length qs. one.safe i (qs ! i) (Q i) v"
    by auto
  from Cons.IH [OF v(1,3)] Cons.prems(3) t one.evolves_trans [OF v(2)] show ?case by (auto simp: schedule_Cons)
qed

lemma schedule_result:
  assumes "ok w" and "\<forall>i < length ps. one.safe i (ps ! i) (Q i) w" and "schedule order (ps, w) = (ps', w')"
    and "i < length ps'" and "ps' ! i = Done r"
  shows "Q i r w'"
  using schedule_safe [OF assms(1-3)] assms(4,5) one.safe_result by metis

end

text \<open>No part of the world is anyone's: everybody does and expects the same.\<close>

locale evolving_world =
  fixes ok :: "'w \<Rightarrow> bool" and evolves :: "'w \<Rightarrow> 'w \<Rightarrow> bool"
  assumes refl: "evolves w w"
    and trans: "evolves u v \<Longrightarrow> evolves v w \<Longrightarrow> evolves u w"

sublocale evolving_world \<subseteq> rely_guarantee ok evolves evolves evolves
  by unfold_locales (auto intro: refl trans)

sublocale evolving_world \<subseteq> pool: owned_world ok "\<lambda>i. evolves" "\<lambda>i. evolves" evolves
  by unfold_locales simp

context evolving_world
begin

lemmas turn_safe = pool.turn_safe
lemmas schedule_safe = pool.schedule_safe

lemma schedule_calm:
  assumes "ok w" and "\<And>p. p \<in> set ps \<Longrightarrow> calm p" and "schedule order (ps, w) = (ps', w')"
  shows "ok w' \<and> evolves w w'"
  using schedule_safe [OF assms(1) _ assms(3), of "\<lambda>i r v. True"] assms(1,2)
  by (simp add: calm_def)

lemmas schedule_result = pool.schedule_result

text \<open>One prize, many takers: each of the programs \<open>I\<close> starts with an action after which the prize is
  gone, or by which it has lost; once the prize is gone it stays so and who starts then loses.  At
  most one of them wins.\<close>

definition loses :: "('r \<Rightarrow> bool) \<Rightarrow> ('e + 'a \<Rightarrow> 'r) \<Rightarrow> ('e, 'a, 'w) prog \<Rightarrow> 'w \<Rightarrow> bool" where
  "loses won f p w \<longleftrightarrow> safe p (\<lambda>r v. \<not> won (f r)) w"

lemma loses_later: "loses won f p w \<Longrightarrow> evolves w v \<Longrightarrow> loses won f p v"
  unfolding loses_def by (rule safe_later)

lemma one_winner_inv:
  assumes "ok w" and calm: "\<forall>i < length ps. safe (ps ! i) (\<lambda>r v. True) w"
    and gone: "\<And>u v. ok u \<Longrightarrow> gone u \<Longrightarrow> evolves u v \<Longrightarrow> gone v"
    and take: "\<And>i m u p v. i \<in> I \<Longrightarrow> ps ! i = Act m \<Longrightarrow> ok u \<Longrightarrow> m u = (p, v) \<Longrightarrow> gone v \<or> loses won f p v"
    and late: "\<And>i u. i \<in> I \<Longrightarrow> ok u \<Longrightarrow> gone u \<Longrightarrow> loses won f (ps ! i) u"
    and run: "schedule order (ps, w) = (qs, v)"
  shows "(\<forall>i \<in> I. qs ! i = ps ! i \<or> loses won f (qs ! i) v) \<or>
    gone v \<and> (\<exists>j. \<forall>i \<in> I. i \<noteq> j \<longrightarrow> loses won f (qs ! i) v)"
  using run
proof (induction order arbitrary: qs v rule: rev_induct)
  case Nil
  then show ?case by simp
next
  case (snoc k order)
  obtain rs u where before: "schedule order (ps, w) = (rs, u)" by force
  then have t: "turn k (rs, u) = (qs, v)" using snoc.prems by (simp add: schedule_append schedule_Cons)
  have safe: "ok u" "\<forall>i < length rs. safe (rs ! i) (\<lambda>r v. True) u"
    using schedule_safe [OF assms(1) calm before] by simp_all
  have uv: "ok v" "evolves u v" using turn_safe [OF safe t] by simp_all
  show ?case
  proof (cases "\<exists>m. k < length rs \<and> rs ! k = Act m")
    case True
    then obtain m p where k: "k < length rs" "rs ! k = Act m" and m: "m u = (p, v)" and qs: "qs = rs[k := p]"
      using t by (auto simp: turn.simps split: prod.splits)
    have other: "i \<noteq> k \<Longrightarrow> qs ! i = rs ! i" for i by (simp add: qs)
    have step: "loses won f (qs ! i) v" if "loses won f (rs ! i) u" for i
    proof (cases "i = k")
      case True
      with that k(2) have "safe (Act m) (\<lambda>r v. \<not> won (f r)) u" by (simp add: loses_def)
      from safe_Act [OF this safe(1) refl m] show ?thesis
        unfolding loses_def using True k(1) by (simp add: qs)
    next
      case False
      then show ?thesis using loses_later [OF that uv(2)] by (simp add: qs)
    qed
    from snoc.IH [OF before] show ?thesis
    proof
      assume a: "\<forall>i \<in> I. rs ! i = ps ! i \<or> loses won f (rs ! i) u"
      show ?thesis
      proof (cases "k \<in> I \<and> rs ! k = ps ! k \<and> gone v")
        case True
        then have "\<forall>i \<in> I. i \<noteq> k \<longrightarrow> loses won f (qs ! i) v"
          using a step late [OF _ uv(1)] other by metis
        with True show ?thesis by blast
      next
        case False
        have "qs ! i = ps ! i \<or> loses won f (qs ! i) v" if "i \<in> I" for i
        proof (cases "i = k \<and> rs ! i = ps ! i")
          case True
          then have "ps ! k = Act m" using k(2) by metis
          then have "gone v \<or> loses won f p v"
            using take [of k m u p v] that True safe(1) m by blast
          with False True that k(1) show ?thesis by (auto simp: qs)
        next
          case no: False
          with a that step [of i] other [of i] show ?thesis by (cases "i = k") auto
        qed
        then show ?thesis by blast
      qed
    next
      assume "gone u \<and> (\<exists>j. \<forall>i \<in> I. i \<noteq> j \<longrightarrow> loses won f (rs ! i) u)"
      then show ?thesis using gone [OF safe(1) _ uv(2)] step by blast
    qed
  next
    case False
    then have "qs = rs" "v = u" using t by (auto simp: turn.simps split: prog.splits if_splits)
    with snoc.IH [OF before] show ?thesis by simp
  qed
qed

lemma one_winner:
  assumes "ok w" and "\<And>p. p \<in> set ps \<Longrightarrow> calm p"
    and "\<And>u v. ok u \<Longrightarrow> gone u \<Longrightarrow> evolves u v \<Longrightarrow> gone v"
    and "\<And>i m u p v. i \<in> I \<Longrightarrow> ps ! i = Act m \<Longrightarrow> ok u \<Longrightarrow> m u = (p, v) \<Longrightarrow> gone v \<or> loses won f p v"
    and "\<And>i u. i \<in> I \<Longrightarrow> ok u \<Longrightarrow> gone u \<Longrightarrow> loses won f (ps ! i) u"
    and "\<And>i. i \<in> I \<Longrightarrow> \<exists>m. ps ! i = Act m"
    and "schedule order (ps, w) = (qs, v)"
    and "i \<in> I" and "j \<in> I" and "qs ! i = Done r" and "qs ! j = Done s" and "won (f r)" and "won (f s)"
  shows "i = j"
proof (rule ccontr)
  assume ij: "i \<noteq> j"
  have c: "\<forall>i < length ps. safe (ps ! i) (\<lambda>r v. True) w"
    using assms(1,2) by (auto simp: calm_def)
  have ok: "ok v" using schedule_safe [OF assms(1) c assms(7)] by simp
  have fin: "loses won f (Done t) v \<Longrightarrow> \<not> won (f t)" for t
    unfolding loses_def using safe_result [OF _ ok] by blast
  have "(\<forall>i \<in> I. qs ! i = ps ! i \<or> loses won f (qs ! i) v) \<or>
      gone v \<and> (\<exists>j. \<forall>i \<in> I. i \<noteq> j \<longrightarrow> loses won f (qs ! i) v)"
    by (rule one_winner_inv [OF assms(1) c assms(3) assms(4) assms(5) assms(7)]) assumption+
  then show False
  proof
    assume "\<forall>i \<in> I. qs ! i = ps ! i \<or> loses won f (qs ! i) v"
    then have "qs ! i = ps ! i \<or> loses won f (qs ! i) v" using assms(8) by blast
    moreover have "qs ! i \<noteq> ps ! i" using assms(6) [OF assms(8)] assms(10) by auto
    ultimately show False using fin assms(10,12) by simp
  next
    assume "gone v \<and> (\<exists>j. \<forall>i \<in> I. i \<noteq> j \<longrightarrow> loses won f (qs ! i) v)"
    then obtain k where k: "\<forall>i \<in> I. i \<noteq> k \<longrightarrow> loses won f (qs ! i) v" by blast
    with ij assms(8,9) have "loses won f (qs ! i) v \<or> loses won f (qs ! j) v" by metis
    with fin assms(10-13) show False by auto
  qed
qed

end

end
