(* ===== verification/Auth_Programs.thy ===== *)
theory Auth_Programs
  imports Auth_Service Interleave
begin

text \<open>
  The handlers of \<open>services/kova-auth\<close> cut at their awaits: every statement, every command to Redis
  and every message is one action, and what lies between them is computed without giving up the
  processor.  \<open>GETDEL\<close> is one command.  Each program is shown to be its handler when it runs alone.
\<close>

definition db_act :: "(sqlx_error, 'a, authn_db) eff \<Rightarrow> (authn_error, 'a, authn_world) prog" where
  "db_act m = patom (on_auth_db m)"

lemma impl_db_act [impl_intros]: "implements (db_act m) (on_auth_db m)"
  unfolding db_act_def by (rule impl_patom)

section \<open>Tokens\<close>

definition issue_token_pair_prog ::
  "authn_env \<Rightarrow> string \<Rightarrow> issue_io \<Rightarrow> kova_user_id \<Rightarrow> string \<Rightarrow> (authn_error, token_pair, authn_world) prog" where
  "issue_token_pair_prog env key io user fingerprint =
     pbind (Done (sign_access_token env key user fingerprint (is_now io) (is_jti io))) (\<lambda>(access, jti).
     pbind (Done (random_hex_token env (is_refresh io))) (\<lambda>refresh_raw.
     pbind (Done (map_err XeCrypto (xv_bcrypt_hash env (is_salt io) refresh_raw bcrypt_cost))) (\<lambda>hash.
     pbind (db_act (sql_exec (is_insert io)
         (insert_session_stmt env (xv_uuid_show env (is_session io)) (xv_uuid_show env (user_uuid user)) hash
            (sha256_hex env refresh_raw) jti fingerprint (is_now2 io + refresh_ttl_secs * 10 ^ 9)))) (\<lambda>_.
     Done (Inr \<lparr>tp_access = access, tp_refresh = refresh_raw, tp_expires_in = as_u64 access_ttl_secs\<rparr>)))))"

text \<open>What follows the look-up of the session, and the whole rotation.\<close>

definition rotate_row_prog ::
  "authn_env \<Rightarrow> string \<Rightarrow> rotate_io \<Rightarrow> string \<Rightarrow> string \<Rightarrow> session_row
    \<Rightarrow> (authn_error, token_pair, authn_world) prog" where
  "rotate_row_prog env key io refresh_token fingerprint row =
     (let session_id = xv_from_bin env (xs_id row);
          user_id = xv_from_bin env (xs_user row)
      in pbind (Done (map_err XeCrypto (xv_bcrypt_verify env refresh_token (xs_hash row)))) (\<lambda>ok.
         pbind (pguard ok XeSessionNotFound) (\<lambda>_.
         if xs_revoked row \<noteq> None
         then pbind (db_act (sql_exec (ri_update io) (revoke_user_sessions env user_id (ri_update_now io))))
                (\<lambda>_. Done (Inl XeRefreshTokenReuse))
         else pbind (db_act (sql_exec (ri_update io) (revoke_session env session_id (ri_update_now io)))) (\<lambda>_.
              pbind (Done (ok_or (xv_uuid_parse env user_id) XeSessionNotFound)) (\<lambda>u.
              issue_token_pair_prog env key (ri_issue io) (KovaUserId u) fingerprint)))))"

definition rotate_refresh_token_prog ::
  "authn_env \<Rightarrow> string \<Rightarrow> rotate_io \<Rightarrow> string \<Rightarrow> string \<Rightarrow> (authn_error, token_pair, authn_world) prog" where
  "rotate_refresh_token_prog env key io refresh_token fingerprint =
     pbind (db_act (sql_fetch (ri_select io) (\<lambda>db. Inr
         (session_by_selector env (ri_pick io) (sha256_hex env refresh_token) (ri_db_now io) db)))) (\<lambda>found.
     pbind (Done (ok_or found XeSessionNotFound)) (\<lambda>row.
     rotate_row_prog env key io refresh_token fingerprint row))"

definition token_refresh_prog ::
  "authn_env \<Rightarrow> string \<Rightarrow> rotate_io \<Rightarrow> string \<Rightarrow> string \<Rightarrow> (authn_error, http_resp, authn_world) prog" where
  "token_refresh_prog env key io refresh_token fingerprint =
     pbind (rotate_refresh_token_prog env key io refresh_token fingerprint) (\<lambda>pair. Done (Inr (pair_response pair)))"

lemma impl_issue [impl_intros]:
  "implements (issue_token_pair_prog env key io user fp) (issue_token_pair env key io user fp)"
  unfolding issue_token_pair_prog_def issue_token_pair_def by (intro impl_intros)

lemma impl_rotate [impl_intros]:
  "implements (rotate_refresh_token_prog env key io tok fp) (rotate_refresh_token env key io tok fp)"
  unfolding rotate_refresh_token_prog_def rotate_refresh_token_def rotate_row_prog_def Let_def by (intro impl_intros)

lemma impl_token_refresh [impl_intros]:
  "implements (token_refresh_prog env key io tok fp) (token_refresh env key io tok fp)"
  unfolding token_refresh_prog_def token_refresh_def by (intro impl_intros)

section \<open>One-time codes\<close>

definition find_user_prog ::
  "authn_env \<Rightarrow> string option \<Rightarrow> string \<Rightarrow> (authn_error, string, authn_world) prog" where
  "find_user_prog env fault phone =
     pbind (db_act (sql_fetch fault (\<lambda>db. Inr (user_by_phone env phone db)))) (\<lambda>found.
     pbind (Done (ok_or found XeUserNotFound)) (\<lambda>row.
     Done (Inr (xv_from_bin env (xu_id row)))))"

definition otp_prepare_prog ::
  "authn_env \<Rightarrow> otp_request_io \<Rightarrow> string \<Rightarrow> (authn_error, string, authn_world) prog" where
  "otp_prepare_prog env io phone =
     pbind (patom (egets (\<lambda>w. if otp_rate_limit \<le> otp_count io phone (xw_redis w)
                              then Inl XeOtpRateLimitExceeded else Inr ()))) (\<lambda>_.
     find_user_prog env (qi_select io) phone)"

text \<open>\<open>INCR\<close> and \<open>EXPIRE\<close> are two commands.\<close>

definition incr_otp :: "otp_request_io \<Rightarrow> string \<Rightarrow> (authn_error, int, authn_world) eff" where
  "incr_otp io phone w =
     (if qi_incr io = RedisDown then (Inl (XeRedis ''redis''), w)
      else case redis_incr (qi_incr_at io) (otp_rate_key phone) (xw_redis w) of
          None \<Rightarrow> (Inl (XeRedis ''not an integer''), w)
        | Some (n, R) \<Rightarrow>
            (if qi_incr io = RedisLost then Inl (XeRedis ''redis'') else Inr n, w\<lparr>xw_redis := R\<rparr>))"

definition expire_otp :: "otp_request_io \<Rightarrow> string \<Rightarrow> (authn_error, unit, authn_world) eff" where
  "expire_otp io phone w =
     (Inr (), w\<lparr>xw_redis := redis_write (qi_expire io)
        (redis_expire (qi_expire_at io) (otp_rate_key phone) otp_rate_window_secs) (xw_redis w)\<rparr>)"

definition count_otp_request_prog ::
  "otp_request_io \<Rightarrow> string \<Rightarrow> (authn_error, unit, authn_world) prog" where
  "count_otp_request_prog io phone =
     pbind (patom (incr_otp io phone)) (\<lambda>n.
     if n = 1 then patom (expire_otp io phone) else Done (Inr ()))"

definition otp_deliver_prog ::
  "authn_env \<Rightarrow> otp_request_io \<Rightarrow> string \<Rightarrow> string \<Rightarrow> string \<Rightarrow> (authn_error, http_resp, authn_world) prog" where
  "otp_deliver_prog env io phone user_id otp =
     pbind (Done (hash_otp env (qi_salt io) otp)) (\<lambda>code_hash.
     pbind (db_act (sql_exec (qi_insert io)
         (insert_otp_stmt env (xv_uuid_show env (qi_id io)) user_id code_hash
            (qi_now io + otp_expiry_secs * 10 ^ 9) (qi_db_now io)))) (\<lambda>_.
     pbind (patom (send_otp (qi_sms io) phone otp)) (\<lambda>_.
     pbind (count_otp_request_prog io phone) (\<lambda>_.
     Done (Inr (authn_ok 200 (JObj [(''message'', JStr ''OTP sent'')])))))))"

definition otp_request_prog ::
  "authn_env \<Rightarrow> otp_request_io \<Rightarrow> string \<Rightarrow> (authn_error, http_resp, authn_world) prog" where
  "otp_request_prog env io phone =
     pbind (otp_prepare_prog env io phone) (\<lambda>user_id.
     case generate_otp (qi_rng io) of
       None \<Rightarrow> Hang
     | Some r \<Rightarrow> pbind (Done r) (\<lambda>otp. otp_deliver_prog env io phone user_id otp))"

text \<open>Checking a code and using it; logging in with it.\<close>

definition verify_otp_for_user_prog ::
  "authn_env \<Rightarrow> otp_use_io \<Rightarrow> string \<Rightarrow> string \<Rightarrow> (authn_error, unit, authn_world) prog" where
  "verify_otp_for_user_prog env io user_id code =
     pbind (db_act (sql_fetch (vi_select io) (newest_otp env io user_id))) (\<lambda>found.
     pbind (Done (ok_or found XeOtpInvalidOrExpired)) (\<lambda>row.
     let otp_id = xv_from_bin env (xo_id row)
     in pbind (Done (verify_otp env code (xo_hash row))) (\<lambda>ok.
        pbind (pguard ok XeOtpInvalidOrExpired) (\<lambda>_.
        pbind (db_act (sql_exec (vi_update io) (use_otp env otp_id (vi_update_now io)))) (\<lambda>_.
        Done (Inr ()))))))"

definition login_row_prog ::
  "authn_env \<Rightarrow> string \<Rightarrow> otp_use_io \<Rightarrow> issue_io \<Rightarrow> string \<Rightarrow> string \<Rightarrow> string \<Rightarrow> otp_row
    \<Rightarrow> (authn_error, http_resp, authn_world) prog" where
  "login_row_prog env key io issue user_id code fingerprint row =
     (let otp_id = xv_from_bin env (xo_id row)
      in pbind (pguard (xo_used row = None) XeOtpAlreadyUsed) (\<lambda>_.
         pbind (Done (verify_otp env code (xo_hash row))) (\<lambda>ok.
         pbind (pguard ok XeOtpInvalidOrExpired) (\<lambda>_.
         pbind (db_act (sql_exec (vi_update io) (use_otp env otp_id (vi_update_now io)))) (\<lambda>_.
         pbind (Done (ok_or (xv_uuid_parse env user_id) XeUserNotFound)) (\<lambda>u.
         pbind (issue_token_pair_prog env key issue (KovaUserId u) fingerprint) (\<lambda>pair.
         Done (Inr (pair_response pair)))))))))"

definition otp_verify_prog ::
  "authn_env \<Rightarrow> string \<Rightarrow> string option \<Rightarrow> otp_use_io \<Rightarrow> issue_io \<Rightarrow> string \<Rightarrow> string \<Rightarrow> string
    \<Rightarrow> (authn_error, http_resp, authn_world) prog" where
  "otp_verify_prog env key user_fault io issue phone code fingerprint =
     pbind (find_user_prog env user_fault phone) (\<lambda>user_id.
     pbind (db_act (sql_fetch (vi_select io) (newest_otp env io user_id))) (\<lambda>found.
     pbind (Done (ok_or found XeOtpInvalidOrExpired)) (\<lambda>row.
     login_row_prog env key io issue user_id code fingerprint row)))"

lemma impl_find_user [impl_intros]: "implements (find_user_prog env f phone) (find_user env f phone)"
  unfolding find_user_prog_def find_user_def by (intro impl_intros)

lemma impl_otp_prepare [impl_intros]: "implements (otp_prepare_prog env io phone) (otp_prepare env io phone)"
  unfolding otp_prepare_prog_def otp_prepare_def by (intro impl_intros)

lemma impl_count_otp [impl_intros]:
  "implements (count_otp_request_prog io phone) (count_otp_request io phone)"
  by (auto simp: implements_def count_otp_request_prog_def solo_pbind incr_otp_def expire_otp_def
      count_otp_request_def Let_def split: option.split prod.split)

lemma impl_otp_deliver [impl_intros]:
  "implements (otp_deliver_prog env io phone u otp) (otp_deliver env io phone u otp)"
  unfolding otp_deliver_prog_def otp_deliver_def by (intro impl_intros)

lemma solo_otp_request: "solo (otp_request_prog env io phone) w = otp_request env io phone w"
  by (simp add: otp_request_prog_def otp_request_def solo_pbind implementsD [OF impl_otp_prepare]
      implementsD [OF impl_otp_deliver] split: prod.split sum.split option.split)

lemma impl_verify_for_user [impl_intros]:
  "implements (verify_otp_for_user_prog env io u code) (verify_otp_for_user env io u code)"
  unfolding verify_otp_for_user_prog_def verify_otp_for_user_def by (intro impl_intros)

lemma impl_otp_verify [impl_intros]:
  "implements (otp_verify_prog env key f io issue phone code fp) (otp_verify env key f io issue phone code fp)"
  unfolding otp_verify_prog_def login_row_prog_def otp_verify_def by (intro impl_intros)

section \<open>PIN\<close>

definition store_pin_prog ::
  "authn_env \<Rightarrow> pin_io \<Rightarrow> string \<Rightarrow> string \<Rightarrow> string \<Rightarrow> (authn_error, unit, authn_world) prog" where
  "store_pin_prog env io sub new_pin code =
     pbind (verify_otp_for_user_prog env (pi_otp io) sub code) (\<lambda>_.
     pbind (Done (hash_pin env (pi_salt io) new_pin)) (\<lambda>hash.
     db_act (sql_exec (pi_update io) (update_pin env sub hash))))"

definition pin_set_prog ::
  "authn_env \<Rightarrow> pin_io \<Rightarrow> kova_claims \<Rightarrow> string \<Rightarrow> string \<Rightarrow> (authn_error, http_resp, authn_world) prog" where
  "pin_set_prog env io claims new_pin code =
     pbind (Done (validate_pin_format new_pin)) (\<lambda>_.
     pbind (db_act (sql_fetch (pi_select io) (select_pin env (kc_sub claims)))) (\<lambda>found.
     pbind (Done (ok_or found XeUserNotFound)) (\<lambda>pin_hash.
     pbind (pguard (pin_hash = '''') XePinAlreadySet) (\<lambda>_.
     pbind (store_pin_prog env io (kc_sub claims) new_pin code) (\<lambda>_.
     Done (Inr (authn_ok 200 (JObj [(''message'', JStr ''PIN set successfully'')]))))))))"

definition pin_change_prog ::
  "authn_env \<Rightarrow> pin_io \<Rightarrow> kova_claims \<Rightarrow> string \<Rightarrow> string \<Rightarrow> string
    \<Rightarrow> (authn_error, http_resp, authn_world) prog" where
  "pin_change_prog env io claims current_pin new_pin code =
     pbind (Done (validate_pin_format new_pin)) (\<lambda>_.
     pbind (db_act (sql_fetch (pi_select io) (select_pin env (kc_sub claims)))) (\<lambda>found.
     pbind (Done (ok_or found XeUserNotFound)) (\<lambda>pin_hash.
     pbind (pguard (pin_hash \<noteq> '''') XePinNotSet) (\<lambda>_.
     pbind (Done (verify_pin env current_pin pin_hash)) (\<lambda>ok.
     pbind (pguard ok XeInvalidCredentials) (\<lambda>_.
     pbind (store_pin_prog env io (kc_sub claims) new_pin code) (\<lambda>_.
     Done (Inr (authn_ok 200 (JObj [(''message'', JStr ''PIN changed successfully'')]))))))))))"

lemma impl_store_pin [impl_intros]: "implements (store_pin_prog env io sub new code) (store_pin env io sub new code)"
  unfolding store_pin_prog_def store_pin_def by (intro impl_intros)

lemma impl_pin_set [impl_intros]: "implements (pin_set_prog env io claims new code) (pin_set env io claims new code)"
  unfolding pin_set_prog_def pin_set_def by (intro impl_intros)

lemma impl_pin_change [impl_intros]:
  "implements (pin_change_prog env io claims old new code) (pin_change env io claims old new code)"
  unfolding pin_change_prog_def pin_change_def by (intro impl_intros)

section \<open>Sessions, biometrics and registration\<close>

definition session_delete_prog ::
  "authn_env \<Rightarrow> device_io \<Rightarrow> kova_claims \<Rightarrow> string \<Rightarrow> (authn_error, http_resp, authn_world) prog" where
  "session_delete_prog env io claims session_id =
     pbind (db_act (sql_fetch (di_select io) (own_session env session_id (kc_sub claims)))) (\<lambda>found.
     pbind (Done (ok_or found XeSessionNotFound)) (\<lambda>row.
     pbind (db_act (sql_exec (di_update io) (revoke_session env session_id (di_now io)))) (\<lambda>_.
     pbind (case xs_jti row of None \<Rightarrow> Done (Inr ())
            | Some jti \<Rightarrow> patom (cache_revoked_jti (di_cache io 0) jti)) (\<lambda>_.
     Done (Inr (authn_ok 200 (JObj [(''message'', JStr ''Session revoked'')])))))))"

fun cache_revoked_all_prog ::
  "(nat \<Rightarrow> redis_fault \<times> nat) \<Rightarrow> nat \<Rightarrow> session_row list \<Rightarrow> (authn_error, unit, authn_world) prog" where
  "cache_revoked_all_prog faults n [] = Done (Inr ())"
| "cache_revoked_all_prog faults n (r # rs) =
     (case xs_jti r of
        None \<Rightarrow> cache_revoked_all_prog faults n rs
      | Some jti \<Rightarrow> pbind (patom (cache_revoked_jti (faults n) jti)) (\<lambda>_. cache_revoked_all_prog faults (Suc n) rs))"

definition sessions_revoke_all_prog ::
  "authn_env \<Rightarrow> device_io \<Rightarrow> kova_claims \<Rightarrow> (authn_error, http_resp, authn_world) prog" where
  "sessions_revoke_all_prog env io claims =
     pbind (db_act (sql_fetch (di_select io) (live_sessions env (kc_sub claims)))) (\<lambda>rows.
     pbind (db_act (sql_exec (di_update io) (revoke_user_sessions env (kc_sub claims) (di_now io)))) (\<lambda>_.
     pbind (cache_revoked_all_prog (di_cache io) 0 (di_order io rows)) (\<lambda>_.
     Done (Inr (authn_ok 200 (JObj [(''message'', JStr ''All sessions revoked'')]))))))"

definition logout_prog ::
  "authn_env \<Rightarrow> device_io \<Rightarrow> kova_claims \<Rightarrow> (authn_error, http_resp, authn_world) prog" where
  "logout_prog env io claims =
     pbind (db_act (sql_exec (di_update io)
       (revoke_by_jti env (kc_jti claims) (kc_sub claims) (di_now io)))) (\<lambda>_.
     pbind (patom (cache_revoked_jti (di_cache io 0) (kc_jti claims))) (\<lambda>_.
     Done (Inr (authn_ok 200 (JObj [(''message'', JStr ''Logged out'')])))))"

definition biometric_challenge_prog ::
  "authn_env \<Rightarrow> byte list option \<Rightarrow> redis_fault \<Rightarrow> nat \<Rightarrow> kova_claims
    \<Rightarrow> (authn_error, http_resp, authn_world) prog" where
  "biometric_challenge_prog env draw fault clock claims =
     pbind (Done (random_hex_token env draw)) (\<lambda>challenge.
     pbind (patom (on_auth_redis fault
       (redis_set_ex clock (challenge_key (kc_sub claims)) (RStr challenge) challenge_ttl_secs))) (\<lambda>_.
     Done (Inr (authn_ok 200 (JObj [(''challenge_token'', JStr challenge)])))))"

definition biometric_verify_prog ::
  "authn_env \<Rightarrow> string \<Rightarrow> redis_fault \<Rightarrow> nat \<Rightarrow> issue_io \<Rightarrow> kova_claims \<Rightarrow> string \<Rightarrow> string
    \<Rightarrow> (authn_error, http_resp, authn_world) prog" where
  "biometric_verify_prog env key fault clock issue claims challenge_token fingerprint =
     pbind (patom (take_challenge fault clock (challenge_key (kc_sub claims)))) (\<lambda>stored.
     pbind (pguard (stored = Some challenge_token) XeChallengeInvalid) (\<lambda>_.
     pbind (Done (ok_or (xv_uuid_parse env (kc_sub claims)) XeUnauthorized)) (\<lambda>u.
     pbind (issue_token_pair_prog env key issue (KovaUserId u) fingerprint) (\<lambda>pair.
     Done (Inr (pair_response pair))))))"

definition register_prog ::
  "authn_env \<Rightarrow> register_io \<Rightarrow> string \<Rightarrow> string \<Rightarrow> (authn_error, http_resp, authn_world) prog" where
  "register_prog env io phone_number fingerprint =
     pbind (Done (validate_e164 env phone_number)) (\<lambda>phone.
     let user_id = xv_uuid_show env (gi_user io)
     in pbind (pmap_err register_error (db_act (sql_exec (gi_insert io)
          (insert_user_stmt env user_id phone)))) (\<lambda>_.
        pbind (db_act (sql_exec (gi_upsert io)
          (upsert_device_stmt env (xv_uuid_show env (gi_device io)) user_id fingerprint (gi_db_now io)))) (\<lambda>_.
        Done (Inr (authn_ok 201 (JObj [(''user_id'', JStr user_id), (''phone_number'', JStr phone)]))))))"

lemma impl_session_delete [impl_intros]:
  "implements (session_delete_prog env io claims i) (session_delete env io claims i)"
  unfolding session_delete_prog_def session_delete_def by (intro impl_intros)

lemma impl_cache_all [impl_intros]:
  "implements (cache_revoked_all_prog faults n rs) (cache_revoked_all faults n rs)"
  by (induction rs arbitrary: n) (auto split: option.split intro!: impl_intros)

lemma impl_revoke_all [impl_intros]:
  "implements (sessions_revoke_all_prog env io claims) (sessions_revoke_all env io claims)"
  unfolding sessions_revoke_all_prog_def sessions_revoke_all_def by (intro impl_intros)

lemma impl_logout [impl_intros]: "implements (logout_prog env io claims) (logout env io claims)"
  unfolding logout_prog_def logout_def by (intro impl_intros)

lemma impl_challenge [impl_intros]:
  "implements (biometric_challenge_prog env d f t claims) (biometric_challenge env d f t claims)"
  unfolding biometric_challenge_prog_def biometric_challenge_def by (intro impl_intros)

lemma impl_biometric_verify [impl_intros]:
  "implements (biometric_verify_prog env key f t io claims c fp) (biometric_verify env key f t io claims c fp)"
  unfolding biometric_verify_prog_def biometric_verify_def by (intro impl_intros)

lemma impl_register [impl_intros]:
  "implements (register_prog env io phone fp) (register env io phone fp)"
  unfolding register_prog_def register_def by (intro impl_intros)

section \<open>The service\<close>

fun authn_private_prog ::
  "authn_env \<Rightarrow> string \<Rightarrow> authn_io \<Rightarrow> kova_claims \<Rightarrow> authn_req \<Rightarrow> (authn_error, http_resp, authn_world) prog" where
  "authn_private_prog env key io claims XqChallenge =
     biometric_challenge_prog env (zi_draw io) (zi_redis io) (zi_clock io) claims"
| "authn_private_prog env key io claims (XqBiometricVerify c fp) =
     biometric_verify_prog env key (zi_redis io) (zi_clock io) (zi_issue io) claims c fp"
| "authn_private_prog env key io claims (XqSessionDelete i) = session_delete_prog env (zi_device io) claims i"
| "authn_private_prog env key io claims XqRevokeAll = sessions_revoke_all_prog env (zi_device io) claims"
| "authn_private_prog env key io claims XqLogout = logout_prog env (zi_device io) claims"
| "authn_private_prog env key io claims (XqPinSet new code) = pin_set_prog env (zi_pin io) claims new code"
| "authn_private_prog env key io claims (XqPinChange old new code) =
     pin_change_prog env (zi_pin io) claims old new code"
| "authn_private_prog env key io claims req = Done (Inl XeUnauthorized)"

text \<open>The answer to a request: a program that cannot fail.\<close>

definition answering :: "(authn_error, http_resp, authn_world) prog \<Rightarrow> (unit, http_resp, authn_world) prog" where
  "answering p = ptry p (\<lambda>r. Done (Inr (authn_answer r)))"

fun authn_prog ::
  "authn_env \<Rightarrow> string \<Rightarrow> string \<Rightarrow> authn_io \<times> (string \<times> string) list \<times> authn_req
    \<Rightarrow> (unit, http_resp, authn_world) prog" where
  "authn_prog env key pub (io, headers, req) =
     (case req of
        XqHealth \<Rightarrow> Done (Inr (authn_health (zi_db_ok io) (zi_ping io)))
      | XqRegister phone fp \<Rightarrow> answering (register_prog env (zi_register io) phone fp)
      | XqOtpRequest phone \<Rightarrow> answering (otp_request_prog env (zi_otp io) phone)
      | XqOtpVerify phone code fp \<Rightarrow>
          answering (otp_verify_prog env key (zi_user io) (zi_use io) (zi_issue io) phone code fp)
      | XqTokenRefresh token fp \<Rightarrow> answering (token_refresh_prog env key (zi_rotate io) token fp)
      | _ \<Rightarrow> (case auth_claims_extract env pub headers of
                Inl resp \<Rightarrow> Done (Inr resp)
              | Inr claims \<Rightarrow> answering (authn_private_prog env key io claims req)))"

lemma impl_private: "implements (authn_private_prog env key io claims req) (authn_private env key io claims req)"
  by (cases req) (simp_all, (intro impl_intros)+)

lemma solo_answering: "implements p m \<Longrightarrow> solo (answering p) w = map_option (\<lambda>a. (Inr a, snd (answered m w))) (fst (answered m w))"
  by (simp add: answering_def solo_ptry implements_def answered_def split: prod.split)

text \<open>Alone, the program of a request is \<open>authn_serve\<close>.\<close>

lemma solo_authn_prog:
  "solo (authn_prog env key pub c) w =
    (case authn_serve env key pub c w of (resp, w') \<Rightarrow> map_option (\<lambda>a. (Inr a, w')) resp)"
proof -
  obtain io hs req where c: "c = (io, hs, req)" by (metis prod_cases3)
  have guarded: "solo (case auth_claims_extract env pub hs of Inl resp \<Rightarrow> Done (Inr resp)
        | Inr claims \<Rightarrow> answering (authn_private_prog env key io claims q)) w =
      (case (case auth_claims_extract env pub hs of Inl resp \<Rightarrow> (Some resp, w)
         | Inr claims \<Rightarrow> answered (authn_private env key io claims q) w) of
        (resp, w') \<Rightarrow> map_option (\<lambda>a. (Inr a, w')) resp)" for q
    by (cases "auth_claims_extract env pub hs")
      (simp_all add: solo_answering [OF impl_private] split: prod.split)
  show ?thesis
  proof (cases req)
    case (XqOtpRequest phone)
    then show ?thesis
      by (simp add: c authn_call_def answering_def solo_ptry solo_otp_request split: option.split prod.split)
  qed (simp_all add: c authn_call_def guarded solo_answering [OF impl_register] solo_answering [OF impl_otp_verify]
      solo_answering [OF impl_token_refresh] split: prod.split)
qed

end
