(* ===== verification/Auth_Concurrent.thy ===== *)
theory Auth_Concurrent
  imports Auth_Programs
begin

text \<open>
  The requests of \<open>services/kova-auth\<close> running at the same time, statement by statement: what holds
  for every schedule (the life of the tables, one registration for each number, one use of a
  challenge), and the races between a read and a later write of one handler.
\<close>

section \<open>The tables under any schedule\<close>

interpretation auth_world: evolving_world "\<lambda>w :: authn_world. authn_db_wf env (xw_db w)"
  "\<lambda>w w'. authn_steps env (xw_db w) (xw_db w')" for env
  by unfold_locales (auto simp: authn_steps_def intro: authn_evolved_trans)

named_theorems auth_calm "programs of the service evolve its tables"

lemma authn_evolved_iff:
  assumes "authn_db_wf env db0"
  shows "authn_db_wf env db \<and> authn_steps env db0 db \<longleftrightarrow> authn_evolved env db0 db"
  using authn_evolved_refl [OF assms] by (auto simp: authn_steps_def authn_evolved_def)

lemma calm_act:
  assumes "\<And>db0. einv (\<lambda>w. authn_evolved env db0 (xw_db w)) m"
  shows "auth_world.calm env (patom m)"
proof (rule auth_world.calm_patom)
  fix u :: authn_world
  assume "authn_db_wf env (xw_db u)"
  then show "einv (\<lambda>v. authn_db_wf env (xw_db v) \<and> authn_steps env (xw_db u) (xw_db v)) m"
    using assms [of "xw_db u"] by (simp only: authn_evolved_iff)
qed

lemma calm_db_act [auth_calm]:
  "(\<And>db0. einv (authn_evolved env db0) m) \<Longrightarrow> auth_world.calm env (db_act m)"
  unfolding db_act_def by (intro calm_act einv_on_auth_db)

lemma calm_fetch [auth_calm]: "auth_world.calm env (db_act (sql_fetch f q))"
  by (intro calm_db_act einv_intros)

lemma calm_redis [auth_calm]:
  "auth_world.calm env (patom (on_auth_redis f c))"
  "auth_world.calm env (patom (cache_revoked_jti fa jti))"
  "auth_world.calm env (patom (send_otp s phone otp))"
  "auth_world.calm env (patom (egets g))"
  "auth_world.calm env (patom (take_challenge f t k))"
  unfolding take_challenge_def by (intro calm_act einv_intros)+

lemma calm_count [auth_calm]: "auth_world.calm env (count_otp_request_prog io phone)"
proof -
  have "einv (\<lambda>w. P (xw_db w)) (incr_otp io phone)" "einv (\<lambda>w. P (xw_db w)) (expire_otp io phone)" for P
    by (auto simp: einv_iff incr_otp_def expire_otp_def split: option.split)
  then show ?thesis
    unfolding count_otp_request_prog_def by (intro auth_world.calm_rules calm_act)
qed

lemma calm_issue [auth_calm]: "auth_world.calm env (issue_token_pair_prog env key io user fp)"
  unfolding issue_token_pair_prog_def insert_session_stmt_def
  by (intro auth_world.calm_rules auth_calm einv_intros auth_evolves)

lemma calm_rotate [auth_calm]: "auth_world.calm env (rotate_refresh_token_prog env key io tok fp)"
  unfolding rotate_refresh_token_prog_def rotate_row_prog_def revoke_user_sessions_def revoke_session_def
  by (intro auth_world.calm_rules auth_calm einv_intros auth_evolves)

lemma calm_token_refresh [auth_calm]: "auth_world.calm env (token_refresh_prog env key io tok fp)"
  unfolding token_refresh_prog_def by (intro auth_world.calm_rules auth_calm)

lemma calm_find_user [auth_calm]: "auth_world.calm env (find_user_prog env f phone)"
  unfolding find_user_prog_def by (intro auth_world.calm_rules auth_calm)

lemma calm_otp_deliver [auth_calm]: "auth_world.calm env (otp_deliver_prog env io phone u otp)"
  unfolding otp_deliver_prog_def by (intro auth_world.calm_rules auth_calm einv_intros auth_evolves)

lemma calm_otp_request [auth_calm]: "auth_world.calm env (otp_request_prog env io phone)"
  unfolding otp_request_prog_def otp_prepare_prog_def
  by (intro auth_world.calm_rules auth_calm)

lemma calm_verify [auth_calm]: "auth_world.calm env (verify_otp_for_user_prog env io u code)"
  unfolding verify_otp_for_user_prog_def
  by (intro auth_world.calm_rules auth_calm einv_intros auth_evolves)

lemma calm_otp_verify [auth_calm]: "auth_world.calm env (otp_verify_prog env key f io issue phone code fp)"
  unfolding otp_verify_prog_def login_row_prog_def
  by (intro auth_world.calm_rules auth_calm einv_intros auth_evolves)

lemma calm_cache_all [auth_calm]: "auth_world.calm env (cache_revoked_all_prog faults n rs)"
  by (induction rs arbitrary: n)
    (auto split: option.split intro!: auth_world.calm_pbind auth_world.calm_Done auth_calm)

lemma calm_register [auth_calm]: "auth_world.calm env (register_prog env io phone fp)"
  unfolding register_prog_def insert_user_stmt_def upsert_device_stmt_def
  by (intro auth_world.calm_rules auth_calm einv_intros auth_evolves)

lemma calm_private: "auth_world.calm env (authn_private_prog env key io claims req)"
  unfolding biometric_challenge_prog_def
  by (cases req) (simp_all add: biometric_challenge_prog_def biometric_verify_prog_def session_delete_prog_def
      sessions_revoke_all_prog_def logout_prog_def pin_set_prog_def pin_change_prog_def store_pin_prog_def
      revoke_session_def revoke_user_sessions_def revoke_by_jti_def,
    (intro auth_world.calm_rules auth_calm einv_intros auth_evolves)+)

lemma calm_authn_prog: "auth_world.calm env (authn_prog env key pub c)"
proof -
  obtain io hs req where c: "c = (io, hs, req)" by (metis prod_cases3)
  have ans: "auth_world.calm env p \<Longrightarrow> auth_world.calm env (answering p)" for p
    unfolding answering_def by (intro auth_world.calm_rules)
  show ?thesis
    unfolding c authn_prog.simps
    by (cases req; simp only: authn_req.case) (intro auth_world.calm_rules ans auth_calm calm_private)+
qed

section \<open>Registration\<close>

definition registered_as :: "authn_env \<Rightarrow> register_io \<Rightarrow> string \<Rightarrow> authn_db \<Rightarrow> bool" where
  "registered_as env io raw db \<longleftrightarrow>
     (\<exists>phone row. validate_e164 env raw = Inr phone \<and> row \<in> set (users db) \<and> xu_phone row = phone \<and>
        xv_to_bin env (xv_uuid_show env (gi_user io)) = Some (xu_id row))"

lemma registered_stays:
  assumes "registered_as env io raw db" and "authn_db_wf env db" and "authn_steps env db db'"
  shows "registered_as env io raw db'"
proof -
  obtain phone row n where r: "validate_e164 env raw = Inr phone" "n < length (users db)" "users db ! n = row"
      "xu_phone row = phone" "xv_to_bin env (xv_uuid_show env (gi_user io)) = Some (xu_id row)"
    using assms(1) by (auto simp: registered_as_def in_set_conv_nth)
  have "list_all2 (\<lambda>r q. \<exists>h. q = r\<lparr>xu_pin_hash := h\<rparr>) (users db) (take (length (users db)) (users db'))"
    using authn_steps_rows [OF assms(2,3)] by blast
  then obtain h where "take (length (users db)) (users db') ! n = row\<lparr>xu_pin_hash := h\<rparr>"
      "length (users db) \<le> length (users db')"
    using r(2,3) by (auto simp: list_all2_conv_all_nth)
  with r(2) have "users db' ! n = row\<lparr>xu_pin_hash := h\<rparr>" "n < length (users db')" by auto
  then have "row\<lparr>xu_pin_hash := h\<rparr> \<in> set (users db')" by (metis nth_mem)
  with r show ?thesis
    unfolding registered_as_def by (intro exI [of _ phone] exI [of _ "row\<lparr>xu_pin_hash := h\<rparr>"]) simp
qed

lemma insert_user_registers:
  assumes "on_auth_db (sql_exec f (insert_user_stmt env (xv_uuid_show env (gi_user io)) phone)) w = (Inr x, w')"
    and "validate_e164 env raw = Inr phone"
  shows "registered_as env io raw (xw_db w')"
  using assms
  by (auto simp: auth_exec_Inr insert_user_stmt_def ebind_Inr elift_def insert_user_def registered_as_def
      split: if_splits)

lemma is_ok_map_err [simp]: "is_ok (map_err g r) = is_ok r"
  by (cases r) simp_all

lemma register_safe:
  assumes "authn_db_wf env (xw_db w)"
  shows "auth_world.safe env (register_prog env io raw fp)
    (\<lambda>r v. is_ok r \<longrightarrow> registered_as env io raw (xw_db v)) w"
proof (cases "validate_e164 env raw")
  case (Inl e)
  then show ?thesis by (simp add: register_prog_def pbind_def)
next
  case (Inr phone)
  let ?Q = "\<lambda>r v. is_ok r \<longrightarrow> registered_as env io raw (xw_db v)"
  let ?m = "on_auth_db (sql_exec (gi_insert io) (insert_user_stmt env (xv_uuid_show env (gi_user io)) phone))"
  have ins: "auth_world.safe env (patom ?m) ?Q w"
  proof (rule auth_world.safe_patom)
    fix v r v' assume v: "authn_db_wf env (xw_db v)" and m: "?m v = (r, v')"
    have "einv (\<lambda>w. authn_evolved env (xw_db v) (xw_db w)) ?m"
      unfolding insert_user_stmt_def by (intro einv_intros auth_evolves)
    from einvD [OF this authn_evolved_refl [OF v] m]
    have ev: "authn_db_wf env (xw_db v')" "authn_steps env (xw_db v) (xw_db v')"
      by (simp_all add: authn_steps_def authn_evolved_def)
    moreover have "?Q r u" if "authn_steps env (xw_db v') (xw_db u)" for u
      using insert_user_registers [OF _ Inr] registered_stays [OF _ ev(1) that] m by (cases r) auto
    ultimately show "authn_db_wf env (xw_db v') \<and> authn_steps env (xw_db v) (xw_db v') \<and>
        (\<forall>u. authn_db_wf env (xw_db u) \<longrightarrow> authn_steps env (xw_db v') (xw_db u) \<longrightarrow> ?Q r u)"
      by blast
  qed
  show ?thesis
    unfolding register_prog_def Let_def db_act_def Inr
  proof (simp only: pbind_def ptry.simps sum.case, fold pbind_def,
      rule auth_world.safe_pbind [OF auth_world.safe_pmap_err])
    show "auth_world.safe env (patom ?m) (\<lambda>r. ?Q (map_err register_error r)) w"
      by (rule auth_world.safe_conseq [OF ins]) (use assms in simp_all)
  next
    fix a :: unit and v :: authn_world
    assume v: "authn_db_wf env (xw_db v)" "authn_steps env (xw_db w) (xw_db v)"
      and q: "\<forall>u :: authn_world. authn_db_wf env (xw_db u) \<longrightarrow> authn_steps env (xw_db v) (xw_db u) \<longrightarrow> ?Q (Inr a) u"
    show "auth_world.safe env (pbind (patom (on_auth_db (sql_exec (gi_upsert io)
        (upsert_device_stmt env (xv_uuid_show env (gi_device io)) (xv_uuid_show env (gi_user io)) fp (gi_db_now io)))))
        (\<lambda>_. Done (Inr (authn_ok 201 (JObj [(''user_id'', JStr (xv_uuid_show env (gi_user io))),
          (''phone_number'', JStr phone)]))))) ?Q v"
      by (rule auth_world.calm_safe [OF _ v(1)], unfold upsert_device_stmt_def)
        (intro auth_world.calm_rules auth_calm [unfolded db_act_def] einv_intros auth_evolves, use q in auto)
  qed (use assms in auto)
qed

lemma register_prog_answer:
  assumes "authn_db_wf env (xw_db w)"
  shows "auth_world.safe env (authn_prog env key pub (io, hs, XqRegister raw fp))
    (\<lambda>r v. \<forall>resp. r = Inr resp \<longrightarrow> hs_status resp = 201 \<longrightarrow> registered_as env (zi_register io) raw (xw_db v)) w"
  unfolding authn_prog.simps authn_req.case answering_def
proof (rule auth_world.safe_ptry [OF register_safe [OF assms] assms])
  fix r :: "authn_error + http_resp" and v :: authn_world
  assume q: "\<forall>u :: authn_world. authn_db_wf env (xw_db u) \<longrightarrow> authn_steps env (xw_db v) (xw_db u) \<longrightarrow>
      is_ok r \<longrightarrow> registered_as env (zi_register io) raw (xw_db u)"
  have "hs_status (authn_answer r) = 201 \<Longrightarrow> is_ok r"
    using authn_error_status [of "projl r"] by (cases r) (simp_all add: authn_answer_def)
  with q show "auth_world.safe env (Done (Inr (authn_answer r)))
      (\<lambda>r v. \<forall>resp. r = Inr resp \<longrightarrow> hs_status resp = 201 \<longrightarrow> registered_as env (zi_register io) raw (xw_db v)) v"
    by auto
qed

lemma registered_distinct:
  assumes "authn_db_wf env db" and "registered_as env io raw db" and "registered_as env jo sraw db"
    and "xv_to_bin env (xv_uuid_show env (gi_user io)) \<noteq> xv_to_bin env (xv_uuid_show env (gi_user jo))"
  shows "\<exists>phone sphone. validate_e164 env raw = Inr phone \<and> validate_e164 env sraw = Inr sphone \<and>
    xv_coll env phone \<noteq> xv_coll env sphone"
proof -
  obtain row where r: "validate_e164 env raw = Inr (xu_phone row)" "row \<in> set (users db)"
      "xv_to_bin env (xv_uuid_show env (gi_user io)) = Some (xu_id row)"
    using assms(2) by (auto simp: registered_as_def)
  obtain srow where s: "validate_e164 env sraw = Inr (xu_phone srow)" "srow \<in> set (users db)"
      "xv_to_bin env (xv_uuid_show env (gi_user jo)) = Some (xu_id srow)"
    using assms(3) by (auto simp: registered_as_def)
  have "row \<noteq> srow" using r(3) s(3) assms(4) by auto
  moreover have "inj_on (\<lambda>r. xv_coll env (xu_phone r)) (set (users db))"
    using assms(1) by (simp add: authn_db_wf_def distinct_map)
  ultimately have "xv_coll env (xu_phone row) \<noteq> xv_coll env (xu_phone srow)"
    using r(2) s(2) by (auto simp: inj_on_def)
  with r(1) s(1) show ?thesis by blast
qed

lemma pool_safe:
  assumes "authn_db_wf env (xw_db w)"
    and "schedule order (map (authn_prog env key pub) calls, w) = (ps, w')"
    and "i < length calls" and "auth_world.safe env (authn_prog env key pub (calls ! i)) Q w" and "ps ! i = Done r"
  shows "Q r w'"
proof -
  let ?ps = "map (authn_prog env key pub) calls"
  have "\<forall>j < length ?ps. auth_world.safe env (?ps ! j) (if j = i then Q else (\<lambda>r v. True)) w"
    using assms(1,4) calm_authn_prog by (auto simp: auth_world.calm_def)
  from auth_world.schedule_result [OF assms(1) this assms(2), of i r] assms(3,5)
    schedule_length [OF assms(2)] show ?thesis by simp
qed

lemma concurrent_auth_tables_wf:
  assumes "authn_db_wf env (xw_db w)"
    and "schedule order (map (authn_prog env key pub) calls, w) = (ps, w')"
  shows "authn_db_wf env (xw_db w') \<and> authn_steps env (xw_db w) (xw_db w')"
  by (rule auth_world.schedule_calm [OF assms(1) _ assms(2)])
    (auto simp: calm_authn_prog simp del: authn_prog.simps)

section \<open>Properties of the tables\<close>

text \<open>C12: The life of the tables of the service under concurrency: any requests, cut at every
  statement and scheduled in any order by any number of replicas, with any faults and with requests
  that are dropped half-way, keep the keys of the four tables (the ids of each, the phone numbers of
  the users, the pairs of user and fingerprint of the devices), the check that a code expires after
  it was made, and every session, code and device with its user; no row is ever lost or moved, and it changes only by replacing a PIN hash, revoking
  a session, using a code or touching a device: a revoked session is never live again and a used
  code never unused.\<close>

theorem concurrent_auth_tables:
  assumes "authn_db_wf env (xw_db w)"
    and "schedule order (map (authn_prog env key pub) calls, w) = (ps, w')"
  shows "authn_db_wf env (xw_db w') \<and>
    list_all2 (\<lambda>r q. \<exists>h. q = r\<lparr>xu_pin_hash := h\<rparr>)
      (users (xw_db w)) (take (length (users (xw_db w))) (users (xw_db w'))) \<and>
    list_all2 (\<lambda>r q. q = r \<or> (\<exists>t. q = r\<lparr>xs_revoked := Some t\<rparr>))
      (sessions (xw_db w)) (take (length (sessions (xw_db w))) (sessions (xw_db w'))) \<and>
    list_all2 (\<lambda>r q. q = r \<or> (\<exists>t. q = r\<lparr>xo_used := Some t\<rparr>))
      (otps (xw_db w)) (take (length (otps (xw_db w))) (otps (xw_db w'))) \<and>
    list_all2 (\<lambda>r q. \<exists>t. q = r\<lparr>xd_seen := t\<rparr>)
      (devices (xw_db w)) (take (length (devices (xw_db w))) (devices (xw_db w')))"
  using concurrent_auth_tables_wf [OF assms] authn_steps_rows [OF assms(1)] by blast

theorem concurrent_auth_tables_witness:
  "authn_db_wf demo_authn_env (xw_db (snd (schedule [0, 1, 2, 0, 1, 1, 2, 1]
     (map (authn_prog demo_authn_env ''key'' ''pub'')
       [(demo_authn_io, [], XqRegister ''+33'' ''d''), (demo_authn_io, [], XqOtpVerify ''+44'' ''123456'' ''d''),
        (demo_authn_io, [(''authorization'', ''Bearer 7'')], XqLogout)], demo_authn_world))))"
proof -
  obtain ps w' where "schedule [0, 1, 2, 0, 1, 1, 2, 1]
     (map (authn_prog demo_authn_env ''key'' ''pub'')
       [(demo_authn_io, [], XqRegister ''+33'' ''d''), (demo_authn_io, [], XqOtpVerify ''+44'' ''123456'' ''d''),
        (demo_authn_io, [(''authorization'', ''Bearer 7'')], XqLogout)], demo_authn_world) = (ps, w')"
    by force
  from concurrent_auth_tables [OF demo_authn_wf this] this show ?thesis by simp
qed

text \<open>C14: A phone number has one account, however many registrations race for it: of two requests in a
  pool of any requests that are both answered 201, under any schedule, the canonical numbers differ
  (also in the weights of the collation), if the two drew different user ids.  The unique index
  decides, not a read before the write.\<close>

theorem one_account_per_number:
  assumes "authn_db_wf env (xw_db w)"
    and "schedule order (map (authn_prog env key pub) calls, w) = (ps, w')"
    and "i < length calls" and "calls ! i = (io, hs, XqRegister raw fp)"
    and "j < length calls" and "calls ! j = (jo, hs2, XqRegister raw2 fp2)"
    and "ps ! i = Done (Inr resp)" and "hs_status resp = 201"
    and "ps ! j = Done (Inr resp2)" and "hs_status resp2 = 201"
    and "xv_to_bin env (xv_uuid_show env (gi_user (zi_register io))) \<noteq>
      xv_to_bin env (xv_uuid_show env (gi_user (zi_register jo)))"
  shows "\<exists>phone phone2. validate_e164 env raw = Inr phone \<and> validate_e164 env raw2 = Inr phone2 \<and>
    xv_coll env phone \<noteq> xv_coll env phone2"
proof -
  have "registered_as env (zi_register io) raw (xw_db w')"
    using pool_safe [OF assms(1-3) _ assms(7)] register_prog_answer [OF assms(1)] assms(4,8) by auto
  moreover have "registered_as env (zi_register jo) raw2 (xw_db w')"
    using pool_safe [OF assms(1,2,5) _ assms(9)] register_prog_answer [OF assms(1)] assms(6,10) by auto
  moreover have "authn_db_wf env (xw_db w')"
    using concurrent_auth_tables_wf [OF assms(1,2)] by simp
  ultimately show ?thesis
    by (intro registered_distinct [OF _ _ _ assms(11)])
qed

definition demo_second_io :: authn_io where
  "demo_second_io = demo_authn_io\<lparr>zi_register := (zi_register demo_authn_io)\<lparr>gi_user := 9\<rparr>\<rparr>"

lemmas pool_eval = schedule_Cons turn.simps patom_def pbind_def pmap_err_def pguard_def answering_def db_act_def

theorem one_account_per_number_witness:
  "\<exists>ps w' phone phone2. schedule [0, 1, 1, 0]
     (map (authn_prog demo_authn_env ''key'' ''pub'')
       [(demo_authn_io, [], XqRegister ''+33'' ''d''), (demo_second_io, [], XqRegister ''+55'' ''d'')],
      demo_authn_world) = (ps, w') \<and>
    validate_e164 demo_authn_env ''+33'' = Inr phone \<and> validate_e164 demo_authn_env ''+55'' = Inr phone2 \<and>
    xv_coll demo_authn_env phone \<noteq> xv_coll demo_authn_env phone2"
proof -
  obtain ps w' where run: "schedule [0, 1, 1, 0]
     (map (authn_prog demo_authn_env ''key'' ''pub'')
       [(demo_authn_io, [], XqRegister ''+33'' ''d''), (demo_second_io, [], XqRegister ''+55'' ''d'')],
      demo_authn_world) = (ps, w')" by force
  then have "\<exists>resp resp2. ps ! 0 = Done (Inr resp) \<and> hs_status resp = 201 \<and> ps ! 1 = Done (Inr resp2) \<and>
      hs_status resp2 = 201"
    by (auto simp: pool_eval register_prog_def validate_e164_def insert_user_stmt_def upsert_device_stmt_def
        insert_user_def upsert_device_def user_exists_def auth_bin_def eff_defs on_auth_db_def Let_def
        demo_authn_env_def demo_authn_io_def demo_second_io_def demo_authn_world_def demo_user_row_def
        read_nat_def digit_val_def show_nat.simps digit_char_def authn_answer_def authn_ok_def)
  then obtain resp resp2 where r: "ps ! 0 = Done (Inr resp)" "hs_status resp = 201" "ps ! 1 = Done (Inr resp2)"
      "hs_status resp2 = 201" by blast
  have "\<exists>phone phone2. validate_e164 demo_authn_env ''+33'' = Inr phone \<and>
      validate_e164 demo_authn_env ''+55'' = Inr phone2 \<and> xv_coll demo_authn_env phone \<noteq> xv_coll demo_authn_env phone2"
    by (rule one_account_per_number [OF demo_authn_wf run, of 0 demo_authn_io "[]" _ "''d''" 1 demo_second_io
          "[]" _ "''d''" resp resp2])
      (use r in \<open>simp_all add: demo_second_io_def demo_authn_io_def demo_authn_env_def show_nat.simps
        digit_char_def read_nat_def digit_val_def\<close>)
  with run show ?thesis by blast
qed

section \<open>Races\<close>

lemma issue_fresh:
  "issue_token_pair env key io user fp w = (Inr pair, w1) \<Longrightarrow>
    xv_to_bin env (xv_uuid_show env (is_session io)) \<notin> Some ` xs_id ` set (sessions (xw_db w))"
  by (auto simp: issue_token_pair_def ebind_Inr elift_def auth_exec_Inr insert_session_stmt_def insert_session_def
      list_ex_iff split: prod.splits if_splits)

lemma issue_replay:
  assumes "issue_token_pair env key io user fp w = (Inr pair, w1)"
    and "users (xw_db v) = users (xw_db w)"
    and "xv_to_bin env (xv_uuid_show env (is_session io)) \<notin> Some ` xs_id ` set (sessions (xw_db v))"
  shows "\<exists>new. issued env key io user fp pair new \<and>
    xv_to_bin env (xv_uuid_show env (is_session io)) = Some (xs_id new) \<and> w1 = add_session new w \<and>
    xs_id new \<notin> xs_id ` set (sessions (xw_db w)) \<and>
    issue_token_pair env key io user fp v = (Inr pair, add_session new v)"
proof -
  obtain access refresh hash i u d where r: "random_hex_token env (is_refresh io) = Inr refresh"
      "xv_jwt_encode env key (access_claims env user fp (is_now io) (xv_uuid_show env (is_jti io))) = Inr access"
      "xv_bcrypt_hash env (is_salt io) refresh bcrypt_cost = Inr hash" "is_insert io = SqlFine"
      "xv_to_bin env (xv_uuid_show env (is_session io)) = Some i"
      "xv_to_bin env (xv_uuid_show env (user_uuid user)) = Some u"
      "insert_session env
         \<lparr>xs_id = i, xs_user = u, xs_hash = hash, xs_selector = Some (sha256_hex env refresh),
          xs_jti = Some (xv_uuid_show env (is_jti io)), xs_device = fp,
          xs_expires = xv_to_column env (is_now2 io + refresh_ttl_secs * 10 ^ 9), xs_revoked = None\<rparr> (xw_db w) =
         (Inr (), d)"
      "w1 = w\<lparr>xw_db := d\<rparr>" "pair = \<lparr>tp_access = access, tp_refresh = refresh, tp_expires_in = 900\<rparr>"
    using assms(1)
    by (auto simp: issue_token_pair_def ebind_Inr elift_def eret_def sign_access_token_def Let_def
        rbind_Inr_iff auth_exec_Inr insert_session_stmt_def as_u64_def access_ttl_secs_def split: prod.splits)
  let ?new = "\<lparr>xs_id = i, xs_user = u, xs_hash = hash, xs_selector = Some (sha256_hex env refresh),
          xs_jti = Some (xv_uuid_show env (is_jti io)), xs_device = fp,
          xs_expires = xv_to_column env (is_now2 io + refresh_ttl_secs * 10 ^ 9), xs_revoked = None\<rparr>"
  have "insert_session env ?new (xw_db v) = (Inr (), (xw_db v)\<lparr>sessions := sessions (xw_db v) @ [?new]\<rparr>)"
    using r(7) assms(2,3) r(5) by (auto simp: insert_session_def user_exists_def list_ex_iff split: if_splits)
  then have "issue_token_pair env key io user fp v = (Inr pair, add_session ?new v)"
    using r by (simp add: issue_token_pair_def eff_defs sign_access_token_def Let_def on_auth_db_def
        insert_session_stmt_def auth_bin_def as_u64_def access_ttl_secs_def)
  moreover have "w1 = add_session ?new w" using r(7,8) insert_session_Inr by simp
  moreover have "i \<notin> xs_id ` set (sessions (xw_db w))"
    using r(7) by (auto simp: insert_session_def list_ex_iff split: if_splits)
  ultimately show ?thesis
    using r by (intro exI [of _ ?new]) (simp add: issued_def)
qed

abbreviation revoke_row :: "int \<Rightarrow> session_row \<Rightarrow> authn_world \<Rightarrow> authn_world" where
  "revoke_row t row w \<equiv> w\<lparr>xw_db := (xw_db w)\<lparr>sessions := update_where (\<lambda>r. xs_id r = xs_id row)
     (\<lambda>r. r\<lparr>xs_revoked := Some t\<rparr>) (sessions (xw_db w))\<rparr>\<rparr>"

lemma revoke_row_ids [simp]: "xs_id ` set (sessions (xw_db (revoke_row t row w))) = xs_id ` set (sessions (xw_db w))"
proof -
  have "map xs_id (sessions (xw_db (revoke_row t row w))) = map xs_id (sessions (xw_db w))"
    by (simp add: map_update_where)
  then show ?thesis by (metis list.set_map)
qed

lemma rotate_alone:
  assumes "uuid_text_ok env" and "rotate_refresh_token env key io tok fp w = (Inr pair, w1)"
  shows "\<exists>row u. session_by_selector env (ri_pick io) (sha256_hex env tok) (ri_db_now io) (xw_db w) = Some row \<and>
    ri_select io = None \<and> ri_update io = SqlFine \<and> xs_revoked row = None \<and>
    xv_bcrypt_verify env tok (xs_hash row) = Inr True \<and>
    xv_uuid_parse env (xv_from_bin env (xs_user row)) = Some u \<and>
    issue_token_pair env key (ri_issue io) (KovaUserId u) fp (revoke_row (ri_update_now io) row w) = (Inr pair, w1)"
  using assms(2) uuid_text_okD(1) [OF assms(1)]
  by (auto simp: rotate_refresh_token_def ebind_Inr auth_fetch_Inr elift_def eguard_def ethrow_def
      auth_exec_Inr revoke_session_def revoke_sessions_def Let_def split: if_splits)

text \<open>The read of a rotation, and the rest of it at any later time, whatever has become of the session
  that was read.\<close>

lemma rotate_reads:
  assumes "session_by_selector env (ri_pick io) (sha256_hex env tok) (ri_db_now io) (xw_db w) = Some row"
    and "ri_select io = None" and "i < length ps" and "ps ! i = rotate_refresh_token_prog env key io tok fp"
  shows "turn i (ps, w) = (ps[i := rotate_row_prog env key io tok fp row], w)"
  using assms
  by (simp add: turn.simps rotate_refresh_token_prog_def pbind_def db_act_def patom_def on_auth_db_def eff_defs)

text \<open>The id of the session a rotation adds.\<close>

abbreviation new_session_id :: "authn_env \<Rightarrow> rotate_io \<Rightarrow> id16 option" where
  "new_session_id env io \<equiv> xv_to_bin env (xv_uuid_show env (is_session (ri_issue io)))"

lemma rotate_row_late:
  assumes "uuid_text_ok env" and "rotate_refresh_token env key io tok fp w = (Inr pair, w1)"
  shows "\<exists>row. session_by_selector env (ri_pick io) (sha256_hex env tok) (ri_db_now io) (xw_db w) = Some row \<and>
    ri_select io = None \<and> new_session_id env io \<notin> Some ` xs_id ` set (sessions (xw_db w)) \<and>
    (\<forall>v. users (xw_db v) = users (xw_db w) \<longrightarrow>
      new_session_id env io \<notin> Some ` xs_id ` set (sessions (xw_db v)) \<longrightarrow>
      (\<exists>new. solo (rotate_row_prog env key io tok fp row) v =
           Some (Inr pair, add_session new (revoke_row (ri_update_now io) row v)) \<and>
         new_session_id env io = Some (xs_id new) \<and> xs_revoked new = None))"
proof -
  obtain row u where r: "session_by_selector env (ri_pick io) (sha256_hex env tok) (ri_db_now io) (xw_db w) = Some row"
      "ri_select io = None" "ri_update io = SqlFine" "xs_revoked row = None"
      "xv_bcrypt_verify env tok (xs_hash row) = Inr True"
      "xv_uuid_parse env (xv_from_bin env (xs_user row)) = Some u"
      "issue_token_pair env key (ri_issue io) (KovaUserId u) fp (revoke_row (ri_update_now io) row w) = (Inr pair, w1)"
    using rotate_alone [OF assms] by blast
  have later: "\<exists>new. solo (rotate_row_prog env key io tok fp row) v =
        Some (Inr pair, add_session new (revoke_row (ri_update_now io) row v)) \<and>
      new_session_id env io = Some (xs_id new) \<and> xs_revoked new = None"
    if v: "users (xw_db v) = users (xw_db w)" "new_session_id env io \<notin> Some ` xs_id ` set (sessions (xw_db v))" for v
  proof -
    have "users (xw_db (revoke_row (ri_update_now io) row v)) = users (xw_db (revoke_row (ri_update_now io) row w))"
      using v(1) by simp
    from issue_replay [OF r(7) this, unfolded revoke_row_ids, OF v(2)]
    obtain new where new: "issued env key (ri_issue io) (KovaUserId u) fp pair new"
        "new_session_id env io = Some (xs_id new)"
        "issue_token_pair env key (ri_issue io) (KovaUserId u) fp (revoke_row (ri_update_now io) row v) =
          (Inr pair, add_session new (revoke_row (ri_update_now io) row v))"
      by blast
    then have "solo (rotate_row_prog env key io tok fp row) v =
        Some (Inr pair, add_session new (revoke_row (ri_update_now io) row v))"
      using r uuid_text_okD(1) [OF assms(1)]
      by (simp add: rotate_row_prog_def Let_def solo_pbind pguard_def db_act_def implementsD [OF impl_issue]
          on_auth_db_def eff_defs revoke_session_def revoke_sessions_def auth_bin_def)
    with new show ?thesis by (intro exI [of _ new]) (simp add: issued_def)
  qed
  have fresh: "new_session_id env io \<notin> Some ` xs_id ` set (sessions (xw_db w))"
    using issue_fresh [OF r(7), unfolded revoke_row_ids] .
  show ?thesis
    by (intro exI [of _ row] conjI allI impI r(1,2) fresh later)
qed

text \<open>C15: Rotation of a refresh token is a race: if each of two requests with the same token would be
  granted a pair when it runs alone, then under some schedule both are granted theirs and two live
  sessions take the place of one, because both read the session before either revokes it.  A thief
  and the owner who come at the same moment are not told apart, which one after the other they are.\<close>

theorem concurrent_rotations_both_succeed:
  assumes "uuid_text_ok env" and "pick_ok (ri_pick jo)"
    and "rotate_refresh_token env key io tok fp w = (Inr pair, w1)"
    and "rotate_refresh_token env key jo tok fp2 w = (Inr pair2, w2)"
    and "xv_to_bin env (xv_uuid_show env (is_session (ri_issue io))) \<noteq>
      xv_to_bin env (xv_uuid_show env (is_session (ri_issue jo)))"
  shows "\<exists>order w' old new new2.
    schedule order ([rotate_refresh_token_prog env key io tok fp, rotate_refresh_token_prog env key jo tok fp2], w) =
      ([Done (Inr pair), Done (Inr pair2)], w') \<and>
    sessions (xw_db w') = old @ [new, new2] \<and> length old = length (sessions (xw_db w)) \<and>
    xs_revoked new = None \<and> xs_revoked new2 = None"
proof -
  let ?p = "rotate_refresh_token_prog env key io tok fp" and ?q = "rotate_refresh_token_prog env key jo tok fp2"
  obtain row where row: "session_by_selector env (ri_pick io) (sha256_hex env tok) (ri_db_now io) (xw_db w) = Some row"
      "ri_select io = None" "new_session_id env io \<notin> Some ` xs_id ` set (sessions (xw_db w))"
    and go: "\<And>v. users (xw_db v) = users (xw_db w) \<Longrightarrow>
      new_session_id env io \<notin> Some ` xs_id ` set (sessions (xw_db v)) \<Longrightarrow>
      \<exists>new. solo (rotate_row_prog env key io tok fp row) v =
           Some (Inr pair, add_session new (revoke_row (ri_update_now io) row v)) \<and>
         new_session_id env io = Some (xs_id new) \<and> xs_revoked new = None"
    using rotate_row_late [OF assms(1,3)] by blast
  obtain row2 where row2: "session_by_selector env (ri_pick jo) (sha256_hex env tok) (ri_db_now jo) (xw_db w) = Some row2"
      "ri_select jo = None" "new_session_id env jo \<notin> Some ` xs_id ` set (sessions (xw_db w))"
    and go2: "\<And>v. users (xw_db v) = users (xw_db w) \<Longrightarrow>
      new_session_id env jo \<notin> Some ` xs_id ` set (sessions (xw_db v)) \<Longrightarrow>
      \<exists>new. solo (rotate_row_prog env key jo tok fp2 row2) v =
           Some (Inr pair2, add_session new (revoke_row (ri_update_now jo) row2 v)) \<and>
         new_session_id env jo = Some (xs_id new) \<and> xs_revoked new = None"
    using rotate_row_late [OF assms(1,4)] by blast
  let ?r = "rotate_row_prog env key io tok fp row" and ?s = "rotate_row_prog env key jo tok fp2 row2"
  have reads: "schedule [0, 1] ([?p, ?q], w) = ([?r, ?s], w)"
    using rotate_reads [OF row(1,2), of 0 "[?p, ?q]"] rotate_reads [OF row2(1,2), of 1 "[?r, ?q]"]
    by (simp add: schedule_Cons)
  obtain new where new: "solo ?r w = Some (Inr pair, add_session new (revoke_row (ri_update_now io) row w))"
      "new_session_id env io = Some (xs_id new)" "xs_revoked new = None"
    using go [OF refl row(3)] by blast
  let ?v = "add_session new (revoke_row (ri_update_now io) row w)"
  have "xs_id ` set (sessions (xw_db ?v)) = insert (xs_id new) (xs_id ` set (sessions (xw_db w)))"
    using revoke_row_ids [of row "ri_update_now io" w] by simp
  then have "new_session_id env jo \<notin> Some ` xs_id ` set (sessions (xw_db ?v))"
    using row2(3) assms(5) new(2) by auto
  then obtain new2 where new2: "solo ?s ?v = Some (Inr pair2, add_session new2 (revoke_row (ri_update_now jo) row2 ?v))"
      "xs_revoked new2 = None"
    using go2 [of ?v] by auto
  let ?w = "add_session new2 (revoke_row (ri_update_now jo) row2 ?v)"
  obtain k where k: "schedule (replicate k 0) ([?r, ?s], w) = ([Done (Inr pair), ?s], ?v)"
    using schedule_solo [of 0 "[?r, ?s]" ?r w, OF _ _ new(1)] by auto
  obtain n where n: "schedule (replicate n 1) ([Done (Inr pair), ?s], ?v) = ([Done (Inr pair), Done (Inr pair2)], ?w)"
    using schedule_solo [of 1 "[Done (Inr pair), ?s]" ?s ?v, OF _ _ new2(1)] by auto
  have "schedule ([0, 1] @ replicate k 0 @ replicate n 1) ([?p, ?q], w) = ([Done (Inr pair), Done (Inr pair2)], ?w)"
    by (simp only: schedule_append reads k n)
  moreover have "row2 \<in> set (sessions (xw_db w))"
    using session_by_selector_Some [OF assms(2) row2(1)] by simp
  then have "xs_id new \<noteq> xs_id row2"
    using row(3) new(2) by auto
  then have "sessions (xw_db ?w) = (update_where (\<lambda>r. xs_id r = xs_id row2)
      (\<lambda>r. r\<lparr>xs_revoked := Some (ri_update_now jo)\<rparr>) (sessions (xw_db (revoke_row (ri_update_now io) row w)))) @ [new, new2]"
    by (simp add: update_where_def)
  ultimately show ?thesis
    using new(3) new2(2) by (intro exI conjI) (assumption | simp)+
qed

definition demo_rotate_io2 :: rotate_io where
  "demo_rotate_io2 = demo_rotate_io\<lparr>ri_issue := (demo_issue_io [0])\<lparr>is_session := 4\<rparr>\<rparr>"

theorem concurrent_rotations_both_succeed_witness:
  "\<exists>order w' pair pair2 old new new2.
    schedule order ([rotate_refresh_token_prog demo_authn_env ''pem'' demo_rotate_io ''abc'' ''d'',
        rotate_refresh_token_prog demo_authn_env ''pem'' demo_rotate_io2 ''abc'' ''thief''], demo_authn_world) =
      ([Done (Inr pair), Done (Inr pair2)], w') \<and>
    sessions (xw_db w') = old @ [new, new2] \<and> length old = 1 \<and> xs_revoked new = None \<and> xs_revoked new2 = None"
proof -
  obtain pair w1 where one: "rotate_refresh_token demo_authn_env ''pem'' demo_rotate_io ''abc'' ''d''
      demo_authn_world = (Inr pair, w1)"
    using demo_rotation by blast
  have "\<exists>pair w2. rotate_refresh_token demo_authn_env ''pem'' demo_rotate_io2 ''abc'' ''thief''
      demo_authn_world = (Inr pair, w2)"
    by (simp add: rotate_refresh_token_def issue_token_pair_def sign_access_token_def eff_defs on_auth_db_def
      session_by_selector_def selector_matches_def limit1_def sha256_hex_def random_hex_token_def
      insert_session_stmt_def insert_session_def fits_null_def user_exists_def revoke_session_def
      revoke_sessions_def auth_bin_def access_claims_def demo_authn_world_def demo_authn_env_def
      demo_session_def demo_user_row_def demo_rotate_io_def demo_rotate_io2_def demo_issue_io_def refresh_ttl_secs_def
      sql_fetch_def show_nat_demo read_nat_demo update_where_def Let_def read_nat_def digit_val_def
      show_nat.simps digit_char_def)
  then obtain pair2 w2 where two: "rotate_refresh_token demo_authn_env ''pem'' demo_rotate_io2 ''abc'' ''thief''
      demo_authn_world = (Inr pair2, w2)" by blast
  have "pick_ok (ri_pick demo_rotate_io2)"
    by (simp add: demo_rotate_io2_def demo_rotate_io_def pick_ok_hd)
  moreover have "xv_to_bin demo_authn_env (xv_uuid_show demo_authn_env (is_session (ri_issue demo_rotate_io))) \<noteq>
      xv_to_bin demo_authn_env (xv_uuid_show demo_authn_env (is_session (ri_issue demo_rotate_io2)))"
    by (simp add: demo_rotate_io2_def demo_rotate_io_def demo_issue_io_def demo_authn_env_def)
  ultimately have "\<exists>order w' old new new2.
    schedule order ([rotate_refresh_token_prog demo_authn_env ''pem'' demo_rotate_io ''abc'' ''d'',
        rotate_refresh_token_prog demo_authn_env ''pem'' demo_rotate_io2 ''abc'' ''thief''], demo_authn_world) =
      ([Done (Inr pair), Done (Inr pair2)], w') \<and>
    sessions (xw_db w') = old @ [new, new2] \<and> length old = length (sessions (xw_db demo_authn_world)) \<and>
    xs_revoked new = None \<and> xs_revoked new2 = None"
    by (intro concurrent_rotations_both_succeed [OF demo_uuid_text_ok _ one two])
  then show ?thesis by (simp add: demo_authn_world_def) blast
qed

text \<open>The same with one-time codes: two logins read the same unused code, and both use it.\<close>

lemma login_reads:
  assumes "user_by_phone env phone (xw_db w) = Some usr" and "uf = None"
    and "newest_otp env io (xv_from_bin env (xu_id usr)) (xw_db w) = Inr (Some row)" and "vi_select io = None"
    and "i < length ps" and "ps ! i = otp_verify_prog env key uf io issue phone code fp"
  shows "schedule [i, i] (ps, w) =
    (ps[i := login_row_prog env key io issue (xv_from_bin env (xu_id usr)) code fp row], w)"
  using assms
  by (simp add: schedule_Cons turn.simps otp_verify_prog_def find_user_prog_def pbind_def db_act_def patom_def
      on_auth_db_def eff_defs)

lemma login_late:
  assumes "uuid_text_ok env" and "otp_verify env key uf io issue phone code fp w = (Inr resp, w1)"
  shows "\<exists>usr row. user_by_phone env phone (xw_db w) = Some usr \<and> uf = None \<and>
    newest_otp env io (xv_from_bin env (xu_id usr)) (xw_db w) = Inr (Some row) \<and> vi_select io = None \<and>
    xv_to_bin env (xv_uuid_show env (is_session issue)) \<notin> Some ` xs_id ` set (sessions (xw_db w)) \<and>
    (\<forall>v. users (xw_db v) = users (xw_db w) \<longrightarrow>
      xv_to_bin env (xv_uuid_show env (is_session issue)) \<notin> Some ` xs_id ` set (sessions (xw_db v)) \<longrightarrow>
      (\<exists>new. solo (login_row_prog env key io issue (xv_from_bin env (xu_id usr)) code fp row) v =
           Some (Inr resp, add_session new (use_otp_world env io row v)) \<and>
         xv_to_bin env (xv_uuid_show env (is_session issue)) = Some (xs_id new) \<and> xs_revoked new = None))"
proof -
  obtain usr row u pair where r: "user_by_phone env phone (xw_db w) = Some usr" "uf = None"
      "newest_otp env io (xv_from_bin env (xu_id usr)) (xw_db w) = Inr (Some row)" "vi_select io = None"
      "xo_used row = None" "verify_otp env code (xo_hash row) = Inr True" "vi_update io = SqlFine"
      "xv_uuid_parse env (xv_from_bin env (xu_id usr)) = Some u" "resp = pair_response pair"
      "issue_token_pair env key issue (KovaUserId u) fp (use_otp_world env io row w) = (Inr pair, w1)"
    using assms(2) uuid_text_okD(1) [OF assms(1)]
    by (auto simp: otp_verify_def ebind_Inr find_user_Inr auth_fetch_Inr elift_def eret_def eguard_def Let_def
        auth_exec_Inr use_otp_def split: if_splits)
  have later: "\<exists>new. solo (login_row_prog env key io issue (xv_from_bin env (xu_id usr)) code fp row) v =
        Some (Inr resp, add_session new (use_otp_world env io row v)) \<and>
      xv_to_bin env (xv_uuid_show env (is_session issue)) = Some (xs_id new) \<and> xs_revoked new = None"
    if v: "users (xw_db v) = users (xw_db w)"
      "xv_to_bin env (xv_uuid_show env (is_session issue)) \<notin> Some ` xs_id ` set (sessions (xw_db v))" for v
  proof -
    have "users (xw_db (use_otp_world env io row v)) = users (xw_db (use_otp_world env io row w))"
      using v(1) by simp
    from issue_replay [OF r(10) this] v(2)
    obtain new where new: "issued env key issue (KovaUserId u) fp pair new"
        "xv_to_bin env (xv_uuid_show env (is_session issue)) = Some (xs_id new)"
        "issue_token_pair env key issue (KovaUserId u) fp (use_otp_world env io row v) =
          (Inr pair, add_session new (use_otp_world env io row v))"
      by auto
    then have "solo (login_row_prog env key io issue (xv_from_bin env (xu_id usr)) code fp row) v =
        Some (Inr resp, add_session new (use_otp_world env io row v))"
      using r uuid_text_okD(1) [OF assms(1)]
      by (simp add: login_row_prog_def Let_def solo_pbind pguard_def db_act_def implementsD [OF impl_issue]
          on_auth_db_def eff_defs use_otp_def auth_bin_def)
    with new show ?thesis by (intro exI [of _ new]) (simp add: issued_def)
  qed
  have fresh: "xv_to_bin env (xv_uuid_show env (is_session issue)) \<notin> Some ` xs_id ` set (sessions (xw_db w))"
    using issue_fresh [OF r(10)] by simp
  show ?thesis
    by (intro exI [of _ usr] exI [of _ row] conjI allI impI r(1,2,3,4) fresh later)
qed

theorem concurrent_logins_share_a_code:
  assumes "uuid_text_ok env"
    and "otp_verify env key uf io issue phone code fp w = (Inr resp, w1)"
    and "otp_verify env key uf2 jo issue2 phone code fp2 w = (Inr resp2, w2)"
    and "xv_to_bin env (xv_uuid_show env (is_session issue)) \<noteq> xv_to_bin env (xv_uuid_show env (is_session issue2))"
  shows "\<exists>order w'. schedule order ([otp_verify_prog env key uf io issue phone code fp,
      otp_verify_prog env key uf2 jo issue2 phone code fp2], w) = ([Done (Inr resp), Done (Inr resp2)], w')"
proof -
  let ?p = "otp_verify_prog env key uf io issue phone code fp"
  let ?q = "otp_verify_prog env key uf2 jo issue2 phone code fp2"
  obtain usr row where one: "user_by_phone env phone (xw_db w) = Some usr" "uf = None"
      "newest_otp env io (xv_from_bin env (xu_id usr)) (xw_db w) = Inr (Some row)" "vi_select io = None"
      "xv_to_bin env (xv_uuid_show env (is_session issue)) \<notin> Some ` xs_id ` set (sessions (xw_db w))"
    and go: "\<And>v. users (xw_db v) = users (xw_db w) \<Longrightarrow>
      xv_to_bin env (xv_uuid_show env (is_session issue)) \<notin> Some ` xs_id ` set (sessions (xw_db v)) \<Longrightarrow>
      \<exists>new. solo (login_row_prog env key io issue (xv_from_bin env (xu_id usr)) code fp row) v =
           Some (Inr resp, add_session new (use_otp_world env io row v)) \<and>
         xv_to_bin env (xv_uuid_show env (is_session issue)) = Some (xs_id new) \<and> xs_revoked new = None"
    using login_late [OF assms(1,2)] by (elim exE conjE) simp
  obtain new where new: "solo (login_row_prog env key io issue (xv_from_bin env (xu_id usr)) code fp row) w =
        Some (Inr resp, add_session new (use_otp_world env io row w))"
      "xv_to_bin env (xv_uuid_show env (is_session issue)) = Some (xs_id new)"
    using go [OF refl one(5)] by blast
  obtain usr2 row2 where two: "user_by_phone env phone (xw_db w) = Some usr2" "uf2 = None"
      "newest_otp env jo (xv_from_bin env (xu_id usr2)) (xw_db w) = Inr (Some row2)" "vi_select jo = None"
      "xv_to_bin env (xv_uuid_show env (is_session issue2)) \<notin> Some ` xs_id ` set (sessions (xw_db w))"
    and go2: "\<And>v. users (xw_db v) = users (xw_db w) \<Longrightarrow>
      xv_to_bin env (xv_uuid_show env (is_session issue2)) \<notin> Some ` xs_id ` set (sessions (xw_db v)) \<Longrightarrow>
      \<exists>new. solo (login_row_prog env key jo issue2 (xv_from_bin env (xu_id usr2)) code fp2 row2) v =
           Some (Inr resp2, add_session new (use_otp_world env jo row2 v)) \<and>
         xv_to_bin env (xv_uuid_show env (is_session issue2)) = Some (xs_id new) \<and> xs_revoked new = None"
    using login_late [OF assms(1,3)] by (elim exE conjE) simp
  let ?r = "login_row_prog env key io issue (xv_from_bin env (xu_id usr)) code fp row"
  let ?s = "login_row_prog env key jo issue2 (xv_from_bin env (xu_id usr2)) code fp2 row2"
  let ?v = "add_session new (use_otp_world env io row w)"
  have reads: "schedule ([0, 0] @ [1, 1]) ([?p, ?q], w) = ([?r, ?s], w)"
    using login_reads [OF one(1-4), of 0 "[?p, ?q]"] login_reads [OF two(1-4), of 1 "[?r, ?q]"]
    by (simp only: schedule_append) simp
  have "xv_to_bin env (xv_uuid_show env (is_session issue2)) \<notin> Some ` xs_id ` set (sessions (xw_db ?v))"
    using two(5) assms(4) new(2) by auto
  then obtain w' where two': "solo ?s ?v = Some (Inr resp2, w')"
    using go2 [of ?v] by auto
  obtain k where k: "schedule (replicate k 0) ([?r, ?s], w) = ([Done (Inr resp), ?s], ?v)"
    using schedule_solo [of 0 "[?r, ?s]" ?r w, OF _ _ new(1)] by auto
  obtain n where n: "schedule (replicate n 1) ([Done (Inr resp), ?s], ?v) = ([Done (Inr resp), Done (Inr resp2)], w')"
    using schedule_solo [of 1 "[Done (Inr resp), ?s]" ?s ?v, OF _ _ two'] by auto
  have "schedule (([0, 0] @ [1, 1]) @ replicate k 0 @ replicate n 1) ([?p, ?q], w) =
      ([Done (Inr resp), Done (Inr resp2)], w')"
    by (simp only: schedule_append [of "[0, 0] @ [1, 1]"] reads schedule_append [of "replicate k 0"] k n)
  then show ?thesis by blast
qed

text \<open>The limit on requests for a code is a race as well: each reads the counter, and only when its code is
  stored and sent does it count.\<close>

abbreviation new_otp_id :: "authn_env \<Rightarrow> otp_request_io \<Rightarrow> id16 option" where
  "new_otp_id env io \<equiv> xv_to_bin env (xv_uuid_show env (qi_id io))"

definition counts :: "string \<Rightarrow> redis \<Rightarrow> bool" where
  "counts phone R \<longleftrightarrow> (\<forall>c. R (otp_rate_key phone) = Some c \<longrightarrow> (\<exists>n. rc_val c = RInt n))"

lemma counts_incr:
  assumes "counts phone R"
  obtains n R' where "redis_incr t (otp_rate_key phone) R = Some (n, R')" "counts phone R'"
    "\<forall>f u ttl. counts phone (redis_write f (redis_expire u (otp_rate_key phone) ttl) R')"
proof -
  have "\<exists>n R'. redis_incr t (otp_rate_key phone) R = Some (n, R')"
    using assms by (auto simp: counts_def redis_incr_def redis_live_def split: option.split redis_val.split)
  then obtain n R' where "redis_incr t (otp_rate_key phone) R = Some (n, R')" by blast
  moreover from assms this have "counts phone R'"
    by (auto simp: counts_def redis_incr_def redis_live_def split: option.splits if_splits redis_val.splits)
  moreover from this have "\<forall>f u ttl. counts phone (redis_write f (redis_expire u (otp_rate_key phone) ttl) R')"
    by (auto simp: counts_def redis_write_def redis_expire_def redis_live_def split: option.split if_splits)
  ultimately show thesis by (rule that)
qed

text \<open>What a request needs of the world it delivers its code in: its user, a fresh id and a counter.\<close>

definition ready :: "authn_env \<Rightarrow> string \<Rightarrow> authn_world \<Rightarrow> otp_request_io list \<Rightarrow> authn_world \<Rightarrow> bool" where
  "ready env phone w ios v \<longleftrightarrow> users (xw_db v) = users (xw_db w) \<and> counts phone (xw_redis v) \<and>
     new_otp_id env ` set ios \<inter> Some ` xo_id ` set (otps (xw_db v)) = {}"

lemma send_otp_Inr: "send_otp s phone c w = (Inr a, w') \<Longrightarrow> s = SmsSent"
  by (cases s) (auto simp: send_otp_def)

lemma count_otp_Inr: "count_otp_request io phone w = (Inr a, w') \<Longrightarrow> qi_incr io = RedisFine"
  by (cases "qi_incr io") (auto simp: count_otp_request_def Let_def split: option.splits)

lemma otp_late:
  assumes "otp_request env io phone w = Some (Inr resp, w1)"
  obtains usr otp where "user_by_phone env phone (xw_db w) = Some usr" "qi_select io = None"
    "otp_count io phone (xw_redis w) < otp_rate_limit" "generate_otp (qi_rng io) = Some (Inr otp)"
    "new_otp_id env io \<notin> Some ` xo_id ` set (otps (xw_db w))"
    "\<And>ios v. ready env phone w (io # ios) v \<Longrightarrow> new_otp_id env io \<notin> new_otp_id env ` set ios \<Longrightarrow>
      \<exists>v'. otp_deliver env io phone (xv_from_bin env (xu_id usr)) otp v = (Inr resp, v') \<and> ready env phone w ios v'"
proof -
  obtain u v otp where u: "otp_prepare env io phone w = (Inr u, v)" "generate_otp (qi_rng io) = Some (Inr otp)"
      "otp_deliver env io phone u otp v = (Inr resp, w1)"
    using assms by (auto simp: otp_request_def split: prod.splits sum.splits option.splits)
  then obtain usr where usr: "user_by_phone env phone (xw_db w) = Some usr" "qi_select io = None"
      "u = xv_from_bin env (xu_id usr)" "v = w" "otp_count io phone (xw_redis w) < otp_rate_limit"
    by (auto simp: otp_prepare_def ebind_Inr egets_def find_user_Inr split: if_splits)
  obtain h i k where r: "hash_otp env (qi_salt io) otp = Inr h" "new_otp_id env io = Some i"
      "xv_to_bin env u = Some k" "qi_insert io = SqlFine" "qi_sms io = SmsSent" "qi_incr io = RedisFine"
      "resp = authn_ok 200 (JObj [(''message'', JStr ''OTP sent'')])"
      "i \<notin> xo_id ` set (otps (xw_db w))" "xv_varchar env 255 h"
      "qi_db_now io < xv_to_column env (qi_now io + otp_expiry_secs * 10 ^ 9)" "user_exists k (xw_db w)"
    using u(3) unfolding usr(4)
    by (auto simp: otp_deliver_def ebind_Inr elift_def eret_def auth_exec_Inr insert_otp_stmt_def auth_bin_def insert_otp_def
        list_ex_iff split: if_splits dest!: send_otp_Inr count_otp_Inr)
  have "\<exists>v'. otp_deliver env io phone u otp v = (Inr resp, v') \<and> ready env phone w ios v'"
    if v: "ready env phone w (io # ios) v" and fresh: "new_otp_id env io \<notin> new_otp_id env ` set ios" for ios v
  proof -
    have v': "i \<notin> xo_id ` set (otps (xw_db v))" "user_exists k (xw_db v)" "counts phone (xw_redis v)"
        "users (xw_db v) = users (xw_db w)"
      using v r(2,11) by (auto simp: ready_def user_exists_def)
    obtain n R where R: "redis_incr (qi_incr_at io) (otp_rate_key phone) (xw_redis v) = Some (n, R)" "counts phone R"
        "\<forall>f t ttl. counts phone (redis_write f (redis_expire t (otp_rate_key phone) ttl) R)"
      by (rule counts_incr [OF v'(3), of "qi_incr_at io"])
    have "new_otp_id env ` set ios \<inter> insert (Some i) (Some ` xo_id ` set (otps (xw_db v))) = {}"
      using v fresh r(2) by (auto simp: ready_def)
    then show ?thesis
      using r R v'(1,2,4)
      by (auto simp: otp_deliver_def eff_defs on_auth_db_def insert_otp_stmt_def auth_bin_def insert_otp_def
          send_otp_def count_otp_request_def Let_def list_ex_iff ready_def)
  qed
  with that [OF usr(1,2,5) u(2)] r(2,8) show thesis unfolding usr(3) by auto
qed

lemma otp_reads:
  assumes "user_by_phone env phone (xw_db w) = Some usr" and "qi_select io = None"
    and "otp_count io phone (xw_redis w) < otp_rate_limit" and "generate_otp (qi_rng io) = Some (Inr otp)"
    and "i < length ps" and "ps ! i = otp_request_prog env io phone"
  shows "schedule [i, i] (ps, w) = (ps[i := otp_deliver_prog env io phone (xv_from_bin env (xu_id usr)) otp], w)"
  using assms
  by (simp add: schedule_Cons turn.simps otp_request_prog_def otp_prepare_prog_def find_user_prog_def pbind_def db_act_def
      patom_def on_auth_db_def eff_defs)

text \<open>All of them read, one after the other; then all of them deliver.\<close>

lemma otp_all_read:
  assumes "\<And>io. io \<in> set ios \<Longrightarrow> user_by_phone env phone (xw_db w) = Some usr \<and> qi_select io = None \<and>
      otp_count io phone (xw_redis w) < otp_rate_limit \<and> generate_otp (qi_rng io) = Some (Inr (code io))"
  shows "\<exists>order. schedule order (qs @ map (\<lambda>io. otp_request_prog env io phone) ios, w) =
    (qs @ map (\<lambda>io. otp_deliver_prog env io phone (xv_from_bin env (xu_id usr)) (code io)) ios, w)"
  using assms
proof (induction ios arbitrary: qs)
  case Nil
  show ?case by (intro exI [of _ "[]"]) simp
next
  case (Cons io ios)
  let ?d = "otp_deliver_prog env io phone (xv_from_bin env (xu_id usr)) (code io)"
  have "schedule [length qs, length qs] (qs @ map (\<lambda>io. otp_request_prog env io phone) (io # ios), w) =
      ((qs @ [?d]) @ map (\<lambda>io. otp_request_prog env io phone) ios, w)"
    using Cons.prems [of io] by (subst otp_reads [where usr = usr and otp = "code io"]) auto
  moreover obtain order where "schedule order ((qs @ [?d]) @ map (\<lambda>io. otp_request_prog env io phone) ios, w) =
      ((qs @ [?d]) @ map (\<lambda>io. otp_deliver_prog env io phone (xv_from_bin env (xu_id usr)) (code io)) ios, w)"
    using Cons.IH [of "qs @ [?d]"] Cons.prems by auto
  ultimately have "schedule ([length qs, length qs] @ order) (qs @ map (\<lambda>io. otp_request_prog env io phone) (io # ios), w) =
      (qs @ map (\<lambda>io. otp_deliver_prog env io phone (xv_from_bin env (xu_id usr)) (code io)) (io # ios), w)"
    by (simp only: schedule_append) simp
  then show ?case by blast
qed

lemma otp_all_deliver:
  assumes "\<And>io ios' v. io \<in> set ios \<Longrightarrow> ready env phone w (io # ios') v \<Longrightarrow>
      new_otp_id env io \<notin> new_otp_id env ` set ios' \<Longrightarrow>
      \<exists>v'. otp_deliver env io phone uid (code io) v = (Inr (answer io), v') \<and> ready env phone w ios' v'"
    and "ready env phone w ios v" and "distinct (map (new_otp_id env) ios)"
  shows "\<exists>order v'. schedule order (qs @ map (\<lambda>io. otp_deliver_prog env io phone uid (code io)) ios, v) =
    (qs @ map (\<lambda>io. Done (Inr (answer io))) ios, v')"
  using assms
proof (induction ios arbitrary: qs v)
  case Nil
  show ?case by (intro exI [of _ "[]"]) simp
next
  case (Cons io ios)
  obtain u where u: "otp_deliver env io phone uid (code io) v = (Inr (answer io), u)" "ready env phone w ios u"
    using Cons.prems(1) [of io ios v] Cons.prems(2,3) by auto
  have "solo (otp_deliver_prog env io phone uid (code io)) v = Some (Inr (answer io), u)"
    using u(1) by (simp add: implementsD [OF impl_otp_deliver])
  then obtain k where "schedule (replicate k (length qs)) (qs @ map (\<lambda>io. otp_deliver_prog env io phone uid (code io)) (io # ios), v) =
      ((qs @ [Done (Inr (answer io))]) @ map (\<lambda>io. otp_deliver_prog env io phone uid (code io)) ios, u)"
    using schedule_solo [of "length qs" "qs @ map (\<lambda>io. otp_deliver_prog env io phone uid (code io)) (io # ios)"] by fastforce
  moreover obtain order v' where
    "schedule order ((qs @ [Done (Inr (answer io))]) @ map (\<lambda>io. otp_deliver_prog env io phone uid (code io)) ios, u) =
      ((qs @ [Done (Inr (answer io))]) @ map (\<lambda>io. Done (Inr (answer io))) ios, v')"
    using Cons.IH [OF Cons.prems(1) u(2), of "qs @ [Done (Inr (answer io))]"] Cons.prems(3) by auto
  ultimately have "schedule (replicate k (length qs) @ order)
      (qs @ map (\<lambda>io. otp_deliver_prog env io phone uid (code io)) (io # ios), v) =
      (qs @ map (\<lambda>io. Done (Inr (answer io))) (io # ios), v')"
    by (simp only: schedule_append) simp
  then show ?case by blast
qed

text \<open>So any number of requests for one phone, each of which would be served if it came alone, are all served
  under some schedule: three is the limit only for requests that do not overlap.\<close>

theorem concurrent_otp_requests_all_succeed:
  assumes alone: "\<And>io. io \<in> set ios \<Longrightarrow> \<exists>w1. otp_request env io phone w = Some (Inr (answer io), w1)"
    and "distinct (map (new_otp_id env) ios)" and "otp_counter n e phone (xw_redis w)"
  shows "\<exists>order w'. schedule order (map (\<lambda>io. otp_request_prog env io phone) ios, w) =
    (map (\<lambda>io. Done (Inr (answer io))) ios, w')"
proof (cases ios)
  case Nil
  then show ?thesis by (intro exI [of _ "[]"]) simp
next
  case (Cons io0 rest)
  define code where "code io = (SOME c. generate_otp (qi_rng io) = Some (Inr c))" for io :: otp_request_io
  obtain usr where usr: "user_by_phone env phone (xw_db w) = Some usr"
    using alone [of io0] Cons by (metis list.set_intros(1) otp_late)
  have each: "qi_select io = None \<and> otp_count io phone (xw_redis w) < otp_rate_limit \<and>
      generate_otp (qi_rng io) = Some (Inr (code io)) \<and> new_otp_id env io \<notin> Some ` xo_id ` set (otps (xw_db w)) \<and>
      (\<forall>ios v. ready env phone w (io # ios) v \<longrightarrow> new_otp_id env io \<notin> new_otp_id env ` set ios \<longrightarrow>
        (\<exists>v'. otp_deliver env io phone (xv_from_bin env (xu_id usr)) (code io) v = (Inr (answer io), v') \<and>
          ready env phone w ios v'))"
    if io: "io \<in> set ios" for io
  proof -
    obtain w1 where "otp_request env io phone w = Some (Inr (answer io), w1)" using alone [OF io] by blast
    then obtain usr' otp where r: "user_by_phone env phone (xw_db w) = Some usr'" "qi_select io = None"
        "otp_count io phone (xw_redis w) < otp_rate_limit" "generate_otp (qi_rng io) = Some (Inr otp)"
        "new_otp_id env io \<notin> Some ` xo_id ` set (otps (xw_db w))"
        "\<And>ios v. ready env phone w (io # ios) v \<Longrightarrow> new_otp_id env io \<notin> new_otp_id env ` set ios \<Longrightarrow>
          \<exists>v'. otp_deliver env io phone (xv_from_bin env (xu_id usr')) otp v = (Inr (answer io), v') \<and> ready env phone w ios v'"
      by (rule otp_late) (rule that)
    have "code io = otp" "usr' = usr" using r(1,4) usr by (simp_all add: code_def)
    with r show ?thesis by blast
  qed
  let ?d = "\<lambda>io. otp_deliver_prog env io phone (xv_from_bin env (xu_id usr)) (code io)"
  obtain reads where reads: "schedule reads (map (\<lambda>io. otp_request_prog env io phone) ios, w) = (map ?d ios, w)"
    using otp_all_read [of ios env phone w usr code "[]"] usr each by auto
  have "ready env phone w ios w"
    using each assms(3) by (auto simp: ready_def counts_def otp_counter_def split: if_splits)
  then obtain order w' where "schedule order (map ?d ios, w) = (map (\<lambda>io. Done (Inr (answer io))) ios, w')"
    using otp_all_deliver [of ios env phone w "xv_from_bin env (xu_id usr)" code answer w "[]"] each assms(2) by auto
  with reads have "schedule (reads @ order) (map (\<lambda>io. otp_request_prog env io phone) ios, w) =
      (map (\<lambda>io. Done (Inr (answer io))) ios, w')"
    by (simp only: schedule_append)
  then show ?thesis by blast
qed

text \<open>Five at once, from no counter.\<close>

theorem concurrent_otp_requests_all_succeed_witness:
  "\<exists>order resp w'. schedule order (map (\<lambda>i. otp_request_prog demo_authn_env (demo_otp_io RedisFine i) ''+44'') [5, 6, 7, 8, 9],
      demo_authn_world) = (replicate 5 (Done (Inr resp)), w')"
proof -
  let ?resp = "authn_ok 200 (JObj [(''message'', JStr ''OTP sent'')])"
  have "\<exists>w1. otp_request demo_authn_env (demo_otp_io RedisFine i) ''+44'' demo_authn_world = Some (Inr ?resp, w1)"
    if i: "i \<noteq> 2" for i
  proof -
    obtain a w1 where "otp_request demo_authn_env (demo_otp_io RedisFine i) ''+44'' demo_authn_world = Some (Inr a, w1)"
      using demo_otp_request [OF _ _ demo_counter, of i 0 1 None RedisFine] i
      by (auto simp: otp_io_at_0 demo_authn_world_def demo_otp_def bumped_def)
    moreover from this have "a = ?resp"
      by (auto simp: otp_request_def otp_deliver_def ebind_Inr eret_def split: prod.splits sum.splits option.splits)
    ultimately show ?thesis by blast
  qed
  moreover have "distinct (map (new_otp_id demo_authn_env) (map (demo_otp_io RedisFine) [5, 6, 7, 8, 9]))"
    by (simp add: demo_otp_io_def demo_authn_env_def)
  ultimately have "\<exists>order w'. schedule order (map (\<lambda>io. otp_request_prog demo_authn_env io ''+44'')
        (map (demo_otp_io RedisFine) [5, 6, 7, 8, 9]), demo_authn_world) =
      (map (\<lambda>io. Done (Inr ?resp)) (map (demo_otp_io RedisFine) [5, 6, 7, 8, 9]), w')"
    by (intro concurrent_otp_requests_all_succeed [where n = 0 and e = None]) (auto simp: demo_counter)
  then show ?thesis by (auto simp: numeral_eq_Suc)
qed

section \<open>Challenges\<close>

text \<open>Nobody but the request for a challenge writes its key; others leave it as it is or delete it.\<close>

interpretation key_world: evolving_world "\<lambda>w :: authn_world. True"
  "\<lambda>w w'. xw_redis w k = None \<longrightarrow> xw_redis w' k = None" for k
  by unfold_locales auto

named_theorems key_calm "programs that do not write a challenge"

lemma key_calm_act: "einv (\<lambda>w. xw_redis w k = None) m \<Longrightarrow> key_world.calm k (patom m)"
  by (rule key_world.calm_patom) (auto simp: einv_iff)

lemma key_calm_db [key_calm]: "key_world.calm k (db_act m)"
  unfolding db_act_def
  by (rule key_calm_act) (simp add: einv_iff on_auth_db_def emap_err_def ezoom_def split_beta)

lemma challenge_key_other [simp]:
  "challenge_key s \<noteq> revoked_key j" "challenge_key s \<noteq> otp_rate_key p"
  "challenge_key s = challenge_key t \<longleftrightarrow> s = t"
  by (simp_all add: challenge_key_def revoked_key_def otp_rate_key_def)

lemma key_calm_redis [key_calm]:
  "key_world.calm (challenge_key s) (patom (cache_revoked_jti fa jti))"
  "key_world.calm (challenge_key s) (patom (send_otp out phone otp))"
  "key_world.calm k (patom (egets g))"
  "key_world.calm k (patom (take_challenge f t j))"
  by (rule key_calm_act, auto simp: einv_iff cache_revoked_jti_def send_otp_def egets_def take_challenge_def
      ebind_def eret_def on_auth_redis_def redis_write_def redis_set_ex_def redis_del_def
      split: sms_outcome.split)+

lemma key_calm_count [key_calm]: "key_world.calm (challenge_key s) (count_otp_request_prog io phone)"
proof -
  have "einv (\<lambda>w. xw_redis w (challenge_key s) = None) (incr_otp io phone)"
    by (auto simp: einv_iff incr_otp_def split: option.split dest!: redis_incr_other [where j = "challenge_key s", OF _ challenge_key_other(2)])
  moreover have "einv (\<lambda>w. xw_redis w (challenge_key s) = None) (expire_otp io phone)"
    by (simp add: einv_iff expire_otp_def redis_write_def redis_expire_other)
  ultimately show ?thesis
    unfolding count_otp_request_prog_def by (intro key_world.calm_rules key_calm_act)
qed

lemma key_calm_issue [key_calm]: "key_world.calm k (issue_token_pair_prog env key io user fp)"
  unfolding issue_token_pair_prog_def by (intro key_world.calm_rules key_calm)

lemma key_calm_find_user [key_calm]: "key_world.calm k (find_user_prog env f phone)"
  unfolding find_user_prog_def by (intro key_world.calm_rules key_calm)

lemma key_calm_verify [key_calm]: "key_world.calm k (verify_otp_for_user_prog env io u code)"
  unfolding verify_otp_for_user_prog_def by (intro key_world.calm_rules key_calm)

lemma key_calm_cache_all [key_calm]: "key_world.calm (challenge_key s) (cache_revoked_all_prog faults n rs)"
  by (induction rs arbitrary: n)
    (auto split: option.split intro!: key_world.calm_pbind key_world.calm_Done key_calm)

lemma key_calm_challenge:
  "kc_sub claims \<noteq> s \<Longrightarrow> key_world.calm (challenge_key s) (biometric_challenge_prog env d f t claims)"
  unfolding biometric_challenge_prog_def
  by (intro key_world.calm_rules key_calm_act)
    (simp add: einv_iff on_auth_redis_def redis_write_def redis_set_ex_def)

lemma key_calm_biometric [key_calm]: "key_world.calm k (biometric_verify_prog env key f t io claims c fp)"
  unfolding biometric_verify_prog_def by (intro key_world.calm_rules key_calm)

lemma key_calm_private:
  assumes "req = XqChallenge \<Longrightarrow> kc_sub claims \<noteq> s"
  shows "key_world.calm (challenge_key s) (authn_private_prog env key io claims req)"
proof (cases "req = XqChallenge")
  case True
  with assms show ?thesis by (simp add: key_calm_challenge)
next
  case False
  then show ?thesis
    by (cases req) (simp_all add: session_delete_prog_def sessions_revoke_all_prog_def logout_prog_def
        pin_set_prog_def pin_change_prog_def store_pin_prog_def,
      (intro key_world.calm_rules key_calm)+)
qed

text \<open>Whether a request asks for a new challenge of a user.\<close>

fun asks_challenge ::
  "authn_env \<Rightarrow> string \<Rightarrow> string \<Rightarrow> authn_io \<times> (string \<times> string) list \<times> authn_req \<Rightarrow> bool" where
  "asks_challenge env pub s (io, headers, req) \<longleftrightarrow>
     req = XqChallenge \<and> (case auth_claims_extract env pub headers of Inl _ \<Rightarrow> False | Inr c \<Rightarrow> kc_sub c = s)"

lemma key_calm_authn_prog:
  assumes "\<not> asks_challenge env pub s c"
  shows "key_world.calm (challenge_key s) (authn_prog env key pub c)"
proof -
  obtain io hs req where c: "c = (io, hs, req)" by (metis prod_cases3)
  have ans: "key_world.calm k p \<Longrightarrow> key_world.calm k (answering p)" for k p
    unfolding answering_def by (intro key_world.calm_rules)
  have guarded: "key_world.calm (challenge_key s) (case auth_claims_extract env pub hs of
      Inl resp \<Rightarrow> Done (Inr resp) | Inr claims \<Rightarrow> answering (authn_private_prog env key io claims q))"
    if "\<not> asks_challenge env pub s (io, hs, q)" for q
    using that by (cases "auth_claims_extract env pub hs")
      (auto intro!: key_world.calm_rules ans key_calm_private)
  show ?thesis
    unfolding c authn_prog.simps
    by (cases req; simp only: authn_req.case)
      (use assms c in \<open>auto simp: register_prog_def otp_request_prog_def otp_prepare_prog_def otp_deliver_prog_def
        otp_verify_prog_def login_row_prog_def token_refresh_prog_def rotate_refresh_token_prog_def
        rotate_row_prog_def intro!: key_world.calm_rules ans key_calm guarded\<close>)
qed

text \<open>What is left of an attempt after its \<open>GETDEL\<close>.\<close>

definition verify_tail ::
  "authn_env \<Rightarrow> string \<Rightarrow> issue_io \<Rightarrow> kova_claims \<Rightarrow> string \<Rightarrow> string \<Rightarrow> authn_error + string option
    \<Rightarrow> (unit, http_resp, authn_world) prog" where
  "verify_tail env key issue claims c fp r =
     answering (case r of Inl e \<Rightarrow> Done (Inl e) | Inr stored \<Rightarrow>
       pbind (pguard (stored = Some c) XeChallengeInvalid) (\<lambda>_.
       pbind (Done (ok_or (xv_uuid_parse env (kc_sub claims)) XeUnauthorized)) (\<lambda>u.
       pbind (issue_token_pair_prog env key issue (KovaUserId u) fp) (\<lambda>pair.
       Done (Inr (pair_response pair))))))"

lemma verify_shape:
  assumes "auth_claims_extract env pub hs = Inr claims"
  shows "authn_prog env key pub (io, hs, XqBiometricVerify c fp) =
    Act (\<lambda>w. case take_challenge (zi_redis io) (zi_clock io) (challenge_key (kc_sub claims)) w of
      (r, w') \<Rightarrow> (verify_tail env key (zi_issue io) claims c fp r, w'))"
  using assms
  by (simp add: biometric_verify_prog_def answering_def pbind_patom ptry_Act verify_tail_def del: ptry.simps)
    (simp add: fun_eq_iff split: prod.split)

abbreviation granted :: "unit + http_resp \<Rightarrow> bool" where
  "granted r \<equiv> \<exists>resp. r = Inr resp \<and> hs_status resp = 200"

lemma error_not_granted [simp]: "hs_status (authn_error_response e) \<noteq> 200"
  using authn_error_status [of e] by auto

lemma tail_loses:
  assumes "\<exists>e. r = Inl e \<or> r = Inr None"
  shows "key_world.loses k granted id (verify_tail env key issue claims c fp r) w"
  using assms
  by (auto simp: verify_tail_def answering_def pbind_def pguard_def key_world.loses_def authn_answer_def)

lemma take_challenge_cases:
  assumes "take_challenge f t k w = (r, w')"
  shows "xw_redis w' k = None \<or> (\<exists>e. r = Inl e)"
    and "xw_redis w k = None \<Longrightarrow> \<exists>e. r = Inl e \<or> r = Inr None"
  using assms
  by (auto simp: take_challenge_def ebind_def egets_def eret_def on_auth_redis_def redis_write_def
      redis_del_def redis_get_def redis_live_def split: if_splits)

lemma take_challenge_keeps:
  "take_challenge f t k w = (r, w') \<Longrightarrow> xw_redis w k = None \<Longrightarrow> xw_redis w' k = None"
  by (auto simp: take_challenge_def ebind_def egets_def eret_def on_auth_redis_def redis_write_def
      redis_del_def split: if_splits)

lemma challenge_winners_equal:
  assumes "schedule order (map (authn_prog env key pub) calls, w) = (ps, w')"
    and "\<not> list_ex (asks_challenge env pub s) calls"
    and "i < length calls" and "calls ! i = (io, hs, XqBiometricVerify c fp)"
    and "auth_claims_extract env pub hs = Inr claims" and "kc_sub claims = s"
    and "j < length calls" and "calls ! j = (jo, hs2, XqBiometricVerify c2 fp2)"
    and "auth_claims_extract env pub hs2 = Inr claims2" and "kc_sub claims2 = s"
    and "ps ! i = Done (Inr resp)" and "hs_status resp = 200"
    and "ps ! j = Done (Inr resp2)" and "hs_status resp2 = 200"
  shows "i = j"
proof -
  let ?k = "challenge_key s"
  let ?ps = "map (authn_prog env key pub) calls"
  define I where "I = {i. i < length calls \<and> (\<exists>io hs c fp claims. calls ! i = (io, hs, XqBiometricVerify c fp) \<and>
     auth_claims_extract env pub hs = Inr claims \<and> kc_sub claims = s)}"
  have shape: "\<exists>f t key issue c fp claims. ?ps ! i = Act (\<lambda>w. case take_challenge f t ?k w of
      (r, w') \<Rightarrow> (verify_tail env key issue claims c fp r, w'))" if i: "i \<in> I" for i
  proof -
    obtain io hs c fp claims where c: "i < length calls" "calls ! i = (io, hs, XqBiometricVerify c fp)"
        "auth_claims_extract env pub hs = Inr claims" "kc_sub claims = s"
      using i unfolding I_def by blast
    from verify_shape [OF c(3), of key io c fp] c show ?thesis by (simp del: authn_prog.simps) blast
  qed
  have calm: "p \<in> set ?ps \<Longrightarrow> key_world.calm ?k p" for p
    using assms(2) key_calm_authn_prog
    by (auto simp: list_ex_iff simp del: authn_prog.simps asks_challenge.simps)
  have mem: "i \<in> I" "j \<in> I" using assms(3-10) unfolding I_def by blast+
  have late: "key_world.loses ?k granted id (?ps ! i) u" if i: "i \<in> I" and gone: "xw_redis u ?k = None" for i u
  proof -
    obtain f t key issue c fp claims where p: "?ps ! i = Act (\<lambda>w. case take_challenge f t ?k w of
      (r, w') \<Rightarrow> (verify_tail env key issue claims c fp r, w'))" using shape [OF i] by blast
    show ?thesis
      unfolding key_world.loses_def p
    proof (rule key_world.safe_ActI)
      fix v q v' assume v: "xw_redis u ?k = None \<longrightarrow> xw_redis v ?k = None"
        and m: "(case take_challenge f t ?k v of (r, w') \<Rightarrow> (verify_tail env key issue claims c fp r, w')) = (q, v')"
      obtain r where r: "take_challenge f t ?k v = (r, v')" "q = verify_tail env key issue claims c fp r"
        using m by (auto split: prod.splits)
      show "True \<and> (xw_redis v ?k = None \<longrightarrow> xw_redis v' ?k = None) \<and> key_world.safe ?k q (\<lambda>r v. \<not> granted (id r)) v'"
        using tail_loses [OF take_challenge_cases(2) [OF r(1)], of ?k env key issue claims c fp v']
          take_challenge_keeps [OF r(1)] v gone by (simp add: r(2) key_world.loses_def)
    qed
  qed
  have take: "xw_redis v ?k = None \<or> key_world.loses ?k granted id q v"
    if i: "i \<in> I" and m: "?ps ! i = Act m" "m u = (q, v)" for i m u q v
  proof -
    obtain f t key issue c fp claims where p: "?ps ! i = Act (\<lambda>w. case take_challenge f t ?k w of
      (r, w') \<Rightarrow> (verify_tail env key issue claims c fp r, w'))" using shape [OF i] by blast
    then obtain r where r: "take_challenge f t ?k u = (r, v)" "q = verify_tail env key issue claims c fp r"
      using m by (auto split: prod.splits)
    from take_challenge_cases(1) [OF r(1)] show ?thesis
      using tail_loses [of r] by (auto simp: r(2))
  qed
  show ?thesis
  proof (rule key_world.one_winner [where ps = ?ps and I = I and gone = "\<lambda>w. xw_redis w ?k = None" and won = granted
        and f = id and k = ?k, OF TrueI calm _ _ _ _ assms(1) mem assms(11,13)])
    show "\<exists>m. ?ps ! i = Act m" if "i \<in> I" for i using shape [OF that] by blast
    show "granted (id (Inr resp))" "granted (id (Inr resp2))" using assms(12,14) by simp_all
  qed (use take late in simp_all)
qed

text \<open>Whether a request offers a challenge of a user.\<close>

fun offers_challenge ::
  "authn_env \<Rightarrow> string \<Rightarrow> string \<Rightarrow> authn_io \<times> (string \<times> string) list \<times> authn_req \<Rightarrow> bool" where
  "offers_challenge env pub s (io, headers, XqBiometricVerify c fp) \<longleftrightarrow>
     (case auth_claims_extract env pub headers of Inl _ \<Rightarrow> False | Inr cl \<Rightarrow> kc_sub cl = s)"
| "offers_challenge env pub s (io, headers, req) \<longleftrightarrow> False"

lemma offers_challenge_iff:
  "offers_challenge env pub s (io, hs, req) \<longleftrightarrow>
    (\<exists>c fp claims. req = XqBiometricVerify c fp \<and> auth_claims_extract env pub hs = Inr claims \<and> kc_sub claims = s)"
  by (cases req; cases "auth_claims_extract env pub hs") simp_all

text \<open>C16: A challenge has one winner, however many attempts race for it: in a pool of any requests of which
  none asks for a new challenge of the user, under any schedule and with any faults, at most one
  attempt with the user's challenge is answered 200.  \<open>GETDEL\<close> takes it in one command, which is
  what the refresh token and the one-time code lack.\<close>

theorem challenge_has_one_winner:
  assumes "schedule order (map (authn_prog env key pub) calls, w) = (ps, w')"
    and "\<not> list_ex (asks_challenge env pub s) calls"
  shows "card {i. i < length calls \<and> offers_challenge env pub s (calls ! i) \<and>
    (\<exists>resp. ps ! i = Done (Inr resp) \<and> hs_status resp = 200)} \<le> 1"
proof -
  let ?S = "{i. i < length calls \<and> offers_challenge env pub s (calls ! i) \<and>
    (\<exists>resp. ps ! i = Done (Inr resp) \<and> hs_status resp = 200)}"
  have "i = j" if mem: "i \<in> ?S" "j \<in> ?S" for i j
  proof -
    obtain io hs c fp claims where ci: "calls ! i = (io, hs, XqBiometricVerify c fp)"
        "auth_claims_extract env pub hs = Inr claims" "kc_sub claims = s"
      using mem(1) by (cases "calls ! i") (auto simp: offers_challenge_iff)
    obtain jo hs2 c2 fp2 claims2 where cj: "calls ! j = (jo, hs2, XqBiometricVerify c2 fp2)"
        "auth_claims_extract env pub hs2 = Inr claims2" "kc_sub claims2 = s"
      using mem(2) by (cases "calls ! j") (auto simp: offers_challenge_iff)
    from mem show ?thesis
      by (auto intro: challenge_winners_equal [OF assms _ ci _ cj])
  qed
  moreover have "finite ?S" by simp
  ultimately show ?thesis by (simp only: One_nat_def card_le_Suc0_iff_eq) blast
qed

definition demo_challenged :: authn_world where
  "demo_challenged = demo_authn_world\<lparr>xw_redis := redis_set_ex 0 (challenge_key ''7'') (RStr ''c'') 60 redis_empty\<rparr>"

lemma demo_extract:
  "auth_claims_extract demo_authn_env key [(''authorization'', ''Bearer 7'')] =
    Inr \<lparr>kc_sub = ''7'', kc_exp = 0, kc_iat = 0, kc_jti = ''j'', kc_iss = ''kova-auth'', kc_device_id = None\<rparr>"
proof -
  have "strip_prefix ''Bearer 7'' ''Bearer '' = Some ''7''"
    using strip_prefix_append [of "''Bearer ''" "''7''"] by simp
  then show ?thesis by (simp add: auth_claims_extract_def demo_authn_env_def)
qed

text \<open>Of two attempts with the right challenge the one whose command comes first wins.\<close>

theorem challenge_has_one_winner_witness:
  "\<exists>ps w'. schedule [1, 0, 1]
     (map (authn_prog demo_authn_env ''key'' ''pub'')
       [(demo_authn_io, [(''authorization'', ''Bearer 7'')], XqBiometricVerify ''c'' ''d''),
        (demo_authn_io, [(''authorization'', ''Bearer 7'')], XqBiometricVerify ''c'' ''x'')], demo_challenged) = (ps, w') \<and>
    (\<exists>resp. ps ! 1 = Done (Inr resp) \<and> hs_status resp = 200) \<and>
    card {i. i < 2 \<and> offers_challenge demo_authn_env ''pub'' ''7''
        ([(demo_authn_io, [(''authorization'', ''Bearer 7'')], XqBiometricVerify ''c'' ''d''),
          (demo_authn_io, [(''authorization'', ''Bearer 7'')], XqBiometricVerify ''c'' ''x'')] ! i) \<and>
      (\<exists>resp. ps ! i = Done (Inr resp) \<and> hs_status resp = 200)} \<le> 1"
proof -
  let ?calls = "[(demo_authn_io, [(''authorization'', ''Bearer 7'')], XqBiometricVerify ''c'' ''d''),
        (demo_authn_io, [(''authorization'', ''Bearer 7'')], XqBiometricVerify ''c'' ''x'')]"
  obtain ps w' where run: "schedule [1, 0, 1] (map (authn_prog demo_authn_env ''key'' ''pub'') ?calls, demo_challenged) =
      (ps, w')" by force
  then have "schedule [1, 0, 1] (map (\<lambda>fp. answering (biometric_verify_prog demo_authn_env ''key'' RedisFine 0
      (demo_issue_io [0]) \<lparr>kc_sub = ''7'', kc_exp = 0, kc_iat = 0, kc_jti = ''j'', kc_iss = ''kova-auth'',
        kc_device_id = None\<rparr> ''c'' fp)) [''d'', ''x''], demo_challenged) = (ps, w')"
    by (simp add: demo_extract) (simp add: demo_authn_io_def)
  then have "\<exists>resp. ps ! 1 = Done (Inr resp) \<and> hs_status resp = 200"
    by (auto simp: pool_eval biometric_verify_prog_def issue_token_pair_prog_def take_challenge_def eff_defs on_auth_db_def on_auth_redis_def redis_write_def redis_get_def redis_live_def
        redis_set_ex_def redis_del_def redis_text_def cell_alive_def sign_access_token_def random_hex_token_def
        insert_session_stmt_def insert_session_def fits_null_def user_exists_def auth_bin_def access_claims_def
        sha256_hex_def demo_challenged_def demo_authn_world_def demo_authn_env_def demo_authn_io_def
        demo_session_def demo_user_row_def demo_issue_io_def read_nat_def digit_val_def show_nat.simps
        digit_char_def authn_answer_def pair_response_def authn_ok_def Let_def)
  moreover have two: "length ?calls = 2" by simp
  have "\<not> list_ex (asks_challenge demo_authn_env ''pub'' ''7'') ?calls" by simp
  from challenge_has_one_winner [OF run this] have "card {i. i < 2 \<and> offers_challenge demo_authn_env ''pub'' ''7'' (?calls ! i) \<and>
      (\<exists>resp. ps ! i = Done (Inr resp) \<and> hs_status resp = 200)} \<le> 1"
    unfolding two .
  ultimately show ?thesis using run by (intro exI [of _ ps] exI [of _ w'] conjI)
qed

end
