(* ===== verification/Account_Programs.thy ===== *)
theory Account_Programs
  imports Account_Service Interleave
begin

text \<open>
  The handlers of \<open>services/kova-account\<close> cut at their awaits: every statement, every command to
  Redis and every call of the ledger, the payments service and the publisher is one action.  Each
  program is shown to be its handler when it runs alone.
\<close>

definition row_act :: "(sqlx_error, 'a, account_db) eff \<Rightarrow> (account_error, 'a, 'x account_world) prog" where
  "row_act m = patom (db_q m)"

definition ext_act :: "('e, 'a, 'x) eff \<Rightarrow> ('e, 'a, 'x account_world) prog" where
  "ext_act m = patom (on_ext m)"

lemma impl_row_act [impl_intros]: "implements (row_act m) (db_q m)"
  unfolding row_act_def by (rule impl_patom)

lemma impl_ext_act [impl_intros]: "implements (ext_act m) (on_ext m)"
  unfolding ext_act_def by (rule impl_patom)

section \<open>Creating\<close>

definition open_or_compensate_prog ::
  "account_env \<Rightarrow> 'x account_clients \<Rightarrow> create_io \<Rightarrow> string \<Rightarrow> currency_code
    \<Rightarrow> (account_error, unit, 'x account_world) prog" where
  "open_or_compensate_prog env cl io account_id currency =
     ptry (ext_act (cl_open cl (KovaAccountId (ci_id io)) currency)) (\<lambda>r.
       case r of
         Inr _ \<Rightarrow> Done (Inr ())
       | Inl e \<Rightarrow> ptry (patom (on_accounts (sql_exec (ci_delete io) (delete_account_stmt env account_id))))
                       (\<lambda>_. Done (Inl e)))"

definition finish_create_prog ::
  "account_env \<Rightarrow> 'x account_clients \<Rightarrow> create_io \<Rightarrow> auth_user \<Rightarrow> string \<Rightarrow> currency_code \<Rightarrow> string
    \<Rightarrow> (account_error, http_resp, 'x account_world) prog" where
  "finish_create_prog env cl io user body_currency currency number =
     (let account_id = ac_uuid_show env (ci_id io)
      in pbind (Done (ok_or (ac_uuid_parse env (us_sub user)) AeUnauthorized)) (\<lambda>uid.
         pbind (open_or_compensate_prog env cl io account_id currency) (\<lambda>_.
         pbind (ext_act (cl_publish cl (es_topic account_created_event) account_id
              (created_event env io uid currency number))) (\<lambda>_.
         Done (Inr (ok_response 201
           (JObj [(''account_id'', JStr account_id), (''account_number'', JStr number),
                  (''currency'', JStr body_currency), (''status'', JStr ''PendingKYC''),
                  (''user_id'', JStr (us_sub user))])
           (JObj [])))))))"

definition create_account_prog ::
  "account_env \<Rightarrow> 'x account_clients \<Rightarrow> create_io \<Rightarrow> auth_user \<Rightarrow> string
    \<Rightarrow> (account_error, http_resp, 'x account_world) prog" where
  "create_account_prog env cl io user body_currency =
     pbind (Done (parse_currency body_currency)) (\<lambda>currency.
     pbind (row_act (sql_exec (ci_seq io) next_account_seq)) (\<lambda>seq.
     let number = account_number_of seq
     in pbind (pmap_err insert_error (patom (on_accounts (sql_exec (ci_insert io)
          (insert_account_stmt env (ac_uuid_show env (ci_id io)) (us_sub user) number currency
             (ci_db_now io)))))) (\<lambda>_.
        finish_create_prog env cl io user body_currency currency number)))"

section \<open>Closing\<close>

definition fetch_owned_prog ::
  "account_env \<Rightarrow> string option \<Rightarrow> string \<Rightarrow> auth_user \<Rightarrow> (account_error, account_row, 'x account_world) prog" where
  "fetch_owned_prog env fault account_id user =
     pbind (row_act (sql_fetch fault (owned_row env account_id (us_sub user)))) (\<lambda>row.
     Done (ok_or row AeNotFound))"

definition close_checks_prog ::
  "account_env \<Rightarrow> 'x account_clients \<Rightarrow> kova_account_id \<Rightarrow> account_status
    \<Rightarrow> (account_error, unit, 'x account_world) prog" where
  "close_checks_prog env cl kid current =
     pbind (ext_act (cl_pending cl kid)) (\<lambda>pending.
     pbind (pguard (\<not> pending) AePendingPayments) (\<lambda>_.
     pbind (ext_act (cl_balance cl kid)) (\<lambda>bal.
     pbind (pguard (dec_is_zero (cb_available bal) \<and> dec_is_zero (cb_pending bal))
              (AeHasBalance (ac_dec_show env (cb_available bal)))) (\<lambda>_.
     pbind (Done (map_err (\<lambda>e. AeInvalidTransition (it_from e) (it_to e))
              (account_transition current AccClosed))) (\<lambda>_.
     Done (Inr ()))))))"

definition close_prepare_prog ::
  "account_env \<Rightarrow> 'x account_clients \<Rightarrow> close_io \<Rightarrow> auth_user \<Rightarrow> string
    \<Rightarrow> (account_error, uuid \<times> uuid, 'x account_world) prog" where
  "close_prepare_prog env cl io user account_id =
     pbind (fetch_owned_prog env (cx_select io) account_id user) (\<lambda>row.
     pbind (Done (parse_status (ar_status row))) (\<lambda>current.
     pbind (pguard (current \<noteq> AccClosed) AeAlreadyClosed) (\<lambda>_.
     pbind (Done (ok_or (ac_uuid_parse env account_id) AeNotFound)) (\<lambda>aid.
     pbind (Done (ok_or (ac_uuid_parse env (us_sub user)) AeUnauthorized)) (\<lambda>uid.
     pbind (close_checks_prog env cl (KovaAccountId aid) current) (\<lambda>_.
     Done (Inr (aid, uid))))))))"

text \<open>What follows the checks, and the whole handler.\<close>

definition close_write_prog ::
  "account_env \<Rightarrow> 'x account_clients \<Rightarrow> close_io \<Rightarrow> string \<Rightarrow> uuid \<times> uuid
    \<Rightarrow> (account_error, http_resp, 'x account_world) prog" where
  "close_write_prog env cl io account_id ids =
     (case ids of (aid, uid) \<Rightarrow>
        pbind (row_act (sql_exec (cx_update io) (close_account_stmt env account_id (cx_now io)))) (\<lambda>_.
        pbind (ext_act (cl_publish cl (es_topic account_closed_event) account_id
             (closed_event env io aid uid))) (\<lambda>_.
        Done (Inr (ok_response 200
          (JObj [(''account_id'', JStr account_id), (''status'', JStr ''Closed''),
                 (''closed_at'', JStr (ac_rfc3339 env (cx_now io)))])
          (JObj []))))))"

definition close_account_prog ::
  "account_env \<Rightarrow> 'x account_clients \<Rightarrow> close_io \<Rightarrow> auth_user \<Rightarrow> string
    \<Rightarrow> (account_error, http_resp, 'x account_world) prog" where
  "close_account_prog env cl io user account_id =
     pbind (close_prepare_prog env cl io user account_id) (close_write_prog env cl io account_id)"

section \<open>Reading\<close>

definition list_accounts_prog ::
  "account_env \<Rightarrow> (account_row list \<Rightarrow> account_row list) \<Rightarrow> string option \<Rightarrow> auth_user
    \<Rightarrow> (account_error, http_resp, 'x account_world) prog" where
  "list_accounts_prog env tie fault user =
     pbind (row_act (sql_fetch fault (list_accounts_query env tie (us_sub user)))) (\<lambda>rows.
     Done (Inr (ok_response 200 (JArr (map (\<lambda>r. JObj (account_json env r)) rows))
             (JObj [(''count'', JNum (int (length rows)))]))))"

definition get_account_prog ::
  "account_env \<Rightarrow> string option \<Rightarrow> auth_user \<Rightarrow> string \<Rightarrow> (account_error, http_resp, 'x account_world) prog" where
  "get_account_prog env fault user account_id =
     pbind (fetch_owned_prog env fault account_id user) (\<lambda>row.
     Done (Inr (ok_response 200
       (JObj (account_json env row @
          [(''closed_at'', jopt (map_option (\<lambda>t. JStr (ac_rfc3339 env t))
             (Option.bind (ar_closed row) (ac_of_column env))))]))
       (JObj []))))"

definition ask_ledger_prog ::
  "account_env \<Rightarrow> 'x account_clients \<Rightarrow> balance_io \<Rightarrow> string \<Rightarrow> string \<Rightarrow> kova_account_id
    \<Rightarrow> (account_error, http_resp, 'x account_world) prog" where
  "ask_ledger_prog env cl io account_id currency kid =
     ptry (ext_act (cl_balance cl kid)) (\<lambda>r.
       case r of
         Inr bal \<Rightarrow>
           let d = balance_json env account_id currency bal
           in pbind (patom (on_cache (redis_write (bi_set io) (redis_set_ex (bi_now_set io)
                (balance_cache_key account_id) (RStr (ac_json_show env d)) balance_cache_ttl_secs)))) (\<lambda>_.
              Done (Inr (ok_response 200 d (JObj []))))
       | Inl e \<Rightarrow>
           pbind (patom (egets (\<lambda>w. Inr (cache_read env (bi_get2 io) (bi_now2 io)
               (balance_cache_key account_id) (aw_redis w))))) (\<lambda>cached.
           case cached of
             Some v \<Rightarrow> Done (Inr (ok_response 200 v (JObj [(''stale'', JBool True)])))
           | None \<Rightarrow> Done (Inl e)))"

definition account_balance_prog ::
  "account_env \<Rightarrow> 'x account_clients \<Rightarrow> balance_io \<Rightarrow> auth_user \<Rightarrow> string
    \<Rightarrow> (account_error, http_resp, 'x account_world) prog" where
  "account_balance_prog env cl io user account_id =
     pbind (row_act (sql_fetch (bi_select io) (owned_open_row env account_id (us_sub user)))) (\<lambda>found.
     pbind (Done (ok_or found AeNotFound)) (\<lambda>row.
     pbind (patom (egets (\<lambda>w. Inr (cache_read env (bi_get io) (bi_now io)
         (balance_cache_key account_id) (aw_redis w))))) (\<lambda>cached.
     case cached of
       Some v \<Rightarrow> Done (Inr (ok_response 200 v (JObj [])))
     | None \<Rightarrow>
         pbind (Done (ok_or (ac_uuid_parse env account_id) AeNotFound)) (\<lambda>aid.
         ask_ledger_prog env cl io account_id (ar_currency row) (KovaAccountId aid)))))"

definition account_statement_prog ::
  "account_env \<Rightarrow> 'x account_clients \<Rightarrow> string option \<Rightarrow> auth_user \<Rightarrow> string \<Rightarrow> statement_query
    \<Rightarrow> (account_error, http_resp, 'x account_world) prog" where
  "account_statement_prog env cl fault user account_id q =
     (let limit = (case sy_limit q of None \<Rightarrow> default_limit | Some n \<Rightarrow> n)
      in pbind (pguard (\<not> (limit = 0 \<or> max_limit < limit)) AeInvalidLimit) (\<lambda>_.
         pbind (fetch_owned_prog env fault account_id user) (\<lambda>_.
         pbind (Done (ok_or (ac_uuid_parse env account_id) AeNotFound)) (\<lambda>aid.
         pbind (ext_act (cl_statement cl (KovaAccountId aid) (sy_cursor q) limit)) (\<lambda>page.
         Done (Inr (ok_response 200 (JArr (map (statement_entry_json env) (cp_entries page)))
           (JObj [(''cursor'', jopt (map_option
                     (\<lambda>c. JStr (ac_b64_encode env (bytes_of_string c))) (cp_next page))),
                  (''has_more'', JBool (cp_more page)),
                  (''limit'', JNum (int limit))]))))))))"

section \<open>The service\<close>

fun account_handle_prog ::
  "account_env \<Rightarrow> 'x account_clients \<Rightarrow> account_io \<Rightarrow> auth_user \<Rightarrow> account_req
    \<Rightarrow> (account_error, http_resp, 'x account_world) prog" where
  "account_handle_prog env cl io user AqHealth = Done (Inr (account_health (yi_db_ok io) (yi_ping io)))"
| "account_handle_prog env cl io user (AqCreate c) = create_account_prog env cl (yi_create io) user c"
| "account_handle_prog env cl io user AqList = list_accounts_prog env (yi_tie io) (yi_select io) user"
| "account_handle_prog env cl io user (AqGet a) = get_account_prog env (yi_select io) user a"
| "account_handle_prog env cl io user (AqClose a) = close_account_prog env cl (yi_close io) user a"
| "account_handle_prog env cl io user (AqBalance a) = account_balance_prog env cl (yi_balance io) user a"
| "account_handle_prog env cl io user (AqStatement a q) = account_statement_prog env cl (yi_select io) user a q"

fun account_prog ::
  "account_env \<Rightarrow> string \<Rightarrow> 'x account_clients \<Rightarrow> account_io \<times> (string \<times> string) list \<times> account_req
    \<Rightarrow> (unit, http_resp, 'x account_world) prog" where
  "account_prog env key cl (io, headers, req) =
     (if req = AqHealth then Done (Inr (account_health (yi_db_ok io) (yi_ping io)))
      else case auth_user_extract env key headers of
          Inl resp \<Rightarrow> Done (Inr resp)
        | Inr user \<Rightarrow> ptry (account_handle_prog env cl io user req) (\<lambda>r. Done (Inr (answer r))))"

section \<open>Alone\<close>

lemma impl_fetch_owned [impl_intros]: "implements (fetch_owned_prog env f a u) (fetch_owned env f a u)"
  unfolding fetch_owned_prog_def fetch_owned_def by (intro impl_intros)

lemma impl_create: "implements (create_account_prog env cl io user c) (create_account env cl io user c)"
  unfolding create_account_prog_def create_account_def finish_create_prog_def finish_create_def
    open_or_compensate_prog_def open_or_compensate_def by (intro impl_intros)

lemma impl_close_prepare [impl_intros]:
  "implements (close_prepare_prog env cl io user a) (close_prepare env cl io user a)"
  unfolding close_prepare_prog_def close_prepare_def close_checks_prog_def close_checks_def
  by (intro impl_intros)

lemma impl_close: "implements (close_account_prog env cl io user a) (close_account env cl io user a)"
  unfolding close_account_prog_def close_account_def close_write_prog_def
  by (rule impl_bind [OF impl_close_prepare], rule impl_prod) (intro impl_intros)

lemma impl_reads:
  "implements (list_accounts_prog env tie f u) (list_accounts env tie f u)"
  "implements (get_account_prog env f u a) (get_account env f u a)"
  "implements (account_balance_prog env cl bio u a) (account_balance env cl bio u a)"
  "implements (account_statement_prog env cl f u a q) (account_statement env cl f u a q)"
  unfolding list_accounts_prog_def list_accounts_def get_account_prog_def get_account_def
    account_balance_prog_def account_balance_def ask_ledger_prog_def ask_ledger_def
    account_statement_prog_def account_statement_def by (intro impl_intros)+

lemma impl_account_handle: "implements (account_handle_prog env cl io user req) (account_handle env cl io user req)"
  by (cases req) (simp_all add: impl_create impl_close impl_reads impl_ret)

text \<open>Alone, the program of a request is \<open>account_serve\<close>.\<close>

lemma solo_account_prog:
  "solo (account_prog env key cl c) w = (case account_serve env key cl c w of (resp, w') \<Rightarrow> Some (Inr resp, w'))"
  by (cases c) (simp add: account_call_def solo_ptry implementsD [OF impl_account_handle] split: sum.split prod.split)

end
