(* ===== verification/Account_Concurrent.thy ===== *)
theory Account_Concurrent
  imports Account_Programs
begin

text \<open>
  The requests of \<open>services/kova-account\<close> running at the same time, statement by statement: the life
  of the table under every schedule, and two requests that close one account.
\<close>

section \<open>The table under any schedule\<close>

text \<open>What the table has become since the rows \<open>R\<close>: \<open>rows_step\<close> is kept by each statement, though not
  by each pair of worlds (a row that was just added may be deleted again by the request that added
  it).\<close>

definition since :: "account_row list \<Rightarrow> account_db \<Rightarrow> bool" where
  "since R db \<longleftrightarrow> account_db_wf db \<and> rows_step R (ad_rows db)"

interpretation account_world: evolving_world "\<lambda>w :: 'x account_world. since R (aw_db w)" "\<lambda>w w'. True" for R
  by unfold_locales auto

lemma since_ids:
  assumes "list_all2 row_step R old"
  shows "map ar_id old = map ar_id R"
  using assms by (induction rule: list_all2_induct) (auto simp: row_step_def)

lemma since_rows:
  assumes "since R db"
  obtains old new where "ad_rows db = old @ new" "list_all2 row_step R old"
    "\<forall>r \<in> set new. ar_status r = ''PendingKYC''" "ar_id ` set old = ar_id ` set R"
proof -
  obtain old new where r: "ad_rows db = old @ new" "list_all2 row_step R old" "\<forall>r \<in> set new. ar_status r = ''PendingKYC''"
    using assms by (auto simp: since_def rows_step_def)
  moreover have "ar_id ` set old = ar_id ` set R"
    using since_ids [OF r(2)] by (metis list.set_map)
  ultimately show thesis by (rule that)
qed

lemma rows_step_add: "rows_step R rs \<Longrightarrow> ar_status r = ''PendingKYC'' \<Longrightarrow> rows_step R (rs @ [r])"
  unfolding rows_step_def by (elim exE conjE, rule_tac x = old in exI, rule_tac x = "new @ [r]" in exI) simp

lemma since_insert: "einv (since R) (insert_account_stmt env a u n c t)"
  unfolding insert_account_stmt_def
proof (intro einv_intros)
  fix i v
  show "einv (since R) (insert_account \<lparr>ar_id = i, ar_user = v, ar_number = n, ar_currency = currency_debug c,
       ar_status = ''PendingKYC'', ar_created = t, ar_closed = None\<rparr>)"
    unfolding einv_iff
  proof (intro allI impI)
    fix db assume s: "since R db"
    let ?row = "\<lparr>ar_id = i, ar_user = v, ar_number = n, ar_currency = currency_debug c,
       ar_status = ''PendingKYC'', ar_created = t, ar_closed = None\<rparr>"
    have wf: "account_db_wf (snd (insert_account ?row db))"
      using s insert_account_wf [of ?row] by (simp add: since_def einv_iff)
    have "rows_step R (ad_rows db @ [?row])"
      using s by (intro rows_step_add) (simp_all add: since_def)
    with s wf show "since R (snd (insert_account ?row db))"
      by (auto simp: since_def insert_account_def split: if_splits)
  qed
qed

lemma insert_new_id:
  assumes "since R db" and "insert_account_stmt env a u n c t db = (Inr x, db')"
  shows "\<exists>i. ac_to_bin env a = Some i \<and> i \<notin> ar_id ` set R"
proof -
  obtain i v where i: "ac_to_bin env a = Some i" "\<forall>q \<in> set (ad_rows db). ar_id q \<noteq> i"
    using assms(2) by (auto simp: insert_account_stmt_Inr insert_account_Inr same_account_key_def list_ex_iff)
  obtain old new where "ad_rows db = old @ new" "ar_id ` set old = ar_id ` set R"
    using assms(1) by (rule since_rows)
  with i(2) have "i \<notin> ar_id ` set R" by (metis UnCI imageE set_append)
  with i(1) show ?thesis by blast
qed

lemma since_delete:
  assumes "ac_to_bin env a = Some i" and "i \<notin> ar_id ` set R"
  shows "einv (since R) (delete_account_stmt env a)"
proof -
  have "since R (db\<lparr>ad_rows := filter (\<lambda>r. ar_id r \<noteq> i) (ad_rows db)\<rparr>)" if s: "since R db" for db
  proof -
    obtain old new where r: "ad_rows db = old @ new" "list_all2 row_step R old"
        "\<forall>r \<in> set new. ar_status r = ''PendingKYC''" "ar_id ` set old = ar_id ` set R"
      using s by (rule since_rows)
    have "filter (\<lambda>r. ar_id r \<noteq> i) old = old"
      using assms(2) unfolding r(4) [symmetric] by (intro filter_True) force
    then have "rows_step R (filter (\<lambda>r. ar_id r \<noteq> i) (ad_rows db))"
      unfolding rows_step_def using r by (intro exI [of _ old] exI [of _ "filter (\<lambda>r. ar_id r \<noteq> i) new"]) auto
    with s show ?thesis
      by (auto simp: since_def account_db_wf_def list_all_iff distinct_map inj_on_def)
  qed
  with assms(1) show ?thesis
    by (auto simp: einv_iff delete_account_stmt_def eff_defs to_bin_def)
qed

text \<open>A row of \<open>R\<close> that may be closed; its \<open>UPDATE\<close> is no other step than closing it, also when the row
  is closed already.\<close>

definition closable :: "account_row list \<Rightarrow> id16 \<Rightarrow> bool" where
  "closable R i \<longleftrightarrow> (\<exists>r \<in> set R. ar_id r = i \<and> ar_status r \<in> {''Active'', ''Frozen''})"

lemma since_close:
  assumes "distinct (map ar_id R)" and "ac_to_bin env a = Some i" and "closable R i"
  shows "einv (since R) (close_account_stmt env a t)"
proof -
  let ?f = "\<lambda>r. r\<lparr>ar_status := ''Closed'', ar_closed := Some (ac_to_column env t)\<rparr>"
  have "rows_step R (update_where (\<lambda>r. ar_id r = i) ?f (ad_rows db))" if s: "since R db" for db
  proof -
    obtain old new where r: "ad_rows db = old @ new" "list_all2 row_step R old"
        "\<forall>r \<in> set new. ar_status r = ''PendingKYC''" "ar_id ` set old = ar_id ` set R"
      using s by (rule since_rows)
    have "i \<in> ar_id ` set old"
      using assms(3) unfolding r(4) closable_def by blast
    then have "\<forall>r \<in> set new. ar_id r \<noteq> i"
      using s r(1) by (force simp: since_def account_db_wf_def)
    then have new: "update_where (\<lambda>r. ar_id r = i) ?f new = new"
      by (intro update_where_none) simp
    have "list_all2 row_step R (update_where (\<lambda>r. ar_id r = i) ?f old)"
      unfolding list_all2_conv_all_nth
    proof (intro conjI allI impI)
      show "length R = length (update_where (\<lambda>r. ar_id r = i) ?f old)"
        using r(2) by (simp add: list_all2_lengthD)
      fix n assume n: "n < length R"
      then have st: "row_step (R ! n) (old ! n)" "n < length old"
        using r(2) by (auto simp: list_all2_conv_all_nth)
      show "row_step (R ! n) (update_where (\<lambda>r. ar_id r = i) ?f old ! n)"
      proof (cases "ar_id (old ! n) = i")
        case True
        then have "ar_id (R ! n) = i" using st(1) by (auto simp: row_step_def)
        moreover obtain m where "m < length R" "ar_id (R ! m) = i" "ar_status (R ! m) \<in> {''Active'', ''Frozen''}"
          using assms(3) by (auto simp: closable_def in_set_conv_nth)
        ultimately have "ar_status (R ! n) \<in> {''Active'', ''Frozen''}"
          using assms(1) n by (auto simp: distinct_conv_nth)
        with st True show ?thesis by (auto simp: update_where_def row_step_def)
      next
        case False
        with st show ?thesis by (simp add: update_where_def)
      qed
    qed
    with new show ?thesis
      unfolding rows_step_def using r(1,3)
      by (intro exI [of _ "update_where (\<lambda>r. ar_id r = i) ?f old"] exI [of _ new]) (simp add: update_where_def)
  qed
  then show ?thesis
    using assms(2) close_account_stmt_wf [of env a t]
    by (auto simp: einv_iff since_def close_account_stmt_def eff_defs to_bin_def)
qed

lemma since_read:
  assumes "since R db" and "r \<in> set (ad_rows db)" and "ar_status r \<in> {''Active'', ''Frozen''}"
  shows "closable R (ar_id r)"
proof -
  obtain old new where o: "ad_rows db = old @ new" "list_all2 row_step R old" "\<forall>r \<in> set new. ar_status r = ''PendingKYC''"
    using assms(1) by (auto simp: since_def rows_step_def)
  then have "r \<in> set old" using assms(2,3) by auto
  then obtain n where "n < length R" "row_step (R ! n) r"
    using o(2) by (auto simp: list_all2_conv_all_nth in_set_conv_nth)
  with assms(3) show ?thesis
    unfolding closable_def row_step_def by (intro bexI [of _ "R ! n"]) auto
qed

named_theorems account_calm "programs of the service keep what the table has become"

lemma since_act [account_calm]: "einv (since R) m \<Longrightarrow> account_world.calm R (row_act m)"
  unfolding row_act_def by (rule account_world.calm_patom) (simp, rule einv_db_q)

lemma since_raw: "einv (since R) m \<Longrightarrow> account_world.calm R (patom (on_accounts m))"
  by (rule account_world.calm_patom) (simp, rule einv_on_accounts)

lemma since_other [account_calm]:
  "account_world.calm R (ext_act e)"
  "account_world.calm R (patom (on_cache f))"
  "account_world.calm R (patom (egets g))"
  "account_world.calm R (row_act (sql_fetch x q))"
  unfolding ext_act_def row_act_def
  by (rule account_world.calm_patom, simp, intro einv_on_ext einv_on_cache einv_egets einv_db_q einv_sql_fetch)+

lemma since_seq: "einv (since R) next_account_seq"
  by (auto simp: einv_iff next_account_seq_def since_def account_db_wf_def)

lemma create_calm: "account_world.calm R (create_account_prog env cl io user c)"
proof -
  have finish: "account_world.calm R (finish_create_prog env cl io user c cur n)"
    if "\<exists>i. ac_to_bin env (ac_uuid_show env (ci_id io)) = Some i \<and> i \<notin> ar_id ` set R" for cur n
  proof -
    have "account_world.calm R (patom (on_accounts (sql_exec (ci_delete io)
        (delete_account_stmt env (ac_uuid_show env (ci_id io))))))"
      using that by (auto intro!: since_raw einv_intros since_delete)
    then show ?thesis
      unfolding finish_create_prog_def open_or_compensate_prog_def
      by (intro account_world.calm_rules account_calm)
  qed
  have insert: "account_world.gives R (pmap_err insert_error (patom (on_accounts (sql_exec (ci_insert io)
        (insert_account_stmt env (ac_uuid_show env (ci_id io)) u n cur (ci_db_now io))))))
      (\<lambda>a. \<exists>i. ac_to_bin env (ac_uuid_show env (ci_id io)) = Some i \<and> i \<notin> ar_id ` set R)"
    (is "account_world.gives R (pmap_err insert_error (patom ?m)) ?Q") for u n cur
  proof -
    have "account_world.gives R (patom ?m) ?Q"
    proof (rule account_world.gives_patom)
      show "einv (\<lambda>v. since R (aw_db v) \<and> True) ?m" for u :: "'x account_world"
        by simp (intro einv_on_accounts einv_intros since_insert)
      show "?Q a" if "since R (aw_db w)" "?m w = (Inr a, v)" for w a v
        using that insert_new_id by (auto simp: on_accounts_def ezoom_def sql_exec_Inr split: prod.splits)
    qed
    then show ?thesis by (rule account_world.gives_pmap_err)
  qed
  show ?thesis
    unfolding create_account_prog_def Let_def
    by (intro account_world.calm_rules account_calm einv_intros since_seq
        account_world.calm_bind_gives [OF insert] finish)
qed

lemma fetch_owned_gives:
  "account_world.gives R (fetch_owned_prog env f a user)
    (\<lambda>r. ar_status r \<in> {''Active'', ''Frozen''} \<longrightarrow> (\<exists>i. ac_to_bin env a = Some i \<and> closable R i))"
  unfolding fetch_owned_prog_def
proof (rule account_world.gives_pbind)
  show "account_world.gives R (row_act (sql_fetch f (owned_row env a (us_sub user))))
      (\<lambda>q. \<forall>r. q = Some r \<longrightarrow> ar_status r \<in> {''Active'', ''Frozen''} \<longrightarrow>
        (\<exists>i. ac_to_bin env a = Some i \<and> closable R i))"
    unfolding row_act_def
  proof (rule account_world.gives_patom)
    show "einv (\<lambda>v. since R (aw_db v) \<and> True) (db_q (sql_fetch f (owned_row env a (us_sub user))))"
      for u :: "'x account_world"
      by simp (intro einv_db_q einv_sql_fetch)
  next
    fix w q and v :: "'x account_world"
    assume s: "since R (aw_db w)" and m: "db_q (sql_fetch f (owned_row env a (us_sub user))) w = (Inr q, v)"
    show "\<forall>r. q = Some r \<longrightarrow> ar_status r \<in> {''Active'', ''Frozen''} \<longrightarrow>
        (\<exists>i. ac_to_bin env a = Some i \<and> closable R i)"
    proof (intro allI impI)
      fix r assume r: "q = Some r" "ar_status r \<in> {''Active'', ''Frozen''}"
      have "owned_row env a (us_sub user) (aw_db w) = Inr (Some r)"
        using m r(1) by (auto simp: db_q_Inr sql_fetch_Inr)
      from owned_row_Inr [OF this] since_read [OF s _ r(2)]
      show "\<exists>i. ac_to_bin env a = Some i \<and> closable R i" by blast
    qed
  qed
qed (auto intro: account_world.gives_Done split: option.splits)

lemma close_checks_gives:
  "account_world.gives R (close_checks_prog env cl k s) (\<lambda>x. s \<in> {AccActive, AccFrozen})"
  unfolding close_checks_prog_def
  by (intro account_world.gives_pbind_any account_calm account_world.calm_pguard
      account_world.gives_pbind [where P = "\<lambda>x. s \<in> {AccActive, AccFrozen}"] account_world.gives_Done)
    (auto simp: account_transition_Inr elim!: map_err.elims)

lemma close_prepare_gives:
  "account_world.gives R (close_prepare_prog env cl io user a)
    (\<lambda>ids. \<exists>i. ac_to_bin env a = Some i \<and> closable R i)"
  unfolding close_prepare_prog_def
proof (rule account_world.gives_pbind [OF fetch_owned_gives], rule account_world.gives_pbind)
  fix row assume r: "ar_status row \<in> {''Active'', ''Frozen''} \<longrightarrow> (\<exists>i. ac_to_bin env a = Some i \<and> closable R i)"
  show "account_world.gives R (Done (parse_status (ar_status row)))
      (\<lambda>current. current \<in> {AccActive, AccFrozen} \<longrightarrow> (\<exists>i. ac_to_bin env a = Some i \<and> closable R i))"
    using r by (intro account_world.gives_Done) (auto simp: parse_status_Inr)
next
  fix row current assume c: "current \<in> {AccActive, AccFrozen} \<longrightarrow> (\<exists>i. ac_to_bin env a = Some i \<and> closable R i)"
  show "account_world.gives R (pbind (pguard (current \<noteq> AccClosed) AeAlreadyClosed) (\<lambda>_.
     pbind (Done (ok_or (ac_uuid_parse env a) AeNotFound)) (\<lambda>aid.
     pbind (Done (ok_or (ac_uuid_parse env (us_sub user)) AeUnauthorized)) (\<lambda>uid.
     pbind (close_checks_prog env cl (KovaAccountId aid) current) (\<lambda>_.
     Done (Inr (aid, uid)))))))
    (\<lambda>ids. \<exists>i. ac_to_bin env a = Some i \<and> closable R i)"
  proof (cases "current \<in> {AccActive, AccFrozen}")
    case True
    with c show ?thesis
      by (intro account_world.gives_pbind_any account_world.calm_rules account_calm account_world.gives_Done
          account_world.gives_calm [OF close_checks_gives]) auto
  next
    case False
    then show ?thesis
      by (intro account_world.gives_pbind_any account_world.calm_rules
          account_world.gives_pbind [OF close_checks_gives]) simp
  qed
qed

lemma close_calm:
  assumes "distinct (map ar_id R)"
  shows "account_world.calm R (close_account_prog env cl io user a)"
proof -
  have "account_world.calm R (row_act (sql_exec (cx_update io) (close_account_stmt env a (cx_now io))))"
    if "\<exists>i. ac_to_bin env a = Some i \<and> closable R i"
    using that since_close [OF assms] by (auto intro!: account_calm einv_intros)
  then have "account_world.calm R (close_write_prog env cl io a ids)"
    if "\<exists>i. ac_to_bin env a = Some i \<and> closable R i" for ids
    using that unfolding close_write_prog_def
    by (cases ids) (auto intro!: account_world.calm_pbind account_world.calm_Done since_other)
  then show ?thesis
    unfolding close_account_prog_def
    by (rule account_world.calm_bind_gives [OF close_prepare_gives])
qed

lemma reads_calm:
  "account_world.calm R (list_accounts_prog env tie f u)"
  "account_world.calm R (get_account_prog env f u a)"
  "account_world.calm R (account_balance_prog env cl bio u a)"
  "account_world.calm R (account_statement_prog env cl f u a q)"
  unfolding list_accounts_prog_def get_account_prog_def account_balance_prog_def ask_ledger_prog_def
    account_statement_prog_def fetch_owned_prog_def
  by (intro account_world.calm_rules since_other)+

lemma account_prog_calm:
  assumes "distinct (map ar_id R)"
  shows "account_world.calm R (account_prog env key cl c)"
proof -
  obtain io hs req where c: "c = (io, hs, req)" by (metis prod_cases3)
  have "account_world.calm R (account_handle_prog env cl io u req)" for u
    by (cases req) (simp_all add: create_calm close_calm [OF assms] reads_calm account_world.calm_Done)
  then show ?thesis
    unfolding c account_prog.simps by (intro account_world.calm_rules)
qed

section \<open>Properties\<close>

text \<open>C13: The life of the accounts table under concurrency: any requests, cut at every statement and
  scheduled in any order by any number of replicas, with any faults and with requests that are
  dropped half-way, keep ids, account numbers and the pair of owner and currency unique and every
  row within the schema; of the rows at the start none is ever lost, moved or changed but by
  closing an active or frozen account; and every added row waits for KYC.  So the compensation of a
  creation never deletes another account, whatever runs in between.\<close>

theorem concurrent_account_table:
  assumes "account_db_wf (aw_db w)"
    and "schedule order (map (account_prog env key cl) calls, w) = (ps, w')"
  shows "account_db_wf (aw_db w') \<and>
    (\<exists>old new. ad_rows (aw_db w') = old @ new \<and>
      list_all2 (\<lambda>r q. q = r \<or> ar_status r \<in> {''Active'', ''Frozen''} \<and>
        (\<exists>t. q = r\<lparr>ar_status := ''Closed'', ar_closed := Some t\<rparr>)) (ad_rows (aw_db w)) old \<and>
      (\<forall>r \<in> set new. ar_status r = ''PendingKYC''))"
proof -
  have "since (ad_rows (aw_db w)) (aw_db w) \<and> distinct (map ar_id (ad_rows (aw_db w)))"
    using assms(1) by (simp add: since_def rows_step_refl account_db_wf_def)
  then have start: "since (ad_rows (aw_db w)) (aw_db w)" "distinct (map ar_id (ad_rows (aw_db w)))"
    by simp_all
  have "account_world.calm (ad_rows (aw_db w)) p" if "p \<in> set (map (account_prog env key cl) calls)" for p
    using that account_prog_calm [OF start(2)] by (auto simp del: account_prog.simps)
  from account_world.schedule_calm [OF start(1) this assms(2)]
  have "since (ad_rows (aw_db w)) (aw_db w')" by simp
  then show ?thesis
    by (simp add: since_def rows_step_def row_step_def [abs_def])
qed

theorem concurrent_account_table_witness:
  "account_db_wf (aw_db (snd (schedule [0, 1, 0, 1, 0, 1, 0, 1]
     (map (account_prog demo_account_env ''pem'' stub_clients)
       [(demo_account_io, [(''authorization'', ''Bearer 7'')], AqClose ''3''),
        (demo_account_io, [(''authorization'', ''Bearer 8'')], AqCreate ''GBP'')], demo_active_world))))"
proof -
  obtain ps w' where "schedule [0, 1, 0, 1, 0, 1, 0, 1]
     (map (account_prog demo_account_env ''pem'' stub_clients)
       [(demo_account_io, [(''authorization'', ''Bearer 7'')], AqClose ''3''),
        (demo_account_io, [(''authorization'', ''Bearer 8'')], AqCreate ''GBP'')], demo_active_world) = (ps, w')"
    by force
  from concurrent_account_table [OF demo_active_wf this] this show ?thesis by simp
qed

text \<open>Alone and with other services that only answer and record, a closing that succeeds has read its
  ids without changing anything.\<close>

lemma close_alone:
  assumes "close_account env cl io user a w = (Inr resp, w1)"
    and quiet: "\<And>k x. \<exists>r. cl_pending cl k x = (r, x)" "\<And>k x. \<exists>r. cl_balance cl k x = (r, x)"
  shows "\<exists>ids. solo (close_prepare_prog env cl io user a) w = Some (Inr ids, w) \<and> cx_update io = SqlFine \<and>
    ac_to_bin env a \<noteq> None \<and>
    resp = ok_response 200 (JObj [(''account_id'', JStr a), (''status'', JStr ''Closed''),
       (''closed_at'', JStr (ac_rfc3339 env (cx_now io)))]) (JObj [])"
proof -
  obtain ids v where p: "close_prepare env cl io user a w = (Inr ids, v)"
    using assms(1) by (cases "close_prepare env cl io user a w") (auto simp: close_account_def ebind_def split: sum.splits)
  have "einv (\<lambda>x. x = w) (on_ext (cl_pending cl k))" "einv (\<lambda>x. x = w) (on_ext (cl_balance cl k))" for k
    using quiet by (auto simp: einv_iff on_ext_def ezoom_def split: prod.split) (metis account_world.surjective
        account_world.update_convs(3) old.unit.exhaust snd_conv)+
  then have "einv (\<lambda>x. x = w) (close_prepare env cl io user a)"
    unfolding close_prepare_def close_checks_def by (intro einv_intros fetch_owned_db)
  from einvD [OF this refl p] have "v = w" .
  with p assms(1) show ?thesis
    by (cases ids) (auto simp: close_account_def ebind_Inr implementsD [OF impl_close_prepare] db_q_Inr sql_exec_Inr
        close_account_stmt_def elift_def to_bin_def eret_def split: option.splits)
qed

text \<open>C17: Closing is a race: if each of two requests to close one account would succeed alone, then under
  some schedule both succeed and the closing is published twice: the \<open>UPDATE\<close> does not ask for the
  status that was read.\<close>

theorem concurrent_closes_publish_twice:
  assumes "\<And>k x. \<exists>r. cl_pending cl k x = (r, x)" and "\<And>k x. \<exists>r. cl_balance cl k x = (r, x)"
    and "\<And>t k p x. cl_publish cl t k p x = (Inr (), x @ [(t, k, p)])"
    and "close_account env cl io user a w = (Inr resp, w1)"
    and "close_account env cl jo user2 a w = (Inr resp2, w2)"
  shows "\<exists>order w' ev ev2. schedule order
      ([close_account_prog env cl io user a, close_account_prog env cl jo user2 a], w) =
      ([Done (Inr resp), Done (Inr resp2)], w') \<and>
    aw_ext w' = aw_ext w @ [(''kova.account.closed'', a, ev), (''kova.account.closed'', a, ev2)]"
proof -
  let ?p = "close_account_prog env cl io user a" and ?q = "close_account_prog env cl jo user2 a"
  let ?ev = "\<lambda>io ids. closed_event env io (fst ids) (snd ids)"
  obtain ids where one: "solo (close_prepare_prog env cl io user a) w = Some (Inr ids, w)" "cx_update io = SqlFine"
      "resp = ok_response 200 (JObj [(''account_id'', JStr a), (''status'', JStr ''Closed''),
       (''closed_at'', JStr (ac_rfc3339 env (cx_now io)))]) (JObj [])" and i: "ac_to_bin env a \<noteq> None"
    using close_alone [OF assms(4,1,2)] by blast
  obtain ids2 where two: "solo (close_prepare_prog env cl jo user2 a) w = Some (Inr ids2, w)" "cx_update jo = SqlFine"
      "resp2 = ok_response 200 (JObj [(''account_id'', JStr a), (''status'', JStr ''Closed''),
       (''closed_at'', JStr (ac_rfc3339 env (cx_now jo)))]) (JObj [])"
    using close_alone [OF assms(5,1,2)] by blast
  have rest: "\<exists>d. solo (close_write_prog env cl ko a ids) v = Some (Inr (ok_response 200 (JObj [(''account_id'', JStr a),
      (''status'', JStr ''Closed''), (''closed_at'', JStr (ac_rfc3339 env (cx_now ko)))]) (JObj [])),
      v\<lparr>aw_db := d, aw_ext := aw_ext v @ [(''kova.account.closed'', a, ?ev ko ids)]\<rparr>)"
    if "cx_update ko = SqlFine" for ko ids v
    using i that assms(3)
    by (cases ids) (auto simp: close_write_prog_def solo_pbind row_act_def ext_act_def close_account_stmt_def eff_defs
        db_q_def on_accounts_def on_ext_def to_bin_def account_closed_event_def)
  let ?r = "close_write_prog env cl io a ids" and ?s = "close_write_prog env cl jo a ids2"
  obtain d where d: "solo ?r w = Some (Inr resp, w\<lparr>aw_db := d,
      aw_ext := aw_ext w @ [(''kova.account.closed'', a, ?ev io ids)]\<rparr>)" (is "_ = Some (_, ?v)")
    using rest [OF one(2)] unfolding one(3) by blast
  obtain d2 where d2: "solo ?s ?v = Some (Inr resp2, ?v\<lparr>aw_db := d2,
      aw_ext := aw_ext ?v @ [(''kova.account.closed'', a, ?ev jo ids2)]\<rparr>)" (is "_ = Some (_, ?u)")
    using rest [OF two(2)] unfolding two(3) by blast
  obtain k1 where k1: "schedule (replicate k1 0) ([?p, ?q], w) = ([?r, ?q], w)"
    using schedule_pbind [of 0 "[?p, ?q]", OF _ _ one(1)] by (auto simp: close_account_prog_def)
  obtain k2 where k2: "schedule (replicate k2 1) ([?r, ?q], w) = ([?r, ?s], w)"
    using schedule_pbind [of 1 "[?r, ?q]", OF _ _ two(1)] by (auto simp: close_account_prog_def)
  obtain k3 where k3: "schedule (replicate k3 0) ([?r, ?s], w) = ([Done (Inr resp), ?s], ?v)"
    using schedule_solo [of 0 "[?r, ?s]" ?r w, OF _ _ d] by auto
  obtain k4 where k4: "schedule (replicate k4 1) ([Done (Inr resp), ?s], ?v) = ([Done (Inr resp), Done (Inr resp2)], ?u)"
    using schedule_solo [of 1 "[Done (Inr resp), ?s]" ?s ?v, OF _ _ d2] by auto
  have "schedule (replicate k1 0 @ replicate k2 1 @ replicate k3 0 @ replicate k4 1) ([?p, ?q], w) =
      ([Done (Inr resp), Done (Inr resp2)], ?u)"
    by (simp only: schedule_append k1 k2 k3 k4)
  moreover have "aw_ext ?u = aw_ext w @ [(''kova.account.closed'', a, ?ev io ids), (''kova.account.closed'', a, ?ev jo ids2)]"
    by simp
  ultimately show ?thesis by blast
qed

definition logging_clients :: "(string \<times> string \<times> json) list account_clients" where
  "logging_clients = stub_clients\<lparr>cl_publish := (\<lambda>t k p x. (Inr (), x @ [(t, k, p)]))\<rparr>"

definition demo_logged_world :: "(string \<times> string \<times> json) list account_world" where
  "demo_logged_world = \<lparr>aw_db = aw_db demo_active_world, aw_redis = redis_empty, aw_ext = []\<rparr>"

theorem concurrent_closes_publish_twice_witness:
  "\<exists>order w' resp ev ev2. schedule order
      ([close_account_prog demo_account_env logging_clients demo_close_io demo_user ''3'',
        close_account_prog demo_account_env logging_clients demo_close_io demo_user ''3''], demo_logged_world) =
      ([Done (Inr resp), Done (Inr resp)], w') \<and>
    aw_ext w' = [(''kova.account.closed'', ''3'', ev), (''kova.account.closed'', ''3'', ev2)]"
proof -
  have rd: "read_nat ''7'' = 7" "read_nat ''3'' = 3" by (simp_all add: read_nat_def digit_val_def)
  have "\<exists>resp w'. close_account demo_account_env logging_clients demo_close_io demo_user ''3'' demo_logged_world = (Inr resp, w')"
    by (simp add: close_account_def close_prepare_def close_checks_def fetch_owned_def owned_row_def
        close_account_stmt_def eff_defs db_q_def on_accounts_def on_ext_def to_bin_def parse_status_def
        demo_account_env_def demo_close_io_def demo_active_world_def demo_logged_world_def logging_clients_def
        stub_clients_def rd dec_is_zero_def dec_zero_def account_transition_def Let_def)
  then obtain resp w' where run: "close_account demo_account_env logging_clients demo_close_io demo_user ''3''
      demo_logged_world = (Inr resp, w')" by blast
  have "\<exists>r. cl_pending logging_clients k x = (r, x)" "\<exists>r. cl_balance logging_clients k x = (r, x)"
    "cl_publish logging_clients t j p x = (Inr (), x @ [(t, j, p)])" for k x t j p
    by (simp_all add: logging_clients_def stub_clients_def eret_def)
  from concurrent_closes_publish_twice [OF this run run] show ?thesis
    by (auto simp: demo_logged_world_def)
qed

end
