(* ===== verification/Ledger_Programs.thy ===== *)
theory Ledger_Programs
  imports Ledger_Pipeline Interleave
begin

text \<open>
  \<open>post_entry\<close> and \<open>process_batch\<close> of \<open>services/kova-ledger\<close> cut at their awaits.  A transaction runs
  on a connection of its own, a number, and the engine keeps for each connection what its open
  transaction has written and locked: rows inserted, rows locked by \<open>FOR UPDATE\<close>, rows marked as
  published.  All of it becomes visible with the commit and is gone with a rollback.

  An insert that meets a committed row on a unique index is refused at once; one that meets an
  uncommitted row waits for that transaction to end, up to a number of turns (\<open>patience\<close>), then fails
  with the engine's timeout.  \<open>SKIP LOCKED\<close> does not wait.  A transaction that is dropped is rolled
  back before anything else runs on its connection.
\<close>

section \<open>Transactions\<close>

record 'k ledger_world =
  lw_db :: ledger_db
  lw_new :: "(nat \<times> ledger_entry) list"
  lw_out :: "(nat \<times> outbox_row) list"
  lw_locked :: "(nat \<times> id16) list"
  lw_marked :: "(nat \<times> id16 \<times> int) list"
  lw_pub :: 'k

definition own :: "nat \<Rightarrow> (nat \<times> 'a) list \<Rightarrow> 'a list" where
  "own c xs = map snd (filter (\<lambda>x. fst x = c) xs)"

definition others :: "nat \<Rightarrow> (nat \<times> 'a) list \<Rightarrow> (nat \<times> 'a) list" where
  "others c xs = filter (\<lambda>x. fst x \<noteq> c) xs"

definition mark_rows :: "(id16 \<times> int) list \<Rightarrow> outbox_row list \<Rightarrow> outbox_row list" where
  "mark_rows ms = map (\<lambda>r. case map_of ms (ob_id r) of None \<Rightarrow> r | Some t \<Rightarrow> r\<lparr>ob_published := Some t\<rparr>)"

definition rollback_tx :: "nat \<Rightarrow> 'k ledger_world \<Rightarrow> 'k ledger_world" where
  "rollback_tx c w = w\<lparr>lw_new := others c (lw_new w), lw_out := others c (lw_out w),
     lw_locked := others c (lw_locked w), lw_marked := others c (lw_marked w)\<rparr>"

definition commit_tx :: "nat \<Rightarrow> 'k ledger_world \<Rightarrow> 'k ledger_world" where
  "commit_tx c w = (rollback_tx c w)\<lparr>lw_db := (lw_db w)\<lparr>
     entries := entries (lw_db w) @ own c (lw_new w),
     outbox := mark_rows (own c (lw_marked w)) (outbox (lw_db w)) @ own c (lw_out w)\<rparr>\<rparr>"

definition tx_begin :: "sqlx_error option \<Rightarrow> (sqlx_error, unit, 'k ledger_world) eff" where
  "tx_begin fault w = (case fault of Some e \<Rightarrow> Inl e | None \<Rightarrow> Inr (), w)"

definition tx_commit :: "nat \<Rightarrow> commit_outcome \<Rightarrow> (sqlx_error, unit, 'k ledger_world) eff" where
  "tx_commit c outcome w =
     (case outcome of
        CommitDone \<Rightarrow> (Inr (), commit_tx c w)
      | CommitRefused e \<Rightarrow> (Inl e, rollback_tx c w)
      | CommitLost e \<Rightarrow> (Inl e, commit_tx c w))"

definition rollback_prog :: "nat \<Rightarrow> (sqlx_error, unit, 'k ledger_world) prog" where
  "rollback_prog c = patom (\<lambda>w. (Inr (), rollback_tx c w))"

primrec lock_wait ::
  "('w \<Rightarrow> bool) \<Rightarrow> (sqlx_error, 'a, 'w) eff \<Rightarrow> nat \<Rightarrow> (sqlx_error, 'a, 'w) prog" where
  "lock_wait busy m 0 =
     patom (\<lambda>w. if busy w then (Inl (SqlxOther ''Lock wait timeout exceeded''), w) else m w)"
| "lock_wait busy m (Suc n) =
     Act (\<lambda>w. if busy w then (lock_wait busy m n, w) else map_prod Done id (m w))"

section \<open>Posting\<close>

definition insert_busy ::
  "ledger_env \<Rightarrow> post_io \<Rightarrow> post_params \<Rightarrow> string \<Rightarrow> 'k ledger_world \<Rightarrow> bool" where
  "insert_busy env io p hash w =
     (case insert_ledger_entry env p hash (io_entry_id io) (io_now io) (entries (lw_db w)) of
        Inl e \<Rightarrow> False
      | Inr row \<Rightarrow> list_ex (\<lambda>(d, e). le_id e = io_entry_id io \<or>
          lv_coll env (le_key e) = lv_coll env (pp_key p)) (lw_new w))"

definition post_insert ::
  "nat \<Rightarrow> ledger_env \<Rightarrow> post_io \<Rightarrow> post_params \<Rightarrow> string \<Rightarrow> (sqlx_error, unit, 'k ledger_world) eff" where
  "post_insert c env io p hash w =
     (case (case io_insert io of
              Some e \<Rightarrow> Inl e
            | None \<Rightarrow> insert_ledger_entry env p hash (io_entry_id io) (io_now io) (entries (lw_db w))) of
        Inl e \<Rightarrow> (Inl e, w)
      | Inr row \<Rightarrow> (Inr (), w\<lparr>lw_new := lw_new w @ [(c, row)]\<rparr>))"

definition outbox_busy :: "post_io \<Rightarrow> 'k ledger_world \<Rightarrow> bool" where
  "outbox_busy io w \<longleftrightarrow> list_ex (\<lambda>(d, r). ob_id r = io_outbox_id io) (lw_out w)"

definition post_outbox ::
  "nat \<Rightarrow> ledger_env \<Rightarrow> post_io \<Rightarrow> post_params \<Rightarrow> (sqlx_error, unit, 'k ledger_world) eff" where
  "post_outbox c env io p w =
     (case (case io_outbox io of
              Some e \<Rightarrow> Inl e
            | None \<Rightarrow> insert_outbox (io_outbox_id io) (io_entry_id io)
                (outbox_payload env (io_entry_id io) p) (io_server_now io) (outbox (lw_db w))) of
        Inl e \<Rightarrow> (Inl e, w)
      | Inr row \<Rightarrow> (Inr (), w\<lparr>lw_out := lw_out w @ [(c, row)]\<rparr>))"

definition post_commit_prog ::
  "nat \<Rightarrow> ledger_env \<Rightarrow> nat \<Rightarrow> post_io \<Rightarrow> post_params
    \<Rightarrow> (ledger_error, post_result, 'k ledger_world) prog" where
  "post_commit_prog c env patience io p =
     ptry (lock_wait (outbox_busy io) (post_outbox c env io p) patience) (\<lambda>r.
       case r of
         Inl e \<Rightarrow> ptry (rollback_prog c) (\<lambda>_. Done (Inl (LDatabase e)))
       | Inr _ \<Rightarrow> ptry (patom (tx_commit c (io_commit io))) (\<lambda>r. Done (case r of
            Inl e \<Rightarrow> Inl (LDatabase e)
          | Inr _ \<Rightarrow> Inr \<lparr>pr_entry = io_entry_id io, pr_was_idempotent = False, pr_created = io_now io\<rparr>)))"

definition post_read_prog ::
  "ledger_env \<Rightarrow> post_io \<Rightarrow> post_params \<Rightarrow> string \<Rightarrow> (ledger_error, post_result, 'k ledger_world) prog" where
  "post_read_prog env io p hash = patom (\<lambda>w. (post_duplicate env io p hash (lw_db w), w))"

definition post_insert_prog ::
  "nat \<Rightarrow> ledger_env \<Rightarrow> nat \<Rightarrow> post_io \<Rightarrow> post_params
    \<Rightarrow> (ledger_error, post_result, 'k ledger_world) prog" where
  "post_insert_prog c env patience io p =
     (let hash = compute_payload_hash env (pp_debit p) (pp_credit p) (pp_amount p) (pp_currency p)
      in ptry (lock_wait (insert_busy env io p hash) (post_insert c env io p hash) patience) (\<lambda>r.
         case r of
           Inr _ \<Rightarrow> post_commit_prog c env patience io p
         | Inl e \<Rightarrow> ptry (rollback_prog c) (\<lambda>_.
             if e = UniqueViolation then post_read_prog env io p hash
             else Done (Inl (LDatabase e)))))"

definition post_entry_prog ::
  "nat \<Rightarrow> ledger_env \<Rightarrow> nat \<Rightarrow> post_io \<Rightarrow> post_params
    \<Rightarrow> (ledger_error, post_result, 'k ledger_world) prog" where
  "post_entry_prog c env patience io p =
     (case post_guard p of
        Some e \<Rightarrow> Done (Inl e)
      | None \<Rightarrow>
        pbind (pmap_err LDatabase (patom (tx_begin (io_begin io)))) (\<lambda>_.
        post_insert_prog c env patience io p))"

section \<open>A round of the outbox worker\<close>

text \<open>The rows another connection has locked are skipped.\<close>

definition locked_io :: "batch_io \<Rightarrow> 'k ledger_world \<Rightarrow> batch_io" where
  "locked_io io w = io\<lparr>bi_locked := (\<lambda>i. list_ex (\<lambda>l. snd l = i) (lw_locked w))\<rparr>"

definition round_select ::
  "nat \<Rightarrow> batch_io \<Rightarrow> (batch_error, outbox_row list, 'k ledger_world) eff" where
  "round_select c io w =
     (case bi_select io of
        Some e \<Rightarrow> (Inl (BatchDb e), w)
      | None \<Rightarrow>
        (let rows = batch_rows (locked_io io w) (outbox (lw_db w))
         in (Inr rows, w\<lparr>lw_locked := lw_locked w @ map (\<lambda>r. (c, ob_id r)) rows\<rparr>)))"

definition round_publish ::
  "ledger_env \<Rightarrow> 'k publisher \<Rightarrow> outbox_row \<Rightarrow> (batch_error, unit, 'k ledger_world) eff" where
  "round_publish env publish r w =
     (case publish (ob_topic r) (lv_hex env (id_bytes (ob_entry r))) (ob_payload r) (lw_pub w) of
        (q, k) \<Rightarrow> (map_err BatchPublish q, w\<lparr>lw_pub := k\<rparr>))"

definition round_mark :: "nat \<Rightarrow> batch_io \<Rightarrow> outbox_row \<Rightarrow> (batch_error, unit, 'k ledger_world) eff" where
  "round_mark c io r w =
     (case bi_update io (ob_id r) of
        Some e \<Rightarrow> (Inl (BatchDb e), w)
      | None \<Rightarrow> (Inr (), w\<lparr>lw_marked := lw_marked w @ [(c, ob_id r, bi_now io)]\<rparr>))"

primrec round_rows_prog ::
  "nat \<Rightarrow> ledger_env \<Rightarrow> 'k publisher \<Rightarrow> batch_io \<Rightarrow> outbox_row list
    \<Rightarrow> (batch_error, unit, 'k ledger_world) prog" where
  "round_rows_prog c env publish io [] = Done (Inr ())"
| "round_rows_prog c env publish io (r # rs) =
     pbind (patom (round_publish env publish r)) (\<lambda>_.
     pbind (patom (round_mark c io r)) (\<lambda>_.
     round_rows_prog c env publish io rs))"

definition round_body_prog ::
  "nat \<Rightarrow> ledger_env \<Rightarrow> 'k publisher \<Rightarrow> batch_io \<Rightarrow> (batch_error, nat, 'k ledger_world) prog" where
  "round_body_prog c env publish io =
     pbind (pmap_err BatchDb (patom (tx_begin (bi_begin io)))) (\<lambda>_.
     pbind (patom (round_select c io)) (\<lambda>rows.
     if rows = [] then ptry (rollback_prog c) (\<lambda>_. Done (Inr 0))
     else pbind (round_rows_prog c env publish io rows) (\<lambda>_.
          pbind (pmap_err BatchDb (patom (tx_commit c (bi_commit io)))) (\<lambda>_.
          Done (Inr (length rows))))))"

definition round_prog ::
  "nat \<Rightarrow> ledger_env \<Rightarrow> 'k publisher \<Rightarrow> batch_io \<Rightarrow> (batch_error, nat, 'k ledger_world) prog" where
  "round_prog c env publish io =
     ptry (round_body_prog c env publish io) (\<lambda>r.
       case r of
         Inr n \<Rightarrow> Done (Inr n)
       | Inl e \<Rightarrow> ptry (rollback_prog c) (\<lambda>_. Done (Inl e)))"

text \<open>The worker of one replica, for a number of rounds: what it slept after each.\<close>

primrec worker_prog ::
  "nat \<Rightarrow> ledger_env \<Rightarrow> 'k publisher \<Rightarrow> batch_io list \<Rightarrow> 32 word
    \<Rightarrow> ('e, nat list, 'k ledger_world) prog" where
  "worker_prog c env publish [] errs = Done (Inr [])"
| "worker_prog c env publish (io # ios) errs =
     ptry (round_prog c env publish io) (\<lambda>r.
       case worker_after r errs of
         (errs', slept) \<Rightarrow>
           pbind (worker_prog c env publish ios errs') (\<lambda>ss. Done (Inr (slept # ss))))"

text \<open>The jobs of the ledger's replicas, each on its connection.\<close>

datatype ledger_job = PostCall post_io post_params | OutboxWorker "batch_io list"

datatype ledger_reply = PostReply "ledger_error + post_result" | WorkerSlept "nat list"

definition job_prog ::
  "nat \<Rightarrow> ledger_env \<Rightarrow> 'k publisher \<Rightarrow> nat \<Rightarrow> ledger_job \<Rightarrow> (unit, ledger_reply, 'k ledger_world) prog" where
  "job_prog c env publish patience job =
     (case job of
        PostCall io p \<Rightarrow> ptry (post_entry_prog c env patience io p) (\<lambda>r. Done (Inr (PostReply r)))
      | OutboxWorker ios \<Rightarrow> pbind (worker_prog c env publish ios 0) (\<lambda>ss. Done (Inr (WorkerSlept ss))))"

definition job_pool ::
  "ledger_env \<Rightarrow> 'k publisher \<Rightarrow> nat \<Rightarrow> ledger_job list \<Rightarrow> (unit, ledger_reply, 'k ledger_world) prog list" where
  "job_pool env publish patience jobs =
     map (\<lambda>c. job_prog c env publish patience (jobs ! c)) [0 ..< length jobs]"

text \<open>No transaction is open.\<close>

definition quiet :: "ledger_db \<Rightarrow> 'k \<Rightarrow> 'k ledger_world" where
  "quiet db k = \<lparr>lw_db = db, lw_new = [], lw_out = [], lw_locked = [], lw_marked = [], lw_pub = k\<rparr>"

section \<open>Lemmas\<close>

lemma own_simps [simp]:
  "own c [] = []" "own c (xs @ ys) = own c xs @ own c ys" "own c ((d, x) # xs) = (if d = c then x # own c xs else own c xs)"
  "own c (others d xs) = (if d = c then [] else own c xs)"
  "own c (map (\<lambda>z. (d, f z)) zs) = (if d = c then map f zs else [])"
  by (auto simp: own_def others_def filter_map comp_def intro: arg_cong [where f = "map snd"] filter_cong)

lemma others_simps [simp]:
  "others c [] = []" "others c (xs @ ys) = others c xs @ others c ys" "others c ((d, x) # xs) = (if d = c then others c xs else (d, x) # others c xs)"
  "others c (map (\<lambda>z. (c, f z)) zs) = []"
  by (auto simp: others_def filter_map comp_def)

lemma others_none: "own c xs = [] \<Longrightarrow> others c xs = xs"
  by (induction xs) (auto split: if_splits)

lemma mark_rows_same: "mark_rows (map (\<lambda>i. (i, now)) ids) obs = mark_published now ids obs"
proof -
  have "map_of (map (\<lambda>i. (i, now)) ids) i = (if i \<in> set ids then Some now else None)" for i :: id16
    by (induction ids) auto
  then show ?thesis
    by (auto simp: mark_rows_def mark_published_def update_where_def)
qed

lemma mark_rows_Nil [simp]: "mark_rows [] obs = obs"
  by (simp add: mark_rows_def)

lemma lock_wait_numeral [simp]:
  "lock_wait busy m (numeral k) =
    Act (\<lambda>w. if busy w then (lock_wait busy m (pred_numeral k), w) else map_prod Done id (m w))"
  by (simp add: numeral_eq_Suc)

lemma solo_lock_wait: "\<not> busy w \<Longrightarrow> solo (lock_wait busy m n) w = Some (m w)"
  by (cases n; cases "m w") (simp_all add: patom_def)

text \<open>No transaction is open on a connection.\<close>

definition idle :: "nat \<Rightarrow> 'k ledger_world \<Rightarrow> bool" where
  "idle c w \<longleftrightarrow> own c (lw_new w) = [] \<and> own c (lw_out w) = [] \<and> own c (lw_locked w) = [] \<and> own c (lw_marked w) = []"

lemma rollback_idle: "idle c w \<Longrightarrow> rollback_tx c w = w"
  by (simp add: rollback_tx_def idle_def others_none)

lemma idle_after [simp]: "idle c (rollback_tx c w)" "idle c (commit_tx c w)"
  by (simp_all add: idle_def rollback_tx_def commit_tx_def)

section \<open>Alone\<close>

lemma solo_rollback: "solo (rollback_prog c) w = Some (Inr (), rollback_tx c w)"
  by (simp add: rollback_prog_def)

lemma solo_pmap_err:
  "solo (pmap_err g p) w = (case solo p w of None \<Rightarrow> None | Some (r, w') \<Rightarrow> Some (map_err g r, w'))"
  by (simp add: pmap_err_def solo_ptry split: option.split prod.split)

lemmas solo_simps = solo_ptry solo_pbind solo_rollback solo_pmap_err

lemma post_entry_prog_alone:
  assumes "lw_new w = []" and "lw_out w = []" and "idle c w"
  shows "solo (post_entry_prog c env patience io p) w =
    (case post_entry env io p (lw_db w) of (r, db') \<Rightarrow> Some (r, w\<lparr>lw_db := db'\<rparr>))"
proof -
  note defs = post_entry_prog_def post_insert_prog_def post_commit_prog_def post_read_prog_def
    post_entry_def post_commit_def post_insert_def post_outbox_def tx_begin_def
  have free: "\<not> insert_busy env io p h w" "\<not> outbox_busy io (w\<lparr>lw_new := xs\<rparr>)" for h xs
    using assms(1,2) by (simp_all add: insert_busy_def outbox_busy_def split: sum.split)
  have undo: "rollback_tx c (w\<lparr>lw_new := [(c, row)]\<rparr>) = w" "rollback_tx c w = w" for row
    using assms by (simp_all add: rollback_tx_def idle_def others_none)
  have fin: "rollback_tx c (w\<lparr>lw_new := [(c, row)], lw_out := [(c, o_row)]\<rparr>) = w"
    "commit_tx c (w\<lparr>lw_new := [(c, row)], lw_out := [(c, o_row)]\<rparr>) =
       w\<lparr>lw_db := (lw_db w)\<lparr>entries := entries (lw_db w) @ [row], outbox := outbox (lw_db w) @ [o_row]\<rparr>\<rparr>" for row o_row
    using assms by (simp_all add: commit_tx_def rollback_tx_def idle_def others_none)
  show ?thesis
    using assms(1,2)
    by (auto simp: defs solo_simps solo_lock_wait [of "insert_busy env io p h" for h, OF free(1)]
        solo_lock_wait [of "outbox_busy io", OF free(2)] undo fin tx_commit_def Let_def
        split: option.splits sum.splits prod.splits commit_outcome.splits sqlx_error.splits)
qed

lemma round_rows_alone:
  "\<exists>ms. solo (round_rows_prog c env publish io rs) w =
    (case publish_rows env publish (bi_update io) rs m (lw_pub w) of
       (Inl e, k) \<Rightarrow> Some (Inl e, w\<lparr>lw_pub := k, lw_marked := lw_marked w @ map (\<lambda>x. (c, x)) ms\<rparr>)
     | (Inr ids, k) \<Rightarrow> Some (Inr (), w\<lparr>lw_pub := k,
         lw_marked := lw_marked w @ map (\<lambda>r. (c, ob_id r, bi_now io)) rs\<rparr>))"
proof (induction rs arbitrary: m w)
  case Nil
  show ?case by simp
next
  case (Cons r rs)
  obtain q k where k: "publish (ob_topic r) (lv_hex env (id_bytes (ob_entry r))) (ob_payload r) (lw_pub w) = (q, k)"
    by force
  let ?v = "w\<lparr>lw_pub := k, lw_marked := lw_marked w @ [(c, ob_id r, bi_now io)]\<rparr>"
  obtain ms where ms: "solo (round_rows_prog c env publish io rs) ?v =
      (case publish_rows env publish (bi_update io) rs (m @ [ob_id r]) (lw_pub ?v) of
         (Inl e, k) \<Rightarrow> Some (Inl e, ?v\<lparr>lw_pub := k, lw_marked := lw_marked ?v @ map (\<lambda>x. (c, x)) ms\<rparr>)
       | (Inr ids, k) \<Rightarrow> Some (Inr (), ?v\<lparr>lw_pub := k,
           lw_marked := lw_marked ?v @ map (\<lambda>r. (c, ob_id r, bi_now io)) rs\<rparr>))"
    using Cons by blast
  show ?case
  proof (cases "q = Inr () \<and> bi_update io (ob_id r) = None")
    case True
    then show ?thesis
      using k ms
      by (intro exI [of _ "(ob_id r, bi_now io) # ms"])
        (auto simp: solo_simps round_publish_def round_mark_def split: prod.splits sum.splits)
  next
    case False
    then show ?thesis
      using k
      by (intro exI [of _ "[]"])
        (auto simp: solo_simps round_publish_def round_mark_def split: sum.splits option.splits)
  qed
qed

lemma publish_rows_ids:
  "publish_rows env publish upd rs m k = (Inr ids, k') \<Longrightarrow> ids = m @ map ob_id rs"
proof (induction rs arbitrary: m k)
  case (Cons r rs)
  then obtain k2 where "publish_rows env publish upd rs (m @ [ob_id r]) k2 = (Inr ids, k')"
    by (auto split: prod.splits sum.splits option.splits)
  from Cons.IH [OF this] show ?case by simp
qed simp

lemma round_prog_alone:
  assumes "idle c w"
  shows "solo (round_prog c env publish io) w =
    (case process_batch env publish (locked_io io w) (lw_db w) (lw_pub w) of
       (r, db', k) \<Rightarrow> Some (r, w\<lparr>lw_db := db', lw_pub := k\<rparr>))"
proof -
  let ?rows = "batch_rows (locked_io io w) (outbox (lw_db w))"
  let ?v = "w\<lparr>lw_locked := lw_locked w @ map (\<lambda>r. (c, ob_id r)) ?rows\<rparr>"
  have io: "bi_begin (locked_io io w) = bi_begin io" "bi_select (locked_io io w) = bi_select io"
    "bi_update (locked_io io w) = bi_update io" "bi_commit (locked_io io w) = bi_commit io"
    "bi_now (locked_io io w) = bi_now io"
    by (simp_all add: locked_io_def)
  have ids: "others c (lw_new w) = lw_new w" "others c (lw_out w) = lw_out w"
    "others c (lw_locked w) = lw_locked w" "others c (lw_marked w) = lw_marked w" "own c (lw_marked w) = []"
    "own c (lw_new w) = []" "own c (lw_out w) = []"
    using assms by (simp_all add: idle_def others_none)
  obtain ms where ms: "solo (round_rows_prog c env publish io ?rows) ?v =
    (case publish_rows env publish (bi_update io) ?rows [] (lw_pub ?v) of
       (Inl e, k) \<Rightarrow> Some (Inl e, ?v\<lparr>lw_pub := k, lw_marked := lw_marked ?v @ map (\<lambda>x. (c, x)) ms\<rparr>)
     | (Inr ids, k) \<Rightarrow> Some (Inr (), ?v\<lparr>lw_pub := k,
         lw_marked := lw_marked ?v @ map (\<lambda>r. (c, ob_id r, bi_now io)) ?rows\<rparr>))"
    using round_rows_alone [of c env publish io ?rows ?v "[]"] by blast
  have others_map: "others c (map (\<lambda>x. (c, x)) ms) = []"
    by (simp add: others_def filter_map comp_def)
  note ids_eq = publish_rows_ids [of env publish "bi_update io" ?rows "[]", unfolded append_Nil]
  have marks: "mark_rows (map (\<lambda>r. (ob_id r, bi_now io)) ?rows) obs = mark_published (bi_now io) (map ob_id ?rows) obs" for obs
    using mark_rows_same [of "bi_now io" "map ob_id ?rows" obs] by (simp add: comp_def)
  show ?thesis
    unfolding round_prog_def round_body_prog_def process_batch_def io
    by (auto simp: solo_simps tx_begin_def round_select_def ms tx_commit_def rollback_tx_def commit_tx_def ids
        others_map marks Let_def dest!: ids_eq
        split: option.splits sum.splits prod.splits commit_outcome.splits)
qed

lemma locked_io_quiet: "lw_locked w = [] \<Longrightarrow> locked_io io w = io\<lparr>bi_locked := (\<lambda>i. False)\<rparr>"
  by (simp add: locked_io_def)

lemma worker_prog_alone:
  assumes "idle c w" and "lw_locked w = []"
  shows "solo (worker_prog c env publish ios errs) w =
    (case run_outbox_worker env publish (map (bi_locked_update (\<lambda>_ i. False)) ios) errs (lw_db w) (lw_pub w) of
       (ss, db', k) \<Rightarrow> Some (Inr ss, w\<lparr>lw_db := db', lw_pub := k\<rparr>))"
  using assms
proof (induction ios arbitrary: errs w)
  case (Cons io ios)
  let ?io = "io\<lparr>bi_locked := (\<lambda>i. False)\<rparr>"
  obtain r db k where r: "process_batch env publish ?io (lw_db w) (lw_pub w) = (r, db, k)" by (metis prod_cases3)
  obtain errs' s where a: "worker_after r errs = (errs', s)" by force
  let ?v = "w\<lparr>lw_db := db, lw_pub := k\<rparr>"
  have v: "idle c ?v" "lw_locked ?v = []" using Cons.prems by (simp_all add: idle_def)
  have one: "solo (round_prog c env publish io) w = Some (r, ?v)"
    using round_prog_alone [OF Cons.prems(1), of env publish io] r by (simp add: locked_io_quiet [OF Cons.prems(2)])
  show ?case
    using Cons.IH [OF v, of errs'] one a r
    by (auto simp: solo_simps split: prod.splits)
qed simp

end
