(* ===== verification/Ledger_Concurrent.thy ===== *)
theory Ledger_Concurrent
  imports Ledger_Programs
begin

text \<open>
  Callers of \<open>post_entry\<close> and outbox workers of several replicas of \<open>services/kova-ledger\<close> running at
  the same time, statement by statement, over one database and one broker.  A transaction on a
  connection owns the rows it has not committed and the rows it has locked or marked; \<open>ledger_rely\<close>
  is what the others leave as it is.
\<close>

section \<open>What holds between any two statements\<close>

text \<open>A row is only ever marked.\<close>

definition same_core :: "outbox_row \<Rightarrow> outbox_row \<Rightarrow> bool" where
  "same_core r r' \<longleftrightarrow> ob_id r' = ob_id r \<and> ob_entry r' = ob_entry r \<and> ob_topic r' = ob_topic r \<and>
     ob_payload r' = ob_payload r"

definition kept_rows :: "outbox_row list \<Rightarrow> outbox_row list \<Rightarrow> bool" where
  "kept_rows obs obs' \<longleftrightarrow> (\<forall>r \<in> set obs. \<exists>r' \<in> set obs'. same_core r r' \<and>
     (ob_published r \<noteq> None \<longrightarrow> ob_published r' \<noteq> None))"

definition ledger_grows :: "kafka_world ledger_world \<Rightarrow> kafka_world ledger_world \<Rightarrow> bool" where
  "ledger_grows u v \<longleftrightarrow> prefix (entries (lw_db u)) (entries (lw_db v)) \<and>
     kept_rows (outbox (lw_db u)) (outbox (lw_db v)) \<and>
     set (kw_log (lw_pub u)) \<subseteq> set (kw_log (lw_pub v))"

definition same_own :: "nat \<Rightarrow> 'k ledger_world \<Rightarrow> 'k ledger_world \<Rightarrow> bool" where
  "same_own c u v \<longleftrightarrow> own c (lw_new v) = own c (lw_new u) \<and> own c (lw_out v) = own c (lw_out u) \<and>
     own c (lw_locked v) = own c (lw_locked u) \<and> own c (lw_marked v) = own c (lw_marked u)"

definition ledger_rely :: "nat \<Rightarrow> kafka_world ledger_world \<Rightarrow> kafka_world ledger_world \<Rightarrow> bool" where
  "ledger_rely c u v \<longleftrightarrow> ledger_grows u v \<and> same_own c u v"

definition ledger_guar :: "nat \<Rightarrow> kafka_world ledger_world \<Rightarrow> kafka_world ledger_world \<Rightarrow> bool" where
  "ledger_guar c u v \<longleftrightarrow> ledger_grows u v \<and> (\<forall>d. d \<noteq> c \<longrightarrow> same_own d u v)"

text \<open>No two rows, committed or not, have one key.\<close>

definition one_key :: "('a \<Rightarrow> 'b) \<Rightarrow> 'a list \<Rightarrow> (nat \<times> 'a) list \<Rightarrow> bool" where
  "one_key f rows new \<longleftrightarrow> distinct (map f (rows @ map snd new))"

definition ledger_ok ::
  "ledger_env \<Rightarrow> (json \<Rightarrow> string + byte list) \<Rightarrow> kafka_world ledger_world \<Rightarrow> bool" where
  "ledger_ok env to_vec w \<longleftrightarrow>
     pipeline_inv env to_vec (lw_db w, lw_pub w) \<and>
     one_key le_id (entries (lw_db w)) (lw_new w) \<and>
     one_key (\<lambda>e. lv_coll env (le_key e)) (entries (lw_db w)) (lw_new w) \<and>
     (\<forall>x \<in> set (lw_new w). entry_wf (snd x) \<and> hashed (snd x)) \<and>
     one_key ob_id (outbox (lw_db w)) (lw_out w) \<and>
     (\<forall>x \<in> set (lw_out w). ob_topic (snd x) = entry_topic \<and> ob_published (snd x) = None)"

lemma same_core_refl [simp]: "same_core r r"
  by (simp add: same_core_def)

lemma same_core_trans: "same_core a b \<Longrightarrow> same_core b c \<Longrightarrow> same_core a c"
  by (simp add: same_core_def)

lemma kept_rows_refl [simp]: "kept_rows obs obs"
  unfolding kept_rows_def using same_core_refl by blast

lemma kept_rows_trans: "kept_rows a b \<Longrightarrow> kept_rows b c \<Longrightarrow> kept_rows a c"
  unfolding kept_rows_def using same_core_trans by blast

lemma kept_rows_append [simp]: "kept_rows obs (obs @ new)"
  unfolding kept_rows_def using same_core_refl by fastforce

lemma kept_rows_mark: "kept_rows obs (mark_rows ms obs)"
proof -
  have "\<exists>r' \<in> set (mark_rows ms obs). same_core r r' \<and> (ob_published r \<noteq> None \<longrightarrow> ob_published r' \<noteq> None)"
    if "r \<in> set obs" for r
    using that unfolding mark_rows_def set_map
    by (intro bexI [OF _ imageI [OF that]]) (auto simp: same_core_def split: option.split)
  then show ?thesis by (simp add: kept_rows_def)
qed

lemma ledger_grows_refl [simp]: "ledger_grows w w"
  by (simp add: ledger_grows_def)

lemma ledger_grows_trans: "ledger_grows u v \<Longrightarrow> ledger_grows v w \<Longrightarrow> ledger_grows u w"
  unfolding ledger_grows_def using kept_rows_trans prefix_order.trans by blast

lemma same_own_refl [simp]: "same_own c w w"
  by (simp add: same_own_def)

lemma rely_guar_refl [simp]: "ledger_rely c w w" "ledger_guar c w w"
  by (simp_all add: ledger_rely_def ledger_guar_def)

interpretation shared_ledger: owned_world "ledger_ok env to_vec" ledger_rely ledger_guar ledger_grows
  for env to_vec
proof (intro owned_world.intro rely_guarantee.intro)
  show "ledger_rely c u w" if "ledger_rely c u v" "ledger_rely c v w" for c u v w
    using that ledger_grows_trans by (auto simp: ledger_rely_def same_own_def)
  show "ledger_grows u w" if "ledger_grows u v" "ledger_grows v w" for u v w
    using that by (rule ledger_grows_trans)
qed (auto simp: ledger_rely_def ledger_guar_def)

text \<open>Waiting for a lock.\<close>

context rely_guarantee
begin

lemma safe_lock_wait:
  assumes "\<And>v r v'. ok v \<Longrightarrow> rely w v \<Longrightarrow> \<not> busy v \<Longrightarrow> m v = (r, v') \<Longrightarrow>
      ok v' \<and> guar v v' \<and> (\<forall>u. ok u \<longrightarrow> rely v' u \<longrightarrow> Q r u)"
    and "\<And>e u. ok u \<Longrightarrow> rely w u \<Longrightarrow> Q (Inl (SqlxOther e)) u"
  shows "safe (lock_wait busy m n) Q w"
  using assms
proof (induction n arbitrary: w)
  case 0
  show ?case
    unfolding lock_wait.simps
  proof (rule safe_patom)
    fix v r v' assume v: "ok v" "rely w v" and m: "(if busy v then (Inl (SqlxOther ''Lock wait timeout exceeded''), v)
      else m v) = (r, v')"
    then show "ok v' \<and> guar v v' \<and> (\<forall>u. ok u \<longrightarrow> rely v' u \<longrightarrow> Q r u)"
      using 0 guar_refl rely_trans [OF v(2)] by (auto split: if_splits)
  qed
next
  case (Suc n)
  show ?case
    unfolding lock_wait.simps
  proof (rule safe_ActI)
    fix v p v' assume v: "ok v" "rely w v"
      and m: "(if busy v then (lock_wait busy m n, v) else map_prod Done id (m v)) = (p, v')"
    show "ok v' \<and> guar v v' \<and> safe p Q v'"
    proof (cases "busy v")
      case True
      have "safe (lock_wait busy m n) Q v"
        by (rule Suc.IH) (use Suc.prems rely_trans [OF v(2)] in blast)+
      with True m v(1) guar_refl show ?thesis by auto
    next
      case False
      then obtain r where r: "m v = (r, v')" "p = Done r" using m by (cases "m v") auto
      from Suc.prems(1) [OF v False r(1)] show ?thesis by (simp add: r(2))
    qed
  qed
qed

end

section \<open>Ending a transaction\<close>

lemma in_own [simp]: "x \<in> set (own c xs) \<longleftrightarrow> (c, x) \<in> set xs"
  by (force simp: own_def)

lemma in_others [simp]: "x \<in> set (others c xs) \<longleftrightarrow> x \<in> set xs \<and> fst x \<noteq> c"
  by (auto simp: others_def)

lemma mset_own_others: "mset (own c xs) + mset (map snd (others c xs)) = mset (map snd xs)"
  by (induction xs) (auto simp: own_def others_def)

lemma one_key_commit:
  assumes "one_key f rows new"
  shows "one_key f (rows @ own c new) (others c new)"
proof -
  have "mset ((rows @ own c new) @ map snd (others c new)) = mset (rows @ map snd new)"
    using mset_own_others [of c new] by simp
  then have "mset (map f ((rows @ own c new) @ map snd (others c new))) = mset (map f (rows @ map snd new))"
    by (metis mset_map)
  with assms show ?thesis
    unfolding one_key_def by (metis mset_eq_imp_distinct_iff)
qed

lemma one_key_less: "one_key f (rows @ xs) new \<Longrightarrow> one_key f rows new"
  by (auto simp: one_key_def)

lemma one_key_rollback: "one_key f rows new \<Longrightarrow> one_key f rows (others c new)"
  using one_key_commit one_key_less by blast

lemma one_key_rows: "one_key f rows new \<Longrightarrow> distinct (map f rows)"
  by (simp add: one_key_def)

lemma one_key_insert:
  "one_key f rows new \<Longrightarrow> f x \<notin> f ` set rows \<Longrightarrow> f x \<notin> (\<lambda>y. f (snd y)) ` set new \<Longrightarrow>
    one_key f rows (new @ [(c, x)])"
  by (auto simp: one_key_def)

lemma one_key_cong: "map f rows = map f rows' \<Longrightarrow> one_key f rows new = one_key f rows' new"
  by (simp add: one_key_def)

lemma map_mark_rows [simp]:
  "map ob_id (mark_rows ms obs) = map ob_id obs" "map ob_entry (mark_rows ms obs) = map ob_entry obs"
  by (auto simp: mark_rows_def split: option.split)

lemma mark_rows_in:
  assumes "r \<in> set (mark_rows ms obs)"
  shows "\<exists>q \<in> set obs. same_core q r \<and> (ob_published r \<noteq> None \<longrightarrow> ob_published q \<noteq> None \<or> ob_id q \<in> fst ` set ms)"
proof -
  obtain q where "q \<in> set obs" "r = (case map_of ms (ob_id q) of None \<Rightarrow> q | Some t \<Rightarrow> q\<lparr>ob_published := Some t\<rparr>)"
    using assms by (auto simp: mark_rows_def)
  then show ?thesis
    by (intro bexI [of _ q]) (auto simp: same_core_def split: option.splits dest!: map_of_SomeD intro: rev_image_eqI)
qed

lemma same_core_messages:
  "same_core q r \<Longrightarrow> message_of env to_vec r m \<longleftrightarrow> message_of env to_vec q m"
  "same_core q r \<Longrightarrow> kafka_pub.row_delivered to_vec env k r \<longleftrightarrow> kafka_pub.row_delivered to_vec env k q"
  by (simp_all add: same_core_def message_of_def kafka_pub.row_delivered_def)

text \<open>A transaction may commit when it has inserted an entry with its outbox row, or neither, and has
  marked rows that are delivered.\<close>

definition delivered_id ::
  "ledger_env \<Rightarrow> (json \<Rightarrow> string + byte list) \<Rightarrow> id16 \<Rightarrow> kafka_world ledger_world \<Rightarrow> bool" where
  "delivered_id env to_vec i w \<longleftrightarrow>
     (\<exists>r \<in> set (outbox (lw_db w)). ob_id r = i \<and> kafka_pub.row_delivered to_vec env (lw_pub w) r)"

definition tx_ready ::
  "ledger_env \<Rightarrow> (json \<Rightarrow> string + byte list) \<Rightarrow> nat \<Rightarrow> kafka_world ledger_world \<Rightarrow> bool" where
  "tx_ready env to_vec c w \<longleftrightarrow>
     map ob_entry (own c (lw_out w)) = map le_id (own c (lw_new w)) \<and>
     (\<forall>i \<in> fst ` set (own c (lw_marked w)). delivered_id env to_vec i w)"

lemma rollback_ok:
  assumes "ledger_ok env to_vec w"
  shows "ledger_ok env to_vec (rollback_tx c w)" and "ledger_guar c w (rollback_tx c w)"
  using assms
  by (auto simp: ledger_ok_def rollback_tx_def ledger_guar_def ledger_grows_def same_own_def intro: one_key_rollback)

lemma marked_ids:
  assumes "distinct (map ob_id obs)" and "q \<in> set obs" and "r \<in> set obs" and "ob_id q = ob_id r"
  shows "q = r"
  using assms by (simp add: distinct_map inj_on_def)

lemma commit_pipeline:
  assumes ok: "ledger_ok env to_vec w" and ready: "tx_ready env to_vec c w"
  shows "pipeline_inv env to_vec (lw_db (commit_tx c w), lw_pub w)"
proof -
  let ?es = "entries (lw_db w)" and ?obs = "outbox (lw_db w)"
  let ?new = "own c (lw_new w)" and ?out = "own c (lw_out w)" and ?ms = "own c (lw_marked w)"
  note inv = ok [unfolded ledger_ok_def pipeline_inv_def ledger_wf_def, simplified fst_conv snd_conv]
  have rows: "\<forall>r \<in> set ?out. ob_topic r = entry_topic \<and> ob_published r = None"
    "\<forall>e \<in> set ?new. entry_wf e \<and> hashed e"
    using inv by force+
  have keys: "one_key le_id (?es @ ?new) (others c (lw_new w))"
    "one_key (\<lambda>e. lv_coll env (le_key e)) (?es @ ?new) (others c (lw_new w))"
    "one_key ob_id (?obs @ ?out) (others c (lw_out w))"
    using inv by (simp_all add: one_key_commit)
  have wf: "ledger_wf env (lw_db (commit_tx c w))"
    using inv keys [THEN one_key_rows] ready rows
    by (auto simp: ledger_wf_def commit_tx_def tx_ready_def)
  have marked: "kafka_pub.row_delivered to_vec env (lw_pub w) r"
    if r: "r \<in> set (mark_rows ?ms ?obs @ ?out)" "ob_published r \<noteq> None" for r
  proof -
    have "r \<in> set (mark_rows ?ms ?obs)" using r rows by auto
    then obtain q where q: "q \<in> set ?obs" "same_core q r" "ob_published q \<noteq> None \<or> ob_id q \<in> fst ` set ?ms"
      using mark_rows_in r(2) by metis
    have "kafka_pub.row_delivered to_vec env (lw_pub w) q"
    proof (cases "ob_published q = None")
      case True
      with q ready obtain x where "x \<in> set ?obs" "ob_id x = ob_id q" "kafka_pub.row_delivered to_vec env (lw_pub w) x"
        by (auto simp: tx_ready_def delivered_id_def)
      with q(1) inv marked_ids [of ?obs x q] show ?thesis by simp
    next
      case False
      with q(1) inv show ?thesis by (simp add: kafka_pub.marked_delivered_def)
    qed
    with q(2) same_core_messages(2) show ?thesis by blast
  qed
  have kept: "\<exists>r' \<in> set (mark_rows ?ms ?obs). same_core r r'" if "r \<in> set ?obs" for r
    using kept_rows_mark [of ?obs ?ms] that unfolding kept_rows_def by blast
  have "\<exists>r \<in> set (mark_rows ?ms ?obs @ ?out). message_of env to_vec r m" if "m \<in> set (kw_log (lw_pub w))" for m
  proof -
    from inv that obtain r where "r \<in> set ?obs" "message_of env to_vec r m" by blast
    with kept same_core_messages(1) show ?thesis by (metis Un_iff set_append)
  qed
  moreover have "ob_topic r = entry_topic" if "r \<in> set (mark_rows ?ms ?obs @ ?out)" for r
  proof (cases "r \<in> set ?out")
    case False
    with that obtain q where "q \<in> set ?obs" "same_core q r" using mark_rows_in by (metis UnE set_append)
    with inv show ?thesis by (simp add: same_core_def)
  qed (use rows in simp)
  ultimately show ?thesis
    using wf marked by (auto simp: pipeline_inv_def kafka_pub.marked_delivered_def commit_tx_def)
qed

lemma commit_ok:
  assumes "ledger_ok env to_vec w" and "tx_ready env to_vec c w"
  shows "ledger_ok env to_vec (commit_tx c w)" and "ledger_guar c w (commit_tx c w)"
proof -
  have p: "lw_pub (commit_tx c w) = lw_pub w" by (simp add: commit_tx_def rollback_tx_def)
  have obs: "one_key ob_id (mark_rows ms (outbox (lw_db w)) @ own c (lw_out w)) (others c (lw_out w))" for ms
    using assms(1) one_key_commit [of ob_id "outbox (lw_db w)" "lw_out w" c]
      one_key_cong [of ob_id "outbox (lw_db w) @ own c (lw_out w)" "mark_rows ms (outbox (lw_db w)) @ own c (lw_out w)"]
    by (simp add: ledger_ok_def)
  show "ledger_ok env to_vec (commit_tx c w)"
    unfolding ledger_ok_def p
  proof (intro conjI)
    show "pipeline_inv env to_vec (lw_db (commit_tx c w), lw_pub w)" by (rule commit_pipeline [OF assms])
  qed (use assms(1) in \<open>auto simp: ledger_ok_def commit_tx_def rollback_tx_def obs one_key_commit\<close>)
  have "kept_rows (outbox (lw_db w)) (outbox (lw_db (commit_tx c w)))"
    using kept_rows_trans [OF kept_rows_mark kept_rows_append] by (simp add: commit_tx_def)
  then show "ledger_guar c w (commit_tx c w)"
    by (auto simp: ledger_guar_def ledger_grows_def same_own_def commit_tx_def rollback_tx_def)
qed

section \<open>Posting\<close>

abbreviation ledger_safe where
  "ledger_safe env to_vec c \<equiv> shared_ledger.one.safe env to_vec c"

lemma idle_rely: "idle c u \<Longrightarrow> ledger_rely c u v \<Longrightarrow> idle c v"
  by (simp add: idle_def ledger_rely_def same_own_def)

lemma rollback_safe:
  assumes "\<And>u. ledger_ok env to_vec u \<Longrightarrow> idle c u \<Longrightarrow> Q (Inr ()) u"
  shows "ledger_safe env to_vec c (rollback_prog c) Q w"
  unfolding rollback_prog_def
proof (rule shared_ledger.one.safe_patom)
  fix v v' :: "kafka_world ledger_world" and r :: "sqlx_error + unit"
  assume v: "ledger_ok env to_vec v" "(Inr (), rollback_tx c v) = (r, v')"
  then show "ledger_ok env to_vec v' \<and> ledger_guar c v v' \<and>
      (\<forall>u. ledger_ok env to_vec u \<longrightarrow> ledger_rely c v' u \<longrightarrow> Q r u)"
    using rollback_ok [OF v(1), of c] assms idle_rely idle_after(1) by blast
qed

lemma commit_safe:
  assumes "\<And>v. ledger_ok env to_vec v \<Longrightarrow> ledger_rely c w v \<Longrightarrow> tx_ready env to_vec c v"
    and "\<And>v u. ledger_ok env to_vec v \<Longrightarrow> ledger_rely c w v \<Longrightarrow> ledger_ok env to_vec u \<Longrightarrow>
      ledger_rely c (commit_tx c v) u \<Longrightarrow> idle c u \<Longrightarrow> Q (Inr ()) u"
    and "\<And>e u. ledger_ok env to_vec u \<Longrightarrow> idle c u \<Longrightarrow> Q (Inl e) u"
  shows "ledger_safe env to_vec c (patom (tx_commit c outcome)) Q w"
proof (rule shared_ledger.one.safe_patom)
  fix v r v' assume v: "ledger_ok env to_vec v" "ledger_rely c w v" and m: "tx_commit c outcome v = (r, v')"
  note c = commit_ok [OF v(1) assms(1) [OF v]] rollback_ok [OF v(1), of c]
  show "ledger_ok env to_vec v' \<and> ledger_guar c v v' \<and>
      (\<forall>u. ledger_ok env to_vec u \<longrightarrow> ledger_rely c v' u \<longrightarrow> Q r u)"
    using m c assms(2) [OF v] assms(3) idle_rely [OF idle_after(1)] idle_rely [OF idle_after(2)]
    by (cases outcome) (auto simp: tx_commit_def)
qed

text \<open>What a caller that is answered can rely on: the only entry of its key is the one that was
  named.\<close>

definition post_named ::
  "ledger_env \<Rightarrow> post_io \<Rightarrow> post_params \<Rightarrow> ledger_error + post_result \<Rightarrow> 'k ledger_world \<Rightarrow> bool" where
  "post_named env io p r w \<longleftrightarrow> (\<forall>a. r = Inr a \<longrightarrow>
     (\<exists>e. find (same_key env (pp_key p)) (entries (lw_db w)) = Some e \<and> le_id e = pr_entry a \<and>
       le_hash e = Some (params_hash env p) \<and>
       (\<not> pr_was_idempotent a \<longrightarrow> (\<exists>n. e = posted_row env io p n \<and> convertible env p n))))"

lemma post_named_error [simp]: "post_named env io p (Inl e) w"
  by (simp add: post_named_def)

lemma find_prefix: "find P xs = Some x \<Longrightarrow> prefix xs ys \<Longrightarrow> find P ys = Some x"
  by (auto simp: prefix_def find_append)

lemma post_named_later: "post_named env io p r u \<Longrightarrow> ledger_grows u v \<Longrightarrow> post_named env io p r v"
  unfolding post_named_def ledger_grows_def using find_prefix by fast

lemma read_safe:
  "ledger_safe env to_vec c (post_read_prog env io p (params_hash env p)) (post_named env io p) w"
  unfolding post_read_prog_def
proof (rule shared_ledger.one.safe_patom)
  fix v r v' assume v: "ledger_ok env to_vec v"
    and m: "(post_duplicate env io p (params_hash env p) (lw_db v), v) = (r, v')"
  have "post_named env io p r v"
    using m by (auto simp: post_named_def post_duplicate_Inr)
  then show "ledger_ok env to_vec v' \<and> ledger_guar c v v' \<and>
      (\<forall>u. ledger_ok env to_vec u \<longrightarrow> ledger_rely c v' u \<longrightarrow> post_named env io p r u)"
    using v m post_named_later by (auto simp: ledger_rely_def)
qed

text \<open>The rows a posting has open after its first and after its second statement.\<close>

definition entry_open :: "nat \<Rightarrow> ledger_env \<Rightarrow> post_io \<Rightarrow> post_params \<Rightarrow> outbox_row list \<Rightarrow> 'k ledger_world \<Rightarrow> bool" where
  "entry_open c env io p rows u \<longleftrightarrow>
     (\<exists>n. convertible env p n \<and> own c (lw_new u) = [posted_row env io p n]) \<and> own c (lw_out u) = rows \<and>
     own c (lw_marked u) = []"

lemma entry_open_rely: "entry_open c env io p rows u \<Longrightarrow> ledger_rely c u v \<Longrightarrow> entry_open c env io p rows v"
  by (simp add: entry_open_def ledger_rely_def same_own_def)

lemma insert_effect:
  assumes ok: "ledger_ok env to_vec v" and idle: "idle c v" and guard: "post_guard p = None"
    and free: "\<not> insert_busy env io p (params_hash env p) v"
    and m: "post_insert c env io p (params_hash env p) v = (r, v')"
  shows "ledger_ok env to_vec v' \<and> ledger_guar c v v' \<and> (\<forall>u. r = Inr u \<longrightarrow> entry_open c env io p [] v')"
proof (cases r)
  case (Inl e)
  then have "v' = v" using m by (auto simp: post_insert_def split: sum.splits option.splits)
  with ok Inl show ?thesis by simp
next
  case (Inr u)
  then obtain row where row: "insert_ledger_entry env p (params_hash env p) (io_entry_id io) (io_now io)
      (entries (lw_db v)) = Inr row" and v': "v' = v\<lparr>lw_new := lw_new v @ [(c, row)]\<rparr>"
    using m by (auto simp: post_insert_def split: sum.splits option.splits)
  then obtain n where n: "convertible env p n" "row = posted_row env io p n"
      "\<forall>e \<in> set (entries (lw_db v)). le_id e \<noteq> io_entry_id io \<and> \<not> same_key env (pp_key p) e"
    by (auto simp: insert_ledger_entry_Inr posted_row_def)
  have open_rows: "\<forall>x \<in> set (lw_new v). le_id (snd x) \<noteq> io_entry_id io \<and> lv_coll env (le_key (snd x)) \<noteq> lv_coll env (pp_key p)"
    using free row by (auto simp: insert_busy_def list_ex_iff)
  have "one_key le_id (entries (lw_db v)) (lw_new v @ [(c, row)])"
    "one_key (\<lambda>e. lv_coll env (le_key e)) (entries (lw_db v)) (lw_new v @ [(c, row)])"
    using ok n(2,3) open_rows
    by (auto simp: ledger_ok_def posted_row_def entry_of_def same_key_def intro!: one_key_insert)
  moreover have "entry_wf row \<and> hashed row"
    using n(1,2) guard
    by (auto simp: posted_row_def entry_of_def entry_wf_def hashed_def post_guard_None convertible_def)
  moreover have "entry_open c env io p [] v'"
    using n(1,2) idle by (auto simp: entry_open_def v' idle_def)
  ultimately show ?thesis
    using ok by (auto simp: ledger_ok_def v' ledger_guar_def ledger_grows_def same_own_def)
qed

lemma outbox_effect:
  assumes ok: "ledger_ok env to_vec v" and row: "entry_open c env io p [] v"
    and free: "\<not> outbox_busy io v" and m: "post_outbox c env io p v = (r, v')"
  shows "ledger_ok env to_vec v' \<and> ledger_guar c v v' \<and> (\<forall>u. r = Inr u \<longrightarrow> entry_open c env io p [posted_outbox env io p] v')"
proof (cases r)
  case (Inl e)
  then have "v' = v" using m by (auto simp: post_outbox_def split: sum.splits option.splits)
  with ok Inl show ?thesis by simp
next
  case (Inr u)
  let ?row = "posted_outbox env io p"
  have new: "io_outbox_id io \<notin> ob_id ` set (outbox (lw_db v))" and v': "v' = v\<lparr>lw_out := lw_out v @ [(c, ?row)]\<rparr>"
    using m Inr by (auto simp: post_outbox_def insert_outbox_Inr posted_outbox_def split: sum.splits option.splits)
  have "one_key ob_id (outbox (lw_db v)) (lw_out v @ [(c, ?row)])"
    using ok new free
    by (intro one_key_insert) (auto simp: ledger_ok_def posted_outbox_def outbox_busy_def list_ex_iff)
  moreover have "entry_open c env io p [?row] v'"
    using row by (auto simp: entry_open_def v')
  ultimately show ?thesis
    using ok by (auto simp: ledger_ok_def v' ledger_guar_def ledger_grows_def same_own_def posted_outbox_def)
qed

lemma entry_open_ready: "entry_open c env io p [posted_outbox env io p] v \<Longrightarrow> tx_ready env to_vec c v"
  by (auto simp: entry_open_def tx_ready_def posted_outbox_def posted_row_def entry_of_def)

lemma posted_named:
  assumes ok: "ledger_ok env to_vec (commit_tx c v)" and row: "entry_open c env io p rows v"
  shows "post_named env io p (Inr \<lparr>pr_entry = io_entry_id io, pr_was_idempotent = False, pr_created = t\<rparr>) (commit_tx c v)"
proof -
  obtain n where n: "convertible env p n" "own c (lw_new v) = [posted_row env io p n]"
    using row by (auto simp: entry_open_def)
  have wf: "ledger_wf env (lw_db (commit_tx c v))"
    using ok by (simp add: ledger_ok_def pipeline_inv_def)
  have "posted_row env io p n \<in> set (entries (lw_db (commit_tx c v)))"
    using n(2) by (simp add: commit_tx_def)
  from find_same_key_unique [OF wf this, of "pp_key p"] n(1) show ?thesis
    by (auto simp: post_named_def posted_row_def entry_of_def same_key_def)
qed

lemma post_commit_safe:
  assumes "entry_open c env io p [] w" and "ledger_ok env to_vec w"
  shows "ledger_safe env to_vec c (post_commit_prog c env patience io p) (post_named env io p) w"
  unfolding post_commit_prog_def
proof (rule shared_ledger.one.safe_ptry)
  let ?Q = "\<lambda>r u. \<forall>x. r = Inr x \<longrightarrow> entry_open c env io p [posted_outbox env io p] u"
  show "ledger_safe env to_vec c (lock_wait (outbox_busy io) (post_outbox c env io p) patience) ?Q w"
    using outbox_effect entry_open_rely [OF assms(1)] entry_open_rely
    by (intro shared_ledger.one.safe_lock_wait) blast+
  show "ledger_ok env to_vec w" by fact
  fix r :: "sqlx_error + unit" and v
  assume v: "ledger_ok env to_vec v" "\<forall>u. ledger_ok env to_vec u \<longrightarrow> ledger_rely c v u \<longrightarrow> ?Q r u"
  show "ledger_safe env to_vec c (case r of
      Inl e \<Rightarrow> ptry (rollback_prog c) (\<lambda>_. Done (Inl (LDatabase e)))
    | Inr _ \<Rightarrow> ptry (patom (tx_commit c (io_commit io))) (\<lambda>r. Done (case r of
         Inl e \<Rightarrow> Inl (LDatabase e)
       | Inr _ \<Rightarrow> Inr \<lparr>pr_entry = io_entry_id io, pr_was_idempotent = False, pr_created = io_now io\<rparr>)))
    (post_named env io p) v"
  proof (cases r)
    case (Inl e)
    then show ?thesis
      by (auto intro!: shared_ledger.one.safe_ptry [OF rollback_safe [of _ _ _ "\<lambda>r u. True"] v(1)])
  next
    case (Inr x)
    let ?ans = "Inr \<lparr>pr_entry = io_entry_id io, pr_was_idempotent = False, pr_created = io_now io\<rparr>"
    let ?R = "\<lambda>r u. \<forall>x. r = Inr x \<longrightarrow> post_named env io p ?ans u"
    have commit: "ledger_safe env to_vec c (patom (tx_commit c (io_commit io))) ?R v"
    proof (rule commit_safe)
      fix y assume y: "ledger_ok env to_vec y" "ledger_rely c v y"
      with v(2) Inr have o: "entry_open c env io p [posted_outbox env io p] y" by blast
      then show ready: "tx_ready env to_vec c y" by (rule entry_open_ready)
      fix u assume "ledger_rely c (commit_tx c y) u"
      then have "ledger_grows (commit_tx c y) u" by (simp add: ledger_rely_def)
      with posted_named [OF commit_ok(1) [OF y(1) ready] o] post_named_later
      show "\<forall>x. Inr () = Inr x \<longrightarrow> post_named env io p ?ans u" by blast
    qed simp
    show ?thesis
      unfolding Inr sum.case
      by (rule shared_ledger.one.safe_ptry [OF commit v(1)]) (auto split: sum.split)
  qed
qed

lemma post_safe:
  assumes "idle c w" and "ledger_ok env to_vec w"
  shows "ledger_safe env to_vec c (post_entry_prog c env patience io p) (post_named env io p) w"
proof (cases "post_guard p")
  case (Some e)
  then show ?thesis by (simp add: post_entry_prog_def)
next
  case None
  let ?h = "params_hash env p"
  let ?Q = "\<lambda>r u. \<forall>x. r = Inr x \<longrightarrow> entry_open c env io p [] u"
  have insert: "ledger_safe env to_vec c (post_insert_prog c env patience io p) (post_named env io p) v"
    if v: "idle c v" "ledger_ok env to_vec v" for v
    unfolding post_insert_prog_def Let_def params_hash_def [symmetric]
  proof (rule shared_ledger.one.safe_ptry)
    show "ledger_safe env to_vec c (lock_wait (insert_busy env io p ?h) (post_insert c env io p ?h) patience) ?Q v"
      using insert_effect [OF _ _ None] idle_rely [OF v(1)] entry_open_rely
      by (intro shared_ledger.one.safe_lock_wait) blast+
    fix r :: "sqlx_error + unit" and u
    assume u: "ledger_ok env to_vec u" "\<forall>x. ledger_ok env to_vec x \<longrightarrow> ledger_rely c u x \<longrightarrow> ?Q r x"
    show "ledger_safe env to_vec c (case r of
        Inr _ \<Rightarrow> post_commit_prog c env patience io p
      | Inl e \<Rightarrow> ptry (rollback_prog c) (\<lambda>_.
          if e = UniqueViolation then post_read_prog env io p ?h else Done (Inl (LDatabase e))))
      (post_named env io p) u"
      using u post_commit_safe [of c env io p u]
      by (cases r) (auto intro!: read_safe shared_ledger.one.safe_ptry [OF rollback_safe [of _ _ _ "\<lambda>r u. True"] u(1)])
  qed (use v in simp)
  show ?thesis
    unfolding post_entry_prog_def None option.case
  proof (rule shared_ledger.one.safe_pbind)
    show "ledger_safe env to_vec c (pmap_err LDatabase (patom (tx_begin (io_begin io)))) (\<lambda>r. idle c) w"
      using assms
      by (intro shared_ledger.one.safe_pmap_err shared_ledger.one.safe_patom)
        (auto simp: tx_begin_def intro: idle_rely [OF idle_rely [OF assms(1)]])
  qed (use assms insert in auto)
qed

section \<open>A round\<close>

text \<open>A round has inserted nothing, has marked only rows that are delivered, and holds rows of the
  table.\<close>

definition round_inv ::
  "ledger_env \<Rightarrow> (json \<Rightarrow> string + byte list) \<Rightarrow> nat \<Rightarrow> outbox_row list \<Rightarrow> kafka_world ledger_world \<Rightarrow> bool" where
  "round_inv env to_vec c rs u \<longleftrightarrow>
     own c (lw_new u) = [] \<and> own c (lw_out u) = [] \<and>
     (\<forall>i \<in> fst ` set (own c (lw_marked u)). delivered_id env to_vec i u) \<and>
     (\<forall>r \<in> set rs. \<exists>r' \<in> set (outbox (lw_db u)). same_core r r')"

lemma round_inv_ready: "round_inv env to_vec c rs u \<Longrightarrow> tx_ready env to_vec c u"
  by (simp add: round_inv_def tx_ready_def)

lemma round_inv_idle: "idle c u \<Longrightarrow> round_inv env to_vec c [] u"
  by (simp add: round_inv_def idle_def)

lemma row_delivered_mono:
  "kafka_pub.row_delivered to_vec env k r \<Longrightarrow> set (kw_log k) \<subseteq> set (kw_log k') \<Longrightarrow>
    kafka_pub.row_delivered to_vec env k' r"
  by (auto simp: kafka_pub.row_delivered_def kafka_delivered_def)

lemma delivered_id_grows:
  assumes "delivered_id env to_vec i u" and "ledger_grows u v"
  shows "delivered_id env to_vec i v"
proof -
  obtain r where r: "r \<in> set (outbox (lw_db u))" "ob_id r = i" "kafka_pub.row_delivered to_vec env (lw_pub u) r"
    using assms(1) by (auto simp: delivered_id_def)
  obtain r' where "r' \<in> set (outbox (lw_db v))" "same_core r r'"
    using assms(2) r(1) unfolding ledger_grows_def kept_rows_def by blast
  moreover have "kafka_pub.row_delivered to_vec env (lw_pub v) r"
    by (rule row_delivered_mono [OF r(3)]) (use assms(2) in \<open>simp add: ledger_grows_def\<close>)
  ultimately show ?thesis
    using r(2) same_core_messages(2) unfolding delivered_id_def same_core_def by metis
qed

lemma delivered_id_rely: "delivered_id env to_vec i u \<Longrightarrow> ledger_rely c u v \<Longrightarrow> delivered_id env to_vec i v"
  using delivered_id_grows by (simp add: ledger_rely_def)

lemma held_grows:
  assumes "\<exists>r' \<in> set (outbox (lw_db u)). same_core r r'" and "ledger_grows u v"
  shows "\<exists>r' \<in> set (outbox (lw_db v)). same_core r r'"
  using assms same_core_trans unfolding ledger_grows_def kept_rows_def by blast

lemma round_inv_rely: "round_inv env to_vec c rs u \<Longrightarrow> ledger_rely c u v \<Longrightarrow> round_inv env to_vec c rs v"
  using delivered_id_grows [of env to_vec _ u v] held_grows [of u _ v]
  by (simp add: round_inv_def ledger_rely_def same_own_def)

lemma publish_keeps_ok:
  assumes ok: "ledger_ok env to_vec v" and held: "\<exists>r' \<in> set (outbox (lw_db v)). same_core r r'"
    and m: "kafka_outbox_publish to_vec sh script (ob_topic r) (lv_hex env (id_bytes (ob_entry r)))
      (ob_payload r) (lw_pub v) = (q, k)"
  shows "ledger_ok env to_vec (v\<lparr>lw_pub := k\<rparr>) \<and> set (kw_log (lw_pub v)) \<subseteq> set (kw_log k)"
proof -
  have sub: "set (kw_log (lw_pub v)) \<subseteq> set (kw_log k)"
    using kafka_outbox_log_grows [OF m] .
  have "\<exists>r' \<in> set (outbox (lw_db v)). message_of env to_vec r' x" if "x \<in> set (kw_log k)" for x
  proof (cases "x \<in> set (kw_log (lw_pub v))")
    case True
    with ok show ?thesis by (auto simp: ledger_ok_def pipeline_inv_def)
  next
    case False
    with that kafka_outbox_publish_log [OF m] have "message_of env to_vec r x"
      by (auto simp: message_of_def)
    with held same_core_messages(1) show ?thesis by metis
  qed
  then show ?thesis
    using ok sub row_delivered_mono [OF _ sub]
    by (auto simp: ledger_ok_def pipeline_inv_def kafka_pub.marked_delivered_def)
qed

lemma publish_effect:
  assumes ok: "ledger_ok env to_vec v" and inv: "round_inv env to_vec c (r # rs) v"
    and m: "round_publish env (kafka_outbox_publish to_vec sh script) r v = (q, v')"
  shows "ledger_ok env to_vec v' \<and> ledger_guar c v v' \<and> round_inv env to_vec c (r # rs) v' \<and>
    (\<forall>x. q = Inr x \<longrightarrow> delivered_id env to_vec (ob_id r) v')"
proof -
  obtain q0 k where k: "kafka_outbox_publish to_vec sh script (ob_topic r) (lv_hex env (id_bytes (ob_entry r)))
      (ob_payload r) (lw_pub v) = (q0, k)" by force
  with m have v': "v' = v\<lparr>lw_pub := k\<rparr>" "q = map_err BatchPublish q0" by (auto simp: round_publish_def)
  have held: "\<exists>r' \<in> set (outbox (lw_db v)). same_core r r'" using inv by (simp add: round_inv_def)
  note keep = publish_keeps_ok [OF ok held k]
  have rely: "ledger_rely c v v'" "ledger_guar c v v'"
    using keep by (auto simp: v' ledger_rely_def ledger_guar_def ledger_grows_def same_own_def)
  have "delivered_id env to_vec (ob_id r) v'" if "q = Inr x" for x
  proof -
    have "q0 = Inr ()" using that v'(2) by (cases q0) auto
    then have "kafka_pub.row_delivered to_vec env k r"
      using kafka_pub.ok_delivers k by (simp add: kafka_pub.row_delivered_def)
    with held same_core_messages(2) show ?thesis
      unfolding delivered_id_def v'(1) same_core_def by (metis ledger_world.select_convs(1,6) ledger_world.update_convs(6) ledger_world.surjective)
  qed
  with keep rely round_inv_rely [OF inv rely(1)] v'(1) show ?thesis by blast
qed

lemma mark_effect:
  assumes ok: "ledger_ok env to_vec v" and inv: "round_inv env to_vec c (r # rs) v"
    and sent: "delivered_id env to_vec (ob_id r) v" and m: "round_mark c io r v = (q, v')"
  shows "ledger_ok env to_vec v' \<and> ledger_guar c v v' \<and> round_inv env to_vec c rs v'"
proof -
  have "v' = v \<or> v' = v\<lparr>lw_marked := lw_marked v @ [(c, ob_id r, bi_now io)]\<rparr>"
    using m by (auto simp: round_mark_def split: option.splits)
  then show ?thesis
  proof
    assume v': "v' = v\<lparr>lw_marked := lw_marked v @ [(c, ob_id r, bi_now io)]\<rparr>"
    have "delivered_id env to_vec i v' = delivered_id env to_vec i v" for i
      by (simp add: delivered_id_def v')
    then show ?thesis
      using ok inv sent
      by (auto simp: v' ledger_ok_def ledger_guar_def ledger_grows_def same_own_def round_inv_def)
  qed (use ok inv in \<open>auto simp: round_inv_def\<close>)
qed

lemma rows_safe:
  assumes "round_inv env to_vec c rs w" and "ledger_ok env to_vec w"
  shows "ledger_safe env to_vec c (round_rows_prog c env (kafka_outbox_publish to_vec sh script) io rs)
    (\<lambda>q. round_inv env to_vec c []) w"
  using assms
proof (induction rs arbitrary: w)
  case Nil
  then show ?case using round_inv_rely by auto
next
  case (Cons r rs)
  let ?pub = "kafka_outbox_publish to_vec sh script"
  let ?P = "\<lambda>q u. round_inv env to_vec c (r # rs) u \<and> (\<forall>x. q = Inr x \<longrightarrow> delivered_id env to_vec (ob_id r) u)"
  have less: "round_inv env to_vec c [] u" if "round_inv env to_vec c xs u" for xs u
    using that by (simp add: round_inv_def)
  show ?case
    unfolding round_rows_prog.simps
  proof (rule shared_ledger.one.safe_pbind)
    show "ledger_safe env to_vec c (patom (round_publish env ?pub r)) ?P w"
    proof (rule shared_ledger.one.safe_patom)
      fix v q v' assume v: "ledger_ok env to_vec v" "ledger_rely c w v" and m: "round_publish env ?pub r v = (q, v')"
      from publish_effect [OF v(1) round_inv_rely [OF Cons.prems(1) v(2)] m]
      show "ledger_ok env to_vec v' \<and> ledger_guar c v v' \<and>
          (\<forall>u. ledger_ok env to_vec u \<longrightarrow> ledger_rely c v' u \<longrightarrow> ?P q u)"
        using round_inv_rely delivered_id_rely by blast
    qed
    fix x v assume v: "ledger_ok env to_vec v" "\<forall>u. ledger_ok env to_vec u \<longrightarrow> ledger_rely c v u \<longrightarrow> ?P (Inr x) u"
    show "ledger_safe env to_vec c (pbind (patom (round_mark c io r)) (\<lambda>_. round_rows_prog c env ?pub io rs))
        (\<lambda>q. round_inv env to_vec c []) v"
    proof (rule shared_ledger.one.safe_pbind)
      show "ledger_safe env to_vec c (patom (round_mark c io r)) (\<lambda>q. round_inv env to_vec c rs) v"
      proof (rule shared_ledger.one.safe_patom)
        fix y q y' assume y: "ledger_ok env to_vec y" "ledger_rely c v y" and m: "round_mark c io r y = (q, y')"
        with v(2) have "?P (Inr x) y" by blast
        with mark_effect [OF y(1) _ _ m] round_inv_rely
        show "ledger_ok env to_vec y' \<and> ledger_guar c y y' \<and>
            (\<forall>u. ledger_ok env to_vec u \<longrightarrow> ledger_rely c y' u \<longrightarrow> round_inv env to_vec c rs u)"
          by blast
      qed
    qed (use v(1) less Cons.IH in auto)
  qed (use Cons.prems(2) less in auto)
qed

lemma select_effect:
  assumes ok: "ledger_ok env to_vec v" and inv: "round_inv env to_vec c [] v" and order: "order_ok (bi_order io)"
    and m: "round_select c io v = (q, v')"
  shows "ledger_ok env to_vec v' \<and> ledger_guar c v v' \<and>
    round_inv env to_vec c (case q of Inl e \<Rightarrow> [] | Inr rows \<Rightarrow> rows) v'"
proof -
  let ?rows = "case q of Inl e \<Rightarrow> [] | Inr rows \<Rightarrow> rows"
  have "order_ok (bi_order (locked_io io v))" using order by (simp add: locked_io_def)
  from batch_rows_subset [OF this] have rows: "set (batch_rows (locked_io io v) (outbox (lw_db v))) \<subseteq> set (outbox (lw_db v))"
    by (auto simp: pending_def)
  have v': "v' = v \<and> ?rows = [] \<or> ?rows = batch_rows (locked_io io v) (outbox (lw_db v)) \<and>
      v' = v\<lparr>lw_locked := lw_locked v @ map (\<lambda>r. (c, ob_id r)) ?rows\<rparr>"
    using m by (auto simp: round_select_def Let_def split: option.splits)
  have same: "lw_db v' = lw_db v" "lw_pub v' = lw_pub v" "lw_new v' = lw_new v" "lw_out v' = lw_out v"
    "lw_marked v' = lw_marked v" using v' by auto
  have "ledger_ok env to_vec v'" using ok by (simp add: ledger_ok_def same)
  moreover have "ledger_guar c v v'" using v' by (auto simp: ledger_guar_def ledger_grows_def same_own_def)
  moreover have "round_inv env to_vec c ?rows v'"
  proof -
    have "\<exists>r' \<in> set (outbox (lw_db v)). same_core r r'" if "r \<in> set ?rows" for r
      using that rows v' same_core_refl by (metis empty_iff empty_set subsetD)
    with inv show ?thesis by (simp add: round_inv_def same delivered_id_def)
  qed
  ultimately show ?thesis by blast
qed

lemma select_safe:
  assumes "round_inv env to_vec c [] w" and "order_ok (bi_order io)"
  shows "ledger_safe env to_vec c (patom (round_select c io))
    (\<lambda>q u. round_inv env to_vec c (case q of Inl e \<Rightarrow> [] | Inr rows \<Rightarrow> rows) u) w"
proof (rule shared_ledger.one.safe_patom)
  fix v q v' assume v: "ledger_ok env to_vec v" "ledger_rely c w v" and m: "round_select c io v = (q, v')"
  from select_effect [OF v(1) round_inv_rely [OF assms(1) v(2)] assms(2) m]
  show "ledger_ok env to_vec v' \<and> ledger_guar c v v' \<and> (\<forall>u. ledger_ok env to_vec u \<longrightarrow> ledger_rely c v' u \<longrightarrow>
      round_inv env to_vec c (case q of Inl e \<Rightarrow> [] | Inr rows \<Rightarrow> rows) u)"
    using round_inv_rely by blast
qed

text \<open>A round leaves its connection idle.\<close>

lemma rollback_then:
  assumes "ledger_ok env to_vec w"
  shows "ledger_safe env to_vec c (ptry (rollback_prog c) (\<lambda>_. Done r)) (\<lambda>r. idle c) w"
  by (rule shared_ledger.one.safe_ptry [OF rollback_safe [of _ _ _ "\<lambda>r. idle c"] assms]) simp_all

lemma body_safe:
  assumes "idle c w" and "ledger_ok env to_vec w" and "order_ok (bi_order io)"
  shows "ledger_safe env to_vec c (round_body_prog c env (kafka_outbox_publish to_vec sh script) io)
    (\<lambda>q u. \<forall>n. q = Inr n \<longrightarrow> idle c u) w"
  unfolding round_body_prog_def
proof (rule shared_ledger.one.safe_pbind)
  show "ledger_safe env to_vec c (pmap_err BatchDb (patom (tx_begin (bi_begin io)))) (\<lambda>r. round_inv env to_vec c []) w"
    using assms
    by (intro shared_ledger.one.safe_pmap_err shared_ledger.one.safe_patom)
      (auto simp: tx_begin_def intro: round_inv_idle idle_rely [OF idle_rely [OF assms(1)]])
  fix x v assume v: "ledger_ok env to_vec v"
    "\<forall>u. ledger_ok env to_vec u \<longrightarrow> ledger_rely c v u \<longrightarrow> round_inv env to_vec c [] u"
  then have inv: "round_inv env to_vec c [] v" by simp
  show "ledger_safe env to_vec c (pbind (patom (round_select c io)) (\<lambda>rows.
     if rows = [] then ptry (rollback_prog c) (\<lambda>_. Done (Inr 0))
     else pbind (round_rows_prog c env (kafka_outbox_publish to_vec sh script) io rows) (\<lambda>_.
          pbind (pmap_err BatchDb (patom (tx_commit c (bi_commit io)))) (\<lambda>_.
          Done (Inr (length rows)))))) (\<lambda>q u. \<forall>n. q = Inr n \<longrightarrow> idle c u) v"
  proof (rule shared_ledger.one.safe_pbind [OF select_safe [OF inv assms(3)] v(1)])
    fix rows u assume u: "ledger_ok env to_vec u"
      "\<forall>x. ledger_ok env to_vec x \<longrightarrow> ledger_rely c u x \<longrightarrow>
        round_inv env to_vec c (case Inr rows of Inl (e :: batch_error) \<Rightarrow> [] | Inr rows \<Rightarrow> rows) x"
    have rows: "round_inv env to_vec c rows u" using u by simp
    have commit: "ledger_safe env to_vec c (pbind (pmap_err BatchDb (patom (tx_commit c (bi_commit io)))) (\<lambda>_.
        Done (Inr (length rows)))) (\<lambda>q u. \<forall>n. q = Inr n \<longrightarrow> idle c u) y"
      if y: "ledger_ok env to_vec y" "\<forall>x. ledger_ok env to_vec x \<longrightarrow> ledger_rely c y x \<longrightarrow> round_inv env to_vec c [] x" for y
    proof (rule shared_ledger.one.safe_pbind [OF shared_ledger.one.safe_pmap_err y(1)])
      show "ledger_safe env to_vec c (patom (tx_commit c (bi_commit io))) (\<lambda>q. idle c) y"
        by (rule commit_safe) (use y(2) round_inv_ready in blast)+
    qed (use y in auto)
    show "ledger_safe env to_vec c (if rows = [] then ptry (rollback_prog c) (\<lambda>_. Done (Inr 0))
     else pbind (round_rows_prog c env (kafka_outbox_publish to_vec sh script) io rows) (\<lambda>_.
          pbind (pmap_err BatchDb (patom (tx_commit c (bi_commit io)))) (\<lambda>_.
          Done (Inr (length rows))))) (\<lambda>q u. \<forall>n. q = Inr n \<longrightarrow> idle c u) u"
    proof (cases "rows = []")
      case True
      then show ?thesis by (auto intro: shared_ledger.one.safe_conseq [OF rollback_then [OF u(1)] u(1)])
    next
      case False
      then show ?thesis using shared_ledger.one.safe_pbind [OF rows_safe [OF rows u(1)] u(1) commit] by simp
    qed
  qed simp
qed (use assms in simp_all)

lemma round_safe:
  assumes "idle c w" and "ledger_ok env to_vec w" and "order_ok (bi_order io)"
  shows "ledger_safe env to_vec c (round_prog c env (kafka_outbox_publish to_vec sh script) io) (\<lambda>q. idle c) w"
  unfolding round_prog_def
proof (rule shared_ledger.one.safe_ptry [OF body_safe [OF assms] assms(2)])
  fix r :: "batch_error + nat" and v
  assume "ledger_ok env to_vec v"
    "\<forall>u. ledger_ok env to_vec u \<longrightarrow> ledger_rely c v u \<longrightarrow> (\<forall>n. r = Inr n \<longrightarrow> idle c u)"
  then show "ledger_safe env to_vec c (case r of Inr n \<Rightarrow> Done (Inr n)
      | Inl e \<Rightarrow> ptry (rollback_prog c) (\<lambda>_. Done (Inl e))) (\<lambda>q. idle c) v"
    using rollback_then by (cases r) auto
qed

lemma worker_safe:
  assumes "idle c w" and "ledger_ok env to_vec w" and "\<forall>io \<in> set ios. order_ok (bi_order io)"
  shows "ledger_safe env to_vec c (worker_prog c env (kafka_outbox_publish to_vec sh script) ios errs
    :: ('e, nat list, kafka_world ledger_world) prog) (\<lambda>q u. True) w"
  using assms
proof (induction ios arbitrary: errs w)
  case (Cons io ios)
  have ios: "\<forall>io \<in> set ios. order_ok (bi_order io)" using Cons.prems(3) by simp
  show ?case
    unfolding worker_prog.simps
  proof (rule shared_ledger.one.safe_ptry [OF round_safe [OF Cons.prems(1,2)] Cons.prems(2)])
    fix r :: "batch_error + nat" and v
    assume v: "ledger_ok env to_vec v" "\<forall>u. ledger_ok env to_vec u \<longrightarrow> ledger_rely c v u \<longrightarrow> idle c u"
    then have "idle c v" by simp
    note rest = Cons.IH [OF this v(1) ios]
    show "ledger_safe env to_vec c (case worker_after r errs of (errs', slept) \<Rightarrow>
        pbind (worker_prog c env (kafka_outbox_publish to_vec sh script) ios errs'
            :: ('e, nat list, kafka_world ledger_world) prog)
          (\<lambda>ss. Done (Inr (slept # ss)))) (\<lambda>q u. True) v"
      by (auto split: prod.split intro: shared_ledger.one.safe_pbind [OF rest v(1)])
  qed (use Cons.prems in simp)
qed simp

section \<open>All jobs\<close>

definition orders_ok :: "ledger_job list \<Rightarrow> bool" where
  "orders_ok jobs \<longleftrightarrow> (\<forall>ios. OutboxWorker ios \<in> set jobs \<longrightarrow> (\<forall>io \<in> set ios. order_ok (bi_order io)))"

lemma quiet_ok: "pipeline_inv env to_vec (db, k) \<Longrightarrow> ledger_ok env to_vec (quiet db k)"
  by (simp add: ledger_ok_def quiet_def one_key_def pipeline_inv_def ledger_wf_def)

lemma quiet_idle: "idle c (quiet db k)"
  by (simp add: idle_def quiet_def)

definition answered_well :: "ledger_env \<Rightarrow> ledger_job \<Rightarrow> unit + ledger_reply \<Rightarrow> 'k ledger_world \<Rightarrow> bool" where
  "answered_well env job r w \<longleftrightarrow>
     (\<forall>io p q. job = PostCall io p \<longrightarrow> r = Inr (PostReply q) \<longrightarrow> post_named env io p q w)"

lemma job_safe:
  assumes "orders_ok jobs" and "job \<in> set jobs" and "pipeline_inv env to_vec (db, k)"
  shows "ledger_safe env to_vec c (job_prog c env (kafka_outbox_publish to_vec sh script) patience job)
    (answered_well env job) (quiet db k)"
proof (cases job)
  case (PostCall io p)
  show ?thesis
    unfolding PostCall job_prog_def ledger_job.case
    by (rule shared_ledger.one.safe_ptry [OF post_safe [OF quiet_idle quiet_ok [OF assms(3)]] quiet_ok [OF assms(3)]])
      (simp add: answered_well_def)
next
  case (OutboxWorker ios)
  then have "\<forall>io \<in> set ios. order_ok (bi_order io)" using assms(1,2) by (auto simp: orders_ok_def)
  from worker_safe [OF quiet_idle quiet_ok [OF assms(3)] this] quiet_ok [OF assms(3)] show ?thesis
    unfolding OutboxWorker job_prog_def ledger_job.case
    by (rule shared_ledger.one.safe_pbind) (simp_all add: answered_well_def)
qed

lemma pool_outcome:
  assumes "pipeline_inv env to_vec (db, k)" and "orders_ok jobs"
    and "schedule order (job_pool env (kafka_outbox_publish to_vec sh script) patience jobs, quiet db k) = (qs, w)"
  shows "ledger_ok env to_vec w \<and> ledger_grows (quiet db k) w \<and>
    (\<forall>c < length jobs. \<forall>r. qs ! c = Done r \<longrightarrow> answered_well env (jobs ! c) r w)"
proof -
  let ?ps = "job_pool env (kafka_outbox_publish to_vec sh script) patience jobs"
  have safe: "\<forall>c < length ?ps. ledger_safe env to_vec c (?ps ! c) (answered_well env (jobs ! c)) (quiet db k)"
    using job_safe [OF assms(2) _ assms(1)] by (simp add: job_pool_def)
  have "length qs = length jobs"
    using schedule_length [OF assms(3)] by (simp add: job_pool_def)
  then show ?thesis
    using shared_ledger.schedule_safe [OF quiet_ok [OF assms(1)] safe assms(3)]
      shared_ledger.schedule_result [OF quiet_ok [OF assms(1)] safe assms(3)] by simp
qed

section \<open>A run\<close>

lemma kafka_start_inv: "pipeline_inv env to_vec (empty_db, kafka_start)"
  by (simp add: pipeline_inv_def kafka_pub.marked_delivered_def empty_db_def kafka_start_def ledger_wf_def)

abbreviation demo_publish :: "kafka_world publisher" where
  "demo_publish \<equiv> kafka_outbox_publish (\<lambda>j. Inr [1]) (\<lambda>e. []) (\<lambda>n. SendOk)"

text \<open>Two callers with one key and a worker: the second caller waits for the first transaction, is
  refused, rolls back and reads, while the worker runs.\<close>

definition demo_jobs :: "ledger_job list" where
  "demo_jobs = [PostCall (good_io 7 5000 8 5) (demo_params ''k1'' 500),
     PostCall (good_io 9 6000 10 6) (demo_params ''k1'' 500), OutboxWorker [demo_batch, demo_batch]]"

definition demo_order :: "nat list" where
  "demo_order = [0, 1, 2, 0, 1, 2, 1, 0, 2, 0, 1, 2, 1, 2, 2, 1, 2, 2]"

lemmas ledger_eval = schedule_Cons turn.simps patom_def pbind_def pmap_err_def job_pool_def job_prog_def quiet_def
  post_entry_prog_def post_insert_prog_def post_commit_prog_def post_read_prog_def lock_wait.simps rollback_prog_def
  worker_prog.simps round_prog_def round_body_prog_def round_rows_prog.simps tx_begin_def tx_commit_def commit_tx_def
  rollback_tx_def insert_busy_def outbox_busy_def post_insert_def post_outbox_def locked_io_def round_select_def
  round_publish_def round_mark_def mark_rows_def upt_rec batch_rows_def pending_def demo_batch_def
  kafka_start_def empty_db_def worker_after_def Let_def

lemma kafka_sends_one:
  assumes "to_vec p = Inr bs"
  shows "kafka_outbox_publish to_vec sh (\<lambda>n. SendOk) t key p k =
    (Inr (), k\<lparr>kw_log := kw_log k @ [\<lparr>km_topic = t, km_key = key, km_payload = bs\<rparr>], kw_calls := kw_calls k + 1\<rparr>)"
  using assms by (simp add: kafka_outbox_publish_def kafka_publish_def upt_rec max_retries_def kafka_send_def)

lemma demo_run:
  "map finished (fst (schedule demo_order (job_pool demo_env demo_publish 5 demo_jobs, quiet empty_db kafka_start))) =
    [Some (Inr (PostReply (Inr \<lparr>pr_entry = 7, pr_was_idempotent = False, pr_created = 5000\<rparr>))),
     Some (Inr (PostReply (Inr \<lparr>pr_entry = 7, pr_was_idempotent = True, pr_created = 5000\<rparr>))),
     Some (Inr (WorkerSlept [100, 0]))]"
proof -
  have env: "lv_dec19 demo_env \<lparr>mant = 500, dscale = 2\<rparr> = Some 50000" "lv_varchar255 demo_env ''k1''"
    "lv_coll demo_env = (\<lambda>s. s)" "lv_datetime6 demo_env = (\<lambda>t. t div 1000)"
    by (simp_all add: demo_env_def round_half_even_def)
  have guard: "post_guard (demo_params ''k1'' 500) = None" "''NGN'' \<in> set supported_currencies"
    by (simp_all add: post_guard_def dec_less_def dec_zero_def supported_currencies_def)
  show ?thesis
    by (simp add: demo_order_def demo_jobs_def ledger_eval kafka_sends_one env guard finished_def
        insert_ledger_entry_def insert_outbox_def post_duplicate_def)
qed

lemma demo_orders_ok: "orders_ok demo_jobs"
  by (simp add: orders_ok_def demo_jobs_def demo_batch_ok)

section \<open>Properties\<close>

text \<open>C4: The idempotency key is the mutex: whatever callers post at the same time with keys the engine
  takes to be equal, however their statements interleave with each other and with the outbox workers
  of any number of replicas and whatever fails, the callers that are answered with a result are
  answered with one and the same entry, the only one of that key, which carries the payload of each
  of them; and of two callers with ids of their own at most one is told that its call was not a
  repetition.\<close>

theorem concurrent_posts_share_one_entry:
  assumes "pipeline_inv env to_vec (db, k)" and "orders_ok jobs"
    and "schedule order (job_pool env (kafka_outbox_publish to_vec sh script) patience jobs, quiet db k) = (qs, w)"
    and "i < length jobs" and "jobs ! i = PostCall io p" and "qs ! i = Done (Inr (PostReply (Inr a)))"
    and "j < length jobs" and "jobs ! j = PostCall io2 p2" and "qs ! j = Done (Inr (PostReply (Inr b)))"
    and "lv_coll env (pp_key p) = lv_coll env (pp_key p2)"
  shows "\<exists>e. {x \<in> set (entries (lw_db w)). same_key env (pp_key p) x} = {e} \<and>
    le_id e = pr_entry a \<and> le_id e = pr_entry b \<and>
    le_hash e = Some (params_hash env p) \<and> le_hash e = Some (params_hash env p2) \<and>
    (io_entry_id io = io_entry_id io2 \<or> pr_was_idempotent a \<or> pr_was_idempotent b)"
proof -
  note out = pool_outcome [OF assms(1-3)]
  have key: "same_key env (pp_key p2) = same_key env (pp_key p)"
    using assms(10) by (simp add: same_key_def [abs_def])
  from out assms(4-6) have "post_named env io p (Inr a) w" by (auto simp: answered_well_def)
  then obtain e where e: "find (same_key env (pp_key p)) (entries (lw_db w)) = Some e" "le_id e = pr_entry a"
      "le_hash e = Some (params_hash env p)" "\<not> pr_was_idempotent a \<longrightarrow> (\<exists>n. e = posted_row env io p n)"
    by (auto simp: post_named_def)
  from out assms(7-9) have "post_named env io2 p2 (Inr b) w" by (auto simp: answered_well_def)
  with e(1) have b: "le_id e = pr_entry b" "le_hash e = Some (params_hash env p2)"
      "\<not> pr_was_idempotent b \<longrightarrow> (\<exists>n. e = posted_row env io2 p2 n)"
    by (auto simp: post_named_def key)
  have wf: "ledger_wf env (lw_db w)" using out by (simp add: ledger_ok_def pipeline_inv_def)
  have "{x \<in> set (entries (lw_db w)). same_key env (pp_key p) x} = {e}"
    using find_same_key_unique [OF wf] find_Some_in [OF e(1)] e(1) by fastforce
  moreover have "io_entry_id io = io_entry_id io2 \<or> pr_was_idempotent a \<or> pr_was_idempotent b"
    using e(4) b(3) by (auto simp: posted_row_def entry_of_def)
  ultimately show ?thesis using e b by blast
qed

theorem concurrent_posts_share_one_entry_witness:
  "\<exists>qs w e. schedule demo_order (job_pool demo_env demo_publish 5 demo_jobs, quiet empty_db kafka_start) = (qs, w) \<and>
    {x \<in> set (entries (lw_db w)). same_key demo_env ''k1'' x} = {e} \<and> le_id e = 7"
proof -
  obtain qs w where run: "schedule demo_order (job_pool demo_env demo_publish 5 demo_jobs, quiet empty_db kafka_start) = (qs, w)"
    by force
  with demo_run have "map finished qs ! 0 = Some (Inr (PostReply (Inr \<lparr>pr_entry = 7, pr_was_idempotent = False, pr_created = 5000\<rparr>)))"
    "map finished qs ! 1 = Some (Inr (PostReply (Inr \<lparr>pr_entry = 7, pr_was_idempotent = True, pr_created = 5000\<rparr>)))"
    by simp_all
  moreover have "length qs = 3"
    using schedule_length [OF run] by (simp add: job_pool_def demo_jobs_def)
  ultimately have r: "qs ! 0 = Done (Inr (PostReply (Inr \<lparr>pr_entry = 7, pr_was_idempotent = False, pr_created = 5000\<rparr>)))"
    "qs ! 1 = Done (Inr (PostReply (Inr \<lparr>pr_entry = 7, pr_was_idempotent = True, pr_created = 5000\<rparr>)))"
    by (simp_all add: finished_Done)
  have jobs: "demo_jobs ! 0 = PostCall (good_io 7 5000 8 5) (demo_params ''k1'' 500)"
    "demo_jobs ! 1 = PostCall (good_io 9 6000 10 6) (demo_params ''k1'' 500)" "0 < length demo_jobs" "1 < length demo_jobs"
    by (simp_all add: demo_jobs_def)
  from concurrent_posts_share_one_entry [OF kafka_start_inv demo_orders_ok run jobs(3,1) r(1) jobs(4,2) r(2)] run
  show ?thesis by auto
qed

text \<open>C9: The transactional outbox under concurrency: however the statements of any callers and of the
  workers of any number of replicas interleave and whatever fails, the tables stay well formed and
  only grow, a message is in the broker's log only for an entry that is committed, every committed
  entry has exactly one outbox row, and a row is marked as published only when its message is in the
  log.\<close>

theorem concurrent_events_follow_entries:
  assumes "pipeline_inv env to_vec (db, k)" and "orders_ok jobs"
    and "schedule order (job_pool env (kafka_outbox_publish to_vec sh script) patience jobs, quiet db k) = (qs, w)"
  shows "ledger_wf env (lw_db w) \<and> prefix (entries db) (entries (lw_db w)) \<and>
    (\<forall>m \<in> set (kw_log (lw_pub w)). km_topic m = entry_topic \<and>
      (\<exists>e \<in> set (entries (lw_db w)). km_key m = lv_hex env (id_bytes (le_id e)))) \<and>
    map ob_entry (outbox (lw_db w)) = map le_id (filter (\<lambda>e. le_hash e \<noteq> None) (entries (lw_db w))) \<and>
    (\<forall>r \<in> set (outbox (lw_db w)). ob_published r = None \<or>
      (\<exists>m \<in> set (kw_log (lw_pub w)). km_key m = lv_hex env (id_bytes (ob_entry r)) \<and>
        to_vec (ob_payload r) = Inr (km_payload m)))"
proof -
  have inv: "pipeline_inv env to_vec (lw_db w, lw_pub w)" "prefix (entries db) (entries (lw_db w))"
    using pool_outcome [OF assms] by (simp_all add: ledger_ok_def ledger_grows_def quiet_def)
  then show ?thesis
    using pipeline_inv_facts [OF inv(1)] by (simp add: pipeline_inv_def)
qed

theorem concurrent_events_follow_entries_witness:
  "\<exists>qs w. schedule demo_order (job_pool demo_env demo_publish 5 demo_jobs, quiet empty_db kafka_start) = (qs, w) \<and>
    ledger_wf demo_env (lw_db w) \<and>
    map ob_entry (outbox (lw_db w)) = map le_id (filter (\<lambda>e. le_hash e \<noteq> None) (entries (lw_db w)))"
proof -
  obtain qs w where run: "schedule demo_order (job_pool demo_env demo_publish 5 demo_jobs, quiet empty_db kafka_start) = (qs, w)"
    by force
  from concurrent_events_follow_entries [OF kafka_start_inv demo_orders_ok run] run show ?thesis by blast
qed

end
