(* ===== verification/Ledger_Replicas.thy ===== *)
theory Ledger_Replicas
  imports Ledger_Concurrent
begin

text \<open>
  Several replicas of \<open>services/kova-ledger\<close> run the outbox worker over one table: with \<open>FOR UPDATE SKIP
  LOCKED\<close> no row is sent by two of them, as long as every round that sends also commits.
\<close>

section \<open>The broker's log\<close>

definition message_key :: "ledger_env \<Rightarrow> outbox_row \<Rightarrow> string" where
  "message_key env r = lv_hex env (id_bytes (ob_entry r))"

definition sent_keys :: "kafka_world ledger_world \<Rightarrow> string set" where
  "sent_keys w = km_key ` set (kw_log (lw_pub w))"

definition locked_ids :: "'k ledger_world \<Rightarrow> id16 set" where
  "locked_ids w = snd ` set (lw_locked w)"

text \<open>No key is in the log twice, no row is locked twice, and the row of a message is marked or
  locked.\<close>

definition sent_once :: "ledger_env \<Rightarrow> kafka_world ledger_world \<Rightarrow> bool" where
  "sent_once env w \<longleftrightarrow>
     distinct (map km_key (kw_log (lw_pub w))) \<and> distinct (map snd (lw_locked w)) \<and>
     (\<forall>key \<in> sent_keys w. \<exists>r \<in> set (outbox (lw_db w)). message_key env r = key \<and>
        (ob_published r \<noteq> None \<or> ob_id r \<in> locked_ids w))"

text \<open>What the others leave as it is: a row that a connection has locked is not sent by them.\<close>

definition unsent_kept :: "ledger_env \<Rightarrow> nat \<Rightarrow> kafka_world ledger_world \<Rightarrow> kafka_world ledger_world \<Rightarrow> bool" where
  "unsent_kept env c u v \<longleftrightarrow>
     (\<forall>r \<in> set (outbox (lw_db u)). ob_id r \<in> set (own c (lw_locked u)) \<longrightarrow>
        message_key env r \<notin> sent_keys u \<longrightarrow> message_key env r \<notin> sent_keys v)"

definition replica_rely :: "ledger_env \<Rightarrow> nat \<Rightarrow> kafka_world ledger_world \<Rightarrow> kafka_world ledger_world \<Rightarrow> bool" where
  "replica_rely env c u v \<longleftrightarrow> ledger_rely c u v \<and> unsent_kept env c u v"

definition replica_guar :: "ledger_env \<Rightarrow> nat \<Rightarrow> kafka_world ledger_world \<Rightarrow> kafka_world ledger_world \<Rightarrow> bool" where
  "replica_guar env c u v \<longleftrightarrow> ledger_guar c u v \<and> (\<forall>d. d \<noteq> c \<longrightarrow> unsent_kept env d u v)"

definition replica_ok ::
  "ledger_env \<Rightarrow> (json \<Rightarrow> string + byte list) \<Rightarrow> kafka_world ledger_world \<Rightarrow> bool" where
  "replica_ok env to_vec w \<longleftrightarrow> ledger_ok env to_vec w \<and> sent_once env w"

lemma same_core_key: "same_core q r \<Longrightarrow> message_key env r = message_key env q"
  by (simp add: same_core_def message_key_def)

lemma replica_rely_trans:
  assumes "replica_rely env c u v" and "replica_rely env c v w"
  shows "replica_rely env c u w"
proof -
  have "message_key env r \<notin> sent_keys w"
    if r: "r \<in> set (outbox (lw_db u))" "ob_id r \<in> set (own c (lw_locked u))" "message_key env r \<notin> sent_keys u" for r
  proof -
    obtain r' where r': "r' \<in> set (outbox (lw_db v))" "same_core r r'"
      using assms(1) r(1) by (auto simp: replica_rely_def ledger_rely_def ledger_grows_def kept_rows_def)
    have "message_key env r' \<notin> sent_keys v" "ob_id r' \<in> set (own c (lw_locked v))"
      using assms(1) r r'(2) same_core_key [OF r'(2)]
      by (auto simp: replica_rely_def unsent_kept_def ledger_rely_def same_own_def same_core_def)
    with assms(2) r'(1) have "message_key env r' \<notin> sent_keys w"
      by (auto simp: replica_rely_def unsent_kept_def)
    with same_core_key [OF r'(2)] show ?thesis by simp
  qed
  with assms shared_ledger.one.rely_trans show ?thesis
    unfolding replica_rely_def unsent_kept_def by blast
qed

interpretation replicas: owned_world "replica_ok env to_vec" "replica_rely env" "replica_guar env" ledger_grows
  for env to_vec
proof (intro owned_world.intro rely_guarantee.intro)
  show "replica_rely env c u w" if "replica_rely env c u v" "replica_rely env c v w" for c u v w
    using that by (rule replica_rely_trans)
  show "ledger_grows u w" if "ledger_grows u v" "ledger_grows v w" for u v w
    using that by (rule ledger_grows_trans)
qed (auto simp: replica_rely_def replica_guar_def unsent_kept_def ledger_rely_def ledger_guar_def)

lemma replica_guar_refl: "replica_guar env c v v"
  by (simp add: replica_guar_def unsent_kept_def)

abbreviation replica_safe where
  "replica_safe env to_vec c \<equiv> replicas.one.safe env to_vec c"

section \<open>Programs that send nothing\<close>

text \<open>A program of a connection with no row locked that leaves broker and locks alone.\<close>

interpretation mute: rely_guarantee "\<lambda>w. own c (lw_locked w) = []" "\<lambda>u v. True"
    "\<lambda>u v. lw_pub v = lw_pub u \<and> lw_locked v = lw_locked u" "\<lambda>u v. True" for c
  by unfold_locales auto

lemma sent_once_kept:
  assumes "sent_once env u" and "ledger_grows u v" and "lw_pub v = lw_pub u" and "lw_locked v = lw_locked u"
  shows "sent_once env v"
proof -
  have "\<exists>r \<in> set (outbox (lw_db v)). message_key env r = key \<and> (ob_published r \<noteq> None \<or> ob_id r \<in> locked_ids v)"
    if "key \<in> sent_keys v" for key
  proof -
    have "key \<in> sent_keys u" using that assms(3) by (simp add: sent_keys_def)
    with assms(1) obtain r where r: "r \<in> set (outbox (lw_db u))" "message_key env r = key"
        "ob_published r \<noteq> None \<or> ob_id r \<in> locked_ids u" by (auto simp: sent_once_def)
    obtain r' where r': "r' \<in> set (outbox (lw_db v))" "same_core r r'" "ob_published r \<noteq> None \<longrightarrow> ob_published r' \<noteq> None"
      using assms(2) r(1) by (auto simp: ledger_grows_def kept_rows_def)
    with r(2,3) same_core_key [OF r'(2)] show ?thesis
      using assms(4) by (intro bexI [OF _ r'(1)]) (auto simp: same_core_def locked_ids_def)
  qed
  with assms show ?thesis by (simp add: sent_once_def)
qed

lemma mute_replica_safe:
  assumes "ledger_safe env to_vec c p Q w" and "mute.safe c p R w"
    and "own c (lw_locked w) = []"
  shows "replica_safe env to_vec c p Q w"
  using assms
proof (induction p arbitrary: w)
  case (Done r)
  have "Q r v" if "replica_ok env to_vec v" "replica_rely env c w v" for v
    using Done.prems(1) that by (simp add: replica_ok_def replica_rely_def)
  then show ?case by simp
next
  case (Act m)
  show ?case
  proof (rule replicas.one.safe_ActI)
    fix v p v' assume v: "replica_ok env to_vec v" "replica_rely env c w v" and m: "m v = (p, v')"
    have ok: "ledger_ok env to_vec v" "ledger_rely c w v" using v by (simp_all add: replica_ok_def replica_rely_def)
    have none: "own c (lw_locked v) = []" using ok(2) Act.prems(3) by (simp add: ledger_rely_def same_own_def)
    from shared_ledger.one.safe_Act [OF Act.prems(1) ok m]
    have s: "ledger_ok env to_vec v'" "ledger_guar c v v'" "ledger_safe env to_vec c p Q v'" by auto
    from mute.safe_Act [OF Act.prems(2) none _ m]
    have q: "own c (lw_locked v') = []" "lw_pub v' = lw_pub v" "lw_locked v' = lw_locked v" "mute.safe c p R v'"
      by auto
    have "sent_once env v'"
      by (rule sent_once_kept [of env v]) (use v(1) s(2) q in \<open>auto simp: replica_ok_def ledger_guar_def\<close>)
    moreover have "unsent_kept env d v v'" for d
      using q(2) by (simp add: unsent_kept_def sent_keys_def)
    moreover have "replica_safe env to_vec c p Q v'"
      by (rule Act.IH [of "(p, v')" p]) (use s q m in \<open>auto intro: range_eqI [of _ _ v]\<close>)
    ultimately show "replica_ok env to_vec v' \<and> replica_guar env c v v' \<and> replica_safe env to_vec c p Q v'"
      using s by (simp add: replica_ok_def replica_guar_def)
  qed
qed simp

lemma mute_act:
  assumes "\<And>w r w'. own c (lw_locked w) = [] \<Longrightarrow> m w = (r, w') \<Longrightarrow>
    lw_pub w' = lw_pub w \<and> lw_locked w' = lw_locked w"
  shows "mute.calm c (patom m)"
  unfolding mute.calm_def
proof (intro allI impI, rule mute.safe_patom)
  fix v r v' assume "own c (lw_locked v) = []" "m v = (r, v')"
  with assms [OF this] show "own c (lw_locked v') = [] \<and> (lw_pub v' = lw_pub v \<and> lw_locked v' = lw_locked v) \<and>
      (\<forall>u. own c (lw_locked u) = [] \<longrightarrow> True \<longrightarrow> True)" by simp
qed

lemma mute_wait:
  assumes "\<And>w r w'. own c (lw_locked w) = [] \<Longrightarrow> m w = (r, w') \<Longrightarrow>
    lw_pub w' = lw_pub w \<and> lw_locked w' = lw_locked w"
  shows "mute.calm c (lock_wait busy m n)"
  unfolding mute.calm_def
proof (intro allI impI, rule mute.safe_lock_wait)
  fix v r v' assume "own c (lw_locked v) = []" "m v = (r, v')"
  with assms [OF this] show "own c (lw_locked v') = [] \<and> (lw_pub v' = lw_pub v \<and> lw_locked v' = lw_locked v) \<and>
      (\<forall>u. own c (lw_locked u) = [] \<longrightarrow> True \<longrightarrow> True)" by simp
qed simp

lemma mute_post: "mute.calm c (post_entry_prog c env patience io p)"
  unfolding post_entry_prog_def post_insert_prog_def post_commit_prog_def post_read_prog_def rollback_prog_def Let_def
  by (intro mute.calm_rules mute_act mute_wait)
    (auto simp: tx_begin_def tx_commit_def commit_tx_def rollback_tx_def others_none post_insert_def post_outbox_def
      split: option.splits sum.splits commit_outcome.splits)

lemma post_replica_safe:
  assumes "idle c w" and "ledger_ok env to_vec w"
  shows "replica_safe env to_vec c (post_entry_prog c env patience io p) (\<lambda>r u. True) w"
proof -
  have none: "own c (lw_locked w) = []" using assms(1) by (simp add: idle_def)
  from mute_post none have "mute.safe c (post_entry_prog c env patience io p) (\<lambda>r v. True) w"
    unfolding mute.calm_def by blast
  with shared_ledger.one.safe_conseq [OF post_safe [OF assms] assms(2) TrueI] show ?thesis
    using none by (rule mute_replica_safe)
qed

section \<open>Rounds in which nothing fails after a row was sent\<close>

definition faultless :: "batch_io \<Rightarrow> bool" where
  "faultless io \<longleftrightarrow> order_ok (bi_order io) \<and> (\<forall>i. bi_update io i = None) \<and> bi_commit io = CommitDone"

text \<open>The rows \<open>ds\<close> are sent and marked, the rows \<open>qs\<close> are sent, the rows \<open>rs\<close> are neither.\<close>

definition sending ::
  "ledger_env \<Rightarrow> (json \<Rightarrow> string + byte list) \<Rightarrow> nat \<Rightarrow> outbox_row list \<Rightarrow> outbox_row list \<Rightarrow> outbox_row list
    \<Rightarrow> kafka_world ledger_world \<Rightarrow> bool" where
  "sending env to_vec c ds qs rs u \<longleftrightarrow>
     round_inv env to_vec c (ds @ qs @ rs) u \<and> own c (lw_locked u) = map ob_id (ds @ qs @ rs) \<and>
     map fst (own c (lw_marked u)) = map ob_id ds \<and>
     (\<forall>q \<in> set qs. delivered_id env to_vec (ob_id q) u) \<and> (\<forall>r \<in> set rs. message_key env r \<notin> sent_keys u)"

lemma round_inv_subset: "round_inv env to_vec c rs u \<Longrightarrow> set qs \<subseteq> set rs \<Longrightarrow> round_inv env to_vec c qs u"
  by (auto simp: round_inv_def)

lemma sending_held:
  assumes "sending env to_vec c ds qs rs u" and "r \<in> set (ds @ qs @ rs)"
  obtains r' where "r' \<in> set (outbox (lw_db u))" "ob_id r' = ob_id r" "message_key env r' = message_key env r"
proof -
  have "\<exists>r' \<in> set (outbox (lw_db u)). same_core r r'"
    using assms by (simp add: sending_def round_inv_def)
  then show thesis using that by (auto simp: same_core_def message_key_def)
qed

lemma sending_rely:
  assumes "sending env to_vec c ds qs rs u" and "replica_rely env c u v"
  shows "sending env to_vec c ds qs rs v"
proof -
  have rely: "ledger_rely c u v" "unsent_kept env c u v" using assms(2) by (simp_all add: replica_rely_def)
  have "message_key env r \<notin> sent_keys v" if r: "r \<in> set rs" for r
  proof -
    have "r \<in> set (ds @ qs @ rs)" using r by simp
    from sending_held [OF assms(1) this] obtain r' where
      "r' \<in> set (outbox (lw_db u))" "ob_id r' = ob_id r" "message_key env r' = message_key env r" .
    with assms(1) r rely(2) show ?thesis by (auto simp: sending_def unsent_kept_def)
  qed
  moreover have "round_inv env to_vec c (ds @ qs @ rs) v" "\<forall>q \<in> set qs. delivered_id env to_vec (ob_id q) v"
    using assms(1) round_inv_rely [OF _ rely(1)] delivered_id_rely [OF _ rely(1)] unfolding sending_def by blast+
  ultimately show ?thesis
    using assms(1) rely(1) by (simp add: sending_def ledger_rely_def same_own_def)
qed

text \<open>Different rows have different keys, and a row is locked by one connection.\<close>

lemma message_key_inject:
  assumes ok: "ledger_ok env to_vec w" and hex: "inj (\<lambda>i. lv_hex env (id_bytes i))"
    and "q \<in> set (outbox (lw_db w))" and "r \<in> set (outbox (lw_db w))" and "message_key env q = message_key env r"
  shows "q = r"
proof -
  have "distinct (map ob_entry (outbox (lw_db w)))"
    using ok by (auto simp: ledger_ok_def pipeline_inv_def ledger_wf_def intro: distinct_map_filter)
  moreover have "ob_entry q = ob_entry r"
    using assms(5) injD [OF hex] by (simp add: message_key_def)
  ultimately show ?thesis using assms(3,4) by (simp add: distinct_map inj_on_def)
qed

lemma one_owner: "distinct (map snd xs) \<Longrightarrow> i \<in> set (own c xs) \<Longrightarrow> i \<in> set (own d xs) \<Longrightarrow> c = d"
  unfolding distinct_map inj_on_def in_own by fastforce

lemma distinct_own_ids: "distinct (map snd xs) \<Longrightarrow> distinct (own c xs)"
  by (simp add: own_def distinct_map_filter)

lemma select_once:
  assumes ok: "replica_ok env to_vec v" and idle: "idle c v" and order: "order_ok (bi_order io)"
    and hex: "inj (\<lambda>i. lv_hex env (id_bytes i))" and m: "round_select c io v = (q, v')"
  shows "replica_ok env to_vec v' \<and> replica_guar env c v v' \<and>
    (case q of Inl e \<Rightarrow> idle c v' | Inr rows \<Rightarrow> sending env to_vec c [] [] rows v')"
proof (cases q)
  case (Inl e)
  then have "v' = v" using m by (auto simp: round_select_def Let_def split: option.splits)
  with ok idle Inl show ?thesis by (simp add: replica_guar_refl)
next
  case (Inr rows)
  have l: "ledger_ok env to_vec v" "sent_once env v" using ok by (simp_all add: replica_ok_def)
  from select_effect [OF l(1) round_inv_idle [OF idle] order m] Inr
  have eff: "ledger_ok env to_vec v'" "ledger_guar c v v'" "round_inv env to_vec c rows v'" by auto
  have rows: "rows = batch_rows (locked_io io v) (outbox (lw_db v))"
      "v' = v\<lparr>lw_locked := lw_locked v @ map (\<lambda>r. (c, ob_id r)) rows\<rparr>"
    using m Inr by (auto simp: round_select_def Let_def split: option.splits)
  have order': "order_ok (bi_order (locked_io io v))" using order by (simp add: locked_io_def)
  have sub: "r \<in> set (outbox (lw_db v)) \<and> ob_published r = None \<and> ob_id r \<notin> locked_ids v" if "r \<in> set rows" for r
    using batch_rows_subset [OF order', of "outbox (lw_db v)"] that
    by (force simp: rows(1) pending_def locked_io_def list_ex_iff locked_ids_def)
  have dist: "distinct (map ob_id rows)"
    unfolding rows(1) by (rule batch_rows_distinct [OF order']) (use l(1) in \<open>auto simp: ledger_ok_def intro: one_key_rows\<close>)
  have unsent: "message_key env r \<notin> sent_keys v" if r: "r \<in> set rows" for r
  proof
    assume "message_key env r \<in> sent_keys v"
    with l(2) obtain x where x: "x \<in> set (outbox (lw_db v))" "message_key env x = message_key env r"
        "ob_published x \<noteq> None \<or> ob_id x \<in> locked_ids v" by (auto simp: sent_once_def)
    from message_key_inject [OF l(1) hex x(1) _ x(2)] sub [OF r] have "x = r" by blast
    with x(3) sub [OF r] show False by auto
  qed
  have same: "lw_pub v' = lw_pub v" "lw_db v' = lw_db v" "lw_marked v' = lw_marked v" by (simp_all add: rows(2))
  have "ob_id ` set rows \<inter> snd ` set (lw_locked v) = {}"
    using sub unfolding locked_ids_def by fast
  then have "distinct (map snd (lw_locked v'))"
    using l(2) dist by (auto simp: rows(2) sent_once_def comp_def)
  moreover have "sent_keys v' = sent_keys v" by (simp add: sent_keys_def same)
  moreover have "locked_ids v \<subseteq> locked_ids v'" by (auto simp: locked_ids_def rows(2))
  ultimately have "sent_once env v'"
    using l(2) unfolding sent_once_def same by (metis (no_types, lifting) in_mono)
  moreover have "unsent_kept env d v v'" for d by (simp add: unsent_kept_def sent_keys_def same)
  moreover have "sending env to_vec c [] [] rows v'"
    using eff(3) idle unsent by (auto simp: sending_def rows(2) idle_def sent_keys_def)
  ultimately show ?thesis
    using eff Inr by (simp add: replica_ok_def replica_guar_def)
qed

lemma send_once:
  assumes ok: "replica_ok env to_vec v" and inv: "sending env to_vec c ds [] (r # rs) v"
    and hex: "inj (\<lambda>i. lv_hex env (id_bytes i))" and total: "\<And>p. \<exists>bs. to_vec p = Inr bs"
    and m: "round_publish env (kafka_outbox_publish to_vec sh (\<lambda>n. SendOk)) r v = (q, v')"
  shows "replica_ok env to_vec v' \<and> replica_guar env c v v' \<and> q = Inr () \<and> sending env to_vec c ds [r] rs v'"
proof -
  have l: "ledger_ok env to_vec v" "sent_once env v" using ok by (simp_all add: replica_ok_def)
  obtain bs where bs: "to_vec (ob_payload r) = Inr bs" using total by blast
  have v': "q = Inr ()" "lw_db v' = lw_db v" "lw_locked v' = lw_locked v" "lw_marked v' = lw_marked v"
      "sent_keys v' = insert (message_key env r) (sent_keys v)"
      "map km_key (kw_log (lw_pub v')) = map km_key (kw_log (lw_pub v)) @ [message_key env r]"
    using m by (auto simp: round_publish_def kafka_sends_one [of to_vec "ob_payload r", OF bs] sent_keys_def message_key_def)
  have "round_inv env to_vec c (r # ds @ r # rs) v"
    by (rule round_inv_subset [of _ _ _ "ds @ r # rs"]) (use inv in \<open>auto simp: sending_def\<close>)
  from publish_effect [OF l(1) this m] v'(1) have eff: "ledger_ok env to_vec v'" "ledger_guar c v v'"
      "round_inv env to_vec c (r # ds @ r # rs) v'" "delivered_id env to_vec (ob_id r) v'" by auto
  have locked: "own c (lw_locked v) = map ob_id (ds @ r # rs)" using inv by (simp add: sending_def)
  have new: "message_key env r \<notin> sent_keys v" using inv by (simp add: sending_def)
  obtain x where x: "x \<in> set (outbox (lw_db v))" "ob_id x = ob_id r" "message_key env x = message_key env r"
    by (rule sending_held [OF inv, of r]) simp_all
  have "ob_id r \<in> locked_ids v"
    using locked by (force simp: locked_ids_def dest: arg_cong [where f = set])
  moreover have "message_key env r \<notin> set (map km_key (kw_log (lw_pub v)))" using new by (simp add: sent_keys_def)
  moreover have "locked_ids v' = locked_ids v" by (simp add: locked_ids_def v')
  ultimately have "sent_once env v'"
    using l(2) x unfolding sent_once_def v' by auto
  moreover have "unsent_kept env d v v'" if d: "d \<noteq> c" for d
  proof -
    have "message_key env y \<noteq> message_key env r" if y: "y \<in> set (outbox (lw_db v))" "ob_id y \<in> set (own d (lw_locked v))" for y
    proof
      assume "message_key env y = message_key env r"
      with message_key_inject [OF l(1) hex y(1) x(1)] x have "ob_id y = ob_id r" by simp
      with y(2) d one_owner [of "lw_locked v" "ob_id r" c d] l(2) locked show False by (simp add: sent_once_def)
    qed
    then show ?thesis by (simp add: unsent_kept_def v')
  qed
  moreover have "message_key env y \<noteq> message_key env r" if y: "y \<in> set rs" for y
  proof
    assume k: "message_key env y = message_key env r"
    obtain z where z: "z \<in> set (outbox (lw_db v))" "ob_id z = ob_id y" "message_key env z = message_key env y"
      by (rule sending_held [OF inv, of y]) (use y in simp_all)
    from message_key_inject [OF l(1) hex z(1) x(1)] z x k have "ob_id y = ob_id r" by simp
    moreover have "distinct (map ob_id (ds @ r # rs))"
      using l(2) distinct_own_ids unfolding locked [symmetric] by (auto simp: sent_once_def)
    ultimately show False using imageI [OF y, of ob_id] by auto
  qed
  then have "sending env to_vec c ds [r] rs v'"
    using inv eff(3,4) round_inv_subset [OF eff(3), of "ds @ r # rs"] by (auto simp: sending_def v')
  ultimately show ?thesis
    using eff(1,2) v'(1) by (simp add: replica_ok_def replica_guar_def)
qed

lemma mark_once:
  assumes ok: "replica_ok env to_vec v" and inv: "sending env to_vec c ds [r] rs v"
    and fine: "bi_update io (ob_id r) = None" and m: "round_mark c io r v = (q, v')"
  shows "replica_ok env to_vec v' \<and> replica_guar env c v v' \<and> q = Inr () \<and> sending env to_vec c (ds @ [r]) [] rs v'"
proof -
  have l: "ledger_ok env to_vec v" "sent_once env v" using ok by (simp_all add: replica_ok_def)
  have v': "q = Inr ()" "v' = v\<lparr>lw_marked := lw_marked v @ [(c, ob_id r, bi_now io)]\<rparr>"
    using m fine by (auto simp: round_mark_def)
  have "round_inv env to_vec c (r # ds @ r # rs) v"
    by (rule round_inv_subset [of _ _ _ "ds @ r # rs"]) (use inv in \<open>auto simp: sending_def\<close>)
  from mark_effect [OF l(1) this _ m] inv
  have eff: "ledger_ok env to_vec v'" "ledger_guar c v v'" "round_inv env to_vec c (ds @ r # rs) v'"
    by (auto simp: sending_def)
  have "sent_once env v'" by (rule sent_once_kept [OF l(2)]) (use eff(2) in \<open>auto simp: v' ledger_guar_def\<close>)
  moreover have "unsent_kept env d v v'" for d by (simp add: unsent_kept_def sent_keys_def v')
  moreover have "sending env to_vec c (ds @ [r]) [] rs v'"
    using inv eff(3) by (simp add: sending_def v' sent_keys_def)
  ultimately show ?thesis
    using eff(1,2) v'(1) by (simp add: replica_ok_def replica_guar_def)
qed

lemma commit_once:
  assumes ok: "replica_ok env to_vec v" and inv: "sending env to_vec c ds [] [] v"
  shows "replica_ok env to_vec (commit_tx c v) \<and> replica_guar env c v (commit_tx c v)"
proof -
  let ?ms = "own c (lw_marked v)"
  have l: "ledger_ok env to_vec v" "sent_once env v" using ok by (simp_all add: replica_ok_def)
  have "round_inv env to_vec c ds v" using inv by (simp add: sending_def)
  note eff = commit_ok [OF l(1) round_inv_ready [OF this]]
  have marks: "fst ` set ?ms = set (own c (lw_locked v))"
    using inv by (metis append_Nil2 list.set_map sending_def)
  have same: "lw_pub (commit_tx c v) = lw_pub v" "lw_locked (commit_tx c v) = others c (lw_locked v)"
    "outbox (lw_db (commit_tx c v)) = mark_rows ?ms (outbox (lw_db v)) @ own c (lw_out v)"
    by (simp_all add: commit_tx_def rollback_tx_def)
  have "\<exists>r \<in> set (outbox (lw_db (commit_tx c v))). message_key env r = key \<and>
      (ob_published r \<noteq> None \<or> ob_id r \<in> locked_ids (commit_tx c v))" if "key \<in> sent_keys v" for key
  proof -
    from l(2) that obtain r where r: "r \<in> set (outbox (lw_db v))" "message_key env r = key"
        "ob_published r \<noteq> None \<or> ob_id r \<in> locked_ids v" by (auto simp: sent_once_def)
    let ?r = "case map_of ?ms (ob_id r) of None \<Rightarrow> r | Some t \<Rightarrow> r\<lparr>ob_published := Some t\<rparr>"
    have "?r \<in> set (outbox (lw_db (commit_tx c v)))" using r(1) by (simp add: same mark_rows_def)
    moreover have "message_key env ?r = key" "ob_id ?r = ob_id r"
      using r(2) by (auto simp: message_key_def split: option.split)
    moreover have "ob_published ?r \<noteq> None \<or> ob_id r \<in> locked_ids (commit_tx c v)"
    proof (cases "ob_id r \<in> fst ` set ?ms")
      case True
      then show ?thesis by (auto simp: map_of_eq_None_iff split: option.split)
    next
      case False
      then have "map_of ?ms (ob_id r) = None" by (simp add: map_of_eq_None_iff)
      moreover have "ob_id r \<in> locked_ids v \<Longrightarrow> ob_id r \<in> locked_ids (commit_tx c v)"
        using False unfolding marks by (force simp: locked_ids_def same)
      ultimately show ?thesis using r(3) by auto
    qed
    ultimately show ?thesis by metis
  qed
  moreover have "distinct (map snd (lw_locked (commit_tx c v)))"
    using l(2) by (simp add: sent_once_def same others_def distinct_map_filter)
  moreover have "sent_keys (commit_tx c v) = sent_keys v" by (simp add: sent_keys_def same)
  ultimately have "sent_once env (commit_tx c v)"
    using l(2) by (simp add: sent_once_def same(1))
  moreover have "unsent_kept env d v (commit_tx c v)" for d by (simp add: unsent_kept_def sent_keys_def same)
  ultimately show ?thesis
    using eff by (simp add: replica_ok_def replica_guar_def)
qed

text \<open>The loop over the rows, the round, the worker.\<close>

lemma replica_idle_rely: "idle c u \<Longrightarrow> replica_rely env c u v \<Longrightarrow> idle c v"
  using idle_rely by (simp add: replica_rely_def)

lemma act_once:
  assumes "P w" and "\<And>u v. P u \<Longrightarrow> replica_rely env c u v \<Longrightarrow> P v"
    and "\<And>v q v'. replica_ok env to_vec v \<Longrightarrow> P v \<Longrightarrow> m v = (q, v') \<Longrightarrow>
      replica_ok env to_vec v' \<and> replica_guar env c v v' \<and> Q q v'"
    and "\<And>q u v. Q q u \<Longrightarrow> replica_rely env c u v \<Longrightarrow> Q q v"
  shows "replica_safe env to_vec c (patom m) Q w"
proof (rule replicas.one.safe_patom)
  fix v q v' assume v: "replica_ok env to_vec v" "replica_rely env c w v" and m: "m v = (q, v')"
  from assms(3) [OF v(1) assms(2) [OF assms(1) v(2)] m] assms(4)
  show "replica_ok env to_vec v' \<and> replica_guar env c v v' \<and>
      (\<forall>u. replica_ok env to_vec u \<longrightarrow> replica_rely env c v' u \<longrightarrow> Q q u)" by blast
qed

text \<open>Serialisation does not fail and hex loses nothing.\<close>

definition lossless :: "ledger_env \<Rightarrow> (json \<Rightarrow> string + byte list) \<Rightarrow> bool" where
  "lossless env to_vec \<longleftrightarrow> inj (\<lambda>i. lv_hex env (id_bytes i)) \<and> (\<forall>p. \<exists>bs. to_vec p = Inr bs)"

lemma rows_once:
  assumes "sending env to_vec c ds [] rs w" and "replica_ok env to_vec w" and "faultless io" and "lossless env to_vec"
  shows "replica_safe env to_vec c (round_rows_prog c env (kafka_outbox_publish to_vec sh (\<lambda>n. SendOk)) io rs)
    (\<lambda>q u. q = Inr () \<and> sending env to_vec c (ds @ rs) [] [] u) w"
  using assms(1,2)
proof (induction rs arbitrary: ds w)
  case Nil
  then show ?case using sending_rely by auto
next
  case (Cons r rs)
  let ?pub = "kafka_outbox_publish to_vec sh (\<lambda>n. SendOk)"
  have hex: "inj (\<lambda>i. lv_hex env (id_bytes i))" and total: "\<And>p. \<exists>bs. to_vec p = Inr bs"
    using assms(4) by (simp_all add: lossless_def)
  have send: "replica_safe env to_vec c (patom (round_publish env ?pub r))
      (\<lambda>q u. q = Inr () \<and> sending env to_vec c ds [r] rs u) w"
  proof (rule act_once [where P = "sending env to_vec c ds [] (r # rs)", OF Cons.prems(1) sending_rely])
    fix v q v' assume "replica_ok env to_vec v" "sending env to_vec c ds [] (r # rs) v"
      "round_publish env ?pub r v = (q, v')"
    from send_once [OF this(1,2) hex total this(3)] show "replica_ok env to_vec v' \<and> replica_guar env c v v' \<and>
      q = Inr () \<and> sending env to_vec c ds [r] rs v'" .
  qed (use sending_rely in blast)+
  show ?case
    unfolding round_rows_prog.simps
  proof (rule replicas.one.safe_pbind [OF send Cons.prems(2)])
    fix x v assume v: "replica_ok env to_vec v" "\<forall>u. replica_ok env to_vec u \<longrightarrow> replica_rely env c v u \<longrightarrow>
        Inr x = (Inr () :: batch_error + unit) \<and> sending env to_vec c ds [r] rs u"
    then have s: "sending env to_vec c ds [r] rs v" using replicas.one.rely_refl by blast
    have fine: "bi_update io (ob_id r) = None" using assms(3) by (simp add: faultless_def)
    have mark: "replica_safe env to_vec c (patom (round_mark c io r))
        (\<lambda>q u. q = Inr () \<and> sending env to_vec c (ds @ [r]) [] rs u) v"
      by (rule act_once [where P = "sending env to_vec c ds [r] rs"])
        (use s sending_rely mark_once [OF _ _ fine] in blast)+
    show "replica_safe env to_vec c (pbind (patom (round_mark c io r)) (\<lambda>_. round_rows_prog c env ?pub io rs))
        (\<lambda>q u. q = Inr () \<and> sending env to_vec c (ds @ r # rs) [] [] u) v"
    proof (rule replicas.one.safe_pbind [OF mark v(1)])
      fix y u assume u: "replica_ok env to_vec u" "\<forall>x. replica_ok env to_vec x \<longrightarrow> replica_rely env c u x \<longrightarrow>
          Inr y = (Inr () :: batch_error + unit) \<and> sending env to_vec c (ds @ [r]) [] rs x"
      then have "sending env to_vec c (ds @ [r]) [] rs u" using replicas.one.rely_refl by blast
      from Cons.IH [OF this u(1)]
      show "replica_safe env to_vec c (round_rows_prog c env ?pub io rs)
          (\<lambda>q u. q = Inr () \<and> sending env to_vec c (ds @ r # rs) [] [] u) u" by simp
    qed simp
  qed simp
qed

lemma finish_once:
  assumes "sending env to_vec c rows [] [] w" and "replica_ok env to_vec w" and "faultless io"
  shows "replica_safe env to_vec c (pbind (pmap_err BatchDb (patom (tx_commit c (bi_commit io)))) (\<lambda>_.
    Done (Inr (length rows)))) (\<lambda>q. idle c) w"
proof (rule replicas.one.safe_pbind [OF replicas.one.safe_pmap_err assms(2)])
  show "replica_safe env to_vec c (patom (tx_commit c (bi_commit io))) (\<lambda>q. idle c) w"
    by (rule act_once [where P = "sending env to_vec c rows [] []"])
      (use assms sending_rely replica_idle_rely commit_once in \<open>auto simp: faultless_def tx_commit_def\<close>)
qed (use assms(2) replicas.one.rely_refl in auto)

lemma batch_once:
  assumes "sending env to_vec c [] [] rows w" and "replica_ok env to_vec w" and "faultless io" and "lossless env to_vec"
  shows "replica_safe env to_vec c (if rows = [] then ptry (rollback_prog c) (\<lambda>_. Done (Inr 0))
     else pbind (round_rows_prog c env (kafka_outbox_publish to_vec sh (\<lambda>n. SendOk)) io rows) (\<lambda>_.
          pbind (pmap_err BatchDb (patom (tx_commit c (bi_commit io)))) (\<lambda>_.
          Done (Inr (length rows))))) (\<lambda>q. idle c) w"
proof (cases "rows = []")
  case True
  then have "idle c w" using assms(1) by (simp add: sending_def round_inv_def idle_def)
  then have "replica_safe env to_vec c (rollback_prog c) (\<lambda>q. idle c) w"
    unfolding rollback_prog_def
    by (rule act_once [where P = "idle c"])
      (use replica_idle_rely in \<open>auto simp: rollback_idle replica_guar_refl\<close>)
  with True assms(2) show ?thesis by (auto intro: replicas.one.safe_ptry)
next
  case False
  have "replica_safe env to_vec c (pbind (round_rows_prog c env (kafka_outbox_publish to_vec sh (\<lambda>n. SendOk)) io rows)
      (\<lambda>_. pbind (pmap_err BatchDb (patom (tx_commit c (bi_commit io)))) (\<lambda>_. Done (Inr (length rows)))))
      (\<lambda>q. idle c) w"
  proof (rule replicas.one.safe_pbind [OF rows_once [OF assms] assms(2)])
    fix y z assume z: "replica_ok env to_vec z" "\<forall>x. replica_ok env to_vec x \<longrightarrow> replica_rely env c z x \<longrightarrow>
      Inr y = (Inr () :: batch_error + unit) \<and> sending env to_vec c ([] @ rows) [] [] x"
    then have "sending env to_vec c rows [] [] z" using replicas.one.rely_refl by fastforce
    from finish_once [OF this z(1) assms(3)]
    show "replica_safe env to_vec c (pbind (pmap_err BatchDb (patom (tx_commit c (bi_commit io)))) (\<lambda>_.
      Done (Inr (length rows)))) (\<lambda>q. idle c) z" .
  qed simp
  with False show ?thesis by simp
qed

lemma body_once:
  assumes "idle c w" and "replica_ok env to_vec w" and "faultless io" and "lossless env to_vec"
  shows "replica_safe env to_vec c (round_body_prog c env (kafka_outbox_publish to_vec sh (\<lambda>n. SendOk)) io)
    (\<lambda>q. idle c) w"
  unfolding round_body_prog_def
proof (rule replicas.one.safe_pbind)
  show "replica_safe env to_vec c (pmap_err BatchDb (patom (tx_begin (bi_begin io)))) (\<lambda>q. idle c) w"
    by (rule replicas.one.safe_pmap_err [OF act_once [where P = "idle c"] assms(2)])
      (use assms(1) replica_idle_rely replica_guar_refl in \<open>auto simp: tx_begin_def\<close>)
  fix x v assume v: "replica_ok env to_vec v" "\<forall>u. replica_ok env to_vec u \<longrightarrow> replica_rely env c v u \<longrightarrow> idle c u"
  then have idle: "idle c v" using replicas.one.rely_refl by blast
  have "order_ok (bi_order io)" "inj (\<lambda>i. lv_hex env (id_bytes i))"
    using assms(3,4) by (simp_all add: faultless_def lossless_def)
  then have select: "replica_safe env to_vec c (patom (round_select c io))
      (\<lambda>q u. case q of Inl e \<Rightarrow> idle c u | Inr rows \<Rightarrow> sending env to_vec c [] [] rows u) v"
    by (intro act_once [where P = "idle c"])
      (use idle replica_idle_rely select_once sending_rely in \<open>auto split: sum.splits\<close>)
  show "replica_safe env to_vec c (pbind (patom (round_select c io)) (\<lambda>rows.
     if rows = [] then ptry (rollback_prog c) (\<lambda>_. Done (Inr 0))
     else pbind (round_rows_prog c env (kafka_outbox_publish to_vec sh (\<lambda>n. SendOk)) io rows) (\<lambda>_.
          pbind (pmap_err BatchDb (patom (tx_commit c (bi_commit io)))) (\<lambda>_.
          Done (Inr (length rows)))))) (\<lambda>q. idle c) v"
  proof (rule replicas.one.safe_pbind [OF select v(1)], rule batch_once [OF _ _ assms(3,4)])
    fix rows u assume "replica_ok env to_vec u" "\<forall>x. replica_ok env to_vec x \<longrightarrow> replica_rely env c u x \<longrightarrow>
      (case (Inr rows :: batch_error + outbox_row list) of Inl e \<Rightarrow> idle c x
       | Inr rows \<Rightarrow> sending env to_vec c [] [] rows x)"
    then show "sending env to_vec c [] [] rows u" using replicas.one.rely_refl by fastforce
  qed simp_all
qed (use assms(2) in simp_all)

lemma round_once:
  assumes "idle c w" and "replica_ok env to_vec w" and "faultless io" and "lossless env to_vec"
  shows "replica_safe env to_vec c (round_prog c env (kafka_outbox_publish to_vec sh (\<lambda>n. SendOk)) io) (\<lambda>q. idle c) w"
  unfolding round_prog_def
proof (rule replicas.one.safe_ptry [OF body_once [OF assms] assms(2)])
  fix r :: "batch_error + nat" and v
  assume v: "replica_ok env to_vec v" "\<forall>u. replica_ok env to_vec u \<longrightarrow> replica_rely env c v u \<longrightarrow> idle c u"
  then have idle: "idle c v" using replicas.one.rely_refl by blast
  have undo: "replica_safe env to_vec c (rollback_prog c) (\<lambda>q. idle c) v"
    unfolding rollback_prog_def
    by (rule act_once [where P = "idle c"])
      (use idle replica_idle_rely in \<open>auto simp: rollback_idle replica_guar_refl\<close>)
  show "replica_safe env to_vec c (case r of Inr n \<Rightarrow> Done (Inr n)
      | Inl e \<Rightarrow> ptry (rollback_prog c) (\<lambda>_. Done (Inl e))) (\<lambda>q. idle c) v"
    using v undo by (cases r) (auto intro: replicas.one.safe_ptry)
qed

lemma worker_once:
  assumes "idle c w" and "replica_ok env to_vec w" and "\<forall>io \<in> set ios. faultless io" and "lossless env to_vec"
  shows "replica_safe env to_vec c (worker_prog c env (kafka_outbox_publish to_vec sh (\<lambda>n. SendOk)) ios errs
    :: ('e, nat list, kafka_world ledger_world) prog) (\<lambda>q u. True) w"
  using assms(1-3)
proof (induction ios arbitrary: errs w)
  case (Cons io ios)
  have io: "faultless io" "\<forall>io \<in> set ios. faultless io" using Cons.prems(3) by simp_all
  show ?case
    unfolding worker_prog.simps
  proof (rule replicas.one.safe_ptry [OF round_once [OF Cons.prems(1,2) io(1) assms(4)] Cons.prems(2)])
    fix r :: "batch_error + nat" and v
    assume v: "replica_ok env to_vec v" "\<forall>u. replica_ok env to_vec u \<longrightarrow> replica_rely env c v u \<longrightarrow> idle c u"
    then have "idle c v" using replicas.one.rely_refl by blast
    note rest = Cons.IH [OF this v(1) io(2)]
    show "replica_safe env to_vec c (case worker_after r errs of (errs', slept) \<Rightarrow>
        pbind (worker_prog c env (kafka_outbox_publish to_vec sh (\<lambda>n. SendOk)) ios errs'
            :: ('e, nat list, kafka_world ledger_world) prog)
          (\<lambda>ss. Done (Inr (slept # ss)))) (\<lambda>q u. True) v"
      by (auto split: prod.split intro: replicas.one.safe_pbind [OF rest v(1)])
  qed
qed simp

section \<open>Properties\<close>

definition faultless_rounds :: "ledger_job list \<Rightarrow> bool" where
  "faultless_rounds jobs \<longleftrightarrow> (\<forall>ios. OutboxWorker ios \<in> set jobs \<longrightarrow> (\<forall>io \<in> set ios. faultless io))"

lemma job_once:
  assumes "faultless_rounds jobs" and "job \<in> set jobs" and "lossless env to_vec"
    and "idle c w" and "replica_ok env to_vec w"
  shows "replica_safe env to_vec c (job_prog c env (kafka_outbox_publish to_vec sh (\<lambda>n. SendOk)) patience job)
    (\<lambda>r u. True) w"
proof (cases job)
  case (PostCall io p)
  have "ledger_ok env to_vec w" using assms(5) by (simp add: replica_ok_def)
  from post_replica_safe [OF assms(4) this] assms(5) show ?thesis
    unfolding PostCall job_prog_def ledger_job.case by (rule replicas.one.safe_ptry) simp
next
  case (OutboxWorker ios)
  then have "\<forall>io \<in> set ios. faultless io" using assms(1,2) by (auto simp: faultless_rounds_def)
  from worker_once [OF assms(4,5) this assms(3)] assms(5) show ?thesis
    unfolding OutboxWorker job_prog_def ledger_job.case by (rule replicas.one.safe_pbind) simp_all
qed

text \<open>C11: Replicas do not duplicate work: any number of workers run their rounds over one table while any
  callers post with any faults, however the statements interleave; as long as the broker takes every
  message and a round that has locked rows can mark them and commit, no entry's message is in the log
  twice.  A round may fail to begin or to select, and requests may be dropped half-way.\<close>

theorem replicas_send_each_event_once:
  assumes "lossless env to_vec" and "pipeline_inv env to_vec (db, k)" and "sent_once env (quiet db k)"
    and "faultless_rounds jobs"
    and "schedule order (job_pool env (kafka_outbox_publish to_vec sh (\<lambda>n. SendOk)) patience jobs, quiet db k) = (qs, w)"
  shows "distinct (map km_key (kw_log (lw_pub w)))"
proof -
  let ?ps = "job_pool env (kafka_outbox_publish to_vec sh (\<lambda>n. SendOk)) patience jobs"
  have ok: "replica_ok env to_vec (quiet db k)"
    using assms(2,3) by (simp add: replica_ok_def quiet_ok)
  have "\<forall>c < length ?ps. replica_safe env to_vec c (?ps ! c) (\<lambda>r u. True) (quiet db k)"
    using job_once [OF assms(4) _ assms(1) quiet_idle ok] by (simp add: job_pool_def)
  from replicas.schedule_safe [OF ok this assms(5)] show ?thesis
    by (simp add: replica_ok_def sent_once_def)
qed

lemma demo_lossless: "lossless demo_env (\<lambda>j. Inr [1])"
  unfolding lossless_def
proof
  have "lv_hex demo_env x = lv_hex demo_env y \<Longrightarrow> x = y" for x y
    using demo_hash_inject [of x y] by (simp add: demo_env_def)
  then show "inj (\<lambda>i. lv_hex demo_env (id_bytes i))"
    unfolding inj_def by (metis id_bytes_inject)
qed simp

theorem replicas_send_each_event_once_witness:
  "\<exists>qs w. schedule [0, 1, 0, 0, 0, 2, 1, 2, 1, 2, 1, 2, 1, 1, 2, 1, 2, 1, 2, 2]
     (job_pool demo_env demo_publish 5 [PostCall (good_io 7 5000 8 5) (demo_params ''k1'' 500),
        OutboxWorker [demo_batch, demo_batch], OutboxWorker [demo_batch, demo_batch]],
      quiet empty_db kafka_start) = (qs, w) \<and>
    distinct (map km_key (kw_log (lw_pub w)))"
proof -
  let ?jobs = "[PostCall (good_io 7 5000 8 5) (demo_params ''k1'' 500),
        OutboxWorker [demo_batch, demo_batch], OutboxWorker [demo_batch, demo_batch]]"
  obtain qs w where run: "schedule [0, 1, 0, 0, 0, 2, 1, 2, 1, 2, 1, 2, 1, 1, 2, 1, 2, 1, 2, 2]
      (job_pool demo_env demo_publish 5 ?jobs, quiet empty_db kafka_start) = (qs, w)" by force
  have "faultless_rounds ?jobs"
    using demo_batch_ok by (auto simp: faultless_rounds_def faultless_def healthy_io_def)
  from replicas_send_each_event_once [OF demo_lossless kafka_start_inv _ this run] run show ?thesis
    by (simp add: sent_once_def sent_keys_def quiet_def kafka_start_def)
qed

end
