(* ===== verification/Startup.thy ===== *)
theory Startup
  imports Gateway_Router Ledger_Outbox Account_Service Auth_Service
begin

text \<open>
  The \<open>main.rs\<close> of \<open>kova-gateway\<close>, \<open>kova-auth\<close>, \<open>kova-account\<close> and \<open>kova-ledger\<close> and the \<open>AppState\<close> of the
  three HTTP services.  A start is a program over the list of what it has done to the outside: each
  statement of \<open>main\<close> that connects, migrates, spawns a task, binds or serves adds to the list.  It
  ends with an error of \<open>anyhow\<close> (named by its outermost context), with a panic of \<open>expect\<close>, or when
  the server has been shut down.  What the outside answers is \<open>start_io\<close>.
\<close>

datatype start_stop = Panicked string | Failed string

datatype outbox_kind = OutboxNoOp | OutboxKafka string

datatype start_act =
    ConnectMySql string
  | RunMigrations
  | ConnectRedis string
  | KafkaProducer string
  | SpawnOutboxWorker outbox_kind
  | SpawnReconciliation
  | Listen string
  | Serve

record start_io =
  so_var :: "string \<Rightarrow> string option"
  so_mysql :: "string \<Rightarrow> bool"
  so_migrate :: bool
  so_redis_url :: "string \<Rightarrow> bool"
  so_redis :: "string \<Rightarrow> bool"
  so_private_pem :: "string \<Rightarrow> string option"
  so_public_pem :: "string \<Rightarrow> string option"
  so_kafka :: "string \<Rightarrow> bool"
  so_bind :: "string \<Rightarrow> bool"
  so_local_addr :: "string option"
  so_parse_addr :: "string \<Rightarrow> bool"
  so_serve :: "string option"

type_synonym 'a start = "(start_stop, 'a, start_act list) eff"

text \<open>\<open>std::env::var(name)\<close> with \<open>expect\<close>, \<open>context\<close> and \<open>unwrap_or_else\<close>.\<close>

definition var_expect :: "start_io \<Rightarrow> string \<Rightarrow> string \<Rightarrow> string start" where
  "var_expect io name msg = elift (ok_or (so_var io name) (Panicked msg))"

definition var_context :: "start_io \<Rightarrow> string \<Rightarrow> string \<Rightarrow> string start" where
  "var_context io name msg = elift (ok_or (so_var io name) (Failed msg))"

definition var_or :: "start_io \<Rightarrow> string \<Rightarrow> string \<Rightarrow> string" where
  "var_or io name dflt = (case so_var io name of None \<Rightarrow> dflt | Some v \<Rightarrow> v)"

text \<open>A call that the outside answers, with its context; a task that is spawned.\<close>

definition start_call :: "bool \<Rightarrow> start_act \<Rightarrow> string \<Rightarrow> unit start" where
  "start_call fine act msg acts = (if fine then (Inr (), acts @ [act]) else (Inl (Failed msg), acts))"

definition spawn :: "start_act \<Rightarrow> unit start" where
  "spawn act acts = (Inr (), acts @ [act])"

text \<open>\<open>Client::open\<close> and \<open>ConnectionManager::new\<close>; \<open>TcpListener::bind\<close>; the address of the log line, whose
  error has no context; the server until it is shut down, with its context, if any.\<close>

definition start_redis :: "start_io \<Rightarrow> string \<Rightarrow> string \<Rightarrow> unit start" where
  "start_redis io url open_msg =
     ebind (eguard (so_redis_url io url) (Failed open_msg)) (\<lambda>_.
     start_call (so_redis io url) (ConnectRedis url) ''failed to connect to Redis'')"

definition start_mysql :: "start_io \<Rightarrow> string \<Rightarrow> unit start" where
  "start_mysql io url = start_call (so_mysql io url) (ConnectMySql url) ''failed to connect to MySQL''"

definition start_migrate :: "start_io \<Rightarrow> unit start" where
  "start_migrate io = start_call (so_migrate io) RunMigrations ''failed to run database migrations''"

definition start_bind :: "start_io \<Rightarrow> string \<Rightarrow> unit start" where
  "start_bind io addr = start_call (so_bind io addr) (Listen addr) (''failed to bind to '' @ addr)"

definition start_local_addr :: "start_io \<Rightarrow> unit start" where
  "start_local_addr io = elift (case so_local_addr io of None \<Rightarrow> Inr () | Some e \<Rightarrow> Inl (Failed e))"

definition start_serve :: "start_io \<Rightarrow> string option \<Rightarrow> unit start" where
  "start_serve io msg acts =
     (case so_serve io of
        None \<Rightarrow> Inr ()
      | Some e \<Rightarrow> Inl (Failed (case msg of None \<Rightarrow> e | Some m \<Rightarrow> m)), acts @ [Serve])"

section \<open>Shutting down\<close>

text \<open>\<open>shutdown_signal\<close>: \<open>select!\<close> polls both branches, in an order of its own (\<open>term_first\<close>); a branch
  whose handler cannot be installed panics when it is polled, else the first signal ends the wait,
  which is \<open>None\<close> as long as there is no signal.\<close>

datatype os_signal = CtrlC | SigTerm

definition shutdown_signal ::
  "string \<Rightarrow> string \<Rightarrow> bool \<Rightarrow> bool \<Rightarrow> bool \<Rightarrow> os_signal list \<Rightarrow> start_stop + os_signal option" where
  "shutdown_signal ctrl_msg term_msg ctrl_ok term_ok term_first signals =
     (if \<not> ctrl_ok \<and> (term_ok \<or> \<not> term_first) then Inl (Panicked ctrl_msg)
      else if \<not> term_ok then Inl (Panicked term_msg)
      else Inr (case signals of [] \<Rightarrow> None | s # _ \<Rightarrow> Some s))"

definition auth_shutdown :: "bool \<Rightarrow> bool \<Rightarrow> bool \<Rightarrow> os_signal list \<Rightarrow> start_stop + os_signal option" where
  "auth_shutdown = shutdown_signal ''failed to install Ctrl+C handler'' ''failed to install SIGTERM handler''"

definition account_shutdown :: "bool \<Rightarrow> bool \<Rightarrow> bool \<Rightarrow> os_signal list \<Rightarrow> start_stop + os_signal option" where
  "account_shutdown = shutdown_signal ''Ctrl+C handler failed'' ''SIGTERM handler failed''"

definition ledger_shutdown :: "bool \<Rightarrow> bool \<Rightarrow> bool \<Rightarrow> os_signal list \<Rightarrow> start_stop + os_signal option" where
  "ledger_shutdown = shutdown_signal ''Ctrl+C handler failed'' ''SIGTERM handler failed''"

section \<open>The gateway\<close>

record gateway_state =
  gs_keys :: jwt_key_set
  gs_redis :: string

definition gateway_boot :: "start_io \<Rightarrow> jwt_env \<Rightarrow> (gateway_state \<times> string) start" where
  "gateway_boot io env =
     ebind (var_context io ''KOVA_JWT_PUBLIC_KEY_PEM'' ''KOVA_JWT_PUBLIC_KEY_PEM must be set'') (\<lambda>pem.
     ebind (elift (map_err (\<lambda>_. Failed ''failed to parse JWT public key'') (key_set_from_pem env pem))) (\<lambda>keys.
     let url = var_or io ''REDIS_URL'' ''redis://127.0.0.1/''
     in ebind (start_redis io url ''failed to create Redis client'') (\<lambda>_.
        let addr = var_or io ''KOVA_GATEWAY_ADDR'' ''0.0.0.0:8080''
        in ebind (start_bind io addr) (\<lambda>_.
           eret (\<lparr>gs_keys = keys, gs_redis = url\<rparr>, addr)))))"

definition gateway_main :: "start_io \<Rightarrow> jwt_env \<Rightarrow> unit start" where
  "gateway_main io env = ebind (gateway_boot io env) (\<lambda>_. start_serve io None)"

section \<open>kova-auth\<close>

datatype sms_provider = MockSms

text \<open>\<open>MockSmsProvider::send_otp\<close> hands the message to nobody: it logs, with the number and the code in a
  debug build, with the number alone otherwise.\<close>

datatype sms_log = DevLog string string | Dispatched string

definition mock_send_otp :: "bool \<Rightarrow> string \<Rightarrow> string \<Rightarrow> (authn_error, unit, sms_log list) eff" where
  "mock_send_otp debug_assertions phone otp logged =
     (Inr (), logged @ [if debug_assertions then DevLog phone otp else Dispatched phone])"

record auth_state =
  as_db :: string
  as_redis :: string
  as_encoding :: string
  as_decoding :: string
  as_sms :: sms_provider

text \<open>\<open>AppState::new\<close>: the private key is read before the public one.\<close>

definition auth_state_new ::
  "start_io \<Rightarrow> string \<Rightarrow> string \<Rightarrow> string \<Rightarrow> string \<Rightarrow> sms_provider \<Rightarrow> unit + auth_state" where
  "auth_state_new io db redis private_pem public_pem sms =
     (case so_private_pem io private_pem of
        None \<Rightarrow> Inl ()
      | Some enc \<Rightarrow>
        (case so_public_pem io public_pem of
           None \<Rightarrow> Inl ()
         | Some dec \<Rightarrow> Inr \<lparr>as_db = db, as_redis = redis, as_encoding = enc, as_decoding = dec, as_sms = sms\<rparr>))"

definition auth_boot :: "start_io \<Rightarrow> (auth_state \<times> string) start" where
  "auth_boot io =
     ebind (var_expect io ''DATABASE_URL'' ''DATABASE_URL must be set'') (\<lambda>db.
     ebind (var_expect io ''REDIS_URL'' ''REDIS_URL must be set'') (\<lambda>redis.
     ebind (var_expect io ''JWT_PRIVATE_KEY'' ''JWT_PRIVATE_KEY must be set'') (\<lambda>private_pem.
     ebind (var_expect io ''JWT_PUBLIC_KEY'' ''JWT_PUBLIC_KEY must be set'') (\<lambda>public_pem.
     let addr = var_or io ''BIND_ADDR'' ''0.0.0.0:3001''
     in ebind (start_mysql io db) (\<lambda>_.
        ebind (start_migrate io) (\<lambda>_.
        ebind (start_redis io redis ''failed to parse REDIS_URL'') (\<lambda>_.
        ebind (elift (map_err (\<lambda>_. Failed ''failed to initialise JWT key set'')
                 (auth_state_new io db redis private_pem public_pem MockSms))) (\<lambda>state.
        ebind (start_bind io addr) (\<lambda>_.
        ebind (start_local_addr io) (\<lambda>_.
        eret (state, addr)))))))))))"

definition auth_main :: "start_io \<Rightarrow> unit start" where
  "auth_main io = ebind (auth_boot io) (\<lambda>_. start_serve io (Some ''server error''))"

section \<open>kova-account\<close>

record 'x account_state =
  cs_db :: string
  cs_redis :: string
  cs_decoding :: string
  cs_clients :: "'x account_clients"

definition account_state_new ::
  "start_io \<Rightarrow> string \<Rightarrow> string \<Rightarrow> string \<Rightarrow> 'x account_clients \<Rightarrow> unit + 'x account_state" where
  "account_state_new io db redis public_pem clients =
     (case so_public_pem io public_pem of
        None \<Rightarrow> Inl ()
      | Some dec \<Rightarrow> Inr \<lparr>cs_db = db, cs_redis = redis, cs_decoding = dec, cs_clients = clients\<rparr>)"

definition account_boot :: "start_io \<Rightarrow> ('x account_state \<times> string) start" where
  "account_boot io =
     ebind (var_expect io ''DATABASE_URL'' ''DATABASE_URL must be set'') (\<lambda>db.
     ebind (var_expect io ''REDIS_URL'' ''REDIS_URL must be set'') (\<lambda>redis.
     ebind (var_expect io ''JWT_PUBLIC_KEY'' ''JWT_PUBLIC_KEY must be set'') (\<lambda>public_pem.
     let addr = var_or io ''BIND_ADDR'' ''0.0.0.0:3002''
     in ebind (start_mysql io db) (\<lambda>_.
        ebind (start_migrate io) (\<lambda>_.
        ebind (start_redis io redis ''failed to parse REDIS_URL'') (\<lambda>_.
        ebind (elift (map_err (\<lambda>_. Failed ''failed to initialise JWT key set'')
                 (account_state_new io db redis public_pem stub_clients))) (\<lambda>state.
        ebind (start_bind io addr) (\<lambda>_.
        ebind (start_local_addr io) (\<lambda>_.
        eret (state, addr))))))))))"

definition account_main :: "start_io \<Rightarrow> unit start" where
  "account_main io =
     ebind (account_boot io :: (unit account_state \<times> string) start) (\<lambda>_. start_serve io (Some ''server error''))"

section \<open>kova-ledger\<close>

text \<open>With or without the cargo feature \<open>kafka\<close>.  The worker and the reconciliation are spawned before
  the interceptor is built and the address is parsed.\<close>

definition ledger_publisher :: "start_io \<Rightarrow> bool \<Rightarrow> outbox_kind start" where
  "ledger_publisher io kafka_feature =
     (if kafka_feature
      then ebind (var_expect io ''KAFKA_BROKERS'' ''KAFKA_BROKERS must be set with --features kafka'') (\<lambda>brokers.
           ebind (start_call (so_kafka io brokers) (KafkaProducer brokers) ''failed to create Kafka producer'') (\<lambda>_.
           eret (OutboxKafka brokers)))
      else eret OutboxNoOp)"

definition ledger_main :: "start_io \<Rightarrow> bool \<Rightarrow> unit start" where
  "ledger_main io kafka_feature =
     ebind (var_expect io ''DATABASE_URL'' ''DATABASE_URL must be set'') (\<lambda>db.
     let addr = var_or io ''BIND_ADDR'' ''[::1]:50051''
     in ebind (var_expect io ''JWT_PUBLIC_KEY'' ''JWT_PUBLIC_KEY must be set'') (\<lambda>public_pem.
        ebind (start_mysql io db) (\<lambda>_.
        ebind (ledger_publisher io kafka_feature) (\<lambda>publisher.
        ebind (start_migrate io) (\<lambda>_.
        ebind (spawn (SpawnOutboxWorker publisher)) (\<lambda>_.
        ebind (spawn SpawnReconciliation) (\<lambda>_.
        ebind (elift (ok_or (so_public_pem io public_pem) (Failed ''failed to build auth interceptor''))) (\<lambda>key.
        ebind (eguard (so_parse_addr io addr) (Failed (''invalid BIND_ADDR: '' @ addr))) (\<lambda>_.
        start_serve io (Some ''gRPC server error''))))))))))"

section \<open>Lemmas\<close>

lemmas start_defs = var_expect_def var_context_def start_call_def spawn_def start_redis_def start_mysql_def
  start_migrate_def start_bind_def start_local_addr_def start_serve_def eff_defs

lemma account_boot_Inr:
  assumes "account_boot io acts = (Inr (st, addr), acts')"
  shows "cs_clients st = stub_clients \<and>
    (\<exists>db redis pem. so_var io ''DATABASE_URL'' = Some db \<and> so_var io ''REDIS_URL'' = Some redis \<and>
       so_var io ''JWT_PUBLIC_KEY'' = Some pem \<and> so_public_pem io pem = Some (cs_decoding st) \<and>
       acts' = acts @ [ConnectMySql db, RunMigrations, ConnectRedis redis, Listen addr])"
  using assms
  by (auto simp: account_boot_def account_state_new_def start_defs Let_def
      split: option.splits if_splits sum.splits prod.splits)

lemma auth_boot_Inr:
  assumes "auth_boot io acts = (Inr (st, addr), acts')"
  shows "\<exists>db redis priv pem. so_var io ''DATABASE_URL'' = Some db \<and> so_var io ''REDIS_URL'' = Some redis \<and>
    so_var io ''JWT_PRIVATE_KEY'' = Some priv \<and> so_var io ''JWT_PUBLIC_KEY'' = Some pem \<and>
    so_private_pem io priv = Some (as_encoding st) \<and> so_public_pem io pem = Some (as_decoding st) \<and>
    acts' = acts @ [ConnectMySql db, RunMigrations, ConnectRedis redis, Listen addr]"
  using assms
  by (auto simp: auth_boot_def auth_state_new_def start_defs Let_def
      split: option.splits if_splits sum.splits prod.splits)

text \<open>Under the stubs no handler of the account service changes anything but its own database and cache.\<close>

named_theorems ext_same "the part of the world behind the clients stays as it is"

lemma ext_same_acts [ext_same]:
  "einv (\<lambda>w. aw_ext w = x) (db_q m)" "einv (\<lambda>w. aw_ext w = x) (on_accounts m2)"
  "einv (\<lambda>w. aw_ext w = x) (on_cache f)"
  unfolding db_q_def on_accounts_def on_cache_def
  by (auto simp: einv_iff emap_err_def ezoom_def split: prod.split)

lemma ext_same_stubs [ext_same]:
  "einv (\<lambda>w. aw_ext w = x) (on_ext (cl_open stub_clients i c))"
  "einv (\<lambda>w. aw_ext w = x) (on_ext (cl_balance stub_clients i))"
  "einv (\<lambda>w. aw_ext w = x) (on_ext (cl_statement stub_clients i cur limit))"
  "einv (\<lambda>w. aw_ext w = x) (on_ext (cl_pending stub_clients i))"
  "einv (\<lambda>w. aw_ext w = x) (on_ext (cl_publish stub_clients t k p))"
  by (simp_all add: einv_iff on_ext_def ezoom_def stub_clients_def eret_def)

lemma account_handle_ext: "einv (\<lambda>w. aw_ext w = x) (account_handle env stub_clients io user req)"
  by (cases req)
    (auto intro!: einv_intros ext_same simp: Let_def create_account_def finish_create_def open_or_compensate_def
      close_account_def close_prepare_def close_checks_def fetch_owned_def list_accounts_def get_account_def
      account_balance_def ask_ledger_def account_statement_def owned_open_row_def split: prod.split)

text \<open>A production build of the mock logs the same for every code.\<close>

lemma mock_hides_code: "mock_send_otp False phone otp = mock_send_otp False phone otp2"
  by (simp add: mock_send_otp_def fun_eq_iff)

text \<open>Errors that a program never ends with.\<close>

definition avoids :: "'e set \<Rightarrow> ('e, 'a, 'w) eff \<Rightarrow> bool" where
  "avoids E m \<longleftrightarrow> (\<forall>w. fst (m w) \<notin> Inl ` E)"

lemma avoids_rules:
  "avoids E (eret a)" "(\<And>e. r = Inl e \<Longrightarrow> e \<notin> E) \<Longrightarrow> avoids E (elift r)" "(\<not> b \<Longrightarrow> e \<notin> E) \<Longrightarrow> avoids E (eguard b e)"
  "avoids E m \<Longrightarrow> (\<And>a. avoids E (f a)) \<Longrightarrow> avoids E (ebind m f)"
  by (auto simp: avoids_def eff_defs split: prod.split sum.split) (metis fst_conv image_eqI)

definition close_refusals :: "account_error set" where
  "close_refusals = insert AePendingPayments (range AeHasBalance)"

lemma avoids_db: "avoids close_refusals (db_q m)"
  by (auto simp: avoids_def close_refusals_def db_q_def emap_err_def split: prod.split elim!: map_err.elims)

lemma stub_answers:
  "on_ext (cl_pending stub_clients i) = eret False"
  "on_ext (cl_balance stub_clients i) = eret \<lparr>cb_available = dec_zero, cb_pending = dec_zero, cb_currency = NGN\<rparr>"
  "on_ext (cl_publish stub_clients t k p) = eret ()"
  by (simp_all add: fun_eq_iff on_ext_def ezoom_def stub_clients_def eret_def)

lemma close_avoids: "avoids close_refusals (close_account env stub_clients io user a)"
proof -
  have checks: "avoids close_refusals (close_checks env stub_clients k s)" for k s
    unfolding close_checks_def stub_answers ebind_eret
    by (simp add: dec_is_zero_def dec_zero_def, intro avoids_rules)
      (auto simp: close_refusals_def elim!: map_err.elims)
  have prepare: "avoids close_refusals (close_prepare env stub_clients io user a)"
    unfolding close_prepare_def fetch_owned_def
    by (intro avoids_rules avoids_db checks)
      (auto simp: close_refusals_def parse_status_def split: if_splits elim!: ok_or.elims)
  show ?thesis
    unfolding close_account_def stub_answers ebind_eret
    by (intro avoids_rules prepare) (auto split: prod.split intro: avoids_rules avoids_db)
qed

text \<open>What comes before the server is started.\<close>

lemma not_serving:
  "act \<noteq> Serve \<Longrightarrow> einv (\<lambda>acts. Serve \<notin> set acts) (start_call b act msg)"
  by (simp add: einv_iff start_call_def)

lemma boots_do_not_serve:
  "einv (\<lambda>acts. Serve \<notin> set acts) (auth_boot io)" "einv (\<lambda>acts. Serve \<notin> set acts) (account_boot io)"
  unfolding auth_boot_def account_boot_def var_expect_def start_mysql_def start_migrate_def start_redis_def
    start_bind_def start_local_addr_def Let_def
  by (intro einv_intros not_serving; simp)+

lemma main_ends:
  assumes "ebind boot (\<lambda>_. start_serve io msg) [] = (r, acts)" and "einv (\<lambda>acts. Serve \<notin> set acts) boot"
  obtains (served) st addr as where "boot [] = (Inr (st, addr), as)" "acts = as @ [Serve]"
    | (stopped) e where "r = Inl e" "Serve \<notin> set acts"
proof -
  obtain q as where b: "boot [] = (q, as)" by force
  with einvD [OF assms(2), of "[]"] have "Serve \<notin> set as" by simp
  with assms(1) b show thesis
    by (cases q) (auto simp: ebind_def start_serve_def intro: that)
qed

section \<open>Properties\<close>

text \<open>The HTTP services serve only when they are ready: \<open>kova-auth\<close> and \<open>kova-account\<close> accept a
  request only after MySQL was connected, the migrations ran, Redis was connected, the verification
  key was read from \<open>JWT_PUBLIC_KEY\<close> and the address was bound, in this order; and a start that stops
  earlier has neither bound nor served.\<close>

theorem services_serve_only_when_ready:
  assumes "main \<in> {auth_main io, account_main io}" and "main [] = (r, acts)"
  shows "if Serve \<in> set acts
    then \<exists>db redis pem key addr. so_var io ''DATABASE_URL'' = Some db \<and> so_var io ''REDIS_URL'' = Some redis \<and>
      so_var io ''JWT_PUBLIC_KEY'' = Some pem \<and> so_public_pem io pem = Some key \<and>
      acts = [ConnectMySql db, RunMigrations, ConnectRedis redis, Listen addr, Serve]
    else \<exists>msg. r = Inl (Failed msg) \<or> r = Inl (Panicked msg)"
proof -
  have stop: "\<exists>msg. e = Failed msg \<or> e = Panicked msg" for e by (cases e) auto
  from assms(1,2) consider "auth_main io [] = (r, acts)" | "account_main io [] = (r, acts)" by auto
  then show ?thesis
  proof cases
    case 1
    then show ?thesis unfolding auth_main_def
      by (rule main_ends [OF _ boots_do_not_serve(1)]) (use stop auth_boot_Inr in \<open>auto, blast+\<close>)
  next
    case 2
    then show ?thesis unfolding account_main_def
      by (rule main_ends [OF _ boots_do_not_serve(2)]) (use stop account_boot_Inr in \<open>auto, blast+\<close>)
  qed
qed

definition demo_start :: start_io where
  "demo_start = \<lparr>so_var = (\<lambda>name. if name = ''BIND_ADDR'' then None else Some name), so_mysql = (\<lambda>url. True),
     so_migrate = True, so_redis_url = (\<lambda>url. True), so_redis = (\<lambda>url. True), so_private_pem = Some,
     so_public_pem = Some, so_kafka = (\<lambda>b. True), so_bind = (\<lambda>a. True), so_local_addr = None,
     so_parse_addr = (\<lambda>a. True), so_serve = None\<rparr>"

lemmas demo_start_eval = demo_start_def start_defs Let_def var_or_def

theorem services_serve_only_when_ready_witness:
  "\<exists>db redis pem key addr. so_public_pem demo_start pem = Some key \<and>
    snd (auth_main demo_start []) = [ConnectMySql db, RunMigrations, ConnectRedis redis, Listen addr, Serve]"
proof -
  obtain r acts where run: "auth_main demo_start [] = (r, acts)" by force
  moreover have "Serve \<in> set (snd (auth_main demo_start []))"
    by (simp add: auth_main_def auth_boot_def auth_state_new_def demo_start_eval)
  ultimately show ?thesis
    using services_serve_only_when_ready [of "auth_main demo_start" demo_start r acts] by auto
qed

text \<open>The ledger starts to work before it knows that it can: with a key that is no PEM or an address
  that does not parse, \<open>main\<close> fails, but only after it has spawned the outbox worker and the
  reconciliation over the connected pool; in a build without Kafka that worker marks rows as published
  that nobody receives.\<close>

theorem ledger_worker_runs_before_checks:
  assumes "so_var io ''DATABASE_URL'' = Some db" and "so_var io ''JWT_PUBLIC_KEY'' = Some pem"
    and "so_mysql io db" and "so_migrate io"
    and "so_public_pem io pem = None \<or> \<not> so_parse_addr io (var_or io ''BIND_ADDR'' ''[::1]:50051'')"
  shows "\<exists>msg. ledger_main io False [] = (Inl (Failed msg),
      [ConnectMySql db, RunMigrations, SpawnOutboxWorker OutboxNoOp, SpawnReconciliation])"
  using assms
  by (cases "so_public_pem io pem") (auto simp: ledger_main_def ledger_publisher_def start_defs Let_def)

theorem ledger_worker_runs_before_checks_witness:
  "\<exists>msg. ledger_main (demo_start\<lparr>so_public_pem := (\<lambda>p. None)\<rparr>) False [] = (Inl (Failed msg),
      [ConnectMySql ''DATABASE_URL'', RunMigrations, SpawnOutboxWorker OutboxNoOp, SpawnReconciliation])"
  by (rule ledger_worker_runs_before_checks [where pem = "''JWT_PUBLIC_KEY''"]) (simp_all add: demo_start_def)

text \<open>C38: As it is started, the account service talks to nobody: its ledger, payments service and publisher
  are the stubs, so no request it serves changes anything outside its own database and cache (no
  opening entry, no event), and no closing is refused for a balance or for pending payments, whatever
  the account holds.\<close>

theorem started_account_talks_to_nobody:
  assumes "account_boot io [] = (Inr (st, addr), acts)"
  shows "aw_ext (snd (account_call env (cs_decoding st) (cs_clients st) yio headers req w)) = aw_ext w \<and>
    fst (close_account env (cs_clients st) cio user a w) \<noteq> Inl AePendingPayments \<and>
    fst (close_account env (cs_clients st) cio user a w) \<noteq> Inl (AeHasBalance m)"
proof -
  have cl: "cs_clients st = stub_clients" using account_boot_Inr [OF assms] by blast
  have "aw_ext (snd (account_handle env stub_clients yio u req w)) = aw_ext w" for u
    using account_handle_ext [of "aw_ext w" env yio u req] by (simp add: einv_iff)
  then have "aw_ext (snd (account_call env (cs_decoding st) stub_clients yio headers req w)) = aw_ext w"
    by (simp add: account_call_def split_beta split: sum.split)
  moreover have "fst (close_account env stub_clients cio user a w) \<notin> Inl ` close_refusals"
    using close_avoids [unfolded avoids_def] by blast
  ultimately show ?thesis by (auto simp: cl close_refusals_def)
qed

theorem started_account_talks_to_nobody_witness:
  "\<exists>st addr acts. account_boot demo_start [] = (Inr (st, addr), acts) \<and>
    aw_ext (snd (account_call demo_account_env (cs_decoding st) (cs_clients st) demo_account_io
      [(''authorization'', ''Bearer 7'')] (AqClose ''3'') demo_active_world)) = ()"
proof -
  have "\<exists>st addr acts. (account_boot demo_start :: (unit account_state \<times> string) start) [] = (Inr (st, addr), acts)"
    by (simp add: account_boot_def account_state_new_def demo_start_eval)
  then obtain st :: "unit account_state" and addr acts where "account_boot demo_start [] = (Inr (st, addr), acts)" by blast
  with started_account_talks_to_nobody [OF this] show ?thesis by auto
qed

end
