(* ===== verification/Gateway_Concurrent.thy ===== *)
theory Gateway_Concurrent
  imports Gateway_Router Interleave
begin

text \<open>
  Many requests at the gateway at the same time, and several replicas of it.  A request gives up the
  processor before it asks the breaker (nothing is shared before), while the Lua script runs in
  Redis, and while the wrapped service answers; the breaker's lock is never held across one of
  these.  The replicas share Redis; each has a breaker of its own.
\<close>

section \<open>The layers as programs\<close>

type_synonym 'w handler = "http_req \<Rightarrow> (unit, http_resp, 'w) prog"

definition breaker_layer_prog ::
  "string \<Rightarrow> ('w \<Rightarrow> breaker) \<Rightarrow> (breaker \<Rightarrow> 'w \<Rightarrow> 'w) \<Rightarrow> int \<Rightarrow> int \<Rightarrow> 'w handler \<Rightarrow> 'w handler" where
  "breaker_layer_prog name get put t1 t2 inner req =
     pbind (patom (\<lambda>w. case allow_request t1 (get w) of (ok, b) \<Rightarrow> (Inr ok, put b w))) (\<lambda>ok.
     if \<not> ok then Done (Inr (api_service_unavailable name))
     else pbind (inner req) (\<lambda>resp.
          pbind (patom (\<lambda>w. (Inr (), put (if is_server_error (hs_status resp) then on_failure t2 (get w)
                                          else on_success (get w)) w))) (\<lambda>_.
          Done (Inr resp))))"

definition auth_layer_prog :: "jwt_env \<Rightarrow> jwt_key_set \<Rightarrow> 'w handler \<Rightarrow> 'w handler" where
  "auth_layer_prog env keys inner req =
     (if is_exempt (hq_path req) then inner req
      else case authenticate env keys req of
          Inl e \<Rightarrow> Done (Inr (auth_error_response e))
        | Inr u \<Rightarrow> inner (req\<lparr>hq_user := Some u\<rparr>))"

definition rate_limit_layer_prog ::
  "(uuid \<Rightarrow> string) \<Rightarrow> rate_limit_config \<Rightarrow> ('w \<Rightarrow> redis) \<Rightarrow> (redis \<Rightarrow> 'w \<Rightarrow> 'w) \<Rightarrow> redis_fault \<Rightarrow> nat \<Rightarrow> nat
    \<Rightarrow> 'w handler \<Rightarrow> 'w handler" where
  "rate_limit_layer_prog show_uuid cfg get put fault now now2 inner req =
     (let t = tier_for cfg (hq_path req)
      in if hq_path req = ''/api/v1/kova/health'' then inner req
         else pbind (patom (\<lambda>w. case rate_decide fault now t (rate_identifier show_uuid t req) (get w) of
                  (allowed, R') \<Rightarrow> (Inr allowed, put R' w))) (\<lambda>allowed.
              if \<not> allowed then Done (Inr (api_too_many_requests (60 - now2 mod 60))) else inner req))"

definition tracing_layer_prog :: "gateway_env \<Rightarrow> uuid \<Rightarrow> 'w handler \<Rightarrow> 'w handler" where
  "tracing_layer_prog env fresh inner req =
     (let request_id = request_id_of env fresh req
      in pbind (inner req) (\<lambda>resp.
         Done (Inr (if ge_hv_ok env request_id then insert_header header_request_id request_id resp else resp))))"

text \<open>The routes share nothing.\<close>

definition routes_prog :: "gateway_env \<Rightarrow> 'w handler" where
  "routes_prog env req = Done (Inr (fst (routes env req ())))"

section \<open>The replicas\<close>

record fleet_world =
  fw_breakers :: "nat \<Rightarrow> breaker"
  fw_redis :: redis

definition replica_breaker :: "nat \<Rightarrow> fleet_world \<Rightarrow> breaker" where
  "replica_breaker n w = fw_breakers w n"

definition set_replica_breaker :: "nat \<Rightarrow> breaker \<Rightarrow> fleet_world \<Rightarrow> fleet_world" where
  "set_replica_breaker n b w = w\<lparr>fw_breakers := (fw_breakers w)(n := b)\<rparr>"

definition set_fleet_redis :: "redis \<Rightarrow> fleet_world \<Rightarrow> fleet_world" where
  "set_fleet_redis R w = w\<lparr>fw_redis := R\<rparr>"

type_synonym gateway_call = "nat \<times> gateway_io \<times> http_req"

text \<open>One request at one replica.\<close>

fun gateway_prog :: "gateway_env \<Rightarrow> gateway_call \<Rightarrow> (unit, http_resp, fleet_world) prog" where
  "gateway_prog env (n, io, req) =
     breaker_layer_prog ''kova-gateway'' (replica_breaker n) (set_replica_breaker n) (gi_ask io) (gi_report io)
       (auth_layer_prog (ge_jwt env) (ge_keys env)
         (rate_limit_layer_prog (ge_uuid_show env) rate_limit_default fw_redis set_fleet_redis
            (gi_redis io) (gi_now io) (gi_now2 io)
           (tracing_layer_prog env (gi_fresh_id io) (routes_prog env)))) req"

text \<open>What one replica sees of the world.\<close>

definition replica_view :: "nat \<Rightarrow> fleet_world \<Rightarrow> gateway_world" where
  "replica_view n w = \<lparr>gw_breaker = fw_breakers w n, gw_redis = fw_redis w\<rparr>"

definition set_replica_view :: "nat \<Rightarrow> gateway_world \<Rightarrow> fleet_world \<Rightarrow> fleet_world" where
  "set_replica_view n v w = w\<lparr>fw_breakers := (fw_breakers w)(n := gw_breaker v), fw_redis := gw_redis v\<rparr>"

lemmas fleet_defs = replica_breaker_def set_replica_breaker_def set_fleet_redis_def replica_view_def set_replica_view_def

lemma replica_lens [simp]:
  "replica_view n (set_replica_view n v w) = v"
  "set_replica_view n v (set_replica_view n u w) = set_replica_view n v w"
  "set_replica_view n (replica_view n w) w = w"
  by (simp_all add: fleet_defs)

lemma replica_parts:
  "replica_breaker n w = gw_breaker (replica_view n w)"
  "set_replica_breaker n b w = set_replica_view n ((replica_view n w)\<lparr>gw_breaker := b\<rparr>) w"
  "fw_redis w = gw_redis (replica_view n w)"
  "set_fleet_redis R w = set_replica_view n ((replica_view n w)\<lparr>gw_redis := R\<rparr>) w"
  by (simp_all add: fleet_defs)

text \<open>A handler alone on the fleet is the service of its replica, layer by layer.\<close>

definition serves :: "nat \<Rightarrow> fleet_world handler \<Rightarrow> gateway_world service \<Rightarrow> bool" where
  "serves n h svc \<longleftrightarrow> (\<forall>req w. solo (h req) w =
     (case svc req (replica_view n w) of (resp, v) \<Rightarrow> Some (Inr resp, set_replica_view n v w)))"

lemma servesD:
  "serves n h svc \<Longrightarrow> solo (h req) w =
     (case svc req (replica_view n w) of (resp, v) \<Rightarrow> Some (Inr resp, set_replica_view n v w))"
  by (simp add: serves_def)

lemma serves_routes: "serves n (routes_prog env) (routes env)"
  unfolding serves_def
proof (intro allI)
  fix req w
  have "routes env req (replica_view n w) = (fst (routes env req ()), replica_view n w)"
    by (auto simp: routes_def split: option.split list.split)
  then show "solo (routes_prog env req) w =
      (case routes env req (replica_view n w) of (resp, v) \<Rightarrow> Some (Inr resp, set_replica_view n v w))"
    by (simp add: routes_prog_def)
qed

lemma serves_tracing: "serves n h svc \<Longrightarrow> serves n (tracing_layer_prog env fresh h) (tracing_layer env fresh svc)"
  by (simp add: serves_def tracing_layer_prog_def tracing_layer_def solo_pbind Let_def split: prod.split)

lemma serves_rate:
  assumes "serves n h svc"
  shows "serves n (rate_limit_layer_prog su cfg fw_redis set_fleet_redis f t t2 h)
    (rate_limit_layer su cfg gw_redis (\<lambda>R w. w\<lparr>gw_redis := R\<rparr>) f t t2 svc)"
  unfolding serves_def rate_limit_layer_prog_def rate_limit_layer_def Let_def
  by (simp add: solo_pbind servesD [OF assms] replica_parts [where n = n] split: prod.split)

lemma serves_auth: "serves n h svc \<Longrightarrow> serves n (auth_layer_prog je ks h) (auth_layer je ks svc)"
  by (simp add: serves_def auth_layer_prog_def auth_layer_def split: sum.split)

lemma serves_breaker:
  assumes "serves n h svc"
  shows "serves n (breaker_layer_prog name (replica_breaker n) (set_replica_breaker n) t1 t2 h)
    (breaker_layer name gw_breaker (\<lambda>b w. w\<lparr>gw_breaker := b\<rparr>) t1 t2 svc)"
  unfolding serves_def breaker_layer_prog_def breaker_layer_def
  by (simp add: solo_pbind servesD [OF assms] replica_parts [where n = n] split: prod.split bool.split)

text \<open>So a request that is alone on the fleet is answered as the gateway of its replica answers it.\<close>

theorem gateway_alone:
  "solo (gateway_prog env (n, io, req)) w =
    (case gateway env io req (replica_view n w) of (resp, v) \<Rightarrow> Some (Inr resp, set_replica_view n v w))"
  unfolding gateway_def gateway_stack_def gateway_prog.simps
  by (rule servesD) (intro serves_breaker serves_auth serves_rate serves_tracing serves_routes)

section \<open>The stages of a request\<close>

text \<open>About to ask the breaker, at the limiter, about to report an answer, answered.\<close>

datatype stage = Asking | Limiting | Reporting http_resp | Served http_resp

definition admitted_req :: "gateway_env \<Rightarrow> http_req \<Rightarrow> http_resp + http_req" where
  "admitted_req env req =
     (if is_exempt (hq_path req) then Inr req
      else case authenticate (ge_jwt env) (ge_keys env) req of
          Inl e \<Rightarrow> Inl (auth_error_response e)
        | Inr u \<Rightarrow> Inr (req\<lparr>hq_user := Some u\<rparr>))"

definition routed :: "gateway_env \<Rightarrow> gateway_io \<Rightarrow> http_req \<Rightarrow> http_resp" where
  "routed env io req = fst (tracing_layer env (gi_fresh_id io) (routes env) req ())"

definition limiter_of :: "gateway_env \<Rightarrow> gateway_io \<Rightarrow> http_req \<Rightarrow> redis \<Rightarrow> bool \<times> redis" where
  "limiter_of env io req =
     (let t = tier_for rate_limit_default (hq_path req)
      in rate_decide (gi_redis io) (gi_now io) t (rate_identifier (ge_uuid_show env) t req))"

definition after_permission :: "gateway_env \<Rightarrow> gateway_io \<Rightarrow> http_req \<Rightarrow> stage" where
  "after_permission env io req =
     (case admitted_req env req of
        Inl resp \<Rightarrow> Reporting resp
      | Inr q \<Rightarrow> if hq_path q = ''/api/v1/kova/health'' then Reporting (routed env io q) else Limiting)"

fun stage_step :: "gateway_env \<Rightarrow> gateway_call \<Rightarrow> stage \<Rightarrow> fleet_world \<Rightarrow> stage \<times> fleet_world" where
  "stage_step env (n, io, req) Asking w =
     (case allow_request (gi_ask io) (replica_breaker n w) of
        (ok, b) \<Rightarrow> (if ok then after_permission env io req else Served (api_service_unavailable ''kova-gateway''),
                    set_replica_breaker n b w))"
| "stage_step env (n, io, req) Limiting w =
     (case admitted_req env req of
        Inl resp \<Rightarrow> (Limiting, w)
      | Inr q \<Rightarrow> (case limiter_of env io q (fw_redis w) of
          (allowed, R) \<Rightarrow>
            (Reporting (if allowed then routed env io q else api_too_many_requests (60 - gi_now2 io mod 60)),
             set_fleet_redis R w)))"
| "stage_step env (n, io, req) (Reporting resp) w =
     (Served resp, set_replica_breaker n
        (if is_server_error (hs_status resp) then on_failure (gi_report io) (replica_breaker n w)
         else on_success (replica_breaker n w)) w)"
| "stage_step env (n, io, req) (Served resp) w = (Served resp, w)"

definition reports :: "nat \<Rightarrow> gateway_io \<Rightarrow> http_resp \<Rightarrow> (unit, http_resp, fleet_world) prog" where
  "reports n io resp =
     pbind (patom (\<lambda>w. (Inr (), set_replica_breaker n
        (if is_server_error (hs_status resp) then on_failure (gi_report io) (replica_breaker n w)
         else on_success (replica_breaker n w)) w))) (\<lambda>_. Done (Inr resp))"

definition limits :: "gateway_env \<Rightarrow> gateway_io \<Rightarrow> http_req \<Rightarrow> (unit, http_resp, fleet_world) prog" where
  "limits env io q =
     pbind (patom (\<lambda>w. case limiter_of env io q (fw_redis w) of (allowed, R) \<Rightarrow> (Inr allowed, set_fleet_redis R w)))
       (\<lambda>allowed. Done (Inr (if allowed then routed env io q else api_too_many_requests (60 - gi_now2 io mod 60))))"

fun stage_prog :: "gateway_env \<Rightarrow> gateway_call \<Rightarrow> stage \<Rightarrow> (unit, http_resp, fleet_world) prog" where
  "stage_prog env c Asking = gateway_prog env c"
| "stage_prog env (n, io, req) Limiting =
     (case admitted_req env req of Inl resp \<Rightarrow> Hang | Inr q \<Rightarrow> pbind (limits env io q) (reports n io))"
| "stage_prog env (n, io, req) (Reporting resp) = reports n io resp"
| "stage_prog env c (Served resp) = Done (Inr resp)"

lemma traced_routes:
  "tracing_layer_prog env (gi_fresh_id io) (routes_prog env) q = Done (Inr (routed env io q))"
  by (simp add: tracing_layer_prog_def routes_prog_def routed_def tracing_layer_def pbind_def Let_def split: prod.split)

lemma if_negated: "(if \<not> b then x else y) = (if b then y else x)"
  by simp

lemma inner_prog:
  "auth_layer_prog (ge_jwt env) (ge_keys env)
     (rate_limit_layer_prog (ge_uuid_show env) rate_limit_default fw_redis set_fleet_redis
        (gi_redis io) (gi_now io) (gi_now2 io)
        (tracing_layer_prog env (gi_fresh_id io) (routes_prog env))) req =
   (case admitted_req env req of
      Inl resp \<Rightarrow> Done (Inr resp)
    | Inr q \<Rightarrow> if hq_path q = ''/api/v1/kova/health'' then Done (Inr (routed env io q)) else limits env io q)"
  by (simp add: auth_layer_prog_def admitted_req_def rate_limit_layer_prog_def traced_routes limits_def limiter_of_def
      Let_def if_negated if_distrib [of Done] if_distrib [of Inr] cong: if_cong split: sum.split)

text \<open>A stage and its program move together.\<close>

lemma reports_Act:
  "reports n io resp = Act (\<lambda>w. case stage_step env (n, io, req) (Reporting resp) w of (s, w') \<Rightarrow>
     (stage_prog env (n, io, req) s, w'))"
  by (simp add: reports_def pbind_patom)

lemma limits_Act:
  assumes "admitted_req env req = Inr q"
  shows "pbind (limits env io q) (reports n io) = Act (\<lambda>w. case stage_step env (n, io, req) Limiting w of (s, w') \<Rightarrow>
     (stage_prog env (n, io, req) s, w'))"
  unfolding limits_def pbind_patom
  by (simp add: assms pbind_def ptry_Act fun_eq_iff split: prod.split)

lemma pbind_answer: "pbind (Done (Inr a)) f = f a"
  by (simp add: pbind_def)

lemma gateway_Act:
  "gateway_prog env (n, io, req) = Act (\<lambda>w. case stage_step env (n, io, req) Asking w of (s, w') \<Rightarrow>
     (stage_prog env (n, io, req) s, w'))"
proof -
  have "stage_prog env (n, io, req) (after_permission env io req) =
      pbind (case admitted_req env req of
          Inl resp \<Rightarrow> Done (Inr resp)
        | Inr q \<Rightarrow> if hq_path q = ''/api/v1/kova/health'' then Done (Inr (routed env io q)) else limits env io q)
        (reports n io)"
    by (simp add: after_permission_def pbind_answer split: sum.split)
  moreover have "breaker_layer_prog name (replica_breaker n) (set_replica_breaker n) t1 (gi_report io) h req =
      pbind (patom (\<lambda>w. case allow_request t1 (replica_breaker n w) of (ok, b) \<Rightarrow> (Inr ok, set_replica_breaker n b w)))
        (\<lambda>ok. if ok then pbind (h req) (reports n io) else Done (Inr (api_service_unavailable name)))" for name t1 h
    by (simp add: breaker_layer_prog_def reports_def [abs_def] if_negated cong: if_cong)
  ultimately show ?thesis
    by (simp add: inner_prog pbind_patom fun_eq_iff split: prod.split)
qed

lemma stage_moves:
  assumes "stage_prog env c s = Act m" and "m w = (p, w')"
  shows "\<exists>s'. stage_step env c s w = (s', w') \<and> p = stage_prog env c s' \<and> (\<forall>resp. s \<noteq> Served resp)"
proof -
  obtain n io req where c: "c = (n, io, req)" by (metis prod_cases3)
  have "Act m = Act (\<lambda>w. case stage_step env c s w of (s, w') \<Rightarrow> (stage_prog env c s, w')) \<and> (\<forall>resp. s \<noteq> Served resp)"
    using assms(1) gateway_Act [of env n io req] limits_Act reports_Act [of n io _ env req]
    by (cases s) (auto simp: c split: sum.splits)
  then have "m w = (case stage_step env c s w of (s, w') \<Rightarrow> (stage_prog env c s, w'))" "\<forall>resp. s \<noteq> Served resp" by auto
  with assms(2) show ?thesis by (auto split: prod.splits)
qed

text \<open>A pool of requests and the stages they are at.\<close>

definition staged ::
  "gateway_env \<Rightarrow> gateway_call list \<Rightarrow> (unit, http_resp, fleet_world) prog list \<Rightarrow> stage list \<Rightarrow> bool" where
  "staged env calls ps ss \<longleftrightarrow> length ss = length calls \<and> ps = map2 (stage_prog env) calls ss"

lemma staged_start: "staged env calls (map (gateway_prog env) calls) (replicate (length calls) Asking)"
  by (auto simp: staged_def intro!: nth_equalityI)

lemma staged_turn:
  assumes "staged env calls ps ss" and "turn k (ps, w) = (ps', w')"
  shows "staged env calls ps' ss \<and> w' = w \<or>
    (\<exists>s'. k < length calls \<and> stage_step env (calls ! k) (ss ! k) w = (s', w') \<and> (\<forall>resp. ss ! k \<noteq> Served resp) \<and>
      staged env calls ps' (ss[k := s']))"
proof (cases "\<exists>m. k < length ps \<and> ps ! k = Act m")
  case True
  then obtain m p where m: "k < length ps" "ps ! k = Act m" "m w = (p, w')" and ps': "ps' = ps[k := p]"
    using assms(2) by (auto simp: turn.simps split: prod.splits)
  then have k: "k < length calls" "k < length ss" "stage_prog env (calls ! k) (ss ! k) = Act m"
    using assms(1) by (auto simp: staged_def)
  from stage_moves [OF k(3) m(3)] obtain s' where s': "stage_step env (calls ! k) (ss ! k) w = (s', w')"
      "p = stage_prog env (calls ! k) s'" "\<forall>resp. ss ! k \<noteq> Served resp" by blast
  have "ps' = map2 (stage_prog env) calls (ss[k := s'])"
    using assms(1) ps' s'(2) k by (auto simp: staged_def nth_list_update intro!: nth_equalityI)
  with assms(1) k s' show ?thesis by (auto simp: staged_def)
next
  case False
  then have "turn k (ps, w) = (ps, w)" by (cases "ps ! k") (auto simp: turn.simps)
  with assms show ?thesis by simp
qed

text \<open>An invariant of the stages is one of the pool.\<close>

lemma fleet_invariant:
  assumes "schedule order (map (gateway_prog env) calls, w) = (ps, w')"
    and "Inv (replicate (length calls) Asking) w"
    and "\<And>ss v k s v'. Inv ss v \<Longrightarrow> length ss = length calls \<Longrightarrow> k < length calls \<Longrightarrow>
      stage_step env (calls ! k) (ss ! k) v = (s, v') \<Longrightarrow> \<forall>resp. ss ! k \<noteq> Served resp \<Longrightarrow> Inv (ss[k := s]) v'"
  shows "\<exists>ss. staged env calls ps ss \<and> Inv ss w'"
  using assms(1)
proof (induction order arbitrary: ps w' rule: rev_induct)
  case Nil
  with assms(2) staged_start show ?case by auto
next
  case (snoc k order)
  obtain qs v where "schedule order (map (gateway_prog env) calls, w) = (qs, v)" by force
  with snoc have t: "turn k (qs, v) = (ps, w')" and "\<exists>ss. staged env calls qs ss \<and> Inv ss v"
    by (auto simp: schedule_append schedule_Cons)
  then obtain ss where ss: "staged env calls qs ss" "Inv ss v" by blast
  from staged_turn [OF ss(1) t] show ?case
    using ss(2) assms(3) ss(1) unfolding staged_def by metis
qed

section \<open>The limiter of a fleet\<close>

text \<open>An answer of the routes, whatever it says: none of the layers above has answered.\<close>

definition let_in :: "http_resp \<Rightarrow> bool" where
  "let_in resp \<longleftrightarrow> hs_status resp \<notin> {401, 429, 503}"

text \<open>The requests that count for a tier, an identifier and a minute.\<close>

fun in_rate_slot :: "gateway_env \<Rightarrow> tier \<Rightarrow> string \<Rightarrow> nat \<Rightarrow> gateway_call \<Rightarrow> bool" where
  "in_rate_slot env t i m (n, io, req) \<longleftrightarrow>
     hq_path req \<noteq> ''/api/v1/kova/health'' \<and> tier_for rate_limit_default (hq_path req) = t \<and>
     (\<exists>q. admitted_req env req = Inr q \<and> rate_identifier (ge_uuid_show env) t q = i) \<and> gi_now io div 60 = m"

text \<open>Those whose call of Redis got its answer: any error of it counts as allowed.\<close>

fun redis_answers :: "gateway_call \<Rightarrow> bool" where
  "redis_answers (n, io, req) \<longleftrightarrow> gi_redis io = RedisFine"

fun past_limiter :: "stage \<Rightarrow> bool" where
  "past_limiter (Reporting resp) = let_in resp"
| "past_limiter (Served resp) = let_in resp"
| "past_limiter s = False"

lemma routed_status: "hs_status (routed env io q) \<in> {200, 404, 405, 501}"
proof -
  have "hs_status (routed env io q) = hs_status (fst (routes env q ()))"
    by (simp add: routed_def tracing_layer_def insert_header_def Let_def split: prod.split)
  then show ?thesis using routes_status [of env q "()"] by simp
qed

lemma routed_not_refused [simp]: "let_in (routed env io q)" "hs_status (routed env io q) \<noteq> 503"
  using routed_status [of env io q] by (auto simp: let_in_def)

lemma admitted_req_path: "admitted_req env req = Inr q \<Longrightarrow> hq_path q = hq_path req"
  by (auto simp: admitted_req_def split: if_splits sum.splits)

lemma admitted_req_Inl: "admitted_req env req = Inl r \<Longrightarrow> hs_status r = 401"
  by (auto simp: admitted_req_def split: if_splits sum.splits)

lemma after_permission_past:
  "in_rate_slot env t i m (n, io, req) \<Longrightarrow> \<not> past_limiter (after_permission env io req)"
  by (auto simp: after_permission_def let_in_def dest: admitted_req_Inl admitted_req_path split: sum.splits)

definition counted :: "tier \<Rightarrow> string \<Rightarrow> nat \<Rightarrow> redis \<Rightarrow> int \<Rightarrow> bool" where
  "counted t i m R c \<longleftrightarrow> slot_count (60 * m) t i m R c"

lemma counted_hit:
  assumes "counted t i m R c" and "now div 60 = m" and "rate_decide RedisFine now t i R = (ok, R')"
  shows "counted t i m R' (c + 1) \<and> (ok \<longleftrightarrow> c + 1 \<le> tier_limit t)"
proof -
  have "slot_count now t i m R c"
    using slot_count_later [OF assms(1) [unfolded counted_def]] assms(2) by auto
  from slot_count_hit [OF this assms(2,3)] have "slot_count now t i m R' (c + 1)" "ok \<longleftrightarrow> c + 1 \<le> tier_limit t"
    by auto
  moreover have "0 \<le> c" using assms(1) by (auto simp: counted_def slot_count_def)
  ultimately show ?thesis by (auto simp: counted_def slot_count_def)
qed

lemma rate_decide_lost: "snd (rate_decide RedisLost now t i R) = snd (rate_decide RedisFine now t i R)"
  by (simp add: rate_decide_def split: option.split prod.split)

lemma counted_fault:
  assumes "counted t i m R c" and "now div 60 = m" and "rate_decide f now t i R = (ok, R')" and "f \<noteq> RedisFine"
  shows "counted t i m R' c \<or> counted t i m R' (c + 1)"
proof (cases f)
  case RedisLost
  with assms(3) have "rate_decide RedisFine now t i R = (fst (rate_decide RedisFine now t i R), R')"
    using rate_decide_lost [of now t i R] by (metis prod.collapse snd_conv)
  with counted_hit [OF assms(1,2)] show ?thesis by blast
qed (use assms in \<open>auto simp: rate_decide_def\<close>)

lemma counted_other:
  assumes "counted t i m R c" and "rate_decide f now t' i' R = (ok, R')" and "(t', i', now div 60) \<noteq> (t, i, m)"
  shows "counted t i m R' c"
proof -
  have "rate_key t i m \<noteq> rate_key t' i' (now div 60)" using assms(3) by (auto simp: rate_key_inject)
  then have "R' (rate_key t i m) = R (rate_key t i m)"
    using assms(2)
    by (auto simp: rate_decide_def lua_sliding_window_def Let_def redis_incr_other redis_expire_other
        split: option.splits if_splits)
  with assms(1) show ?thesis by (simp add: counted_def slot_count_def redis_live_def)
qed

text \<open>How many of a list of stages have a property, of the calls that count.\<close>

definition how_many :: "('c \<Rightarrow> bool) \<Rightarrow> (stage \<Rightarrow> bool) \<Rightarrow> 'c list \<Rightarrow> stage list \<Rightarrow> nat" where
  "how_many C P calls ss = card {k. k < length calls \<and> C (calls ! k) \<and> P (ss ! k)}"

lemma how_many_update:
  assumes "k < length calls" and "length ss = length calls"
  shows "how_many C P calls (ss[k := s]) + (if C (calls ! k) \<and> P (ss ! k) then 1 else 0) =
    how_many C P calls ss + (if C (calls ! k) \<and> P s then 1 else 0)"
proof -
  let ?A = "{j. j < length calls \<and> j \<noteq> k \<and> C (calls ! j) \<and> P (ss ! j)}"
  have fin: "finite ?A" "k \<notin> ?A" by auto
  have "{j. j < length calls \<and> C (calls ! j) \<and> P (ss[k := s] ! j)} =
      (if C (calls ! k) \<and> P s then insert k ?A else ?A)"
    "{j. j < length calls \<and> C (calls ! j) \<and> P (ss ! j)} =
      (if C (calls ! k) \<and> P (ss ! k) then insert k ?A else ?A)"
    using assms by (auto simp: nth_list_update)
  with fin show ?thesis by (simp add: how_many_def)
qed

abbreviation answered_slot :: "gateway_env \<Rightarrow> tier \<Rightarrow> string \<Rightarrow> nat \<Rightarrow> gateway_call \<Rightarrow> bool" where
  "answered_slot env t i m c \<equiv> in_rate_slot env t i m c \<and> redis_answers c"

definition limiter_inv :: "gateway_env \<Rightarrow> gateway_call list \<Rightarrow> tier \<Rightarrow> string \<Rightarrow> nat \<Rightarrow> stage list \<Rightarrow> fleet_world \<Rightarrow> bool" where
  "limiter_inv env calls t i m ss w \<longleftrightarrow>
     (\<exists>c. counted t i m (fw_redis w) c \<and> int (how_many (answered_slot env t i m) past_limiter calls ss) \<le> c) \<and>
     int (how_many (answered_slot env t i m) past_limiter calls ss) \<le> tier_limit t"

lemma limiter_inv_keep:
  assumes "limiter_inv env calls t i m ss w" and "k < length calls" and "length ss = length calls"
    and "answered_slot env t i m (calls ! k) \<Longrightarrow> past_limiter s \<longleftrightarrow> past_limiter (ss ! k)"
    and "\<And>c. counted t i m (fw_redis w) c \<Longrightarrow> counted t i m (fw_redis w') c \<or> counted t i m (fw_redis w') (c + 1)"
  shows "limiter_inv env calls t i m (ss[k := s]) w'"
proof -
  have same: "how_many (answered_slot env t i m) past_limiter calls (ss[k := s]) =
      how_many (answered_slot env t i m) past_limiter calls ss"
    using how_many_update [OF assms(2,3), of "answered_slot env t i m" past_limiter s] assms(4)
    by (auto split: if_splits)
  obtain c where c: "counted t i m (fw_redis w) c" "int (how_many (answered_slot env t i m) past_limiter calls ss) \<le> c"
    using assms(1) by (auto simp: limiter_inv_def)
  from assms(5) [OF c(1)] have "\<exists>c'. counted t i m (fw_redis w') c' \<and> c \<le> c'" by force
  with c(2) assms(1) show ?thesis unfolding limiter_inv_def same by (meson order_trans)
qed

lemma limiter_inv_step:
  assumes inv: "limiter_inv env calls t i m ss w" and len: "length ss = length calls" and k: "k < length calls"
    and step: "stage_step env (calls ! k) (ss ! k) w = (s, w')"
  shows "limiter_inv env calls t i m (ss[k := s]) w'"
proof -
  obtain n io req where c: "calls ! k = (n, io, req)" by (metis prod_cases3)
  note keep = limiter_inv_keep [OF inv k len]
  show ?thesis
  proof (cases "ss ! k")
    case Asking
    with step c have s: "s = after_permission env io req \<or> s = Served (api_service_unavailable ''kova-gateway'')"
        "fw_redis w' = fw_redis w"
      by (auto simp: fleet_defs split: prod.splits if_splits)
    from s(1) have "past_limiter s \<longleftrightarrow> past_limiter (ss ! k)" if "answered_slot env t i m (calls ! k)"
      using that after_permission_past [of env t i m n io req] Asking c
      by (elim disjE) (simp_all add: let_in_def)
    with s(2) show ?thesis by (intro keep) simp_all
  next
    case Limiting
    show ?thesis
    proof (cases "admitted_req env req")
      case (Inl r)
      with step c Limiting show ?thesis by (intro keep) auto
    next
      case (Inr q)
      let ?t = "tier_for rate_limit_default (hq_path q)"
      let ?i = "rate_identifier (ge_uuid_show env) ?t q"
      obtain ok R where d: "rate_decide (gi_redis io) (gi_now io) ?t ?i (fw_redis w) = (ok, R)" by force
      with step c Limiting Inr have
        s: "s = Reporting (if ok then routed env io q else api_too_many_requests (60 - gi_now2 io mod 60))"
          "fw_redis w' = R"
        by (auto simp: limiter_of_def fleet_defs Let_def)
      have past: "past_limiter s \<longleftrightarrow> ok" by (simp add: s(1)) (simp add: let_in_def)
      show ?thesis
      proof (cases "(?t, ?i, gi_now io div 60) = (t, i, m)")
        case False
        then have "\<not> in_rate_slot env t i m (calls ! k)"
          using admitted_req_path [OF Inr] Inr by (auto simp: c)
        with counted_other [OF _ d False] s(2) show ?thesis by (intro keep) auto
      next
        case True
        then have slot: "gi_now io div 60 = m" "?t = t" "?i = i" by auto
        note d = d [unfolded slot(3)]
        show ?thesis
        proof (cases "gi_redis io = RedisFine")
          case False
          then have "\<not> answered_slot env t i m (calls ! k)" by (simp add: c)
          moreover have "counted t i m (fw_redis w') c \<or> counted t i m (fw_redis w') (c + 1)"
            if "counted t i m (fw_redis w) c" for c
            using counted_fault [OF that slot(1) d [unfolded slot(2)] False] s(2) by simp
          ultimately show ?thesis by (intro keep) blast+
        next
          case rf: True
          let ?n = "how_many (answered_slot env t i m) past_limiter calls"
          obtain x where x: "counted t i m (fw_redis w) x" "int (?n ss) \<le> x" "int (?n ss) \<le> tier_limit t"
            using inv by (auto simp: limiter_inv_def)
          have hit: "counted t i m R (x + 1) \<and> (ok \<longleftrightarrow> x + 1 \<le> tier_limit t)"
            using counted_hit [OF x(1) slot(1), of ok R] d slot rf by simp
          have "?n (ss[k := s]) \<le> ?n ss + (if ok then 1 else 0)"
            using how_many_update [OF k len, of "answered_slot env t i m" past_limiter s] past
            by (auto simp: Limiting split: if_splits)
          with x hit have "int (?n (ss[k := s])) \<le> x + 1 \<and> int (?n (ss[k := s])) \<le> tier_limit t"
            by (auto split: if_splits)
          with hit s(2) show ?thesis unfolding limiter_inv_def by auto
        qed
      qed
    qed
  next
    case (Reporting resp)
    with step c have "s = Served resp" "fw_redis w' = fw_redis w" by (auto simp: fleet_defs)
    with Reporting show ?thesis by (intro keep) simp_all
  next
    case (Served resp)
    with step c have "s = Served resp" "w' = w" by auto
    with Served show ?thesis by (intro keep) simp_all
  qed
qed

lemma staged_Done:
  assumes "staged env calls ps ss" and "k < length calls" and "ps ! k = Done (Inr resp)"
  shows "ss ! k = Served resp"
proof -
  obtain n io req where c: "calls ! k = (n, io, req)" by (metis prod_cases3)
  have "stage_prog env (calls ! k) (ss ! k) = Done (Inr resp)"
    using assms by (auto simp: staged_def)
  then show ?thesis
    using gateway_Act [of env n io req] limits_Act reports_Act [of n io _ env req]
    by (cases "ss ! k") (auto simp: c split: sum.splits)
qed

text \<open>C18: The rate limit holds for a whole fleet: from a Redis that has not counted for the minute yet,
  whatever requests are in flight at whatever replicas, in whatever order their steps interleave
  and whoever goes away half-way, no more requests of one
  identifier in one tier and one minute of the clock are let in than its limit (10, 100 or 30) and
  one more for each of them whose own call of Redis failed, since the limiter lets a request in when
  Redis does not answer.  The rest are counted against the limit, whatever failed for others, because
  the script that counts them is one step of the Redis they share.  So where Redis answers them all,
  no more than the limit are let in.\<close>

theorem fleet_keeps_rate_limit:
  assumes "schedule order (map (gateway_prog env) calls, w) = (ps, w')"
    and "fw_redis w (rate_key t i m) = None"
  shows "card {k. k < length calls \<and> in_rate_slot env t i m (calls ! k) \<and> redis_answers (calls ! k) \<and>
      (\<exists>resp. ps ! k = Done (Inr resp) \<and> hs_status resp \<notin> {401, 429, 503})} \<le> nat (tier_limit t) \<and>
    card {k. k < length calls \<and> in_rate_slot env t i m (calls ! k) \<and>
      (\<exists>resp. ps ! k = Done (Inr resp) \<and> hs_status resp \<notin> {401, 429, 503})} \<le>
      nat (tier_limit t) + card {k. k < length calls \<and> in_rate_slot env t i m (calls ! k) \<and> \<not> redis_answers (calls ! k)}"
    (is "card ?fine \<le> _ \<and> card ?all \<le> _ + card ?failed")
proof -
  have limit: "0 \<le> tier_limit t" by (cases t) simp_all
  have "counted t i m (fw_redis w) 0"
    using assms(2) by (simp add: counted_def slot_count_def redis_live_def)
  then have start: "limiter_inv env calls t i m (replicate (length calls) Asking) w"
    using limit by (auto simp: limiter_inv_def how_many_def cong: conj_cong)
  have "\<exists>ss. staged env calls ps ss \<and> limiter_inv env calls t i m ss w'"
    by (rule fleet_invariant [OF assms(1), where Inv = "limiter_inv env calls t i m", OF start]) (rule limiter_inv_step)
  then obtain ss where ss: "staged env calls ps ss" "limiter_inv env calls t i m ss w'" by blast
  have "card ?fine \<le> how_many (answered_slot env t i m) past_limiter calls ss"
    unfolding how_many_def using staged_Done [OF ss(1)] by (intro card_mono) (auto simp: let_in_def)
  with ss(2) limit have fine: "card ?fine \<le> nat (tier_limit t)" unfolding limiter_inv_def by linarith
  have "card ?all \<le> card (?fine \<union> ?failed)" by (intro card_mono) auto
  also have "\<dots> \<le> card ?fine + card ?failed" by (rule card_Un_le)
  finally show ?thesis using fine by simp
qed

text \<open>The second of two concurrent requests at two replicas gets no answer from Redis.\<close>

abbreviation demo_calls :: "gateway_call list" where
  "demo_calls \<equiv> [(0, demo_io 1, demo_req ''POST'' ''/api/v1/kova/auth/otp/request'' []),
     (1, (demo_io 1)\<lparr>gi_redis := RedisDown\<rparr>, demo_req ''POST'' ''/api/v1/kova/auth/otp/request'' [])]"

lemma demo_calls_run:
  "schedule [0, 1, 1, 0, 0, 1]
      (map (gateway_prog demo_gateway_env) demo_calls, \<lparr>fw_breakers = (\<lambda>n. breaker_init), fw_redis = redis_empty\<rparr>) = (ps, w') \<Longrightarrow>
    (\<exists>resp. ps ! 0 = Done (Inr resp) \<and> hs_status resp = 501) \<and> (\<exists>resp. ps ! 1 = Done (Inr resp) \<and> hs_status resp = 501)"
proof -
  have open_path: "is_exempt ''/api/v1/kova/auth/otp/request''"
    "tier_for rate_limit_default ''/api/v1/kova/auth/otp/request'' = TierAuth"
    by code_simp+
  have fields: "gi_ask (demo_io n) = n" "gi_redis (demo_io n) = RedisFine" "gi_now (demo_io n) = 0"
      "hq_path (demo_req m p hs) = p" "hq_headers (demo_req m p hs) = hs" for n m p hs
    by (simp_all add: demo_io_def demo_req_def)
  have "hs_status (routed demo_gateway_env (demo_io 1) (demo_req ''POST'' ''/api/v1/kova/auth/otp/request'' [])) = 501"
    "hs_status (routed demo_gateway_env ((demo_io 1)\<lparr>gi_redis := RedisDown\<rparr>)
      (demo_req ''POST'' ''/api/v1/kova/auth/otp/request'' [])) = 501"
    by code_simp+
  then show "schedule [0, 1, 1, 0, 0, 1]
      (map (gateway_prog demo_gateway_env) demo_calls, \<lparr>fw_breakers = (\<lambda>n. breaker_init), fw_redis = redis_empty\<rparr>) = (ps, w') \<Longrightarrow>
    (\<exists>resp. ps ! 0 = Done (Inr resp) \<and> hs_status resp = 501) \<and> (\<exists>resp. ps ! 1 = Done (Inr resp) \<and> hs_status resp = 501)"
    by (auto simp: schedule_Cons turn.simps gateway_Act limits_def reports_def patom_def pbind_def admitted_req_def after_permission_def
        open_path fields limiter_of_def cell_alive_def tier_window_secs_def rate_decide_def lua_sliding_window_def redis_incr_def redis_live_def
        redis_empty_def redis_expire_def fleet_defs breaker_init_def rate_identifier_def
        extract_client_ip_def req_header_def Let_def simp del: gateway_prog.simps)
qed

theorem fleet_keeps_rate_limit_witness:
  "\<exists>ps w'. schedule [0, 1, 1, 0, 0, 1]
      (map (gateway_prog demo_gateway_env) demo_calls, \<lparr>fw_breakers = (\<lambda>n. breaker_init), fw_redis = redis_empty\<rparr>) = (ps, w') \<and>
    (\<exists>resp. ps ! 0 = Done (Inr resp) \<and> hs_status resp = 501) \<and> (\<exists>resp. ps ! 1 = Done (Inr resp) \<and> hs_status resp = 501) \<and>
    card {k. k < length demo_calls \<and> in_rate_slot demo_gateway_env TierAuth ''unknown'' 0 (demo_calls ! k) \<and>
      redis_answers (demo_calls ! k) \<and>
      (\<exists>resp. ps ! k = Done (Inr resp) \<and> hs_status resp \<notin> {401, 429, 503})} \<le> nat (tier_limit TierAuth)"
proof -
  obtain ps w' where run: "schedule [0, 1, 1, 0, 0, 1]
      (map (gateway_prog demo_gateway_env) demo_calls, \<lparr>fw_breakers = (\<lambda>n. breaker_init), fw_redis = redis_empty\<rparr>) = (ps, w')"
    by force
  from fleet_keeps_rate_limit [OF run, of TierAuth "''unknown''" 0] demo_calls_run [OF run] run show ?thesis
    unfolding fleet_world.select_convs redis_empty_def by blast
qed

section \<open>The breakers of a fleet\<close>

text \<open>The requests of a replica that its breaker has let through and that have not reported; those it has
  turned away; those that have failed.\<close>

fun in_flight :: "stage \<Rightarrow> bool" where
  "in_flight Limiting = True"
| "in_flight (Reporting resp) = True"
| "in_flight s = False"

fun turned_away :: "stage \<Rightarrow> bool" where
  "turned_away (Served resp) \<longleftrightarrow> hs_status resp = 503"
| "turned_away s \<longleftrightarrow> False"

fun has_failed :: "stage \<Rightarrow> bool" where
  "has_failed (Served resp) \<longleftrightarrow> is_server_error (hs_status resp) \<and> hs_status resp \<noteq> 503"
| "has_failed s \<longleftrightarrow> False"

fun at_replica :: "nat \<Rightarrow> gateway_call \<Rightarrow> bool" where
  "at_replica r (n, io, req) \<longleftrightarrow> n = r"

definition failures :: "breaker_event list \<Rightarrow> nat" where
  "failures es = length (filter (\<lambda>e. \<exists>t. e = Failed t) es)"

lemma breaker_run_snoc: "breaker_run c es d \<Longrightarrow> breaker_step d e d' \<Longrightarrow> breaker_run c (es @ [e]) d'"
  by (induction c es d rule: breaker_run.induct) (auto intro: breaker_run.intros)

definition breaker_inv :: "gateway_env \<Rightarrow> gateway_call list \<Rightarrow> nat \<Rightarrow> stage list \<Rightarrow> fleet_world \<Rightarrow> bool" where
  "breaker_inv env calls r ss w \<longleftrightarrow>
     (\<exists>es. breaker_run (breaker_init, 0) es (fw_breakers w r, how_many (at_replica r) in_flight calls ss) \<and>
       failures es = how_many (at_replica r) has_failed calls ss \<and>
       (how_many (at_replica r) turned_away calls ss \<noteq> 0 \<longrightarrow> (\<exists>t. Ask t False \<in> set es))) \<and>
     (\<forall>k < length calls. \<forall>resp. ss ! k = Reporting resp \<longrightarrow> hs_status resp \<noteq> 503)"

lemma how_many_same:
  assumes "k < length calls" and "length ss = length calls" and "C (calls ! k) \<Longrightarrow> P s \<longleftrightarrow> P (ss ! k)"
  shows "how_many C P calls (ss[k := s]) = how_many C P calls ss"
  using how_many_update [OF assms(1,2), of C P s] assms(3) by (auto split: if_splits)

lemma how_many_more:
  assumes "k < length calls" and "length ss = length calls" and "C (calls ! k)" and "P s" and "\<not> P (ss ! k)"
  shows "how_many C P calls (ss[k := s]) = Suc (how_many C P calls ss)"
  using how_many_update [OF assms(1,2), of C P s] assms(3-5) by simp

lemma how_many_less:
  assumes "k < length calls" and "length ss = length calls" and "C (calls ! k)" and "\<not> P s" and "P (ss ! k)"
  shows "how_many C P calls ss = Suc (how_many C P calls (ss[k := s]))"
  using how_many_update [OF assms(1,2), of C P s] assms(3-5) by simp

lemma after_permission_flies: "in_flight (after_permission env io req)"
    "\<not> turned_away (after_permission env io req)" "\<not> has_failed (after_permission env io req)"
    "after_permission env io req = Reporting resp \<Longrightarrow> hs_status resp \<noteq> 503"
  by (auto simp: after_permission_def dest: admitted_req_Inl split: sum.splits if_splits)

text \<open>What a step of a request at replica \<open>n\<close> is for the breakers: an event for its own, nothing for the
  others.\<close>

lemma stage_event:
  assumes "stage_step env (n, io, req) s w = (s', w')" and "\<forall>resp. s \<noteq> Served resp"
    and "\<And>resp. s = Reporting resp \<Longrightarrow> hs_status resp \<noteq> 503"
  shows "(r \<noteq> n \<longrightarrow> fw_breakers w' r = fw_breakers w r) \<and> (\<forall>resp. s' = Reporting resp \<longrightarrow> hs_status resp \<noteq> 503) \<and>
    (case s of
       Asking \<Rightarrow> \<exists>ok. allow_request (gi_ask io) (fw_breakers w n) = (ok, fw_breakers w' n) \<and> \<not> has_failed s' \<and>
         (if ok then in_flight s' \<and> \<not> turned_away s' else \<not> in_flight s' \<and> turned_away s')
     | Limiting \<Rightarrow> fw_breakers w' n = fw_breakers w n \<and> in_flight s' \<and> \<not> turned_away s' \<and> \<not> has_failed s'
     | Reporting resp \<Rightarrow> \<not> in_flight s' \<and> \<not> turned_away s' \<and> (has_failed s' \<longleftrightarrow> is_server_error (hs_status resp)) \<and>
         fw_breakers w' n = (if is_server_error (hs_status resp) then on_failure (gi_report io) (fw_breakers w n)
                             else on_success (fw_breakers w n))
     | Served resp \<Rightarrow> False)"
  using assms after_permission_flies
  by (cases s) (auto simp: fleet_defs is_server_error_def split: prod.splits sum.splits if_splits)

lemma breaker_inv_event:
  assumes "breaker_inv env calls r ss w" and k: "k < length calls" "length ss = length calls"
    and "\<forall>resp. s = Reporting resp \<longrightarrow> hs_status resp \<noteq> 503"
    and "breaker_step (fw_breakers w r, how_many (at_replica r) in_flight calls ss) e
      (fw_breakers w' r, how_many (at_replica r) in_flight calls (ss[k := s]))"
    and "how_many (at_replica r) has_failed calls (ss[k := s]) =
      how_many (at_replica r) has_failed calls ss + (if \<exists>t. e = Failed t then 1 else 0)"
    and "how_many (at_replica r) turned_away calls (ss[k := s]) = how_many (at_replica r) turned_away calls ss \<or>
      (\<exists>t. e = Ask t False)"
  shows "breaker_inv env calls r (ss[k := s]) w'"
proof -
  obtain es where es: "breaker_run (breaker_init, 0) es (fw_breakers w r, how_many (at_replica r) in_flight calls ss)"
      "failures es = how_many (at_replica r) has_failed calls ss"
      "how_many (at_replica r) turned_away calls ss \<noteq> 0 \<longrightarrow> (\<exists>t. Ask t False \<in> set es)"
    using assms(1) by (auto simp: breaker_inv_def)
  have "failures (es @ [e]) = how_many (at_replica r) has_failed calls (ss[k := s])"
    using es(2) assms(6) by (simp add: failures_def)
  moreover have "\<forall>j < length calls. \<forall>resp. ss[k := s] ! j = Reporting resp \<longrightarrow> hs_status resp \<noteq> 503"
    using assms(1,4) k by (auto simp: breaker_inv_def nth_list_update)
  moreover have "how_many (at_replica r) turned_away calls (ss[k := s]) \<noteq> 0 \<longrightarrow> (\<exists>t. Ask t False \<in> set (es @ [e]))"
    using assms(7) es(3) by auto
  ultimately show ?thesis
    using breaker_run_snoc [OF es(1) assms(5)] unfolding breaker_inv_def by blast
qed

lemma breaker_inv_quiet:
  assumes "breaker_inv env calls r ss w" and k: "k < length calls" "length ss = length calls"
    and "\<forall>resp. s = Reporting resp \<longrightarrow> hs_status resp \<noteq> 503" and "fw_breakers w' r = fw_breakers w r"
    and "at_replica r (calls ! k) \<Longrightarrow>
      (in_flight s \<longleftrightarrow> in_flight (ss ! k)) \<and> (turned_away s \<longleftrightarrow> turned_away (ss ! k)) \<and> (has_failed s \<longleftrightarrow> has_failed (ss ! k))"
  shows "breaker_inv env calls r (ss[k := s]) w'"
proof -
  have same: "how_many (at_replica r) in_flight calls (ss[k := s]) = how_many (at_replica r) in_flight calls ss"
    "how_many (at_replica r) turned_away calls (ss[k := s]) = how_many (at_replica r) turned_away calls ss"
    "how_many (at_replica r) has_failed calls (ss[k := s]) = how_many (at_replica r) has_failed calls ss"
    by (rule how_many_same [OF k], use assms(6) in blast)+
  have "\<forall>j < length calls. \<forall>resp. ss[k := s] ! j = Reporting resp \<longrightarrow> hs_status resp \<noteq> 503"
    using assms(1,4) k by (auto simp: breaker_inv_def nth_list_update)
  with assms(1) show ?thesis unfolding breaker_inv_def same assms(5) by blast
qed

lemma breaker_inv_step:
  assumes inv: "breaker_inv env calls r ss w" and len: "length ss = length calls" and k: "k < length calls"
    and step: "stage_step env (calls ! k) (ss ! k) w = (s, w')" and live: "\<forall>resp. ss ! k \<noteq> Served resp"
  shows "breaker_inv env calls r (ss[k := s]) w'"
proof -
  obtain n io req where c: "calls ! k = (n, io, req)" by (metis prod_cases3)
  have reporting: "hs_status resp \<noteq> 503" if "ss ! k = Reporting resp" for resp
    using inv k that by (auto simp: breaker_inv_def)
  note ev = stage_event [OF step [unfolded c] live reporting, where r = r]
  from ev have ok503: "\<forall>resp. s = Reporting resp \<longrightarrow> hs_status resp \<noteq> 503" by blast
  show ?thesis
  proof (cases "r = n")
    case False
    with ev show ?thesis by (intro breaker_inv_quiet [OF inv k len ok503]) (simp_all add: c)
  next
    case True
    then have at_r: "at_replica r (calls ! k)" by (simp add: c)
    note event = breaker_inv_event [OF inv k len ok503]
    note same = how_many_same [where C = "at_replica r", OF k len] and more = how_many_more [where C = "at_replica r", OF k len at_r]
      and less = how_many_less [where C = "at_replica r", OF k len at_r]
    show ?thesis
    proof (cases "ss ! k")
      case Asking
      with ev True obtain ok where ok: "allow_request (gi_ask io) (fw_breakers w r) = (ok, fw_breakers w' r)"
          "\<not> has_failed s" "if ok then in_flight s \<and> \<not> turned_away s else \<not> in_flight s \<and> turned_away s"
        by auto
      have failed: "how_many (at_replica r) has_failed calls (ss[k := s]) = how_many (at_replica r) has_failed calls ss"
        by (rule same) (simp add: ok(2) Asking)
      show ?thesis
      proof (cases ok)
        case True
        with ok(3) have "in_flight s" "\<not> turned_away s" by auto
        then have "how_many (at_replica r) in_flight calls (ss[k := s]) = Suc (how_many (at_replica r) in_flight calls ss)"
            "how_many (at_replica r) turned_away calls (ss[k := s]) = how_many (at_replica r) turned_away calls ss"
          by (auto intro: more same simp: Asking)
        with ok(1) True failed show ?thesis
          by (intro event [where e = "Ask (gi_ask io) True"]) (auto intro: breaker_step.intros)
      next
        case False
        with ok(3) have "\<not> in_flight s" by auto
        then have "how_many (at_replica r) in_flight calls (ss[k := s]) = how_many (at_replica r) in_flight calls ss"
          by (auto intro: same simp: Asking)
        with ok(1) False failed show ?thesis
          by (intro event [where e = "Ask (gi_ask io) False"]) (auto intro: breaker_step.intros)
      qed
    next
      case Limiting
      with ev True show ?thesis by (intro breaker_inv_quiet [OF inv k len ok503]) simp_all
    next
      case (Reporting resp)
      with ev True have s: "\<not> in_flight s" "\<not> turned_away s" "has_failed s \<longleftrightarrow> is_server_error (hs_status resp)"
          "fw_breakers w' r = (if is_server_error (hs_status resp) then on_failure (gi_report io) (fw_breakers w r)
            else on_success (fw_breakers w r))"
        by auto
      have fly: "how_many (at_replica r) in_flight calls ss = Suc (how_many (at_replica r) in_flight calls (ss[k := s]))"
        by (rule less) (use s Reporting in simp_all)
      have away: "how_many (at_replica r) turned_away calls (ss[k := s]) = how_many (at_replica r) turned_away calls ss"
        by (rule same) (use s Reporting in simp)
      show ?thesis
      proof (cases "is_server_error (hs_status resp)")
        case True
        with s Reporting have "how_many (at_replica r) has_failed calls (ss[k := s]) =
            Suc (how_many (at_replica r) has_failed calls ss)"
          by (intro more) simp_all
        with s(4) True fly away show ?thesis
          by (intro event [where e = "Failed (gi_report io)"]) (auto intro: breaker_step.intros)
      next
        case False
        with s Reporting have "how_many (at_replica r) has_failed calls (ss[k := s]) =
            how_many (at_replica r) has_failed calls ss"
          by (intro same) simp
        with s(4) False fly away show ?thesis
          by (intro event [where e = "Succeeded (gi_report io)"]) (auto intro: breaker_step.intros)
      qed
    next
      case (Served resp)
      with live show ?thesis by blast
    qed
  qed
qed

text \<open>Whatever a fleet does, each of its breakers goes through a run of \<open>breaker_step\<close>.\<close>

lemma fleet_breaker_run:
  assumes "schedule order (map (gateway_prog env) calls, w) = (ps, w')" and "fw_breakers w r = breaker_init"
  shows "\<exists>ss. staged env calls ps ss \<and> breaker_inv env calls r ss w'"
proof (rule fleet_invariant [OF assms(1), where Inv = "breaker_inv env calls r"])
  have none: "how_many (at_replica r) P calls (replicate (length calls) Asking) = 0" if "\<not> P Asking" for P
    using that by (simp add: how_many_def cong: conj_cong)
  have "failures [] = 0" by (simp add: failures_def)
  then show "breaker_inv env calls r (replicate (length calls) Asking) w"
    unfolding breaker_inv_def by (auto simp: none assms(2) intro!: exI [of _ "[]"] breaker_run.none)
qed (rule breaker_inv_step)

lemma five_of_all: "five_failures es \<Longrightarrow> 5 \<le> failures es"
  by (auto simp: five_failures_def failures_def)

text \<open>C19: A replica turns a request away only for its own failures: however the requests of a fleet
  interleave, if one at replica \<open>r\<close> is answered 503 by the breaker, then at least five requests at
  that replica have failed, answered with a server error of the routes; the other replicas' do not
  count.\<close>

theorem fleet_breaker_needs_five_failures:
  assumes "schedule order (map (gateway_prog env) calls, w) = (ps, w')" and "fw_breakers w r = breaker_init"
    and "k < length calls" and "at_replica r (calls ! k)" and "ps ! k = Done (Inr resp)" and "hs_status resp = 503"
  shows "5 \<le> card {j. j < length calls \<and> at_replica r (calls ! j) \<and>
    (\<exists>q. ps ! j = Done (Inr q) \<and> is_server_error (hs_status q) \<and> hs_status q \<noteq> 503)}"
proof -
  obtain ss es where ss: "staged env calls ps ss"
      and es: "breaker_run (breaker_init, 0) es (fw_breakers w' r, how_many (at_replica r) in_flight calls ss)"
        "failures es = how_many (at_replica r) has_failed calls ss"
        "how_many (at_replica r) turned_away calls ss \<noteq> 0 \<longrightarrow> (\<exists>t. Ask t False \<in> set es)"
    using fleet_breaker_run [OF assms(1,2)] by (auto simp: breaker_inv_def)
  have "k \<in> {j. j < length calls \<and> at_replica r (calls ! j) \<and> turned_away (ss ! j)}"
    using staged_Done [OF ss assms(3,5)] assms(3,4,6) by simp
  moreover have "finite {j. j < length calls \<and> at_replica r (calls ! j) \<and> turned_away (ss ! j)}" by simp
  ultimately have "how_many (at_replica r) turned_away calls ss \<noteq> 0"
    unfolding how_many_def by (metis card_0_eq empty_iff)
  with es(3) obtain t where "Ask t False \<in> set es" by blast
  then have "five_failures ([] @ es)"
    by (intro opens_after_five [OF es(1), where m = 0 and k = 0]) (auto simp: breaker_init_def)
  then have "5 \<le> how_many (at_replica r) has_failed calls ss"
    using five_of_all [of es] es(2) by (metis append_Nil)
  moreover have "{j. j < length calls \<and> at_replica r (calls ! j) \<and> has_failed (ss ! j)} \<subseteq>
      {j. j < length calls \<and> at_replica r (calls ! j) \<and>
        (\<exists>q. ps ! j = Done (Inr q) \<and> is_server_error (hs_status q) \<and> hs_status q \<noteq> 503)}"
  proof (intro subsetI CollectI, elim CollectE conjE)
    fix j assume j: "j < length calls" "at_replica r (calls ! j)" "has_failed (ss ! j)"
    then obtain q where q: "ss ! j = Served q" "is_server_error (hs_status q)" "hs_status q \<noteq> 503"
      by (cases "ss ! j") auto
    have "ps ! j = stage_prog env (calls ! j) (ss ! j)"
      using ss j(1) by (simp add: staged_def)
    with q j show "j < length calls \<and> at_replica r (calls ! j) \<and>
        (\<exists>q. ps ! j = Done (Inr q) \<and> is_server_error (hs_status q) \<and> hs_status q \<noteq> 503)"
      by simp
  qed
  then have "how_many (at_replica r) has_failed calls ss \<le> card {j. j < length calls \<and> at_replica r (calls ! j) \<and>
      (\<exists>q. ps ! j = Done (Inr q) \<and> is_server_error (hs_status q) \<and> hs_status q \<noteq> 503)}"
    unfolding how_many_def by (intro card_mono) simp_all
  ultimately show ?thesis by (rule le_trans)
qed

definition demo_failing :: "gateway_call list" where
  "demo_failing = replicate 6 (0, (demo_io 1)\<lparr>gi_redis := RedisDown\<rparr>, demo_req ''POST'' ''/api/v1/kova/auth/otp/request'' [])"

lemma demo_failing_run:
  "schedule ([0, 1, 2, 3, 4] @ [4, 3, 2, 1, 0] @ [2, 1, 0, 4, 3] @ [5])
      (map (gateway_prog demo_gateway_env) demo_failing, \<lparr>fw_breakers = (\<lambda>n. breaker_init), fw_redis = redis_empty\<rparr>) = (ps, w') \<Longrightarrow>
    ps ! 5 = Done (Inr (api_service_unavailable ''kova-gateway''))"
proof -
  have open_path: "is_exempt ''/api/v1/kova/auth/otp/request''" by code_simp
  have fields: "gi_ask (demo_io n) = n" "gi_report (demo_io n) = n"
      "hq_path (demo_req m p hs) = p" "hq_headers (demo_req m p hs) = hs" for n m p hs
    by (simp_all add: demo_io_def demo_req_def)
  have status: "hs_status (routed demo_gateway_env ((demo_io 1)\<lparr>gi_redis := RedisDown\<rparr>)
      (demo_req ''POST'' ''/api/v1/kova/auth/otp/request'' [])) = 501"
    by code_simp
  have counts: "on_failure 1 (Closed 0) = Closed 1" "on_failure 1 (Closed 1) = Closed 2" "on_failure 1 (Closed 2) = Closed 3"
      "on_failure 1 (Closed 3) = Closed 4" "on_failure 1 (Closed 4) = Open 1"
    by (simp_all add: Let_def failure_threshold_def word_le_nat_alt)
  have six: "map (gateway_prog demo_gateway_env) demo_failing =
      (let p = gateway_prog demo_gateway_env (0, (demo_io 1)\<lparr>gi_redis := RedisDown\<rparr>, demo_req ''POST'' ''/api/v1/kova/auth/otp/request'' [])
       in [p, p, p, p, p, p])"
    by (simp add: demo_failing_def numeral_eq_Suc Let_def del: gateway_prog.simps)
  show "schedule ([0, 1, 2, 3, 4] @ [4, 3, 2, 1, 0] @ [2, 1, 0, 4, 3] @ [5])
      (map (gateway_prog demo_gateway_env) demo_failing, \<lparr>fw_breakers = (\<lambda>n. breaker_init), fw_redis = redis_empty\<rparr>) = (ps, w') \<Longrightarrow>
    ps ! 5 = Done (Inr (api_service_unavailable ''kova-gateway''))"
    unfolding six Let_def
    by (auto simp: schedule_Cons turn.simps gateway_Act limits_def reports_def patom_def pbind_def admitted_req_def
        after_permission_def open_path fields status limiter_of_def rate_decide_def fleet_defs breaker_init_def
        is_server_error_def counts open_duration_def Let_def simp del: gateway_prog.simps on_failure.simps)
qed

theorem fleet_breaker_needs_five_failures_witness:
  "\<exists>ps w'. schedule ([0, 1, 2, 3, 4] @ [4, 3, 2, 1, 0] @ [2, 1, 0, 4, 3] @ [5])
      (map (gateway_prog demo_gateway_env) demo_failing, \<lparr>fw_breakers = (\<lambda>n. breaker_init), fw_redis = redis_empty\<rparr>) = (ps, w') \<and>
    5 \<le> card {j. j < length demo_failing \<and> at_replica 0 (demo_failing ! j) \<and>
      (\<exists>q. ps ! j = Done (Inr q) \<and> is_server_error (hs_status q) \<and> hs_status q \<noteq> 503)}"
proof -
  obtain ps w' where run: "schedule ([0, 1, 2, 3, 4] @ [4, 3, 2, 1, 0] @ [2, 1, 0, 4, 3] @ [5])
      (map (gateway_prog demo_gateway_env) demo_failing, \<lparr>fw_breakers = (\<lambda>n. breaker_init), fw_redis = redis_empty\<rparr>) = (ps, w')"
    by force
  have "5 < length demo_failing" "at_replica 0 (demo_failing ! 5)"
    by (simp_all add: demo_failing_def)
  from fleet_breaker_needs_five_failures [OF run _ this demo_failing_run [OF run]] run show ?thesis by auto
qed

end
