(* ===== verification/Http_Surface.thy ===== *)
theory Http_Surface
  imports Gateway_Http
begin

text \<open>
  What \<open>services/kova-auth\<close> and \<open>services/kova-account\<close> use of \<open>axum\<close>: a router is a list of routes
  (pattern, method, endpoint), and a handler's arguments are extracted in their order, each of which
  may refuse the request before the handler runs.

  The library itself is a parameter, \<open>http_env\<close>: how a pattern matches a path and what it captures,
  how a method matches, which content types are JSON, reading a body, parsing JSON and a query.  A
  refusal of the library has its status and a plain text, which is left out.
\<close>

record body_req = http_req +
  br_query :: string
  br_body :: string

record http_env =
  he_path_match :: "string \<Rightarrow> string \<Rightarrow> bool"
  he_path_param :: "string \<Rightarrow> string \<Rightarrow> string option"
  he_method_match :: "string \<Rightarrow> string \<Rightarrow> bool"
  he_is_json :: "string option \<Rightarrow> bool"
  he_read_body :: "string \<Rightarrow> nat + string"
  he_parse_json :: "string \<Rightarrow> json option"
  he_bad_json :: "string \<Rightarrow> nat"
  he_parse_query :: "string \<Rightarrow> (string \<times> string) list"

text \<open>Its statuses: a body that is too large or breaks off; a text that is not JSON is refused as such, or
  as data that does not fit if that shows before the syntax error does.\<close>

definition http_env_ok :: "http_env \<Rightarrow> bool" where
  "http_env_ok he \<longleftrightarrow>
     (\<forall>b s. he_read_body he b = Inl s \<longrightarrow> s \<in> {400, 413}) \<and> (\<forall>t. he_bad_json he t \<in> {400, 422})"

definition rejection :: "nat \<Rightarrow> http_resp" where
  "rejection status = \<lparr>hs_status = status, hs_headers = [], hs_body = JNull\<rparr>"

lemma rejection_status [simp]: "hs_status (rejection s) = s"
  by (simp add: rejection_def)

section \<open>Routes\<close>

text \<open>No pattern: 404; a pattern but not its method: 405.\<close>

definition dispatch ::
  "http_env \<Rightarrow> (string \<times> string \<times> 'h) list \<Rightarrow> string \<Rightarrow> string \<Rightarrow> nat + string \<times> 'h" where
  "dispatch he table path meth =
     (case filter (\<lambda>r. he_path_match he (fst r) path) table of
        [] \<Rightarrow> Inl 404
      | rs \<Rightarrow>
        (case find (\<lambda>r. he_method_match he (fst (snd r)) meth) rs of
           None \<Rightarrow> Inl 405
         | Some r \<Rightarrow> Inr (fst r, snd (snd r))))"

lemma dispatch_Inl: "dispatch he table path meth = Inl s \<Longrightarrow> s \<in> {404, 405}"
  by (auto simp: dispatch_def split: list.splits option.splits)

lemma dispatch_Inr:
  assumes "dispatch he table path meth = Inr (pat, h)"
  shows "\<exists>m. (pat, m, h) \<in> set table \<and> he_path_match he pat path \<and> he_method_match he m meth"
proof -
  let ?rs = "filter (\<lambda>r. he_path_match he (fst r) path) table"
  from assms obtain r where r: "find (\<lambda>r. he_method_match he (fst (snd r)) meth) ?rs = Some r"
      "(fst r, snd (snd r)) = (pat, h)"
    by (auto simp: dispatch_def split: list.splits option.splits)
  from r(1) have "r \<in> set ?rs" "he_method_match he (fst (snd r)) meth"
    unfolding find_Some_iff by (metis nth_mem)+
  with r(2) show ?thesis by (cases r) auto
qed

section \<open>Extractors\<close>

text \<open>\<open>Path<String>\<close>: refused if the captured segment is not UTF-8 once decoded.\<close>

definition path_extract :: "http_env \<Rightarrow> string \<Rightarrow> http_req \<Rightarrow> http_resp + string" where
  "path_extract he pat req = ok_or (he_path_param he pat (hq_path req)) (rejection 400)"

text \<open>\<open>Json<T>\<close>: the content type, then the body, then its text, then its data.\<close>

definition json_extract :: "http_env \<Rightarrow> (json \<Rightarrow> string + 'a) \<Rightarrow> body_req \<Rightarrow> http_resp + 'a" where
  "json_extract he decode req =
     (if \<not> he_is_json he (map_of (hq_headers req) ''content-type'') then Inl (rejection 415)
      else case he_read_body he (br_body req) of
          Inl status \<Rightarrow> Inl (rejection status)
        | Inr text \<Rightarrow>
          (case he_parse_json he text of
             None \<Rightarrow> Inl (rejection (he_bad_json he text))
           | Some j \<Rightarrow> map_err (\<lambda>_. rejection 422) (decode j)))"

text \<open>\<open>Query<T>\<close>.\<close>

definition query_extract ::
  "http_env \<Rightarrow> ((string \<times> string) list \<Rightarrow> string + 'a) \<Rightarrow> body_req \<Rightarrow> http_resp + 'a" where
  "query_extract he decode req = map_err (\<lambda>_. rejection 400) (decode (he_parse_query he (br_query req)))"

lemma json_extract_Inl:
  "http_env_ok he \<Longrightarrow> json_extract he decode req = Inl r \<Longrightarrow> hs_status r \<in> {400, 413, 415, 422}"
  by (fastforce simp: json_extract_def http_env_ok_def split: if_splits sum.splits option.splits
      elim!: map_err.elims)

lemma json_extract_Inr: "json_extract he decode req = Inr a \<Longrightarrow> \<exists>j. decode j = Inr a"
  by (auto simp: json_extract_def split: if_splits sum.splits option.splits elim!: map_err.elims)

text \<open>The text a client sends for a body, and what it is taken for.\<close>

definition sends_json :: "http_env \<Rightarrow> body_req \<Rightarrow> json \<Rightarrow> bool" where
  "sends_json he req j \<longleftrightarrow> he_is_json he (map_of (hq_headers req) ''content-type'') \<and>
     (\<exists>text. he_read_body he (br_body req) = Inr text \<and> he_parse_json he text = Some j)"

lemma json_extract_sent:
  "sends_json he req j \<Longrightarrow> json_extract he decode req = map_err (\<lambda>_. rejection 422) (decode j)"
  by (auto simp: sends_json_def json_extract_def)

section \<open>Derived \<open>Deserialize\<close> of a body\<close>

text \<open>The code \<open>serde\<close> derives for a struct: an object with its fields, in any order and with others
  between them, none of its own twice; or the sequence of its fields.\<close>

definition json_struct :: "string list \<Rightarrow> json \<Rightarrow> string + (string \<Rightarrow> json option)" where
  "json_struct names j =
     (case j of
        JObj fs \<Rightarrow>
          (if list_ex (\<lambda>n. 1 < length (filter (\<lambda>f. fst f = n) fs)) names then Inl ''duplicate field''
           else Inr (map_of fs))
      | JArr vs \<Rightarrow> if length vs = length names then Inr (map_of (zip names vs)) else Inl ''invalid length''
      | _ \<Rightarrow> Inl ''invalid type: expected struct'')"

definition text_field :: "(string \<Rightarrow> json option) \<Rightarrow> string \<Rightarrow> string + string" where
  "text_field get name =
     (case get name of
        None \<Rightarrow> Inl (''missing field '' @ name)
      | Some (JStr s) \<Rightarrow> Inr s
      | Some _ \<Rightarrow> Inl ''invalid type: expected a string'')"

lemma text_field_Inr [simp]: "text_field get name = Inr s \<longleftrightarrow> get name = Some (JStr s)"
  by (auto simp: text_field_def split: option.splits json.splits)

text \<open>An object with the struct's fields and no other.\<close>

lemma keys_at_most_once: "distinct (map fst fs) \<Longrightarrow> length (filter (\<lambda>f. fst f = n) fs) \<le> 1"
proof (induction fs)
  case (Cons f fs)
  have "fst f \<notin> fst ` set fs \<Longrightarrow> filter (\<lambda>g. fst g = fst f) fs = []"
    unfolding filter_empty_conv by (metis imageI)
  with Cons show ?case by auto
qed simp

lemma json_struct_fields:
  assumes "distinct names" and "map fst fs = names"
  shows "json_struct names (JObj fs) = Inr (map_of fs)"
proof -
  have "\<not> 1 < length (filter (\<lambda>f. fst f = n) fs)" for n
    using keys_at_most_once [of fs n] assms by simp
  then show ?thesis by (simp add: json_struct_def list_ex_iff)
qed

text \<open>\<open>u32::from_str\<close>, which takes one sign.\<close>

definition parse_u32 :: "string \<Rightarrow> nat option" where
  "parse_u32 s =
     (let ds = (case s of [] \<Rightarrow> [] | c # cs \<Rightarrow> if c = CHR ''+'' then cs else s)
      in if ds \<noteq> [] \<and> list_all is_ascii_digit ds \<and> read_nat ds < 2 ^ 32 then Some (read_nat ds) else None)"

lemma parse_u32_bound: "parse_u32 s = Some n \<Longrightarrow> n < 2 ^ 32"
  by (auto simp: parse_u32_def Let_def split: if_splits)

lemma parse_u32_show: "n < 2 ^ 32 \<Longrightarrow> parse_u32 (show_nat n) = Some n"
proof -
  obtain c cs where s: "show_nat n = c # cs" by (cases "show_nat n") auto
  have digits: "list_all is_ascii_digit (show_nat n)"
    using show_nat_digits by (simp add: list_all_iff)
  then have "c \<noteq> CHR ''+''" by (auto simp: s is_ascii_digit_def)
  then have "(case show_nat n of [] \<Rightarrow> [] | c # cs \<Rightarrow> if c = CHR ''+'' then cs else show_nat n) = show_nat n"
    by (simp add: s)
  moreover assume "n < 2 ^ 32"
  ultimately show ?thesis using digits by (simp add: parse_u32_def Let_def)
qed

section \<open>How \<open>axum\<close> matches paths\<close>

text \<open>What the documentation of the routes says: a segment of the pattern is itself or, in braces, any
  segment that is not empty.  It is relied on only where a request is to reach its handler.\<close>

fun segments :: "string \<Rightarrow> string list" where
  "segments [] = [[]]"
| "segments (c # cs) =
     (if c = CHR ''/'' then [] # segments cs
      else case segments cs of [] \<Rightarrow> [[c]] | s # ss \<Rightarrow> (c # s) # ss)"

definition is_capture :: "string \<Rightarrow> bool" where
  "is_capture p \<longleftrightarrow> p \<noteq> [] \<and> hd p = CHR ''{'' \<and> last p = CHR ''}''"

fun seg_match :: "string list \<Rightarrow> string list \<Rightarrow> bool" where
  "seg_match [] [] \<longleftrightarrow> True"
| "seg_match (p # ps) (s # ss) \<longleftrightarrow> (if is_capture p then s \<noteq> [] else p = s) \<and> seg_match ps ss"
| "seg_match _ _ \<longleftrightarrow> False"

fun seg_param :: "string list \<Rightarrow> string list \<Rightarrow> string option" where
  "seg_param (p # ps) (s # ss) = (if is_capture p then Some s else seg_param ps ss)"
| "seg_param _ _ = None"

definition path_match_ok :: "http_env \<Rightarrow> bool" where
  "path_match_ok he \<longleftrightarrow>
     (\<forall>pat path. he_path_match he pat path \<longleftrightarrow> seg_match (segments pat) (segments path)) \<and>
     (\<forall>pat path s. seg_match (segments pat) (segments path) \<longrightarrow>
        seg_param (segments pat) (segments path) = Some s \<longrightarrow> CHR ''%'' \<notin> set s \<longrightarrow>
        he_path_param he pat path = Some s) \<and>
     (\<forall>m. he_method_match he m m) \<and>
     (\<forall>m n. he_method_match he m n \<longrightarrow> m = n \<or> m = ''GET'' \<and> n = ''HEAD'')"

lemma path_match_okD:
  assumes "path_match_ok he"
  shows "he_path_match he pat path \<longleftrightarrow> seg_match (segments pat) (segments path)"
    and "he_method_match he m m" and "m \<noteq> n \<Longrightarrow> n \<noteq> ''HEAD'' \<Longrightarrow> \<not> he_method_match he m n"
    and "seg_match (segments pat) (segments path) \<Longrightarrow> seg_param (segments pat) (segments path) = Some s \<Longrightarrow>
      CHR ''%'' \<notin> set s \<Longrightarrow> he_path_param he pat path = Some s"
  using assms unfolding path_match_ok_def by blast+

text \<open>An identifier in a path: one segment with nothing to decode.\<close>

definition plain_segment :: "string \<Rightarrow> bool" where
  "plain_segment s \<longleftrightarrow> s \<noteq> [] \<and> CHR ''/'' \<notin> set s \<and> CHR ''%'' \<notin> set s"

lemma segments_not_Nil [simp]: "segments s \<noteq> []"
  by (induction s) (auto split: list.splits)

lemma segments_append: "segments (s @ CHR ''/'' # t) = segments s @ segments t"
  by (induction s) (auto split: list.splits)

lemma segments_plain: "CHR ''/'' \<notin> set s \<Longrightarrow> segments s = [s]"
  by (induction s) (auto split: list.splits)

text \<open>The documented matching as an instance.\<close>

definition demo_http_env :: http_env where
  "demo_http_env = \<lparr>he_path_match = (\<lambda>pat path. seg_match (segments pat) (segments path)),
     he_path_param = (\<lambda>pat path. seg_param (segments pat) (segments path)),
     he_method_match = (\<lambda>m n. m = n \<or> m = ''GET'' \<and> n = ''HEAD''),
     he_is_json = (\<lambda>ct. ct = Some ''application/json''), he_read_body = Inr,
     he_parse_json = (\<lambda>t. if t = ''currency'' then Some (JObj [(''currency'', JStr ''NGN'')])
        else if t = ''register'' then Some (JObj [(''phone_number'', JStr ''+33''), (''device_fingerprint'', JStr ''d'')])
        else None),
     he_bad_json = (\<lambda>t. 400), he_parse_query = (\<lambda>q. [])\<rparr>"

lemma demo_http_ok: "http_env_ok demo_http_env" "path_match_ok demo_http_env"
  by (simp_all add: http_env_ok_def path_match_ok_def demo_http_env_def)

text \<open>Under the documented matching every environment dispatches as this one does.\<close>

lemma dispatch_documented:
  assumes "path_match_ok he" and "meth \<noteq> ''HEAD''"
  shows "dispatch he table path meth = dispatch demo_http_env table path meth"
proof -
  have "he_path_match he = he_path_match demo_http_env"
    using path_match_okD(1) [OF assms(1)] by (simp add: fun_eq_iff demo_http_env_def)
  moreover have "he_method_match he m meth = he_method_match demo_http_env m meth" for m
    using path_match_okD(3) [OF assms(1), of m meth] path_match_okD(2) [OF assms(1)] assms(2)
    by (cases "m = meth") (auto simp: demo_http_env_def)
  ultimately show ?thesis by (simp add: dispatch_def cong: list.case_cong)
qed

text \<open>The routes that match are found on their patterns cut into segments.\<close>

lemma filter_routes_cut:
  "filter (\<lambda>r. seg_match (segments (fst r)) ss) table =
    map snd (filter (\<lambda>p. seg_match (fst p) ss) (map (\<lambda>r. (segments (fst r), r)) table))"
  by (simp add: filter_map comp_def)

lemma dispatch_cut:
  "dispatch demo_http_env table path meth =
    (case map snd (filter (\<lambda>p. seg_match (fst p) (segments path)) (map (\<lambda>r. (segments (fst r), r)) table)) of
       [] \<Rightarrow> Inl 404
     | rs \<Rightarrow>
       (case find (\<lambda>r. fst (snd r) = meth \<or> fst (snd r) = ''GET'' \<and> meth = ''HEAD'') rs of
          None \<Rightarrow> Inl 405
        | Some r \<Rightarrow> Inr (fst r, snd (snd r))))"
  by (simp add: dispatch_def demo_http_env_def filter_routes_cut cong: list.case_cong)

end
