(* ===== verification/Auth_Http.thy ===== *)
theory Auth_Http
  imports Auth_Service Http_Surface
begin

text \<open>
  \<open>router.rs\<close> of \<open>services/kova-auth\<close> and the request bodies of its handlers: a request of HTTP is
  routed, its token, its path and its body are extracted in the order of the handler's arguments,
  and what is left is a request of \<open>Auth_Service\<close>.
\<close>

section \<open>Bodies\<close>

definition register_request_body :: "json \<Rightarrow> string + authn_req" where
  "register_request_body j =
     rbind (json_struct [''phone_number'', ''device_fingerprint''] j) (\<lambda>get.
     rbind (text_field get ''phone_number'') (\<lambda>phone_number.
     rbind (text_field get ''device_fingerprint'') (\<lambda>device_fingerprint.
     Inr (XqRegister phone_number device_fingerprint))))"

text \<open>The fingerprint of a request for a code is read and not used.\<close>

definition otp_request_body :: "json \<Rightarrow> string + authn_req" where
  "otp_request_body j =
     rbind (json_struct [''phone_number'', ''device_fingerprint''] j) (\<lambda>get.
     rbind (text_field get ''phone_number'') (\<lambda>phone_number.
     rbind (text_field get ''device_fingerprint'') (\<lambda>_.
     Inr (XqOtpRequest phone_number))))"

definition otp_verify_body :: "json \<Rightarrow> string + authn_req" where
  "otp_verify_body j =
     rbind (json_struct [''phone_number'', ''otp_code'', ''device_fingerprint''] j) (\<lambda>get.
     rbind (text_field get ''phone_number'') (\<lambda>phone_number.
     rbind (text_field get ''otp_code'') (\<lambda>otp_code.
     rbind (text_field get ''device_fingerprint'') (\<lambda>device_fingerprint.
     Inr (XqOtpVerify phone_number otp_code device_fingerprint)))))"

definition token_refresh_body :: "json \<Rightarrow> string + authn_req" where
  "token_refresh_body j =
     rbind (json_struct [''refresh_token'', ''device_fingerprint''] j) (\<lambda>get.
     rbind (text_field get ''refresh_token'') (\<lambda>refresh_token.
     rbind (text_field get ''device_fingerprint'') (\<lambda>device_fingerprint.
     Inr (XqTokenRefresh refresh_token device_fingerprint))))"

text \<open>The signature is demanded and never looked at.\<close>

definition biometric_verify_body :: "json \<Rightarrow> string + authn_req" where
  "biometric_verify_body j =
     rbind (json_struct [''challenge_token'', ''biometric_signature'', ''device_fingerprint''] j) (\<lambda>get.
     rbind (text_field get ''challenge_token'') (\<lambda>challenge_token.
     rbind (text_field get ''biometric_signature'') (\<lambda>_.
     rbind (text_field get ''device_fingerprint'') (\<lambda>device_fingerprint.
     Inr (XqBiometricVerify challenge_token device_fingerprint)))))"

text \<open>\<open>new_pin\<close> is called \<open>pin\<close> in the first of these and by its name in the second.\<close>

definition set_pin_body :: "json \<Rightarrow> string + authn_req" where
  "set_pin_body j =
     rbind (json_struct [''pin'', ''otp_code''] j) (\<lambda>get.
     rbind (text_field get ''pin'') (\<lambda>new_pin.
     rbind (text_field get ''otp_code'') (\<lambda>otp_code.
     Inr (XqPinSet new_pin otp_code))))"

definition change_pin_body :: "json \<Rightarrow> string + authn_req" where
  "change_pin_body j =
     rbind (json_struct [''current_pin'', ''new_pin'', ''otp_code''] j) (\<lambda>get.
     rbind (text_field get ''current_pin'') (\<lambda>current_pin.
     rbind (text_field get ''new_pin'') (\<lambda>new_pin.
     rbind (text_field get ''otp_code'') (\<lambda>otp_code.
     Inr (XqPinChange current_pin new_pin otp_code)))))"

lemmas body_defs = register_request_body_def otp_request_body_def otp_verify_body_def token_refresh_body_def
  biometric_verify_body_def set_pin_body_def change_pin_body_def

section \<open>Routes\<close>

datatype authn_endpoint =
    XhHealth
  | XhRegister
  | XhOtpRequest
  | XhOtpVerify
  | XhTokenRefresh
  | XhChallenge
  | XhBiometricVerify
  | XhSessionDelete
  | XhRevokeAll
  | XhLogout
  | XhPinSet
  | XhPinChange

definition authn_routes :: "(string \<times> string \<times> authn_endpoint) list" where
  "authn_routes =
     [(''/api/v1/kova/auth/health'', ''GET'', XhHealth),
      (''/api/v1/kova/auth/register'', ''POST'', XhRegister),
      (''/api/v1/kova/auth/otp/request'', ''POST'', XhOtpRequest),
      (''/api/v1/kova/auth/otp/verify'', ''POST'', XhOtpVerify),
      (''/api/v1/kova/auth/token/refresh'', ''POST'', XhTokenRefresh),
      (''/api/v1/kova/auth/biometric/challenge'', ''POST'', XhChallenge),
      (''/api/v1/kova/auth/biometric/verify'', ''POST'', XhBiometricVerify),
      (''/api/v1/kova/auth/sessions/{id}'', ''DELETE'', XhSessionDelete),
      (''/api/v1/kova/auth/sessions'', ''DELETE'', XhRevokeAll),
      (''/api/v1/kova/auth/logout'', ''POST'', XhLogout),
      (''/api/v1/kova/auth/pin'', ''POST'', XhPinSet),
      (''/api/v1/kova/auth/pin'', ''PUT'', XhPinChange)]"

text \<open>The handlers with an argument \<open>claims: AuthClaims\<close>, which comes before the path and the body.\<close>

fun takes_claims :: "authn_endpoint \<Rightarrow> bool" where
  "takes_claims XhHealth = False"
| "takes_claims XhRegister = False"
| "takes_claims XhOtpRequest = False"
| "takes_claims XhOtpVerify = False"
| "takes_claims XhTokenRefresh = False"
| "takes_claims _ = True"

fun authn_arguments :: "http_env \<Rightarrow> string \<Rightarrow> authn_endpoint \<Rightarrow> body_req \<Rightarrow> http_resp + authn_req" where
  "authn_arguments he pat XhHealth req = Inr XqHealth"
| "authn_arguments he pat XhRegister req = json_extract he register_request_body req"
| "authn_arguments he pat XhOtpRequest req = json_extract he otp_request_body req"
| "authn_arguments he pat XhOtpVerify req = json_extract he otp_verify_body req"
| "authn_arguments he pat XhTokenRefresh req = json_extract he token_refresh_body req"
| "authn_arguments he pat XhChallenge req = Inr XqChallenge"
| "authn_arguments he pat XhBiometricVerify req = json_extract he biometric_verify_body req"
| "authn_arguments he pat XhSessionDelete req =
     rbind (path_extract he pat (http_req.truncate req)) (\<lambda>i. Inr (XqSessionDelete i))"
| "authn_arguments he pat XhRevokeAll req = Inr XqRevokeAll"
| "authn_arguments he pat XhLogout req = Inr XqLogout"
| "authn_arguments he pat XhPinSet req = json_extract he set_pin_body req"
| "authn_arguments he pat XhPinChange req = json_extract he change_pin_body req"

definition authn_http ::
  "http_env \<Rightarrow> authn_env \<Rightarrow> string \<Rightarrow> string \<Rightarrow> authn_io \<Rightarrow> body_req
    \<Rightarrow> authn_world \<Rightarrow> http_resp option \<times> authn_world" where
  "authn_http he env key pub io req w =
     (case rbind (map_err rejection (dispatch he authn_routes (hq_path req) (hq_method req))) (\<lambda>(pat, h).
           rbind (if takes_claims h then rbind (auth_claims_extract env pub (hq_headers req)) (\<lambda>_. Inr ()) else Inr ()) (\<lambda>_.
           authn_arguments he pat h req)) of
        Inl resp \<Rightarrow> (Some resp, w)
      | Inr q \<Rightarrow> authn_call env key pub io (hq_headers req) q w)"

section \<open>Refusals\<close>

fun endpoint_of :: "authn_req \<Rightarrow> authn_endpoint" where
  "endpoint_of XqHealth = XhHealth"
| "endpoint_of (XqRegister phone fp) = XhRegister"
| "endpoint_of (XqOtpRequest phone) = XhOtpRequest"
| "endpoint_of (XqOtpVerify phone code fp) = XhOtpVerify"
| "endpoint_of (XqTokenRefresh tok fp) = XhTokenRefresh"
| "endpoint_of XqChallenge = XhChallenge"
| "endpoint_of (XqBiometricVerify c fp) = XhBiometricVerify"
| "endpoint_of (XqSessionDelete i) = XhSessionDelete"
| "endpoint_of XqRevokeAll = XhRevokeAll"
| "endpoint_of XqLogout = XhLogout"
| "endpoint_of (XqPinSet new code) = XhPinSet"
| "endpoint_of (XqPinChange old new code) = XhPinChange"

lemma body_endpoint:
  "register_request_body j = Inr q \<Longrightarrow> endpoint_of q = XhRegister"
  "otp_request_body j = Inr q \<Longrightarrow> endpoint_of q = XhOtpRequest"
  "otp_verify_body j = Inr q \<Longrightarrow> endpoint_of q = XhOtpVerify"
  "token_refresh_body j = Inr q \<Longrightarrow> endpoint_of q = XhTokenRefresh"
  "biometric_verify_body j = Inr q \<Longrightarrow> endpoint_of q = XhBiometricVerify"
  "set_pin_body j = Inr q \<Longrightarrow> endpoint_of q = XhPinSet"
  "change_pin_body j = Inr q \<Longrightarrow> endpoint_of q = XhPinChange"
  by (auto simp: body_defs rbind_Inr_iff)

lemma arguments_endpoint: "authn_arguments he pat h req = Inr q \<Longrightarrow> endpoint_of q = h"
  by (cases h) (auto simp: rbind_Inr_iff dest!: json_extract_Inr body_endpoint)

lemma arguments_Inl:
  "http_env_ok he \<Longrightarrow> authn_arguments he pat h req = Inl r \<Longrightarrow> hs_status r \<in> {400, 413, 415, 422}"
  by (cases h) (auto simp: rbind_Inl_iff path_extract_def dest!: json_extract_Inl elim!: ok_or.elims)

lemma claims_refused: "auth_claims_extract env pub headers = Inl r \<Longrightarrow> hs_status r = 401"
  by (auto simp: auth_claims_extract_def rbind_Inl_iff authn_unauthorized_def elim!: ok_or.elims)

lemma call_without_claims:
  assumes "takes_claims (endpoint_of q)" and "auth_claims_extract env pub headers = Inl r"
  shows "authn_call env key pub io headers q w = (Some r, w)"
  using assms by (cases q) (simp_all add: authn_call_def)

text \<open>C25: The surface of the auth service: a request of HTTP is either refused with 400, 401, 404, 405, 413,
  415 or 422 and changes nothing, or is handed to the one handler whose path and method it has, as
  the request of that handler; and a request without a valid token for a handler that takes claims
  is refused with 401 whatever its body is.\<close>

theorem auth_http_refuses_or_calls:
  assumes "http_env_ok he"
  shows "((\<exists>r. authn_http he env key pub io req w = (Some r, w) \<and> hs_status r \<in> {400, 401, 404, 405, 413, 415, 422}) \<or>
     (\<exists>pat m q. (pat, m, endpoint_of q) \<in> set authn_routes \<and> he_path_match he pat (hq_path req) \<and>
        he_method_match he m (hq_method req) \<and>
        authn_http he env key pub io req w = authn_call env key pub io (hq_headers req) q w)) \<and>
    (\<forall>pat h r. dispatch he authn_routes (hq_path req) (hq_method req) = Inr (pat, h) \<and> takes_claims h \<and>
       auth_claims_extract env pub (hq_headers req) = Inl r \<longrightarrow>
       authn_http he env key pub io req w = (Some r, w) \<and> hs_status r = 401)"
proof (cases "dispatch he authn_routes (hq_path req) (hq_method req)")
  case (Inl s)
  then show ?thesis using dispatch_Inl [OF Inl] by (auto simp: authn_http_def)
next
  case (Inr ph)
  obtain pat h where ph: "ph = (pat, h)" by force
  note d = Inr [unfolded ph]
  let ?token = "if takes_claims h then rbind (auth_claims_extract env pub (hq_headers req)) (\<lambda>_. Inr ()) else Inr ()"
  show ?thesis
  proof (cases "rbind ?token (\<lambda>_. authn_arguments he pat h req)")
    case (Inl r)
    then have "hs_status r \<in> {400, 401, 413, 415, 422}"
      using arguments_Inl [OF assms] claims_refused by (auto simp: rbind_Inl_iff split: if_splits)
    with Inl d claims_refused show ?thesis by (auto simp: authn_http_def)
  next
    case (Inr q)
    then have "endpoint_of q = h"
      using arguments_endpoint by (auto simp: rbind_Inr_iff)
    with Inr d dispatch_Inr [OF d] show ?thesis
      by (auto simp: authn_http_def split: if_splits) 
  qed
qed

theorem auth_http_refuses_or_calls_witness:
  "\<exists>r. authn_http demo_http_env demo_authn_env ''key'' ''pub'' demo_authn_io
      \<lparr>hq_method = ''PUT'', hq_path = ''/api/v1/kova/auth/pin'', hq_headers = [], hq_user = None,
       br_query = '''', br_body = ''?''\<rparr> demo_authn_world = (Some r, demo_authn_world) \<and> hs_status r = 401"
proof -
  let ?req = "\<lparr>hq_method = ''PUT'', hq_path = ''/api/v1/kova/auth/pin'', hq_headers = [], hq_user = None,
       br_query = '''', br_body = ''?''\<rparr>"
  have "dispatch demo_http_env authn_routes (hq_path ?req) (hq_method ?req) = Inr (''/api/v1/kova/auth/pin'', XhPinChange)"
    by code_simp
  moreover obtain r where "auth_claims_extract demo_authn_env ''pub'' (hq_headers ?req) = Inl r"
    by (simp add: auth_claims_extract_def)
  ultimately show ?thesis
    using auth_http_refuses_or_calls [OF demo_http_ok(1), of demo_authn_env "''key''" "''pub''" demo_authn_io ?req demo_authn_world]
    by (metis takes_claims.simps(12))
qed

section \<open>Every handler can be reached\<close>

text \<open>How a client writes a request down: method, path and body.  The fields a handler does not use are \<open>x\<close>.\<close>

definition session_path :: "string \<Rightarrow> string" where
  "session_path i = ''/api/v1/kova/auth/sessions/'' @ i"

fun authn_wire :: "string \<Rightarrow> authn_req \<Rightarrow> string \<times> string \<times> json option" where
  "authn_wire x XqHealth = (''GET'', ''/api/v1/kova/auth/health'', None)"
| "authn_wire x (XqRegister phone fp) = (''POST'', ''/api/v1/kova/auth/register'',
     Some (JObj [(''phone_number'', JStr phone), (''device_fingerprint'', JStr fp)]))"
| "authn_wire x (XqOtpRequest phone) = (''POST'', ''/api/v1/kova/auth/otp/request'',
     Some (JObj [(''phone_number'', JStr phone), (''device_fingerprint'', JStr x)]))"
| "authn_wire x (XqOtpVerify phone code fp) = (''POST'', ''/api/v1/kova/auth/otp/verify'',
     Some (JObj [(''phone_number'', JStr phone), (''otp_code'', JStr code), (''device_fingerprint'', JStr fp)]))"
| "authn_wire x (XqTokenRefresh tok fp) = (''POST'', ''/api/v1/kova/auth/token/refresh'',
     Some (JObj [(''refresh_token'', JStr tok), (''device_fingerprint'', JStr fp)]))"
| "authn_wire x XqChallenge = (''POST'', ''/api/v1/kova/auth/biometric/challenge'', None)"
| "authn_wire x (XqBiometricVerify c fp) = (''POST'', ''/api/v1/kova/auth/biometric/verify'',
     Some (JObj [(''challenge_token'', JStr c), (''biometric_signature'', JStr x), (''device_fingerprint'', JStr fp)]))"
| "authn_wire x (XqSessionDelete i) = (''DELETE'', session_path i, None)"
| "authn_wire x XqRevokeAll = (''DELETE'', ''/api/v1/kova/auth/sessions'', None)"
| "authn_wire x XqLogout = (''POST'', ''/api/v1/kova/auth/logout'', None)"
| "authn_wire x (XqPinSet new code) = (''POST'', ''/api/v1/kova/auth/pin'',
     Some (JObj [(''pin'', JStr new), (''otp_code'', JStr code)]))"
| "authn_wire x (XqPinChange old new code) = (''PUT'', ''/api/v1/kova/auth/pin'',
     Some (JObj [(''current_pin'', JStr old), (''new_pin'', JStr new), (''otp_code'', JStr code)]))"

lemma authn_dispatches:
  "dispatch demo_http_env authn_routes ''/api/v1/kova/auth/health'' ''GET'' = Inr (''/api/v1/kova/auth/health'', XhHealth)"
  "dispatch demo_http_env authn_routes ''/api/v1/kova/auth/register'' ''POST'' =
     Inr (''/api/v1/kova/auth/register'', XhRegister)"
  "dispatch demo_http_env authn_routes ''/api/v1/kova/auth/otp/request'' ''POST'' =
     Inr (''/api/v1/kova/auth/otp/request'', XhOtpRequest)"
  "dispatch demo_http_env authn_routes ''/api/v1/kova/auth/otp/verify'' ''POST'' =
     Inr (''/api/v1/kova/auth/otp/verify'', XhOtpVerify)"
  "dispatch demo_http_env authn_routes ''/api/v1/kova/auth/token/refresh'' ''POST'' =
     Inr (''/api/v1/kova/auth/token/refresh'', XhTokenRefresh)"
  "dispatch demo_http_env authn_routes ''/api/v1/kova/auth/biometric/challenge'' ''POST'' =
     Inr (''/api/v1/kova/auth/biometric/challenge'', XhChallenge)"
  "dispatch demo_http_env authn_routes ''/api/v1/kova/auth/biometric/verify'' ''POST'' =
     Inr (''/api/v1/kova/auth/biometric/verify'', XhBiometricVerify)"
  "dispatch demo_http_env authn_routes ''/api/v1/kova/auth/sessions'' ''DELETE'' =
     Inr (''/api/v1/kova/auth/sessions'', XhRevokeAll)"
  "dispatch demo_http_env authn_routes ''/api/v1/kova/auth/logout'' ''POST'' =
     Inr (''/api/v1/kova/auth/logout'', XhLogout)"
  "dispatch demo_http_env authn_routes ''/api/v1/kova/auth/pin'' ''POST'' = Inr (''/api/v1/kova/auth/pin'', XhPinSet)"
  "dispatch demo_http_env authn_routes ''/api/v1/kova/auth/pin'' ''PUT'' = Inr (''/api/v1/kova/auth/pin'', XhPinChange)"
  by code_simp+

text \<open>A session id: only the pattern with the capture has as many segments, and it captures the id.\<close>

lemma authn_routes_segments:
  "map (\<lambda>r. (segments (fst r), r)) authn_routes =
   map (\<lambda>(ss, r). (['''', ''api'', ''v1'', ''kova'', ''auth''] @ ss, r))
     [([''health''], authn_routes ! 0),
      ([''register''], authn_routes ! 1),
      ([''otp'', ''request''], authn_routes ! 2),
      ([''otp'', ''verify''], authn_routes ! 3),
      ([''token'', ''refresh''], authn_routes ! 4),
      ([''biometric'', ''challenge''], authn_routes ! 5),
      ([''biometric'', ''verify''], authn_routes ! 6),
      ([''sessions'', ''{id}''], authn_routes ! 7),
      ([''sessions''], authn_routes ! 8),
      ([''logout''], authn_routes ! 9),
      ([''pin''], authn_routes ! 10),
      ([''pin''], authn_routes ! 11)]"
  by code_simp

lemma sessions_segments:
  "segments ''/api/v1/kova/auth/sessions'' = ['''', ''api'', ''v1'', ''kova'', ''auth'', ''sessions'']"
  by code_simp

lemma session_path_segments:
  assumes "plain_segment i"
  shows "segments (session_path i) = ['''', ''api'', ''v1'', ''kova'', ''auth'', ''sessions'', i]"
proof -
  have "segments (''/api/v1/kova/auth/sessions'' @ CHR ''/'' # i) =
      ['''', ''api'', ''v1'', ''kova'', ''auth'', ''sessions'', i]"
    unfolding segments_append sessions_segments using assms by (simp add: plain_segment_def segments_plain)
  then show ?thesis by (simp add: session_path_def)
qed

lemma session_dispatch:
  assumes "plain_segment i"
  shows "dispatch demo_http_env authn_routes (session_path i) ''DELETE'' =
    Inr (''/api/v1/kova/auth/sessions/{id}'', XhSessionDelete)"
proof -
  have "authn_routes ! 7 = (''/api/v1/kova/auth/sessions/{id}'', ''DELETE'', XhSessionDelete)"
    by code_simp
  then show ?thesis
    unfolding dispatch_cut session_path_segments [OF assms] authn_routes_segments
    using assms by (simp add: is_capture_def plain_segment_def)
qed

lemma authn_dispatch:
  assumes "path_match_ok he" and "authn_wire x q = (m, path, body)" and "\<forall>i. q = XqSessionDelete i \<longrightarrow> plain_segment i"
  shows "\<exists>pat. dispatch he authn_routes path m = Inr (pat, endpoint_of q) \<and>
    (\<forall>i. q = XqSessionDelete i \<longrightarrow> pat = ''/api/v1/kova/auth/sessions/{id}'')"
proof -
  have "m \<noteq> ''HEAD''" using assms(2) by (cases q) auto
  note here = dispatch_documented [OF assms(1) this]
  show ?thesis
    unfolding here using assms(2,3) by (cases q) (auto simp: authn_dispatches session_dispatch)
qed

lemma session_param:
  assumes "path_match_ok he" and "plain_segment i"
  shows "he_path_param he ''/api/v1/kova/auth/sessions/{id}'' (session_path i) = Some i"
proof -
  have pat: "segments ''/api/v1/kova/auth/sessions/{id}'' = ['''', ''api'', ''v1'', ''kova'', ''auth'', ''sessions'', ''{id}'']"
    by code_simp
  show ?thesis
    using assms(2) session_path_segments [OF assms(2)]
    by (intro path_match_okD(4) [OF assms(1)]) (simp_all add: pat is_capture_def plain_segment_def)
qed

lemma arguments_wire:
  assumes "path_match_ok he" and "authn_wire x q = (m, hq_path req, body)"
    and "\<forall>j. body = Some j \<longrightarrow> sends_json he req j"
    and "\<forall>i. q = XqSessionDelete i \<longrightarrow> plain_segment i \<and> pat = ''/api/v1/kova/auth/sessions/{id}''"
  shows "authn_arguments he pat (endpoint_of q) req = Inr q"
proof (cases "\<exists>i. q = XqSessionDelete i")
  case True
  then obtain i where q: "q = XqSessionDelete i" by blast
  with assms(2,4) have "hq_path req = session_path i" "plain_segment i" "pat = ''/api/v1/kova/auth/sessions/{id}''"
    by auto
  with q session_param [OF assms(1)] show ?thesis
    by (simp add: path_extract_def http_req.truncate_def)
next
  case False
  with assms(2,3) show ?thesis
    by (cases q) (auto simp: json_extract_sent body_defs json_struct_fields text_field_def)
qed

text \<open>Every handler of the auth service is reached by its request: what a client writes down for a request
  (method, path, and the body as an object with the fields of its struct) is routed and decoded to
  exactly that request, for each of the twelve endpoints, and answered as the handler answers it.\<close>

theorem auth_http_reaches_every_handler:
  assumes "path_match_ok he" and "authn_wire x q = (hq_method req, hq_path req, body)"
    and "\<forall>j. body = Some j \<longrightarrow> sends_json he req j" and "\<forall>i. q = XqSessionDelete i \<longrightarrow> plain_segment i"
  shows "authn_http he env key pub io req w = authn_call env key pub io (hq_headers req) q w"
proof -
  obtain pat where d: "dispatch he authn_routes (hq_path req) (hq_method req) = Inr (pat, endpoint_of q)"
      "\<forall>i. q = XqSessionDelete i \<longrightarrow> pat = ''/api/v1/kova/auth/sessions/{id}''"
    using authn_dispatch [OF assms(1,2,4)] by blast
  with arguments_wire [OF assms(1-3), of pat] assms(4)
  have args: "authn_arguments he pat (endpoint_of q) req = Inr q" by blast
  show ?thesis
  proof (cases "auth_claims_extract env pub (hq_headers req)")
    case (Inl r)
    with d(1) args call_without_claims [OF _ Inl] show ?thesis by (simp add: authn_http_def)
  next
    case (Inr claims)
    with d(1) args show ?thesis by (simp add: authn_http_def)
  qed
qed

theorem auth_http_reaches_every_handler_witness:
  "authn_http demo_http_env demo_authn_env ''key'' ''pub'' demo_authn_io
      \<lparr>hq_method = ''POST'', hq_path = ''/api/v1/kova/auth/register'',
       hq_headers = [(''content-type'', ''application/json'')], hq_user = None, br_query = '''', br_body = ''register''\<rparr>
      demo_authn_world =
    authn_call demo_authn_env ''key'' ''pub'' demo_authn_io [(''content-type'', ''application/json'')]
      (XqRegister ''+33'' ''d'') demo_authn_world"
  using auth_http_reaches_every_handler [OF demo_http_ok(2), where q = "XqRegister ''+33'' ''d''" and x = "''''"
      and req = "\<lparr>hq_method = ''POST'', hq_path = ''/api/v1/kova/auth/register'',
       hq_headers = [(''content-type'', ''application/json'')], hq_user = None, br_query = '''', br_body = ''register''\<rparr>"]
  by (simp add: sends_json_def demo_http_env_def)

end
