(* ===== verification/Account_Http.thy ===== *)
theory Account_Http
  imports Account_Service Http_Surface
begin

text \<open>
  \<open>router.rs\<close> of \<open>services/kova-account\<close>, the body of a creation and the query of a statement: a
  request of HTTP is routed, its token, its path, its query and its body are extracted in the order of
  the handler's arguments, and what is left is a request of \<open>Account_Service\<close>.
\<close>

section \<open>Bodies and queries\<close>

definition create_account_body :: "json \<Rightarrow> string + account_req" where
  "create_account_body j =
     rbind (json_struct [''currency''] j) (\<lambda>get.
     rbind (text_field get ''currency'') (\<lambda>currency.
     Inr (AqCreate currency)))"

definition statement_query_of :: "(string \<times> string) list \<Rightarrow> string + statement_query" where
  "statement_query_of kvs =
     (if list_ex (\<lambda>n. 1 < length (filter (\<lambda>kv. fst kv = n) kvs)) [''cursor'', ''limit''] then Inl ''duplicate field''
      else case map_of kvs ''limit'' of
          None \<Rightarrow> Inr \<lparr>sy_cursor = map_of kvs ''cursor'', sy_limit = None\<rparr>
        | Some t \<Rightarrow>
          (case parse_u32 t of
             None \<Rightarrow> Inl ''invalid digit found in string''
           | Some n \<Rightarrow> Inr \<lparr>sy_cursor = map_of kvs ''cursor'', sy_limit = Some n\<rparr>))"

section \<open>Routes\<close>

datatype account_endpoint = AhHealth | AhCreate | AhList | AhGet | AhClose | AhBalance | AhStatement

definition account_routes :: "(string \<times> string \<times> account_endpoint) list" where
  "account_routes =
     [(''/api/v1/kova/account/health'', ''GET'', AhHealth),
      (''/api/v1/kova/accounts'', ''POST'', AhCreate),
      (''/api/v1/kova/accounts'', ''GET'', AhList),
      (''/api/v1/kova/accounts/{id}'', ''GET'', AhGet),
      (''/api/v1/kova/accounts/{id}'', ''DELETE'', AhClose),
      (''/api/v1/kova/accounts/{id}/balance'', ''GET'', AhBalance),
      (''/api/v1/kova/accounts/{id}/statement'', ''GET'', AhStatement)]"

fun account_arguments :: "http_env \<Rightarrow> string \<Rightarrow> account_endpoint \<Rightarrow> body_req \<Rightarrow> http_resp + account_req" where
  "account_arguments he pat AhHealth req = Inr AqHealth"
| "account_arguments he pat AhCreate req = json_extract he create_account_body req"
| "account_arguments he pat AhList req = Inr AqList"
| "account_arguments he pat AhGet req =
     rbind (path_extract he pat (http_req.truncate req)) (\<lambda>i. Inr (AqGet i))"
| "account_arguments he pat AhClose req =
     rbind (path_extract he pat (http_req.truncate req)) (\<lambda>i. Inr (AqClose i))"
| "account_arguments he pat AhBalance req =
     rbind (path_extract he pat (http_req.truncate req)) (\<lambda>i. Inr (AqBalance i))"
| "account_arguments he pat AhStatement req =
     rbind (path_extract he pat (http_req.truncate req)) (\<lambda>i.
     rbind (query_extract he statement_query_of req) (\<lambda>q. Inr (AqStatement i q)))"

definition account_http ::
  "http_env \<Rightarrow> account_env \<Rightarrow> string \<Rightarrow> 'x account_clients \<Rightarrow> account_io \<Rightarrow> body_req
    \<Rightarrow> 'x account_world \<Rightarrow> http_resp \<times> 'x account_world" where
  "account_http he env key cl io req w =
     (case rbind (map_err rejection (dispatch he account_routes (hq_path req) (hq_method req))) (\<lambda>(pat, h).
           rbind (if h = AhHealth then Inr ()
                  else rbind (auth_user_extract env key (hq_headers req)) (\<lambda>_. Inr ())) (\<lambda>_.
           account_arguments he pat h req)) of
        Inl resp \<Rightarrow> (resp, w)
      | Inr q \<Rightarrow> account_call env key cl io (hq_headers req) q w)"

section \<open>Refusals\<close>

fun account_endpoint_of :: "account_req \<Rightarrow> account_endpoint" where
  "account_endpoint_of AqHealth = AhHealth"
| "account_endpoint_of (AqCreate c) = AhCreate"
| "account_endpoint_of AqList = AhList"
| "account_endpoint_of (AqGet i) = AhGet"
| "account_endpoint_of (AqClose i) = AhClose"
| "account_endpoint_of (AqBalance i) = AhBalance"
| "account_endpoint_of (AqStatement i q) = AhStatement"

lemma account_arguments_endpoint: "account_arguments he pat h req = Inr q \<Longrightarrow> account_endpoint_of q = h"
  by (cases h) (auto simp: rbind_Inr_iff create_account_body_def dest!: json_extract_Inr)

lemma account_arguments_Inl:
  "http_env_ok he \<Longrightarrow> account_arguments he pat h req = Inl r \<Longrightarrow> hs_status r \<in> {400, 413, 415, 422}"
  by (cases h) (auto simp: rbind_Inl_iff path_extract_def query_extract_def dest!: json_extract_Inl
      elim!: ok_or.elims map_err.elims)

lemma user_refused: "auth_user_extract env key headers = Inl r \<Longrightarrow> hs_status r = 401"
  by (auto simp: auth_user_extract_def rbind_Inl_iff unauthorized_response_def elim!: ok_or.elims split: option.splits)

lemma call_without_user:
  assumes "account_endpoint_of q \<noteq> AhHealth" and "auth_user_extract env key headers = Inl r"
  shows "account_call env key cl io headers q w = (r, w)"
  using assms by (cases q) (simp_all add: account_call_def)

text \<open>The surface of the account service: a request of HTTP is either refused with 400, 401, 404, 405,
  413, 415 or 422 and changes nothing, or is handed to the one handler whose path and method it has;
  without a valid token it is refused with 401 whatever its path, query and body hold, unless it asks
  for the health of the service; and a handler is never given a limit that is not 32 bits wide.\<close>

theorem account_http_refuses_or_calls:
  assumes "http_env_ok he"
  shows "((\<exists>r. account_http he env key cl io req w = (r, w) \<and> hs_status r \<in> {400, 401, 404, 405, 413, 415, 422}) \<or>
     (\<exists>pat m q. (pat, m, account_endpoint_of q) \<in> set account_routes \<and> he_path_match he pat (hq_path req) \<and>
        he_method_match he m (hq_method req) \<and>
        (\<forall>i sq n. q = AqStatement i sq \<and> sy_limit sq = Some n \<longrightarrow> n < 2 ^ 32) \<and>
        account_http he env key cl io req w = account_call env key cl io (hq_headers req) q w)) \<and>
    (\<forall>pat h r. dispatch he account_routes (hq_path req) (hq_method req) = Inr (pat, h) \<and> h \<noteq> AhHealth \<and>
       auth_user_extract env key (hq_headers req) = Inl r \<longrightarrow>
       account_http he env key cl io req w = (r, w) \<and> hs_status r = 401)"
proof (cases "dispatch he account_routes (hq_path req) (hq_method req)")
  case (Inl s)
  then show ?thesis using dispatch_Inl [OF Inl] by (auto simp: account_http_def)
next
  case (Inr ph)
  obtain pat h where ph: "ph = (pat, h)" by force
  note d = Inr [unfolded ph]
  let ?token = "if h = AhHealth then Inr () else rbind (auth_user_extract env key (hq_headers req)) (\<lambda>_. Inr ())"
  show ?thesis
  proof (cases "rbind ?token (\<lambda>_. account_arguments he pat h req)")
    case (Inl r)
    then have "hs_status r \<in> {400, 401, 413, 415, 422}"
      using account_arguments_Inl [OF assms] user_refused by (auto simp: rbind_Inl_iff split: if_splits)
    with Inl d user_refused show ?thesis by (auto simp: account_http_def)
  next
    case (Inr q)
    then have args: "account_arguments he pat h req = Inr q" by (auto simp: rbind_Inr_iff)
    then have h: "account_endpoint_of q = h" by (rule account_arguments_endpoint)
    have "n < 2 ^ 32" if "q = AqStatement i sq" "sy_limit sq = Some n" for i sq n
    proof -
      from h that(1) have "h = AhStatement" by simp
      with args that obtain kvs where "statement_query_of kvs = Inr sq"
        by (auto simp: rbind_Inr_iff query_extract_def elim!: map_err.elims)
      with that(2) show ?thesis
        by (auto simp: statement_query_of_def split: if_splits option.splits dest!: parse_u32_bound)
    qed
    then have "\<forall>i sq n. q = AqStatement i sq \<and> sy_limit sq = Some n \<longrightarrow> n < 2 ^ 32" by blast
    moreover from Inr d have call: "account_http he env key cl io req w = account_call env key cl io (hq_headers req) q w"
      by (simp add: account_http_def)
    moreover obtain m where "(pat, m, account_endpoint_of q) \<in> set account_routes" "he_path_match he pat (hq_path req)"
        "he_method_match he m (hq_method req)"
      using dispatch_Inr [OF d] h by blast
    moreover have "h \<noteq> AhHealth \<Longrightarrow> auth_user_extract env key (hq_headers req) \<noteq> Inl r" for r
      using Inr by auto
    ultimately show ?thesis using d by (simp, blast)
  qed
qed

theorem account_http_refuses_or_calls_witness:
  "\<exists>r. account_http demo_http_env demo_account_env ''k'' stub_clients demo_account_io
      \<lparr>hq_method = ''POST'', hq_path = ''/api/v1/kova/accounts'', hq_headers = [], hq_user = None,
       br_query = '''', br_body = ''?''\<rparr> demo_active_world = (r, demo_active_world) \<and> hs_status r = 401"
proof -
  let ?req = "\<lparr>hq_method = ''POST'', hq_path = ''/api/v1/kova/accounts'', hq_headers = [], hq_user = None,
       br_query = '''', br_body = ''?''\<rparr>"
  have "dispatch demo_http_env account_routes (hq_path ?req) (hq_method ?req) = Inr (''/api/v1/kova/accounts'', AhCreate)"
    by code_simp
  moreover obtain r where "auth_user_extract demo_account_env ''k'' (hq_headers ?req) = Inl r"
    by (simp add: auth_user_extract_def)
  ultimately show ?thesis
    using account_http_refuses_or_calls [OF demo_http_ok(1), of demo_account_env "''k''" stub_clients demo_account_io ?req demo_active_world]
    by (metis account_endpoint.distinct(1))
qed

section \<open>Every handler can be reached\<close>

text \<open>How a client writes a request down: method, path, query and body.\<close>

definition account_path :: "string \<Rightarrow> string \<Rightarrow> string" where
  "account_path i sub = ''/api/v1/kova/accounts/'' @ i @ sub"

definition query_pairs :: "statement_query \<Rightarrow> (string \<times> string) list" where
  "query_pairs q =
     (case sy_cursor q of None \<Rightarrow> [] | Some c \<Rightarrow> [(''cursor'', c)]) @
     (case sy_limit q of None \<Rightarrow> [] | Some n \<Rightarrow> [(''limit'', show_nat n)])"

fun account_wire :: "account_req \<Rightarrow> string \<times> string \<times> json option" where
  "account_wire AqHealth = (''GET'', ''/api/v1/kova/account/health'', None)"
| "account_wire (AqCreate c) = (''POST'', ''/api/v1/kova/accounts'', Some (JObj [(''currency'', JStr c)]))"
| "account_wire AqList = (''GET'', ''/api/v1/kova/accounts'', None)"
| "account_wire (AqGet i) = (''GET'', account_path i '''', None)"
| "account_wire (AqClose i) = (''DELETE'', account_path i '''', None)"
| "account_wire (AqBalance i) = (''GET'', account_path i ''/balance'', None)"
| "account_wire (AqStatement i q) = (''GET'', account_path i ''/statement'', None)"

fun wire_id :: "account_req \<Rightarrow> string option" where
  "wire_id (AqGet i) = Some i"
| "wire_id (AqClose i) = Some i"
| "wire_id (AqBalance i) = Some i"
| "wire_id (AqStatement i q) = Some i"
| "wire_id _ = None"

fun id_pattern :: "account_req \<Rightarrow> string" where
  "id_pattern (AqBalance i) = ''/api/v1/kova/accounts/{id}/balance''"
| "id_pattern (AqStatement i q) = ''/api/v1/kova/accounts/{id}/statement''"
| "id_pattern _ = ''/api/v1/kova/accounts/{id}''"

lemma query_roundtrip:
  assumes "\<forall>n. sy_limit q = Some n \<longrightarrow> n < 2 ^ 32"
  shows "statement_query_of (query_pairs q) = Inr q"
proof -
  have "parse_u32 (show_nat n) = Some n" if "sy_limit q = Some n" for n
    using assms that by (intro parse_u32_show) simp
  then show ?thesis
    by (cases q) (auto simp: statement_query_of_def query_pairs_def split: option.split)
qed

lemma accounts_segments:
  "segments ''/api/v1/kova/accounts'' = ['''', ''api'', ''v1'', ''kova'', ''accounts'']"
  "segments ''balance'' = [''balance'']" "segments ''statement'' = [''statement'']"
  by code_simp+

lemma account_path_segments:
  assumes "plain_segment i"
  shows "segments (account_path i '''') = ['''', ''api'', ''v1'', ''kova'', ''accounts'', i]"
    and "segments (account_path i ''/balance'') = ['''', ''api'', ''v1'', ''kova'', ''accounts'', i, ''balance'']"
    and "segments (account_path i ''/statement'') = ['''', ''api'', ''v1'', ''kova'', ''accounts'', i, ''statement'']"
proof -
  have i: "segments i = [i]" using assms by (simp add: plain_segment_def segments_plain)
  have "segments (''/api/v1/kova/accounts'' @ CHR ''/'' # i) = ['''', ''api'', ''v1'', ''kova'', ''accounts'', i]"
    "segments (''/api/v1/kova/accounts'' @ CHR ''/'' # i @ CHR ''/'' # ''balance'') =
       ['''', ''api'', ''v1'', ''kova'', ''accounts'', i, ''balance'']"
    "segments (''/api/v1/kova/accounts'' @ CHR ''/'' # i @ CHR ''/'' # ''statement'') =
       ['''', ''api'', ''v1'', ''kova'', ''accounts'', i, ''statement'']"
    unfolding segments_append accounts_segments i by simp_all
  then show "segments (account_path i '''') = ['''', ''api'', ''v1'', ''kova'', ''accounts'', i]"
    and "segments (account_path i ''/balance'') = ['''', ''api'', ''v1'', ''kova'', ''accounts'', i, ''balance'']"
    and "segments (account_path i ''/statement'') = ['''', ''api'', ''v1'', ''kova'', ''accounts'', i, ''statement'']"
    by (simp_all add: account_path_def)
qed

lemma account_routes_segments:
  "map (\<lambda>r. (segments (fst r), r)) account_routes =
   map (\<lambda>(ss, r). (['''', ''api'', ''v1'', ''kova''] @ ss, r))
     [([''account'', ''health''], account_routes ! 0), ([''accounts''], account_routes ! 1),
      ([''accounts''], account_routes ! 2), ([''accounts'', ''{id}''], account_routes ! 3),
      ([''accounts'', ''{id}''], account_routes ! 4), ([''accounts'', ''{id}'', ''balance''], account_routes ! 5),
      ([''accounts'', ''{id}'', ''statement''], account_routes ! 6)]"
  by code_simp

lemma account_dispatches:
  "dispatch demo_http_env account_routes ''/api/v1/kova/account/health'' ''GET'' =
     Inr (''/api/v1/kova/account/health'', AhHealth)"
  "dispatch demo_http_env account_routes ''/api/v1/kova/accounts'' ''POST'' = Inr (''/api/v1/kova/accounts'', AhCreate)"
  "dispatch demo_http_env account_routes ''/api/v1/kova/accounts'' ''GET'' = Inr (''/api/v1/kova/accounts'', AhList)"
  by code_simp+

lemma account_id_dispatches:
  assumes "plain_segment i"
  shows "dispatch demo_http_env account_routes (account_path i '''') ''GET'' = Inr (''/api/v1/kova/accounts/{id}'', AhGet)"
    and "dispatch demo_http_env account_routes (account_path i '''') ''DELETE'' = Inr (''/api/v1/kova/accounts/{id}'', AhClose)"
    and "dispatch demo_http_env account_routes (account_path i ''/balance'') ''GET'' =
      Inr (''/api/v1/kova/accounts/{id}/balance'', AhBalance)"
    and "dispatch demo_http_env account_routes (account_path i ''/statement'') ''GET'' =
      Inr (''/api/v1/kova/accounts/{id}/statement'', AhStatement)"
proof -
  have r: "account_routes ! 3 = (''/api/v1/kova/accounts/{id}'', ''GET'', AhGet)"
    "account_routes ! 4 = (''/api/v1/kova/accounts/{id}'', ''DELETE'', AhClose)"
    "account_routes ! 5 = (''/api/v1/kova/accounts/{id}/balance'', ''GET'', AhBalance)"
    "account_routes ! 6 = (''/api/v1/kova/accounts/{id}/statement'', ''GET'', AhStatement)"
    by code_simp+
  note cut = dispatch_cut account_path_segments [OF assms] account_routes_segments
  show "dispatch demo_http_env account_routes (account_path i '''') ''GET'' = Inr (''/api/v1/kova/accounts/{id}'', AhGet)"
    unfolding cut using assms r by (simp add: is_capture_def plain_segment_def)
  show "dispatch demo_http_env account_routes (account_path i '''') ''DELETE'' = Inr (''/api/v1/kova/accounts/{id}'', AhClose)"
    unfolding cut using assms r by (simp add: is_capture_def plain_segment_def)
  show "dispatch demo_http_env account_routes (account_path i ''/balance'') ''GET'' =
      Inr (''/api/v1/kova/accounts/{id}/balance'', AhBalance)"
    unfolding cut using assms r by (simp add: is_capture_def plain_segment_def)
  show "dispatch demo_http_env account_routes (account_path i ''/statement'') ''GET'' =
      Inr (''/api/v1/kova/accounts/{id}/statement'', AhStatement)"
    unfolding cut using assms r by (simp add: is_capture_def plain_segment_def)
qed

lemma account_dispatch:
  assumes "path_match_ok he" and "account_wire q = (m, path, body)" and "\<forall>i. wire_id q = Some i \<longrightarrow> plain_segment i"
  shows "\<exists>pat. dispatch he account_routes path m = Inr (pat, account_endpoint_of q) \<and>
    (wire_id q \<noteq> None \<longrightarrow> pat = id_pattern q)"
proof -
  have "m \<noteq> ''HEAD''" using assms(2) by (cases q) auto
  note here = dispatch_documented [OF assms(1) this]
  show ?thesis
    unfolding here using assms(2,3) by (cases q) (auto simp: account_dispatches account_id_dispatches)
qed

lemma account_param:
  assumes "path_match_ok he" and "account_wire q = (m, path, body)" and "wire_id q = Some i" and "plain_segment i"
  shows "he_path_param he (id_pattern q) path = Some i"
proof -
  have pats: "segments ''/api/v1/kova/accounts/{id}'' = ['''', ''api'', ''v1'', ''kova'', ''accounts'', ''{id}'']"
    "segments ''/api/v1/kova/accounts/{id}/balance'' = ['''', ''api'', ''v1'', ''kova'', ''accounts'', ''{id}'', ''balance'']"
    "segments ''/api/v1/kova/accounts/{id}/statement'' = ['''', ''api'', ''v1'', ''kova'', ''accounts'', ''{id}'', ''statement'']"
    by code_simp+
  have "seg_match (segments (id_pattern q)) (segments path)" "seg_param (segments (id_pattern q)) (segments path) = Some i"
    using assms(2-4) account_path_segments [OF assms(4)]
    by (cases q; auto simp: pats is_capture_def plain_segment_def)+
  with assms(4) show ?thesis by (intro path_match_okD(4) [OF assms(1)]) (simp_all add: plain_segment_def)
qed

text \<open>C26: Every handler of the account service is reached by its request: what a client writes down for a
  request (method, path with the id of the account, the query of a statement, the body of a creation)
  is routed and decoded to exactly that request, for each of the seven endpoints.\<close>

theorem account_http_reaches_every_handler:
  assumes "path_match_ok he" and "account_wire q = (hq_method req, hq_path req, body)"
    and "\<forall>j. body = Some j \<longrightarrow> sends_json he req j" and "\<forall>i. wire_id q = Some i \<longrightarrow> plain_segment i"
    and "\<forall>i sq. q = AqStatement i sq \<longrightarrow>
      he_parse_query he (br_query req) = query_pairs sq \<and> (\<forall>n. sy_limit sq = Some n \<longrightarrow> n < 2 ^ 32)"
  shows "account_http he env key cl io req w = account_call env key cl io (hq_headers req) q w"
proof -
  obtain pat where d: "dispatch he account_routes (hq_path req) (hq_method req) = Inr (pat, account_endpoint_of q)"
      "wire_id q \<noteq> None \<longrightarrow> pat = id_pattern q"
    using account_dispatch [OF assms(1,2,4)] by blast
  have param: "path_extract he pat (http_req.truncate req) = Inr i" if "wire_id q = Some i" for i
    using account_param [OF assms(1,2) that] assms(4) d(2) that by (simp add: path_extract_def http_req.truncate_def)
  have args: "account_arguments he pat (account_endpoint_of q) req = Inr q"
  proof (cases q)
    case (AqCreate c)
    with assms(2,3) show ?thesis
      by (auto simp: json_extract_sent create_account_body_def json_struct_fields text_field_def)
  next
    case (AqStatement i sq)
    with assms(5) query_roundtrip [of sq] param show ?thesis by (simp add: query_extract_def)
  qed (use param in simp_all)
  show ?thesis
  proof (cases "account_endpoint_of q \<noteq> AhHealth \<and> (\<exists>r. auth_user_extract env key (hq_headers req) = Inl r)")
    case True
    then obtain r where r: "auth_user_extract env key (hq_headers req) = Inl r" by blast
    with True have "account_call env key cl io (hq_headers req) q w = (r, w)"
      by (intro call_without_user) simp_all
    with d(1) True r show ?thesis by (simp add: account_http_def)
  next
    case False
    then have "account_endpoint_of q = AhHealth \<or> (\<exists>u. auth_user_extract env key (hq_headers req) = Inr u)"
      by (cases "auth_user_extract env key (hq_headers req)") auto
    with d(1) args show ?thesis by (auto simp: account_http_def)
  qed
qed

theorem account_http_reaches_every_handler_witness:
  "account_http demo_http_env demo_account_env ''k'' stub_clients demo_account_io
      \<lparr>hq_method = ''POST'', hq_path = ''/api/v1/kova/accounts'',
       hq_headers = [(''content-type'', ''application/json'')], hq_user = None, br_query = '''', br_body = ''currency''\<rparr>
      demo_active_world =
    account_call demo_account_env ''k'' stub_clients demo_account_io [(''content-type'', ''application/json'')]
      (AqCreate ''NGN'') demo_active_world"
proof -
  let ?req = "\<lparr>hq_method = ''POST'', hq_path = ''/api/v1/kova/accounts'',
       hq_headers = [(''content-type'', ''application/json'')], hq_user = None, br_query = '''', br_body = ''currency''\<rparr>"
  have "sends_json demo_http_env ?req (JObj [(''currency'', JStr ''NGN'')])"
    by (simp add: sends_json_def demo_http_env_def)
  then show ?thesis
    using account_http_reaches_every_handler [OF demo_http_ok(2), where q = "AqCreate ''NGN''" and req = ?req
        and body = "Some (JObj [(''currency'', JStr ''NGN'')])"] by simp
qed

end
