(* ===== verification/Services_Together.thy ===== *)
theory Services_Together
  imports Auth_Gateway Auth_Http Account_Http Ledger_Server
begin

text \<open>
  The written services beside each other: a token of the auth service at the door of each of them,
  and the routes the gateway knows of those the services have.
\<close>

section \<open>One token, four doors\<close>

text \<open>Each service decodes a token with \<open>jsonwebtoken\<close>, RS256, one public key and one list of issuers, into
  a struct of its own: the gateway and the auth service into the claims, the account service into
  two of their fields, the ledger into a JSON value.  What decodes into the claims decodes into
  each of the others.\<close>

definition shared_decoding ::
  "jwt_env \<Rightarrow> string \<Rightarrow> authn_env \<Rightarrow> string \<Rightarrow> account_env \<Rightarrow> string \<Rightarrow> jwt_decode \<Rightarrow> string \<Rightarrow> bool" where
  "shared_decoding je pub env kpub aenv akey jwt pem \<longleftrightarrow>
     (\<forall>issuers t c. je_decode je pub issuers t = Inr c \<longrightarrow>
        xv_jwt_decode env kpub issuers t = Some c \<and>
        ac_jwt aenv akey issuers t = Some (kc_sub c, kc_jti c) \<and>
        (\<exists>claims. jwt pem issuers t = Some claims))"

lemma signed_in:
  assumes "authn_call env key kpub io hs (XqOtpVerify phone code fp) w = (Some resp, w')" and "hs_status resp = 200"
  shows "\<exists>row u v pair. user_by_phone env phone (xw_db w) = Some row \<and>
    xv_uuid_parse env (xv_from_bin env (xu_id row)) = Some u \<and>
    issue_token_pair env key (zi_issue io) (KovaUserId u) fp v = (Inr pair, w') \<and> resp = pair_response pair"
proof -
  obtain r where r: "otp_verify env key (zi_user io) (zi_use io) (zi_issue io) phone code fp w = (r, w')"
      "resp = authn_answer r"
    using assms(1) by (auto simp: authn_call_def answered_def split: prod.splits)
  moreover have "hs_status (authn_error_response e) \<noteq> 200" for e
    using authn_error_status [of e] by simp
  ultimately have "r = Inr resp" using assms(2) by (auto simp: authn_answer_def split: sum.splits)
  with r(1) show ?thesis
    by (auto simp: otp_verify_def ebind_Inr find_user_Inr auth_fetch_Inr elift_def eret_def eguard_def Let_def
        split: if_splits)
qed

lemma pair_response_access: "pair_response p = pair_response q \<Longrightarrow> tp_access p = tp_access q"
  by (simp add: pair_response_def authn_ok_def envelope_def)

text \<open>C22: Signing in with a code opens every service: the access token in the answer is accepted by the
  gateway for its fifteen minutes, and by the auth service, the account service and the ledger's
  interceptor whenever the gateway accepts it, all of them taking the caller for the user whose
  phone number the code was sent to, under the same token id; so every request of the account
  service that carries it is handled for that user.\<close>

theorem sign_in_opens_every_service:
  assumes "authn_call env key kpub io hs (XqOtpVerify phone code fp) w = (Some (pair_response pair), w')"
    and "0 \<le> is_now (zi_issue io)" and "is_now (zi_issue io) + access_ttl_secs < 2 ^ 64"
    and "now < is_now (zi_issue io) + access_ttl_secs"
    and "token_codec env key je pub now" and "shared_decoding je pub env kpub aenv akey jwt pem"
    and "je_read_pem je gpem = Some pub" and "key_set_from_pem je gpem = Inr keys"
    and "\<forall>u. je_parse_uuid je (xv_uuid_show env u) = Some u"
    and "map_of (hq_headers req) ''authorization'' = Some (''Bearer '' @ tp_access pair)"
  shows "\<exists>row u. user_by_phone env phone (xw_db w) = Some row \<and>
    xv_uuid_parse env (xv_from_bin env (xu_id row)) = Some u \<and>
    (let jti = xv_uuid_show env (is_jti (zi_issue io)); user = \<lparr>us_sub = xv_uuid_show env u, us_jti = jti\<rparr>
     in authenticate je keys req = Inr \<lparr>au_user_id = u, au_jti = jti, au_device_id = Some fp\<rparr> \<and>
        auth_claims_extract env kpub (hq_headers req) =
          Inr (access_claims env (KovaUserId u) fp (is_now (zi_issue io)) jti) \<and>
        (\<exists>claims. auth_interceptor jwt pem (map_of (hq_headers req) ''authorization'') = Inr claims) \<and>
        (\<forall>yio q aw. account_call aenv akey cl yio (hq_headers req) q aw =
           (case account_handle aenv cl yio user q aw of (r, aw') \<Rightarrow> (answer r, aw'))))"
proof -
  let ?jti = "xv_uuid_show env (is_jti (zi_issue io))"
  obtain row u v pair' where row: "user_by_phone env phone (xw_db w) = Some row"
      "xv_uuid_parse env (xv_from_bin env (xu_id row)) = Some u"
    and issue: "issue_token_pair env key (zi_issue io) (KovaUserId u) fp v = (Inr pair', w')"
      "pair_response pair = pair_response pair'"
    using signed_in [OF assms(1)] by (auto simp: pair_response_def authn_ok_def)
  let ?c = "access_claims env (KovaUserId u) fp (is_now (zi_issue io)) ?jti"
  note token = issued_token_decodes [OF issue(1) assms(2-5), folded pair_response_access [OF issue(2)]]
  have codec: "xv_jwt_decode env kpub [''kova-auth''] (tp_access pair) = Some ?c"
      "ac_jwt aenv akey [''kova-auth''] (tp_access pair) = Some (kc_sub ?c, kc_jti ?c)"
      "\<exists>claims. jwt pem [''kova-auth''] (tp_access pair) = Some claims"
    using assms(6) token(3) unfolding shared_decoding_def by blast+
  have gateway: "authenticate je keys req = Inr \<lparr>au_user_id = u, au_jti = ?jti, au_device_id = Some fp\<rparr>"
    using issued_token_passes_gateway [OF issue(1) assms(2-5,7) spec [OF assms(9)] assms(8)] assms(10)
      pair_response_access [OF issue(2)] by simp
  have auth: "auth_claims_extract env kpub (hq_headers req) = Inr ?c"
    unfolding auth_claims_extract_def assms(10) ok_or.simps rbind.simps strip_prefix_append by (simp add: codec(1))
  have ledger: "\<exists>claims. auth_interceptor jwt pem (map_of (hq_headers req) ''authorization'') = Inr claims"
    unfolding auth_interceptor_def assms(10) bind.bind_lunit strip_prefix_append using codec(3) by auto
  have "auth_user_extract aenv akey (hq_headers req) = Inr \<lparr>us_sub = xv_uuid_show env u, us_jti = ?jti\<rparr>"
    using codec(2) by (simp add: auth_user_extract_Inr assms(10) access_claims_def)
  then have "account_call aenv akey cl yio (hq_headers req) q aw =
      (case account_handle aenv cl yio \<lparr>us_sub = xv_uuid_show env u, us_jti = ?jti\<rparr> q aw of
        (r, aw') \<Rightarrow> (answer r, aw'))" for yio q aw
    by (simp add: account_call_def eret_def answer_def)
  with row gateway auth ledger show ?thesis unfolding Let_def by blast
qed

definition demo_door_env :: authn_env where
  "demo_door_env = demo_signing_env\<lparr>xv_jwt_decode := (\<lambda>k iss t. Some demo_issued_claims)\<rparr>"

definition demo_door_accounts :: account_env where
  "demo_door_accounts = demo_account_env\<lparr>ac_jwt := (\<lambda>k iss t. Some (kc_sub demo_issued_claims, kc_jti demo_issued_claims))\<rparr>"

lemma demo_door_fields:
  "xv_to_bin demo_door_env = (\<lambda>s. Some (of_nat (read_nat s)))" "xv_from_bin demo_door_env = (\<lambda>i. show_nat (unat i))"
  "xv_coll demo_door_env = takeWhile (\<lambda>c. c \<noteq> CHR '' '')" "xv_varchar demo_door_env = (\<lambda>n s. length s \<le> n)"
  "xv_uuid_show demo_door_env = (\<lambda>u. show_nat (unat u))" "xv_uuid_parse demo_door_env = (\<lambda>s. Some (of_nat (read_nat s)))"
  "xv_sha256 demo_door_env = id" "xv_hex demo_door_env = (\<lambda>bs. show_nat (length bs))"
  "xv_bcrypt_hash demo_door_env = (\<lambda>salt s cost. Inr s)" "xv_bcrypt_verify demo_door_env = (\<lambda>s h. Inr (s = h))"
  "xv_jwt_encode demo_door_env = (\<lambda>k c. if c = demo_issued_claims then Inr ''abc'' else Inl ''unused'')"
  "xv_jwt_decode demo_door_env = (\<lambda>k iss t. Some demo_issued_claims)"
  "xv_to_column demo_door_env = (\<lambda>t. t div 10 ^ 9)"
  by (simp_all add: demo_door_env_def demo_signing_env_def demo_authn_env_def)

lemma demo_door_claims: "access_claims demo_door_env (KovaUserId 7) ''d'' 5 (show_nat 9) = demo_issued_claims"
  by (simp add: demo_issued_claims_def access_claims_def demo_door_env_def demo_signing_env_def)

lemma demo_sign_in:
  "\<exists>pair w'. authn_call demo_door_env ''pem'' ''pub'' demo_authn_io [] (XqOtpVerify ''+44'' ''123456'' ''d'')
     demo_authn_world = (Some (pair_response pair), w') \<and> tp_access pair = ''abc''"
  using demo_door_claims
  by (simp add: authn_call_def answered_def otp_verify_def find_user_def newest_otp_def verify_otp_def use_otp_def
      newest_def live_otps_def limit1_def
      issue_token_pair_def sign_access_token_def eff_defs on_auth_db_def sha256_hex_def user_by_phone_def
      random_hex_token_def insert_session_stmt_def insert_session_def fits_null_def user_exists_def
      auth_bin_def demo_authn_world_def demo_session_def demo_door_fields
      demo_user_row_def demo_otp_def demo_authn_io_def demo_use_io_def demo_issue_io_def refresh_ttl_secs_def
      show_nat_demo read_nat_demo authn_answer_def Let_def) (metis token_pair.select_convs(1))

theorem sign_in_opens_every_service_witness:
  "\<exists>pair w'. authn_call demo_door_env ''pem'' ''pub'' demo_authn_io [] (XqOtpVerify ''+44'' ''123456'' ''d'')
      demo_authn_world = (Some (pair_response pair), w') \<and>
    (let req = demo_req ''GET'' ''/api/v1/kova/accounts'' [(''authorization'', ''Bearer '' @ tp_access pair)]
     in authenticate demo_jwt_env [''default'' \<mapsto> ''k''] req =
          Inr \<lparr>au_user_id = 7, au_jti = show_nat 9, au_device_id = Some ''d''\<rparr> \<and>
        account_call demo_door_accounts ''k'' stub_clients demo_account_io (hq_headers req) AqList demo_active_world =
          (case account_handle demo_door_accounts stub_clients demo_account_io
              \<lparr>us_sub = show_nat 7, us_jti = show_nat 9\<rparr> AqList demo_active_world of (r, aw) \<Rightarrow> (answer r, aw)))"
proof -
  obtain pair w' where run: "authn_call demo_door_env ''pem'' ''pub'' demo_authn_io [] (XqOtpVerify ''+44'' ''123456'' ''d'')
      demo_authn_world = (Some (pair_response pair), w')" and t: "tp_access pair = ''abc''"
    using demo_sign_in by blast
  define req where "req = demo_req ''GET'' ''/api/v1/kova/accounts'' [(''authorization'', ''Bearer '' @ tp_access pair)]"
  have codec: "token_codec demo_door_env ''pem'' demo_jwt_env ''k'' 10"
    by (simp add: token_codec_def demo_door_fields demo_jwt_env_def demo_gateway_env_def trim_def is_blank_def)
  have share: "shared_decoding demo_jwt_env ''k'' demo_door_env ''pub'' demo_door_accounts ''k'' (\<lambda>k iss t. Some JNull) ''pem''"
    by (simp add: shared_decoding_def demo_door_fields demo_jwt_env_def demo_door_accounts_def)
  have times: "is_now (zi_issue demo_authn_io) = 5" "is_jti (zi_issue demo_authn_io) = 9"
    by (simp_all add: demo_authn_io_def demo_issue_io_def)
  have keys: "je_read_pem demo_jwt_env ''k'' = Some ''k''" "key_set_from_pem demo_jwt_env ''k'' = Inr [''default'' \<mapsto> ''k'']"
    by (simp_all add: demo_jwt_env_def demo_gateway_env_def key_set_from_pem_def)
  have parse: "\<forall>u. je_parse_uuid demo_jwt_env (xv_uuid_show demo_door_env u) = Some u"
    by (simp add: demo_jwt_env_def demo_gateway_env_def demo_door_fields)
  have header: "map_of (hq_headers req) ''authorization'' = Some (''Bearer '' @ tp_access pair)"
    by (simp add: req_def demo_req_def)
  have soon: "0 \<le> is_now (zi_issue demo_authn_io)" "is_now (zi_issue demo_authn_io) + access_ttl_secs < 2 ^ 64"
      "10 < is_now (zi_issue demo_authn_io) + access_ttl_secs"
    by (simp_all add: times access_ttl_secs_def)
  obtain row u where row: "user_by_phone demo_door_env ''+44'' (xw_db demo_authn_world) = Some row"
      "xv_uuid_parse demo_door_env (xv_from_bin demo_door_env (xu_id row)) = Some u"
    and doors: "authenticate demo_jwt_env [''default'' \<mapsto> ''k''] req =
        Inr \<lparr>au_user_id = u, au_jti = xv_uuid_show demo_door_env 9, au_device_id = Some ''d''\<rparr>"
      "account_call demo_door_accounts ''k'' stub_clients demo_account_io (hq_headers req) AqList demo_active_world =
         (case account_handle demo_door_accounts stub_clients demo_account_io
             \<lparr>us_sub = xv_uuid_show demo_door_env u, us_jti = xv_uuid_show demo_door_env 9\<rparr> AqList demo_active_world of
           (r, aw) \<Rightarrow> (answer r, aw))"
    using sign_in_opens_every_service [OF run soon codec share keys parse header, where cl = stub_clients]
    unfolding times Let_def by blast
  have "u = 7"
    using row by (auto simp: user_by_phone_def demo_authn_world_def demo_user_row_def demo_door_fields read_nat_demo show_nat_demo
        split: if_splits)
  moreover have "xv_uuid_show demo_door_env 7 = show_nat 7" "xv_uuid_show demo_door_env 9 = show_nat 9"
    by (simp_all add: demo_door_fields)
  ultimately show ?thesis
    using doors run unfolding Let_def req_def by (intro exI [of _ pair] exI [of _ w'] conjI) (simp_all only:)
qed

text \<open>A second blank before the token: the gateway trims it, the others hand it to the decoder, which takes
  no token that starts with one.\<close>

theorem only_gateway_trims:
  assumes "map_of (hq_headers req) ''authorization'' = Some (''Bearer '' @ CHR '' '' # t)"
    and "xv_jwt_decode env kpub [''kova-auth''] (CHR '' '' # t) = None"
    and "ac_jwt aenv akey [''kova-auth''] (CHR '' '' # t) = None" and "jwt pem [''kova-auth''] (CHR '' '' # t) = None"
  shows "bearer_token req = Inr (trim t) \<and>
    (\<exists>r. auth_claims_extract env kpub (hq_headers req) = Inl r \<and> hs_status r = 401) \<and>
    (\<exists>r. auth_user_extract aenv akey (hq_headers req) = Inl r \<and> hs_status r = 401) \<and>
    (\<exists>s. auth_interceptor jwt pem (map_of (hq_headers req) ''authorization'') = Inl s)"
proof (intro conjI)
  have "trim (CHR '' '' # t) = trim t" by (simp add: trim_def is_blank_def)
  with assms(1) show "bearer_token req = Inr (trim t)" by (auto simp: bearer_token_Inr)
  show "\<exists>r. auth_claims_extract env kpub (hq_headers req) = Inl r \<and> hs_status r = 401"
    unfolding auth_claims_extract_def assms(1) ok_or.simps rbind.simps strip_prefix_append
    by (simp add: assms(2) authn_unauthorized_def)
  show "\<exists>r. auth_user_extract aenv akey (hq_headers req) = Inl r \<and> hs_status r = 401"
    unfolding auth_user_extract_def assms(1) ok_or.simps rbind.simps strip_prefix_append
    by (simp add: assms(3) unauthorized_response_def)
  show "\<exists>s. auth_interceptor jwt pem (map_of (hq_headers req) ''authorization'') = Inl s"
    unfolding auth_interceptor_def assms(1) bind.bind_lunit strip_prefix_append by (simp add: assms(4))
qed

section \<open>Routes\<close>

definition gateway_routes :: "(string \<times> string) list" where
  "gateway_routes = map (\<lambda>(path, meth, h). (''/api/v1/kova'' @ path, meth)) route_table"

definition service_routes :: "(string \<times> string) list" where
  "service_routes = map (\<lambda>(path, meth, h). (path, meth)) authn_routes @ map (\<lambda>(path, meth, h). (path, meth)) account_routes"

text \<open>The gateway has no route for eight of the nineteen routes of the two services; it has none of its own
  for them that they do not have.\<close>

theorem gateway_misses_routes:
  "filter (\<lambda>r. r \<notin> set gateway_routes) service_routes =
     [(''/api/v1/kova/auth/health'', ''GET''), (''/api/v1/kova/auth/sessions'', ''DELETE''),
      (''/api/v1/kova/auth/logout'', ''POST''), (''/api/v1/kova/auth/pin'', ''POST''), (''/api/v1/kova/auth/pin'', ''PUT''),
      (''/api/v1/kova/account/health'', ''GET''), (''/api/v1/kova/accounts'', ''GET''),
      (''/api/v1/kova/accounts/{id}'', ''DELETE'')]"
  and "list_all (\<lambda>r. segments (fst r) ! 4 \<in> {''auth'', ''accounts''} \<longrightarrow> r \<in> set service_routes) gateway_routes"
  by code_simp+

end
