(* ===== verification/Spec2Isabelle.thy ===== *)
theory Spec2Isabelle
  imports Payment_Status Account_Status Money Identifiers Ledger_Pipeline Ledger_Reconciliation Ledger_Server
  Auth_Gateway Account_Service Auth_Concurrent Account_Concurrent Ledger_Concurrent Ledger_Replicas Startup
  Gateway_Concurrent Auth_Http Account_Http Services_Together
begin

text \<open>
  A verification development of KOVA, a banking backend in Rust.

  \<^bold>\<open>The program.\<close>  \<open>crates/kova-types\<close> holds the shared vocabulary (identifiers, enums, money, the
  payment and KYC state machines, the event structs), \<open>crates/kova-kafka\<close> a producer with retries
  and a consumer.  Four services are written: \<open>services/kova-ledger\<close>, a gRPC server over a
  double-entry ledger in MySQL with an outbox worker and a nightly reconciliation;
  \<open>services/kova-account\<close> and \<open>services/kova-auth\<close>, HTTP services over MySQL and Redis; and
  \<open>services/kova-gateway\<close>, which stands before them with a circuit breaker, token validation, a
  rate limiter and request ids.  The auth service signs the tokens the others validate, the
  account service calls the ledger and the payments service through traits, and the ledger's
  outbox and the account service publish the events.

  \<^bold>\<open>Foundations.\<close>
  \<^item> \<open>Prelude\<close>: results as sums (\<open>rbind\<close>, \<open>ok_or\<close>, \<open>map_err\<close>), bytes, decimal printing, JSON, decimals,
    keyset pages, tables as lists of rows; \<open>Machines\<close>: the contract of a status machine.
  \<^item> \<open>Effects\<close>: an \<open>async fn\<close> that returns \<open>Result\<close> is a function from the world to a result and a
    world; \<open>ebind\<close> is the operator \<open>?\<close>, an early return leaves the world as it is then.  \<open>einv\<close>
    says that a program keeps an invariant whatever its outcome, with one rule per combinator;
    the locale \<open>evolving_service\<close> lifts it to sequences of requests.
  \<^item> \<open>Interleave\<close>: an \<open>async fn\<close> as a program (\<open>prog\<close>) that gives up the processor between its
    statements; \<open>solo\<close> runs one alone, \<open>schedule\<close> runs a pool of them in any order, each as far as the
    order lets it.  \<open>implements\<close> says that a program alone is its handler.  The locale
    \<open>rely_guarantee\<close> verifies one program against what the others may do, \<open>owned_world\<close> gives each
    program of a pool a part of the world of its own (a connection), and \<open>evolving_world\<close> is the case
    where every action keeps one invariant and one relation.
  \<^item> \<open>Redis\<close>: the commands the services send, with the contract \<open>expiring_store\<close>.

  \<^bold>\<open>crates/kova-types\<close>: \<open>String_Enum\<close> (\<open>macros.rs\<close>), \<open>Types_Errors\<close> (\<open>errors.rs\<close>), \<open>Payment_Status\<close>
  (\<open>payment.rs\<close>), \<open>Kyc_Status\<close> (\<open>kyc.rs\<close>), \<open>Entities\<close> (\<open>entities.rs\<close> and the types of \<open>ids.rs\<close>),
  \<open>Identifiers\<close> (what the macro of \<open>ids.rs\<close> generates for each type), \<open>Money\<close> (\<open>money.rs\<close>), \<open>Events\<close> (\<open>events/*.rs\<close>: one schema for each struct, encoding and decoding by
  schema).  Lemmas: which statuses can follow which, arithmetic exact to four decimals, round
  trips of enums and events.

  \<^bold>\<open>crates/kova-kafka\<close>: \<open>Kafka\<close>; a publish makes at most three sends and succeeds exactly if one
  is acknowledged.

  \<^bold>\<open>services/kova-ledger\<close>.
  \<^item> \<open>Ledger_Db\<close>, \<open>Ledger_Posting\<close> (\<open>posting.rs\<close>, \<open>idempotency.rs\<close>): the tables and \<open>post_entry\<close>;
    postings keep the tables well formed, are atomic, idempotent and exactly-once for a caller that
    repeats a request until it is answered.
  \<^item> \<open>Ledger_Balance\<close> (\<open>balance.rs\<close>): balances refine an abstract ledger (locale \<open>double_entry\<close>) and
    sum to zero; \<open>Ledger_Statement\<close> (\<open>statement.rs\<close>): following the cursors reads each entry once.
  \<^item> \<open>Ledger_Outbox\<close> (\<open>outbox.rs\<close>): rounds of the worker over any publisher that meets
    \<open>outbox_publisher\<close>, which the Kafka publisher does; \<open>Ledger_Pipeline\<close>: postings and rounds
    interleaved as a step relation, with the guarantee of the transactional outbox.
  \<^item> \<open>Ledger_Programs\<close>: \<open>post_entry\<close> and the rounds of the worker cut at their statements, over
    transactions on connections of their own (what a connection has written or locked is seen by the
    others only as a lock until it commits); \<open>Ledger_Concurrent\<close>: any postings and workers under any
    schedule share one entry for one key and keep the guarantee of the outbox; \<open>Ledger_Replicas\<close>:
    workers of several replicas send no message twice.
  \<^item> \<open>Ledger_Reconciliation\<close> (\<open>reconciliation.rs\<close>): the hourly ticks and the comparison of balances;
    \<open>Ledger_Server\<close> (\<open>server.rs\<close>): the gRPC handlers behind the token interceptor.

  \<^bold>\<open>services/kova-gateway\<close>: \<open>Gateway_Http\<close> (requests, \<open>error.rs\<close>, the contract \<open>middleware_layer\<close>),
  \<open>Gateway_Breaker\<close>, \<open>Gateway_Rate\<close>, \<open>Gateway_Auth\<close> (\<open>middleware/*.rs\<close>) and \<open>Gateway_Router\<close>
  (\<open>router.rs\<close>, \<open>middleware/tracing.rs\<close>), where the layers are stacked as \<open>build\<close> stacks them.  The
  breaker is also a step relation, since requests in flight report in any order.  \<open>Gateway_Concurrent\<close>
  cuts the layers at their awaits and runs any requests at any replicas under any schedule: the rate
  limit holds for the fleet (requests whose own call of Redis fails come on top), and each replica's breaker goes through a run of the step relation.

  \<^bold>\<open>services/kova-account\<close>: \<open>Account_Status\<close> (\<open>state_machine.rs\<close>), \<open>Account_Db\<close> (errors, table, clients,
  caller), \<open>Account_Create\<close>, \<open>Account_Close\<close>, \<open>Account_Read\<close> (one theory per group of handlers),
  \<open>Account_Service\<close> (routes; the life of the table over any requests), \<open>Account_Programs\<close> (the handlers
  cut at their statements and calls) and \<open>Account_Concurrent\<close> (the life of the table when they
  interleave; closing twice).  \<open>Account_Http\<close> (\<open>router.rs\<close>, the body of a creation, the query of a
  statement) leads from a request of HTTP to \<open>Account_Service\<close>: what is refused before a handler runs,
  and that every handler is reached.

  \<^bold>\<open>services/kova-auth\<close>.
  \<^item> \<open>Auth_Db\<close> (\<open>error.rs\<close>, \<open>handlers/mod.rs\<close>, \<open>sms.rs\<close>, the migrations): errors, tables, and the
    relation \<open>authn_evolved\<close> that every statement of the service keeps: tables stay well formed
    (keys, the check of the codes, foreign keys) and rows change only in the allowed ways.
  \<^item> \<open>Auth_Crypto\<close> (\<open>crypto.rs\<close>): when generating a code returns, and that codes are uniform;
    \<open>Auth_Tokens\<close> (\<open>tokens.rs\<close>, \<open>handlers/token.rs\<close>): a pair is issued with one new session, a token
    rotates once, and its reuse is refused and revokes the family while its session has not expired.
  \<^item> \<open>Auth_Otp\<close> (\<open>handlers/otp.rs\<close>): the limit on requests that do not overlap and how it fails, guesses; \<open>Auth_Pin\<close>
    (\<open>handlers/pin.rs\<close>): what a change of PIN takes, and the two copies of the check of a code;
    \<open>Auth_Session\<close> (\<open>handlers/device.rs\<close>, \<open>biometric.rs\<close>, \<open>register.rs\<close>).
  \<^item> \<open>Auth_Service\<close> (\<open>router.rs\<close>, \<open>handlers/health.rs\<close>): the life of the tables over any requests;
    \<open>Auth_Gateway\<close>: tokens issued here pass the gateway, and revocations there have no effect.
  \<^item> \<open>Auth_Programs\<close> (every handler cut at its statements and commands) and \<open>Auth_Concurrent\<close>: the life
    of the tables when requests interleave, what the unique index and \<open>GETDEL\<close> decide between
    requests that race, the rotation and the login that both sides win, and the requests for a code that
    overlap and are all served.
  \<^item> \<open>Auth_Http\<close> (\<open>router.rs\<close>, the seven request bodies), as \<open>Account_Http\<close>.  Both rest on
    \<open>Http_Surface\<close>: the dispatch of a list of routes, the extractors, and the code \<open>serde\<close> derives for
    a struct of strings.

  \<^bold>\<open>The services together.\<close>  \<open>Services_Together\<close>: the token of a sign-in is taken for the same user by
  all four services, and which routes of the services the gateway lacks.

  \<^bold>\<open>Starting.\<close>  \<open>Startup\<close> (\<open>main.rs\<close> and \<open>state.rs\<close> of the four services, \<open>MockSmsProvider\<close>): a start is a
  program over the list of what it has connected, spawned, bound and served.  The HTTP services serve
  only when they are ready; the ledger spawns its worker before it has checked its key and address;
  the account service is wired to stubs.

  \<^bold>\<open>What is a parameter.\<close>  Code outside the repository is a field of an environment record
  (\<open>ledger_env\<close>, \<open>account_env\<close>, \<open>authn_env\<close>, \<open>gateway_env\<close>, \<open>event_env\<close>): collations, column
  conversions and UUID functions of MySQL, \<open>uuid\<close>, \<open>chrono\<close>, \<open>rust_decimal\<close>, \<open>serde_json\<close>,
  \<open>jsonwebtoken\<close>, \<open>bcrypt\<close>, \<open>argon2\<close>, SHA-256, the phone number library, and of
  \<open>axum\<close> the matching of paths and methods, reading a body and parsing it (\<open>http_env\<close>).  What is
  relied on is a hypothesis (\<open>uuid_text_ok\<close>, \<open>token_codec\<close>, \<open>shared_decoding\<close>, \<open>event_env_ok\<close>, \<open>pick_ok\<close>,
  \<open>order_ok\<close>, \<open>http_env_ok\<close>, \<open>path_match_ok\<close>), and each is met by a concrete instance in a witness.

  \<^bold>\<open>Faults, clocks and order.\<close>  The outcome of every call to MySQL, Redis, Kafka or the SMS provider
  is an argument (fine, not run, or run with its answer lost), as are clock readings, fresh
  identifiers, random bytes and the order of rows a query leaves open; so the theorems hold for
  every pattern of faults.  The theories of the handlers take each as one function from the world to
  a result and a world.  The theories \<open>*_Programs\<close> cut the same handlers at their awaits and prove that
  alone they are those functions; the theories \<open>*_Concurrent\<close> and \<open>Ledger_Replicas\<close> run any number of
  them under any schedule, each possibly dropped half-way, so what several replicas do at once is
  covered.  A single statement is atomic.  In the ledger statements belong to transactions: a unique
  index is checked against the rows of other open transactions by waiting for them, up to a number of
  turns (\<open>patience\<close>) after which the engine times out, and a read outside a transaction sees what is
  committed; the worker's \<open>UPDATE\<close> touches only rows it has locked.

  \<^bold>\<open>Bounds.\<close>  Programs are finite trees of actions, so running one alone needs no fuel, and a schedule is
  a list of turns.  Loops that run for ever (the outbox worker, the reconciliation) are
  functions of the list of their rounds; the one loop without a bound inside a request, the
  generation of a code, is a \<open>partial_function\<close> whose value \<open>None\<close> is not returning, and the
  theorem on it says exactly when that is.  Widths are kept where the code has them: 128-bit ids,
  the 64-bit cursor, 32-bit draws, \<open>as u64\<close>.

  \<^bold>\<open>Not modelled.\<close>  Log lines and the set-up of the subscriber, the generated gRPC code,
  the derived serde and \<open>sqlx\<close> code of the entity structs, the texts of \<open>axum\<close>'s own refusals (their
  statuses are), and the boxing of \<open>tower\<close> layers.  The services audit, cards,
  fraud, fx, kyc, notifications, payments and reconciliation are one-line placeholders, so of
  them only the shared types and events exist.
\<close>

end
